(* ===== verification/Prelude.thy ===== *)
theory Prelude
  imports Main "HOL-Library.Char_ord" "HOL-Library.List_Lexorder" "HOL-Library.Product_Lexorder"
begin

text \<open>
  Shared vocabulary of the development: errors, the action type that threads a world and may
  raise, its combinators, relational triples over actions, and tables as lists of rows.

  A Python operation that reads and writes the database and may raise is an
  \<open>('w, 'a) act\<close>: it maps a world to a result (\<open>Inl\<close> the exception, \<open>Inr\<close> the value returned)
  and the world afterwards. The world is returned also when the operation raises, because a
  raise outside a transaction keeps what was written before it.
\<close>

section \<open>Errors and actions\<close>

text \<open>
  \<open>HErr code status\<close> is the program's own exception class with its machine readable code and its
  HTTP status (display texts are left out). \<open>GwErr code retryable\<close> is the model gateway's exception,
  which no handler of the program's own exceptions catches, and \<open>ProviderErr status connection\<close> an
  exception of a model provider's client with its \<^verbatim>\<open>status_code\<close>, if it has one, and whether it is a
  connection or time-out error. The other constructors are the exceptions of the
  language and of the database driver that the code can meet; \<open>Diverges\<close> is no exception, it
  stands for a loop that was not given enough fuel.
\<close>

datatype err =
    HErr string nat
  | GwErr string bool
  | ProviderErr "int option" bool
  | PyValueError
  | PyTypeError
  | PyKeyError
  | PyIndexError
  | PyAttributeError
  | PyPermissionError
  | PyRuntimeError
  | PyOSError
  | SqlIntegrityError
  | Diverges

type_synonym ('w, 'a) act = "'w \<Rightarrow> (err + 'a) \<times> 'w"

named_theorems act_simps "evaluation of the action combinators on a world"
named_theorems core_keeps "operations that leave runs, branches and events alone"
named_theorems path_keeps "operations that keep to the specification of runs"

definition ret :: "'a \<Rightarrow> ('w, 'a) act" where
  "ret x w = (Inr x, w)"

definition raise :: "err \<Rightarrow> ('w, 'a) act" where
  "raise e w = (Inl e, w)"

definition bnd :: "('w, 'a) act \<Rightarrow> ('a \<Rightarrow> ('w, 'b) act) \<Rightarrow> ('w, 'b) act" where
  "bnd m f w = (case m w of (Inl e, v) \<Rightarrow> (Inl e, v) | (Inr x, v) \<Rightarrow> f x v)"

definition andthen :: "('w, 'a) act \<Rightarrow> ('w, 'b) act \<Rightarrow> ('w, 'b) act" where
  "andthen m k = bnd m (\<lambda>_. k)"

definition gets :: "('w \<Rightarrow> 'a) \<Rightarrow> ('w, 'a) act" where
  "gets f w = (Inr (f w), w)"

definition modify :: "('w \<Rightarrow> 'w) \<Rightarrow> ('w, unit) act" where
  "modify f w = (Inr (), f w)"

text \<open>\<open>raise_if b e\<close> is the statement \<^verbatim>\<open>if b: raise e\<close>.\<close>

definition raise_if :: "bool \<Rightarrow> err \<Rightarrow> ('w, unit) act" where
  "raise_if b e = (if b then raise e else ret ())"

definition whenever :: "bool \<Rightarrow> ('w, unit) act \<Rightarrow> ('w, unit) act" where
  "whenever b m = (if b then m else ret ())"

definition lift :: "err + 'a \<Rightarrow> ('w, 'a) act" where
  "lift r = (case r of Inl e \<Rightarrow> raise e | Inr x \<Rightarrow> ret x)"

text \<open>A row that must exist: the missing row raises.\<close>

definition need :: "err \<Rightarrow> 'a option \<Rightarrow> ('w, 'a) act" where
  "need e x = (case x of None \<Rightarrow> raise e | Some y \<Rightarrow> ret y)"

fun foreach :: "'a list \<Rightarrow> ('a \<Rightarrow> ('w, unit) act) \<Rightarrow> ('w, unit) act" where
  "foreach [] f = ret ()"
| "foreach (x # xs) f = andthen (f x) (foreach xs f)"

fun collect :: "'a list \<Rightarrow> ('a \<Rightarrow> ('w, 'b) act) \<Rightarrow> ('w, 'b list) act" where
  "collect [] f = ret []"
| "collect (x # xs) f = bnd (f x) (\<lambda>y. bnd (collect xs f) (\<lambda>ys. ret (y # ys)))"

text \<open>\<^verbatim>\<open>try: m except HarnessError: h\<close>: only the program's own exceptions are caught.\<close>

definition catch_harness :: "('w, 'a) act \<Rightarrow> ('w, 'a) act \<Rightarrow> ('w, 'a) act" where
  "catch_harness m h w = (case m w of (Inl (HErr c s), v) \<Rightarrow> h v | r \<Rightarrow> r)"

text \<open>\<^verbatim>\<open>try: m except Exception as e: h e\<close>: every exception is caught.\<close>

definition catch_all :: "('w, 'a) act \<Rightarrow> (err \<Rightarrow> ('w, 'a) act) \<Rightarrow> ('w, 'a) act" where
  "catch_all m h w = (case m w of (Inl e, v) \<Rightarrow> h e v | r \<Rightarrow> r)"

text \<open>\<^verbatim>\<open>try: m finally: f\<close>: an exception of \<open>f\<close> replaces what \<open>m\<close> did.\<close>

definition finally_act :: "('w, 'a) act \<Rightarrow> ('w, unit) act \<Rightarrow> ('w, 'a) act" where
  "finally_act m f w =
     (case m w of (r, v) \<Rightarrow> (case f v of (Inl e, u) \<Rightarrow> (Inl e, u) | (Inr _, u) \<Rightarrow> (r, u)))"

lemma ret_apply [simp, act_simps]: "ret x w = (Inr x, w)"
  by (simp add: ret_def)

lemma raise_apply [simp, act_simps]: "raise e w = (Inl e, w)"
  by (simp add: raise_def)

lemma gets_apply [simp, act_simps]: "gets f w = (Inr (f w), w)"
  by (simp add: gets_def)

lemma modify_apply [simp, act_simps]: "modify f w = (Inr (), f w)"
  by (simp add: modify_def)

lemma bnd_apply [simp, act_simps]:
  "m w = (Inl e, v) \<Longrightarrow> bnd m f w = (Inl e, v)"
  "m w = (Inr x, v) \<Longrightarrow> bnd m f w = f x v"
  by (simp_all add: bnd_def)

lemma bnd_Inr_iff:
  "bnd m f w = (Inr y, v) \<longleftrightarrow> (\<exists>x u. m w = (Inr x, u) \<and> f x u = (Inr y, v))"
  by (auto simp: bnd_def split: prod.splits sum.splits)

lemma bnd_Inl_iff:
  "bnd m f w = (Inl e, v) \<longleftrightarrow>
     m w = (Inl e, v) \<or> (\<exists>x u. m w = (Inr x, u) \<and> f x u = (Inl e, v))"
  by (auto simp: bnd_def split: prod.splits sum.splits)

lemma andthen_Inr_iff:
  "andthen m k w = (Inr y, v) \<longleftrightarrow> (\<exists>x u. m w = (Inr x, u) \<and> k u = (Inr y, v))"
  by (simp add: andthen_def bnd_Inr_iff)

lemma andthen_Inl_iff:
  "andthen m k w = (Inl e, v) \<longleftrightarrow>
     m w = (Inl e, v) \<or> (\<exists>x u. m w = (Inr x, u) \<and> k u = (Inl e, v))"
  by (simp add: andthen_def bnd_Inl_iff)

lemma andthen_apply [simp, act_simps]:
  "m w = (Inl e, v) \<Longrightarrow> andthen m k w = (Inl e, v)"
  "m w = (Inr x, v) \<Longrightarrow> andthen m k w = k v"
  by (simp_all add: andthen_def)

lemma raise_if_simps [simp, act_simps]:
  "raise_if True e = raise e" "raise_if False e = ret ()"
  by (simp_all add: raise_if_def)

lemma raise_if_Inr_iff: "raise_if b e w = (Inr y, v) \<longleftrightarrow> \<not> b \<and> v = w"
  by (auto simp: raise_if_def)

lemma raise_if_Inl_iff: "raise_if b e w = (Inl e', v) \<longleftrightarrow> b \<and> e' = e \<and> v = w"
  by (auto simp: raise_if_def)

lemma whenever_simps [simp, act_simps]:
  "whenever True m = m" "whenever False m = ret ()"
  by (simp_all add: whenever_def)

lemma lift_simps [simp, act_simps]:
  "lift (Inl e) = raise e" "lift (Inr x) = ret x"
  by (simp_all add: lift_def)

lemma need_simps [simp, act_simps]:
  "need e None = raise e" "need e (Some x) = ret x"
  by (simp_all add: need_def)

lemma need_Inr_iff: "need e x w = (Inr y, v) \<longleftrightarrow> x = Some y \<and> v = w"
  by (cases x) auto

lemma need_Inl_iff: "need e x w = (Inl e', v) \<longleftrightarrow> x = None \<and> e' = e \<and> v = w"
  by (cases x) auto

text \<open>A row that must exist and pass a test, with one exception for both.\<close>

lemma checked_Inr_iff:
  "(case x of None \<Rightarrow> raise e | Some g \<Rightarrow> (if c g then raise e' else ret g)) w = (Inr y, v) \<longleftrightarrow>
     x = Some y \<and> \<not> c y \<and> v = w"
  by (cases x) auto

lemmas act_iffs = checked_Inr_iff
  bnd_Inr_iff bnd_Inl_iff andthen_Inr_iff andthen_Inl_iff
  raise_if_Inr_iff raise_if_Inl_iff need_Inr_iff need_Inl_iff

section \<open>Relational triples\<close>

text \<open>
  \<open>tri R P m Q\<close>: started in a world satisfying \<open>P\<close>, the action \<open>m\<close> relates its first world to its
  last one by \<open>R\<close>, whether it returns or raises, and a value it returns satisfies \<open>Q\<close>. With
  \<open>R\<close> the preservation of an invariant this is a Hoare triple for the invariant; with \<open>R\<close> an
  order on worlds it is a statement about histories.
\<close>

definition tri ::
  "('w \<Rightarrow> 'w \<Rightarrow> bool) \<Rightarrow> ('w \<Rightarrow> bool) \<Rightarrow> ('w, 'a) act \<Rightarrow> ('a \<Rightarrow> 'w \<Rightarrow> bool) \<Rightarrow> bool" where
  "tri R P m Q \<longleftrightarrow>
     (\<forall>w. P w \<longrightarrow> R w (snd (m w)) \<and> (\<forall>x. fst (m w) = Inr x \<longrightarrow> Q x (snd (m w))))"

text \<open>An action that keeps \<open>R\<close> from every world.\<close>

abbreviation keeps :: "('w \<Rightarrow> 'w \<Rightarrow> bool) \<Rightarrow> ('w, 'a) act \<Rightarrow> bool" where
  "keeps R m \<equiv> tri R (\<lambda>_. True) m (\<lambda>_ _. True)"

lemma triI:
  "(\<And>w r v. P w \<Longrightarrow> m w = (r, v) \<Longrightarrow> R w v \<and> (\<forall>x. r = Inr x \<longrightarrow> Q x v)) \<Longrightarrow> tri R P m Q"
  by (auto simp: tri_def) (metis prod.collapse)+

lemma triD:
  "tri R P m Q \<Longrightarrow> P w \<Longrightarrow> m w = (r, v) \<Longrightarrow> R w v"
  "tri R P m Q \<Longrightarrow> P w \<Longrightarrow> m w = (Inr x, v) \<Longrightarrow> Q x v"
  unfolding tri_def by (metis snd_conv, metis fst_conv snd_conv)

lemma tri_conseq:
  "tri R P m Q \<Longrightarrow> (\<And>w. P' w \<Longrightarrow> P w) \<Longrightarrow> (\<And>x w. Q x w \<Longrightarrow> Q' x w) \<Longrightarrow> tri R P' m Q'"
  by (auto simp: tri_def)

lemma tri_pre: "tri R P m Q \<Longrightarrow> (\<And>w. P' w \<Longrightarrow> P w) \<Longrightarrow> tri R P' m Q"
  by (rule tri_conseq)

lemma tri_post: "tri R P m Q \<Longrightarrow> (\<And>x w. Q x w \<Longrightarrow> Q' x w) \<Longrightarrow> tri R P m Q'"
  by (rule tri_conseq)

lemma tri_mono: "tri R P m Q \<Longrightarrow> (\<And>w v. R w v \<Longrightarrow> S w v) \<Longrightarrow> tri S P m Q"
  by (auto simp: tri_def)

lemma tri_conj:
  "tri R P m Q \<Longrightarrow> tri S P' m Q' \<Longrightarrow>
     tri (\<lambda>w v. R w v \<and> S w v) (\<lambda>w. P w \<and> P' w) m (\<lambda>x w. Q x w \<and> Q' x w)"
  by (auto simp: tri_def)

text \<open>A fact the relation carries along survives any action.\<close>

lemma tri_frame:
  assumes "tri R P m Q" and "\<And>w v. R w v \<Longrightarrow> K w \<Longrightarrow> K v"
  shows "tri R (\<lambda>w. P w \<and> K w) m (\<lambda>x w. Q x w \<and> K w)"
  using assms by (auto simp: tri_def)

locale history =
  fixes R :: "'w \<Rightarrow> 'w \<Rightarrow> bool"
  assumes refl_history: "R w w"
    and trans_history: "R u v \<Longrightarrow> R v w \<Longrightarrow> R u w"
begin

lemma tri_ret: "tri R (Q x) (ret x) Q"
  by (simp add: tri_def refl_history)

lemma tri_raise: "tri R P (raise e) Q"
  by (simp add: tri_def refl_history)

lemma tri_gets: "tri R (\<lambda>w. Q (f w) w) (gets f) Q"
  by (simp add: tri_def refl_history)

lemma tri_bnd:
  assumes m: "tri R P m Q" and f: "\<And>x. tri R (Q x) (f x) S"
  shows "tri R P (bnd m f) S"
proof (rule triI)
  fix w r v
  assume P: "P w" and run: "bnd m f w = (r, v)"
  obtain r1 u where step: "m w = (r1, u)" by (cases "m w")
  from m P step have first: "R w u" by (rule triD)
  show "R w v \<and> (\<forall>x. r = Inr x \<longrightarrow> S x v)"
  proof (cases r1)
    case (Inl e)
    with run step have "r = Inl e" "v = u" by simp_all
    with first show ?thesis by simp
  next
    case (Inr y)
    with run step have rest: "f y u = (r, v)" by simp
    from m P step Inr have Q: "Q y u" by (blast dest: triD(2))
    from f Q rest have "R u v" by (rule triD)
    with first have "R w v" by (rule trans_history)
    moreover have "S x v" if "r = Inr x" for x
      using f Q rest that by (blast dest: triD(2))
    ultimately show ?thesis by blast
  qed
qed

lemma tri_andthen: "tri R P m (\<lambda>_. Q) \<Longrightarrow> tri R Q k S \<Longrightarrow> tri R P (andthen m k) S"
  unfolding andthen_def by (rule tri_bnd)

lemma tri_raise_if: "tri R (\<lambda>w. \<not> b \<longrightarrow> Q () w) (raise_if b e) Q"
  by (simp add: raise_if_def tri_def refl_history)

lemma tri_whenever: "tri R P m (\<lambda>_. P) \<Longrightarrow> tri R P (whenever b m) (\<lambda>_. P)"
  by (cases b) (simp_all add: tri_def refl_history)

lemma tri_need: "tri R (\<lambda>w. \<forall>y. x = Some y \<longrightarrow> Q y w) (need e x) Q"
  by (cases x) (simp_all add: tri_def refl_history)

lemma tri_lift: "tri R (\<lambda>w. \<forall>y. x = Inr y \<longrightarrow> Q y w) (lift x) Q"
  by (cases x) (simp_all add: tri_def refl_history)

lemma tri_foreach: "(\<And>x. x \<in> set xs \<Longrightarrow> tri R P (f x) (\<lambda>_. P)) \<Longrightarrow> tri R P (foreach xs f) (\<lambda>_. P)"
  by (induction xs) (auto intro: tri_andthen tri_ret)

lemma tri_catch:
  assumes m: "tri R P m Q" and h: "tri R (\<lambda>_. True) h Q"
  shows "tri R P (catch_harness m h) Q"
proof (rule triI)
  fix w r v
  assume P: "P w" and run: "catch_harness m h w = (r, v)"
  obtain r1 u where step: "m w = (r1, u)" by (cases "m w")
  from m P step have first: "R w u" by (rule triD)
  show "R w v \<and> (\<forall>x. r = Inr x \<longrightarrow> Q x v)"
  proof (cases "\<exists>c s. r1 = Inl (HErr c s)")
    case True
    with run step have rest: "h u = (r, v)" by (auto simp: catch_harness_def)
    from h rest have "R u v" by (auto dest: triD(1))
    with first have "R w v" by (rule trans_history)
    moreover have "Q x v" if "r = Inr x" for x
      using h rest that by (auto dest: triD(2))
    ultimately show ?thesis by blast
  next
    case False
    with run step have "r = r1" "v = u"
      by (auto simp: catch_harness_def split: sum.splits err.splits)
    with first m P step show ?thesis by (blast dest: triD(2))
  qed
qed

lemma tri_catch_all:
  assumes m: "tri R P m Q" and h: "\<And>e. tri R (\<lambda>_. True) (h e) Q"
  shows "tri R P (catch_all m h) Q"
proof (rule triI)
  fix w r v
  assume P: "P w" and run: "catch_all m h w = (r, v)"
  obtain r1 u where step: "m w = (r1, u)" by (cases "m w")
  from m P step have first: "R w u" by (rule triD)
  show "R w v \<and> (\<forall>x. r = Inr x \<longrightarrow> Q x v)"
  proof (cases r1)
    case (Inl e)
    with run step have rest: "h e u = (r, v)" by (simp add: catch_all_def)
    from h rest have "R u v" by (auto dest: triD(1))
    with first have "R w v" by (rule trans_history)
    moreover have "Q x v" if "r = Inr x" for x
      using h rest that by (auto dest: triD(2))
    ultimately show ?thesis by blast
  next
    case (Inr x)
    with run step have "r = Inr x" "v = u" by (simp_all add: catch_all_def)
    with first m P step Inr show ?thesis by (blast dest: triD(2))
  qed
qed

lemma keeps_catch_all: "keeps R m \<Longrightarrow> (\<And>e. keeps R (h e)) \<Longrightarrow> keeps R (catch_all m h)"
  by (rule tri_catch_all)

lemma keeps_finally:
  assumes m: "keeps R m" and f: "keeps R f"
  shows "keeps R (finally_act m f)"
proof (rule triI)
  fix w r v
  assume run: "finally_act m f w = (r, v)"
  obtain r1 u where step: "m w = (r1, u)" by (cases "m w")
  obtain r2 u2 where last: "f u = (r2, u2)" by (cases "f u")
  from run step last have "v = u2" by (auto simp: finally_act_def split: sum.splits)
  moreover have "R w u" using triD(1) [OF m _ step] by simp
  moreover have "R u u2" using triD(1) [OF f _ last] by simp
  ultimately show "R w v \<and> (\<forall>x. r = Inr x \<longrightarrow> True)" using trans_history by blast
qed

lemma keeps_case_err:
  "(\<And>c s. e = HErr c s \<Longrightarrow> keeps R (f c s)) \<Longrightarrow> keeps R k \<Longrightarrow>
   keeps R (case e of HErr c s \<Rightarrow> f c s | _ \<Rightarrow> k)"
  by (cases e) simp_all

lemma keeps_ret: "keeps R (ret x)"
  by (rule tri_ret)

lemma keeps_raise: "keeps R (raise e)"
  by (rule tri_raise)

lemma keeps_gets: "keeps R (gets f)"
  by (rule tri_gets)

lemma keeps_bnd: "keeps R m \<Longrightarrow> (\<And>x. keeps R (f x)) \<Longrightarrow> keeps R (bnd m f)"
  by (rule tri_bnd)

lemma keeps_andthen: "keeps R m \<Longrightarrow> keeps R k \<Longrightarrow> keeps R (andthen m k)"
  by (rule tri_andthen)

lemma keeps_raise_if: "keeps R (raise_if b e)"
  by (rule tri_pre [OF tri_raise_if]) simp

lemma keeps_whenever: "keeps R m \<Longrightarrow> keeps R (whenever b m)"
  by (rule tri_whenever)

lemma keeps_need: "keeps R (need e x)"
  by (rule tri_pre [OF tri_need]) simp

lemma keeps_lift: "keeps R (lift x)"
  by (rule tri_pre [OF tri_lift]) simp

lemma keeps_foreach: "(\<And>x. x \<in> set xs \<Longrightarrow> keeps R (f x)) \<Longrightarrow> keeps R (foreach xs f)"
  by (rule tri_foreach)

lemma keeps_collect: "(\<And>x. x \<in> set xs \<Longrightarrow> keeps R (f x)) \<Longrightarrow> keeps R (collect xs f)"
  by (induction xs) (auto intro!: keeps_ret keeps_bnd)

lemma keeps_catch: "keeps R m \<Longrightarrow> keeps R h \<Longrightarrow> keeps R (catch_harness m h)"
  by (rule tri_catch)

lemma keeps_if: "(b \<Longrightarrow> keeps R m) \<Longrightarrow> (\<not> b \<Longrightarrow> keeps R k) \<Longrightarrow> keeps R (if b then m else k)"
  by simp

lemma keeps_case_option:
  "(x = None \<Longrightarrow> keeps R m) \<Longrightarrow> (\<And>y. x = Some y \<Longrightarrow> keeps R (f y)) \<Longrightarrow>
   keeps R (case x of None \<Rightarrow> m | Some y \<Rightarrow> f y)"
  by (cases x) simp_all

lemma keeps_case_sum:
  "(\<And>y. x = Inl y \<Longrightarrow> keeps R (g y)) \<Longrightarrow> (\<And>y. x = Inr y \<Longrightarrow> keeps R (f y)) \<Longrightarrow>
   keeps R (case x of Inl y \<Rightarrow> g y | Inr y \<Rightarrow> f y)"
  by (cases x) simp_all

lemma keeps_case_list:
  "(x = [] \<Longrightarrow> keeps R m) \<Longrightarrow> (\<And>y ys. x = y # ys \<Longrightarrow> keeps R (f y ys)) \<Longrightarrow>
   keeps R (case x of [] \<Rightarrow> m | y # ys \<Rightarrow> f y ys)"
  by (cases x) simp_all

lemma keeps_case_prod:
  "(\<And>a b. x = (a, b) \<Longrightarrow> keeps R (f a b)) \<Longrightarrow> keeps R (case x of (a, b) \<Rightarrow> f a b)"
  by (cases x) simp_all

lemma keeps_let: "(\<And>y. y = x \<Longrightarrow> keeps R (f y)) \<Longrightarrow> keeps R (let y = x in f y)"
  by (simp add: Let_def)

lemmas keeps_rules =
  keeps_if keeps_case_option keeps_case_sum keeps_case_list keeps_case_prod keeps_let
  keeps_ret keeps_raise keeps_gets keeps_bnd keeps_andthen keeps_raise_if keeps_whenever
  keeps_need keeps_lift keeps_foreach keeps_collect keeps_catch keeps_catch_all keeps_case_err keeps_finally

end

text \<open>The two shapes of history the development uses most: an invariant kept, a view unchanged.\<close>

definition inv_kept :: "('w \<Rightarrow> bool) \<Rightarrow> 'w \<Rightarrow> 'w \<Rightarrow> bool" where
  "inv_kept I w v \<longleftrightarrow> (I w \<longrightarrow> I v)"

definition same_view :: "('w \<Rightarrow> 'v) \<Rightarrow> 'w \<Rightarrow> 'w \<Rightarrow> bool" where
  "same_view f w v \<longleftrightarrow> f v = f w"

interpretation inv: history "inv_kept I" for I
  by unfold_locales (auto simp: inv_kept_def)

interpretation view: history "same_view f" for f
  by unfold_locales (auto simp: same_view_def)

lemma keeps_modify: "(\<And>w. R w (f w)) \<Longrightarrow> keeps R (modify f)"
  by (simp add: tri_def)

section \<open>Tables\<close>

text \<open>A row that a concrete run gives back, split into the value and the world left behind.\<close>

lemma run_split: "fst p = a \<Longrightarrow> p = (a, snd p)"
  by (cases p) simp

text \<open>
  A table is the list of its rows in insertion order. A row is found by its key; an update
  rewrites the rows that satisfy the statement's condition and leaves the others and the order.
\<close>

definition row_of :: "('r \<Rightarrow> 'k) \<Rightarrow> 'k \<Rightarrow> 'r list \<Rightarrow> 'r option" where
  "row_of key k rows = find (\<lambda>r. key r = k) rows"

definition update_rows :: "('r \<Rightarrow> bool) \<Rightarrow> ('r \<Rightarrow> 'r) \<Rightarrow> 'r list \<Rightarrow> 'r list" where
  "update_rows p f rows = map (\<lambda>r. if p r then f r else r) rows"

lemma row_of_Nil [simp]: "row_of key k [] = None"
  by (simp add: row_of_def)

lemma row_of_Cons [simp]: "row_of key k (r # rs) = (if key r = k then Some r else row_of key k rs)"
  by (simp add: row_of_def)

lemma row_of_append:
  "row_of key k (xs @ ys) = (case row_of key k xs of None \<Rightarrow> row_of key k ys | Some r \<Rightarrow> Some r)"
  by (induction xs) auto

lemma row_of_SomeD: "row_of key k rows = Some r \<Longrightarrow> r \<in> set rows \<and> key r = k"
  by (induction rows) (auto split: if_splits)

lemma row_of_None_iff: "row_of key k rows = None \<longleftrightarrow> k \<notin> key ` set rows"
  by (induction rows) auto

lemma row_of_unique:
  "distinct (map key rows) \<Longrightarrow> r \<in> set rows \<Longrightarrow> row_of key (key r) rows = Some r"
  by (induction rows) auto

lemma update_rows_Nil [simp]: "update_rows p f [] = []"
  by (simp add: update_rows_def)

lemma update_rows_Cons [simp]:
  "update_rows p f (r # rs) = (if p r then f r else r) # update_rows p f rs"
  by (simp add: update_rows_def)

lemma update_rows_append [simp]:
  "update_rows p f (xs @ ys) = update_rows p f xs @ update_rows p f ys"
  by (simp add: update_rows_def)

lemma set_update_rows: "set (update_rows p f rows) = (\<lambda>r. if p r then f r else r) ` set rows"
  by (simp add: update_rows_def)

lemma map_update_rows:
  "(\<And>r. p r \<Longrightarrow> g (f r) = g r) \<Longrightarrow> map g (update_rows p f rows) = map g rows"
  by (simp add: update_rows_def)

lemma row_of_update_rows:
  "(\<And>r. p r \<Longrightarrow> key (f r) = key r) \<Longrightarrow>
   row_of key k (update_rows p f rows) =
     map_option (\<lambda>r. if p r then f r else r) (row_of key k rows)"
  by (induction rows) auto

text \<open>An update at one key: that row is rewritten, every other lookup is unchanged.\<close>

lemma row_of_update_key:
  "(\<And>r. key r = k0 \<Longrightarrow> key (f r) = k0) \<Longrightarrow>
   row_of key k (update_rows (\<lambda>r. key r = k0) f rows) =
     (if k = k0 then map_option f (row_of key k rows) else row_of key k rows)"
  by (induction rows) auto

lemma distinct_update_rows:
  "(\<And>r. p r \<Longrightarrow> key (f r) = key r) \<Longrightarrow>
   distinct (map key (update_rows p f rows)) = distinct (map key rows)"
  by (simp add: map_update_rows)

lemma update_rows_none: "(\<And>r. r \<in> set rows \<Longrightarrow> \<not> p r) \<Longrightarrow> update_rows p f rows = rows"
  by (induction rows) auto

end
