(* ===== verification/Json.thy ===== *)
theory Json
  imports Complex_Main Prelude
begin

text \<open>
  JSON values and their canonical text (\<^verbatim>\<open>canonical_json\<close> and \<^verbatim>\<open>content_hash\<close> of
  \<^verbatim>\<open>harness/core/contracts.py\<close>). Strings are their UTF-8 bytes: the code encodes the text in
  UTF-8 before it hashes it, does not escape non-ASCII characters, and the order of UTF-8 byte
  strings is the order of the code points they encode. A float is its exact rational value; the
  text Python prints for it is a parameter (\<open>frepr\<close>).
\<close>

datatype json =
    JNull
  | JBool bool
  | JInt int
  | JFloat rat
  | JStr string
  | JList "json list"
  | JObj "(string \<times> json) list"

section \<open>Reading dictionaries\<close>

text \<open>\<^verbatim>\<open>d.get(k)\<close>, with \<open>None\<close> for a missing key.\<close>

fun jlookup :: "string \<Rightarrow> json \<Rightarrow> json option" where
  "jlookup k (JObj kvs) = map_of kvs k"
| "jlookup k _ = None"

text \<open>\<^verbatim>\<open>d.get(k)\<close> where a missing key and a stored null read alike.\<close>

definition jget :: "string \<Rightarrow> json \<Rightarrow> json" where
  "jget k j = (case jlookup k j of None \<Rightarrow> JNull | Some v \<Rightarrow> v)"

text \<open>\<^verbatim>\<open>d.get(k, default)\<close>.\<close>

definition jget_or :: "string \<Rightarrow> json \<Rightarrow> json \<Rightarrow> json" where
  "jget_or k d j = (case jlookup k j of None \<Rightarrow> d | Some v \<Rightarrow> v)"

text \<open>\<^verbatim>\<open>d[k]\<close>, which raises on a missing key.\<close>

definition jfield :: "string \<Rightarrow> json \<Rightarrow> err + json" where
  "jfield k j = (case jlookup k j of None \<Rightarrow> Inl PyKeyError | Some v \<Rightarrow> Inr v)"

fun jtruthy :: "json \<Rightarrow> bool" where
  "jtruthy JNull = False"
| "jtruthy (JBool b) = b"
| "jtruthy (JInt n) = (n \<noteq> 0)"
| "jtruthy (JFloat r) = (r \<noteq> 0)"
| "jtruthy (JStr s) = (s \<noteq> '''')"
| "jtruthy (JList xs) = (xs \<noteq> [])"
| "jtruthy (JObj kvs) = (kvs \<noteq> [])"

text \<open>\<^verbatim>\<open>a or b\<close> on values.\<close>

definition jor :: "json \<Rightarrow> json \<Rightarrow> json" where
  "jor a b = (if jtruthy a then a else b)"

fun jstrings :: "json \<Rightarrow> string list" where
  "jstrings (JList xs) = concat (map (\<lambda>j. case j of JStr s \<Rightarrow> [s] | _ \<Rightarrow> []) xs)"
| "jstrings _ = []"

fun jitems :: "json \<Rightarrow> json list" where
  "jitems (JList xs) = xs"
| "jitems _ = []"

fun jint :: "json \<Rightarrow> int" where
  "jint (JInt n) = n"
| "jint (JBool True) = 1"
| "jint _ = 0"

fun jstr :: "json \<Rightarrow> string" where
  "jstr (JStr s) = s"
| "jstr _ = ''''"

text \<open>\<^verbatim>\<open>{**d, k: v}\<close>: the key keeps its place when it is present.\<close>

fun jset :: "string \<Rightarrow> json \<Rightarrow> json \<Rightarrow> json" where
  "jset k v (JObj kvs) =
     JObj (if k \<in> fst ` set kvs then map (\<lambda>(k', v'). if k' = k then (k', v) else (k', v')) kvs
           else kvs @ [(k, v)])"
| "jset k v _ = JObj [(k, v)]"

text \<open>\<^verbatim>\<open>{**a, **b}\<close>.\<close>

fun jmerge :: "json \<Rightarrow> json \<Rightarrow> json" where
  "jmerge a (JObj kvs) = fold (\<lambda>(k, v) acc. jset k v acc) kvs a"
| "jmerge a _ = a"

lemma map_of_replace:
  "map_of (map (\<lambda>(k', v'). if k' = k then (k', v) else (k', v')) kvs) x =
     (if x = k \<and> k \<in> fst ` set kvs then Some v else map_of kvs x)"
proof (induction kvs)
  case (Cons e kvs)
  obtain k' v' where "e = (k', v')" by (cases e)
  with Cons show ?case by (cases "k' = k"; cases "x = k'") simp_all
qed simp

lemma jlookup_jset_obj:
  "jlookup x (jset k v (JObj kvs)) = (if x = k then Some v else jlookup x (JObj kvs))"
proof (cases "k \<in> fst ` set kvs")
  case True
  then show ?thesis by (simp add: map_of_replace)
next
  case False
  then have "map_of kvs k = None" by (simp add: map_of_eq_None_iff)
  moreover have "map_of (kvs @ [(k, v)]) x = (case map_of kvs x of None \<Rightarrow> map_of [(k, v)] x | Some y \<Rightarrow> Some y)"
    by (simp only: map_of_append map_add_def)
  ultimately show ?thesis using False by (cases "x = k") (simp_all split: option.split)
qed

lemma jlookup_jset [simp]: "jlookup x (jset k v j) = (if x = k then Some v else jlookup x j)"
  by (cases j) (simp_all only: jlookup_jset_obj, simp_all)

lemma jget_jset [simp]: "jget x (jset k v j) = (if x = k then v else jget x j)"
  by (simp add: jget_def)

lemma jget_or_jset [simp]: "jget_or x d (jset k v j) = (if x = k then v else jget_or x d j)"
  by (simp add: jget_or_def)

section \<open>Canonical text\<close>

text \<open>\<^verbatim>\<open>str(int)\<close>: decimal digits, a minus sign for negative numbers.\<close>

definition digit_char :: "nat \<Rightarrow> char" where
  "digit_char d = char_of (48 + d)"

fun nat_text :: "nat \<Rightarrow> string" where
  "nat_text n = (if n < 10 then [digit_char n] else nat_text (n div 10) @ [digit_char (n mod 10)])"

declare nat_text.simps [simp del]

definition int_text :: "int \<Rightarrow> string" where
  "int_text n = (if n < 0 then CHR ''-'' # nat_text (nat (- n)) else nat_text (nat n))"

text \<open>The escapes of \<^verbatim>\<open>json.dumps(ensure_ascii=False)\<close>.\<close>

definition hex_char :: "nat \<Rightarrow> char" where
  "hex_char d = (if d < 10 then char_of (48 + d) else char_of (87 + d))"

definition escape_char :: "char \<Rightarrow> string" where
  "escape_char c =
     (if c = CHR 0x22 then [CHR 0x5C, CHR 0x22]
      else if c = CHR 0x5C then [CHR 0x5C, CHR 0x5C]
      else if c = CHR 0x0A then [CHR 0x5C, CHR ''n'']
      else if c = CHR 0x0D then [CHR 0x5C, CHR ''r'']
      else if c = CHR 0x09 then [CHR 0x5C, CHR ''t'']
      else if c = CHR 0x0C then [CHR 0x5C, CHR ''f'']
      else if c = CHR 0x08 then [CHR 0x5C, CHR ''b'']
      else if of_char c < (32 :: nat)
        then [CHR 0x5C, CHR ''u'', CHR ''0'', CHR ''0'',
              hex_char (of_char c div 16), hex_char (of_char c mod 16)]
      else [c])"

definition string_text :: "string \<Rightarrow> string" where
  "string_text s = CHR 0x22 # concat (map escape_char s) @ [CHR 0x22]"

fun commas :: "string list \<Rightarrow> string" where
  "commas [] = ''''"
| "commas [x] = x"
| "commas (x # xs) = x @ CHR '','' # commas xs"

text \<open>
  \<^verbatim>\<open>json.dumps(value, ensure_ascii=False, sort_keys=True, separators=(",", ":"))\<close>: the entries of
  an object are printed in the order of their keys.
\<close>

definition entry_text :: "string \<times> string \<Rightarrow> string" where
  "entry_text e = string_text (fst e) @ CHR '':'' # snd e"

primrec canonical_json :: "(rat \<Rightarrow> string) \<Rightarrow> json \<Rightarrow> string" where
  "canonical_json frepr JNull = ''null''"
| "canonical_json frepr (JBool b) = (if b then ''true'' else ''false'')"
| "canonical_json frepr (JInt n) = int_text n"
| "canonical_json frepr (JFloat r) = frepr r"
| "canonical_json frepr (JStr s) = string_text s"
| "canonical_json frepr (JList xs) =
     CHR ''['' # commas (map (canonical_json frepr) xs) @ '']''"
| "canonical_json frepr (JObj kvs) =
     CHR ''{'' # commas (map entry_text (sort_key fst (map (map_prod id (canonical_json frepr)) kvs)))
       @ ''}''"

text \<open>\<^verbatim>\<open>content_hash\<close>: the digest of the canonical text; the digest function is a parameter.\<close>

definition content_hash :: "(string \<Rightarrow> string) \<Rightarrow> (rat \<Rightarrow> string) \<Rightarrow> json \<Rightarrow> string" where
  "content_hash sha256 frepr j = sha256 (canonical_json frepr j)"

text \<open>The canonical form: every object sorted by key, at every depth.\<close>

primrec canon :: "json \<Rightarrow> json" where
  "canon JNull = JNull"
| "canon (JBool b) = JBool b"
| "canon (JInt n) = JInt n"
| "canon (JFloat r) = JFloat r"
| "canon (JStr s) = JStr s"
| "canon (JList xs) = JList (map canon xs)"
| "canon (JObj kvs) = JObj (sort_key fst (map (map_prod id canon) kvs))"

primrec float_free :: "json \<Rightarrow> bool" where
  "float_free JNull = True"
| "float_free (JBool b) = True"
| "float_free (JInt n) = True"
| "float_free (JFloat r) = False"
| "float_free (JStr s) = True"
| "float_free (JList xs) = list_all id (map float_free xs)"
| "float_free (JObj kvs) = list_all (\<lambda>e. snd e) (map (map_prod id float_free) kvs)"

lemma map_prod_insort_key:
  "insort_key fst (map_prod id f x) (map (map_prod id f) ys) =
     map (map_prod id f) (insort_key fst x ys)"
  by (induction ys) auto

lemma map_prod_sort_key:
  "map (map_prod id f) (sort_key fst kvs) = sort_key fst (map (map_prod id f) kvs)"
proof (induction kvs)
  case (Cons e kvs)
  have "map (map_prod id f) (sort_key fst (e # kvs)) =
      insort_key fst (map_prod id f e) (map (map_prod id f) (sort_key fst kvs))"
    by (simp only: sort_key_simps map_prod_insort_key)
  also have "\<dots> = insort_key fst (map_prod id f e) (sort_key fst (map (map_prod id f) kvs))"
    by (simp only: Cons.IH)
  finally show ?case by (simp only: sort_key_simps list.map)
qed simp

lemma sort_key_idem: "sort_key f (sort_key f xs) = sort_key f xs"
  by (rule sort_key_id_if_sorted) simp

text \<open>The canonical text does not see the order of an object's keys.\<close>

lemma canonical_json_canon: "canonical_json frepr (canon j) = canonical_json frepr j"
proof (induction j)
  case (JList xs)
  then have "map (canonical_json frepr) (map canon xs) = map (canonical_json frepr) xs"
    by simp
  then show ?case by (simp del: map_map map_eq_conv)
next
  case (JObj kvs)
  let ?c = "map_prod id (canonical_json frepr)"
  have "map ?c (map (map_prod id canon) kvs) = map ?c kvs"
    using JObj by (auto simp: snds.simps)
  then show ?case
    by (simp add: map_prod_sort_key sort_key_idem del: map_map map_eq_conv)
qed simp_all

end
