(* ===== verification/Contracts.thy ===== *)
theory Contracts
  imports Json
begin

text \<open>
  The data shared by every component (\<^verbatim>\<open>harness/core/contracts.py\<close>): run states, execution and
  diagnostic identities, references to artifacts and checkpoints, approval bindings, runtime
  outcomes and event envelopes. Times are millisecond counts: the code compares fixed-width UTC
  texts, whose order is the order of the instants they write.
\<close>

type_synonym timestamp = nat

section \<open>Run states\<close>

datatype run_status =
    queued | running | waiting_user | waiting_children | recovering | needs_review
  | cancelling | completed | failed | cancelled

fun status_name :: "run_status \<Rightarrow> string" where
  "status_name queued = ''queued''"
| "status_name running = ''running''"
| "status_name waiting_user = ''waiting_user''"
| "status_name waiting_children = ''waiting_children''"
| "status_name recovering = ''recovering''"
| "status_name needs_review = ''needs_review''"
| "status_name cancelling = ''cancelling''"
| "status_name completed = ''completed''"
| "status_name failed = ''failed''"
| "status_name cancelled = ''cancelled''"

definition terminal :: "run_status \<Rightarrow> bool" where
  "terminal s \<longleftrightarrow> s \<in> {completed, failed, cancelled}"

lemma terminal_simps [simp]:
  "terminal completed" "terminal failed" "terminal cancelled"
  "\<not> terminal queued" "\<not> terminal running" "\<not> terminal waiting_user"
  "\<not> terminal waiting_children" "\<not> terminal recovering" "\<not> terminal needs_review"
  "\<not> terminal cancelling"
  by (simp_all add: terminal_def)

section \<open>References and identities\<close>

record checkpoint_ref =
  ck_thread :: string
  ck_ns :: string
  ck_id :: string
  ck_runtime :: string

record artifact_ref =
  ar_id :: string
  ar_hash :: string
  ar_mime :: string
  ar_size :: int
  ar_owner :: string
  ar_workspace :: string
  ar_provenance :: string

record error_envelope =
  ee_code :: string
  ee_retryable :: bool

record approval_binding =
  ab_operation :: string
  ab_tool_revision :: string
  ab_args_hash :: string
  ab_fingerprint :: string
  ab_policy_revision :: int
  ab_expires :: timestamp

record operation_key =
  ok_run :: string
  ok_message :: string
  ok_call :: string

record execution_context =
  c_owner :: string
  c_workspace :: string
  c_session :: string
  c_branch :: string
  c_run :: string
  c_root :: string
  c_parent :: "string option"
  c_attempt :: string
  c_fence :: int
  c_thread :: string
  c_input_revision :: int
  c_snapshot :: string
  c_deadline :: "timestamp option"
  c_trace :: string

record diagnostic_context =
  d_id :: string
  d_owner :: string
  d_workspace :: "string option"
  d_snapshot :: string
  d_account :: string
  d_deadline :: timestamp
  d_trace :: string

datatype access_context = Execution execution_context | Diagnostic diagnostic_context

section \<open>Outcomes and events\<close>

datatype interrupt_kind = user_interrupt | children_interrupt | review_interrupt

record interrupt_ref =
  ir_id :: string
  ir_checkpoint :: checkpoint_ref
  ir_kind :: interrupt_kind
  ir_interaction :: "string option"
  ir_wait :: "string option"
  ir_operation :: "string option"

datatype outcome_kind = final_outcome | waiting_outcome | error_outcome | cancel_ack

fun outcome_name :: "outcome_kind \<Rightarrow> string" where
  "outcome_name final_outcome = ''final''"
| "outcome_name waiting_outcome = ''waiting''"
| "outcome_name error_outcome = ''error''"
| "outcome_name cancel_ack = ''cancel_ack''"

record runtime_outcome =
  ro_kind :: outcome_kind
  ro_run :: string
  ro_input_revision :: int
  ro_checkpoint :: "checkpoint_ref option"
  ro_result :: "artifact_ref option"
  ro_interrupts :: "interrupt_ref list"
  ro_error :: "error_envelope option"

datatype durability = durable | ephemeral

record event_envelope =
  ev_id :: string
  ev_run :: string
  ev_type :: string
  ev_timestamp :: timestamp
  ev_durability :: durability
  ev_seq :: "int option"
  ev_data :: json

text \<open>The model validator of the envelope: it raises on a sequence that does not fit.\<close>

definition validate_sequence :: "event_envelope \<Rightarrow> err + event_envelope" where
  "validate_sequence e =
     (if ev_durability e = ephemeral \<and> ev_seq e \<noteq> None then Inl PyValueError
      else if ev_durability e = durable \<and> (case ev_seq e of None \<Rightarrow> True | Some n \<Rightarrow> n < 1)
        then Inl PyValueError
      else Inr e)"

section \<open>JSON forms\<close>

text \<open>The JSON forms of the records that are stored or hashed as dictionaries.\<close>

definition jopt :: "('a \<Rightarrow> json) \<Rightarrow> 'a option \<Rightarrow> json" where
  "jopt f x = (case x of None \<Rightarrow> JNull | Some v \<Rightarrow> f v)"

definition artifact_json :: "artifact_ref \<Rightarrow> json" where
  "artifact_json r = JObj
     [(''artifact_id'', JStr (ar_id r)), (''content_hash'', JStr (ar_hash r)),
      (''mime_type'', JStr (ar_mime r)), (''size_bytes'', JInt (ar_size r)),
      (''owner_id'', JStr (ar_owner r)), (''workspace_id'', JStr (ar_workspace r)),
      (''provenance_ref'', JStr (ar_provenance r))]"

definition error_json :: "error_envelope \<Rightarrow> json" where
  "error_json e = JObj
     [(''code'', JStr (ee_code e)), (''retryable'', JBool (ee_retryable e))]"

definition operation_key_json :: "operation_key \<Rightarrow> json" where
  "operation_key_json k = JObj
     [(''run_id'', JStr (ok_run k)), (''message_id'', JStr (ok_message k)),
      (''tool_call_id'', JStr (ok_call k))]"

definition binding_json :: "approval_binding \<Rightarrow> json" where
  "binding_json b = JObj
     [(''operation_id'', JStr (ab_operation b)), (''tool_revision'', JStr (ab_tool_revision b)),
      (''args_hash'', JStr (ab_args_hash b)), (''resource_fingerprint'', JStr (ab_fingerprint b)),
      (''policy_revision'', JInt (ab_policy_revision b)), (''expires_at'', JInt (int (ab_expires b)))]"

text \<open>Distinct operation keys have distinct canonical forms.\<close>

lemma operation_key_json_inject: "operation_key_json k = operation_key_json k' \<longleftrightarrow> k = k'"
  by (cases k; cases k') (simp add: operation_key_json_def)

lemma validate_sequence_Inr:
  "validate_sequence e = Inr e' \<longleftrightarrow>
     e' = e \<and> (ev_durability e = ephemeral \<and> ev_seq e = None \<or>
               ev_durability e = durable \<and> (\<exists>n. ev_seq e = Some n \<and> 1 \<le> n))"
  by (cases "ev_durability e"; cases "ev_seq e") (auto simp: validate_sequence_def)

end
