(* ===== verification/Store_State.thy ===== *)
theory Store_State
  imports Contracts
begin

text \<open>
  The database of \<^verbatim>\<open>harness/storage/store.py\<close>: one record type per SQL table, the world that
  holds all tables, and the transaction of the store. A nullable column is an option; a column
  that holds JSON text is the decoded value. The world also holds what the code reads from its
  surroundings while it writes rows: the clock, and the supply of fresh identifiers
  (\<^verbatim>\<open>uuid4\<close>), an arbitrary sequence of strings of which the first \<open>w_seed\<close> are used.
\<close>

section \<open>Rows\<close>

record record_row =
  rec_namespace :: string
  rec_key :: string
  rec_revision :: int
  rec_payload :: json

record workspace_row =
  ws_id :: string
  ws_owner :: string
  ws_name :: string
  ws_root :: string
  ws_revision :: int
  ws_policy :: json
  ws_created :: timestamp

record session_row =
  se_id :: string
  se_workspace :: string
  se_title :: string
  se_agent :: string
  se_branch :: string
  se_revision :: int
  se_archived :: "timestamp option"
  se_created :: timestamp
  se_updated :: timestamp

record branch_row =
  b_id :: string
  b_session :: string
  b_parent :: "string option"
  b_thread :: string
  b_checkpoint :: "checkpoint_ref option"
  b_active :: "string option"
  b_revision :: int
  b_created :: timestamp

record run_row =
  r_id :: string
  r_owner :: string
  r_workspace :: string
  r_session :: string
  r_branch :: string
  r_root :: string
  r_parent :: "string option"
  r_status :: run_status
  r_revision :: int
  r_input_revision :: int
  r_snapshot :: string
  r_input :: json
  r_checkpoint :: "checkpoint_ref option"
  r_result :: "artifact_ref option"
  r_error :: "error_envelope option"
  r_deadline :: "timestamp option"
  r_created :: timestamp
  r_updated :: timestamp
  r_next_seq :: int
  r_fence :: int
  r_attempt :: "string option"
  r_cancel :: bool
  r_required :: "string list"
  r_depth :: int

record attempt_row =
  a_id :: string
  a_run :: string
  a_worker :: string
  a_pid :: int
  a_start :: rat
  a_lease :: timestamp
  a_fence :: int
  a_ended :: "timestamp option"
  a_reason :: "string option"
  a_created :: timestamp

record message_row =
  m_id :: string
  m_run :: string
  m_branch :: string
  m_role :: string
  m_payload :: json
  m_created :: timestamp

text \<open>Tool operations: the state column takes the result's status when the operation ends.\<close>

datatype op_state =
    op_prepared | op_authorized | op_running | op_succeeded | op_failed | op_cancelled | op_unknown

datatype result_status = tr_succeeded | tr_failed | tr_cancelled | tr_unknown

fun state_of_result :: "result_status \<Rightarrow> op_state" where
  "state_of_result tr_succeeded = op_succeeded"
| "state_of_result tr_failed = op_failed"
| "state_of_result tr_cancelled = op_cancelled"
| "state_of_result tr_unknown = op_unknown"

record tool_result =
  tr_operation :: string
  tr_status :: result_status
  tr_summary :: string
  tr_data :: json
  tr_blocks :: "json list"
  tr_artifacts :: "artifact_ref list"
  tr_truncated :: bool
  tr_exit :: "int option"
  tr_started :: "timestamp option"
  tr_completed :: "timestamp option"
  tr_code :: "string option"
  tr_retryable :: bool

record operation_row =
  op_id :: string
  op_run :: string
  op_message :: string
  op_call :: string
  op_tool :: string
  op_tool_revision :: string
  op_args_hash :: string
  op_args :: json
  op_fingerprint :: string
  op_state :: op_state
  op_revision :: int
  op_attempt :: string
  op_fence :: int
  op_grant :: "string option"
  op_result :: "tool_result option"
  op_metadata :: json
  op_created :: timestamp
  op_updated :: timestamp

record grant_row =
  g_id :: string
  g_operation :: string
  g_owner :: string
  g_run :: string
  g_binding :: approval_binding
  g_remaining :: int
  g_revoked :: bool
  g_consumed :: "timestamp option"
  g_created :: timestamp

datatype interaction_status = pending_binding | interaction_open | resolved | expired | interaction_cancelled

datatype resolution_outcome = answered | outcome_expired | outcome_cancelled

record child_report =
  cr_run :: string
  cr_status :: run_status
  cr_result :: "artifact_ref option"
  cr_error :: "error_envelope option"

record resolution =
  rs_interrupt :: "string option"
  rs_outcome :: resolution_outcome
  rs_reason :: string
  rs_response :: "json option"
  rs_children :: "child_report list"

record interaction_payload =
  ip_prompt :: string
  ip_schema :: json
  ip_binding :: "approval_binding option"
  ip_operation :: "string option"
  ip_extra :: json

record interaction_row =
  i_id :: string
  i_run :: string
  i_key :: string
  i_interrupt :: "string option"
  i_checkpoint :: "checkpoint_ref option"
  i_input_revision :: int
  i_kind :: string
  i_status :: interaction_status
  i_revision :: int
  i_payload :: interaction_payload
  i_resolution :: "resolution option"
  i_expires :: "timestamp option"
  i_created :: timestamp

record reconciliation_row =
  rcn_id :: string
  rcn_operation :: string
  rcn_expected :: int
  rcn_actor :: string
  rcn_decision :: string
  rcn_payload :: json
  rcn_created :: timestamp

text \<open>
  Amounts per budget dimension. Token and call counts are integers, cost is a float, represented
  by its exact value.
\<close>

type_synonym amount = "(string \<times> rat) list"

record account_row =
  acc_id :: string
  acc_scope :: string
  acc_scope_id :: string
  acc_limits :: "(string \<times> rat option) list"
  acc_consumed :: amount
  acc_reserved :: amount

datatype reservation_state = rv_reserved | rv_settled | rv_unknown

record reservation_row =
  rv_key :: string
  rv_account :: string
  rv_amount :: amount
  rv_actual :: "amount option"
  rv_state :: reservation_state
  rv_created :: timestamp

record event_row =
  e_id :: string
  e_run :: string
  e_seq :: int
  e_type :: string
  e_payload :: json
  e_time :: timestamp

record outbox_row =
  ob_id :: string
  ob_consumer :: string
  ob_key :: string
  ob_payload :: json
  ob_delivered :: "timestamp option"
  ob_created :: timestamp

record command_row =
  cmd_owner :: string
  cmd_method :: string
  cmd_route :: string
  cmd_key :: string
  cmd_body_hash :: string
  cmd_response :: json
  cmd_status :: int
  cmd_expires :: timestamp

record dependency_row =
  dp_parent :: string
  dp_child :: string
  dp_key :: string
  dp_args_hash :: string

record wait_row =
  wt_id :: string
  wt_parent :: string
  wt_key :: string
  wt_children :: "string list"
  wt_mode :: string
  wt_interrupt :: "string option"
  wt_checkpoint :: "checkpoint_ref option"
  wt_resolution :: "resolution option"
  wt_revision :: int

record artifact_row =
  af_id :: string
  af_owner :: string
  af_workspace :: string
  af_hash :: string
  af_mime :: string
  af_size :: int
  af_provenance :: string
  af_storage :: string
  af_name :: string
  af_created :: timestamp

record artifact_use_row =
  au_artifact :: string
  au_kind :: string
  au_ref :: string

record input_command_row =
  ic_id :: string
  ic_run :: string
  ic_revision :: int
  ic_text :: string
  ic_consumed :: bool
  ic_created :: timestamp

record frame_row =
  ef_id :: int
  ef_run :: string
  ef_event :: json
  ef_expires :: timestamp

section \<open>The world\<close>

record world =
  t_records :: "record_row list"
  t_versions :: "record_row list"
  t_workspaces :: "workspace_row list"
  t_sessions :: "session_row list"
  t_branches :: "branch_row list"
  t_runs :: "run_row list"
  t_attempts :: "attempt_row list"
  t_messages :: "message_row list"
  t_operations :: "operation_row list"
  t_grants :: "grant_row list"
  t_interactions :: "interaction_row list"
  t_reconciliations :: "reconciliation_row list"
  t_accounts :: "account_row list"
  t_reservations :: "reservation_row list"
  t_events :: "event_row list"
  t_outbox :: "outbox_row list"
  t_commands :: "command_row list"
  t_dependencies :: "dependency_row list"
  t_waits :: "wait_row list"
  t_artifacts :: "artifact_row list"
  t_artifact_uses :: "artifact_use_row list"
  t_input_commands :: "input_command_row list"
  t_frames :: "frame_row list"
  t_frame_counter :: int
  w_active :: bool
  w_seed :: nat
  w_uuid :: "nat \<Rightarrow> string"
  w_now :: timestamp

text \<open>The world after the schema has been created in an empty file.\<close>

definition empty_world :: "(nat \<Rightarrow> string) \<Rightarrow> timestamp \<Rightarrow> world" where
  "empty_world uuid now = \<lparr>
     t_records = [], t_versions = [], t_workspaces = [], t_sessions = [], t_branches = [],
     t_runs = [], t_attempts = [], t_messages = [], t_operations = [], t_grants = [],
     t_interactions = [], t_reconciliations = [], t_accounts = [], t_reservations = [],
     t_events = [], t_outbox = [], t_commands = [], t_dependencies = [], t_waits = [],
     t_artifacts = [], t_artifact_uses = [], t_input_commands = [], t_frames = [],
     t_frame_counter = 0, w_active = False, w_seed = 0, w_uuid = uuid, w_now = now \<rparr>"

type_synonym 'a store = "(world, 'a) act"

definition new_id :: "string store" where
  "new_id w = (Inr (w_uuid w (w_seed w)), w\<lparr>w_seed := Suc (w_seed w)\<rparr>)"

definition utc_now :: "timestamp store" where
  "utc_now = gets w_now"

text \<open>\<^verbatim>\<open>after_seconds\<close>, for a duration in milliseconds.\<close>

definition after_ms :: "nat \<Rightarrow> timestamp store" where
  "after_ms d = gets (\<lambda>w. w_now w + d)"

text \<open>
  \<^verbatim>\<open>with store.transaction()\<close>: the outermost one begins, commits on a return and rolls back on
  any exception; one entered inside another joins it. The rollback also gives back the
  identifiers drawn inside: nothing that was written with them is left.
\<close>

definition transaction :: "'a store \<Rightarrow> 'a store" where
  "transaction m w =
     (if w_active w then m w
      else case m (w\<lparr>w_active := True\<rparr>) of
          (Inl e, v) \<Rightarrow> (Inl e, w)
        | (Inr x, v) \<Rightarrow> (Inr x, v\<lparr>w_active := False\<rparr>))"

lemma transaction_nested [simp]: "w_active w \<Longrightarrow> transaction m w = m w"
  by (simp add: transaction_def)

lemma transaction_commit:
  "\<not> w_active w \<Longrightarrow> m (w\<lparr>w_active := True\<rparr>) = (Inr x, v) \<Longrightarrow>
   transaction m w = (Inr x, v\<lparr>w_active := False\<rparr>)"
  by (simp add: transaction_def)

lemma transaction_rollback:
  "\<not> w_active w \<Longrightarrow> m (w\<lparr>w_active := True\<rparr>) = (Inl e, v) \<Longrightarrow> transaction m w = (Inl e, w)"
  by (simp add: transaction_def)

lemma transaction_InrD:
  "\<not> w_active w \<Longrightarrow> transaction m w = (Inr x, v) \<Longrightarrow>
   \<exists>u. m (w\<lparr>w_active := True\<rparr>) = (Inr x, u) \<and> v = u\<lparr>w_active := False\<rparr>"
  by (auto simp: transaction_def split: prod.splits sum.splits)

text \<open>An outermost transaction that raises leaves the database as it was.\<close>

lemma transaction_atomic:
  "\<not> w_active w \<Longrightarrow> transaction m w = (Inl e, v) \<Longrightarrow> v = w"
  by (auto simp: transaction_def split: prod.splits sum.splits)

text \<open>
  A history of the database: a preorder on worlds that does not look at whether a transaction is
  open, nor at the identifier supply.
\<close>

locale db_history = history R for R :: "world \<Rightarrow> world \<Rightarrow> bool" +
  assumes active_free: "R w (w\<lparr>w_active := b\<rparr>)"
    and seed_free: "R w (w\<lparr>w_seed := n\<rparr>)"
begin

lemma tri_transaction:
  assumes m: "tri R P m Q"
    and P: "\<And>w b. P w \<Longrightarrow> P (w\<lparr>w_active := b\<rparr>)"
    and Q: "\<And>x w b. Q x w \<Longrightarrow> Q x (w\<lparr>w_active := b\<rparr>)"
  shows "tri R P (transaction m) Q"
proof (rule triI)
  fix w r v
  assume pre: "P w" and run: "transaction m w = (r, v)"
  show "R w v \<and> (\<forall>x. r = Inr x \<longrightarrow> Q x v)"
  proof (cases "w_active w")
    case True
    with run have "m w = (r, v)" by simp
    with m pre show ?thesis by (blast dest: triD)
  next
    case False
    let ?w = "w\<lparr>w_active := True\<rparr>"
    obtain r1 u where step: "m ?w = (r1, u)" by (cases "m ?w")
    from P [OF pre] m step have first: "R ?w u" by (blast dest: triD(1))
    show ?thesis
    proof (cases r1)
      case (Inl e)
      with False run step have "r = Inl e" "v = w" by (auto simp: transaction_def)
      then show ?thesis by (simp add: refl_history)
    next
      case (Inr x)
      with False run step have eqs: "r = Inr x" "v = u\<lparr>w_active := False\<rparr>"
        by (auto simp: transaction_def)
      have "R w v"
        unfolding eqs(2)
        by (rule trans_history [OF active_free trans_history [OF first active_free]])
      moreover from P [OF pre] m step Inr have "Q x u" by (blast dest: triD(2))
      then have "Q x v" unfolding eqs(2) by (rule Q)
      ultimately show ?thesis using eqs(1) by simp
    qed
  qed
qed

lemma keeps_transaction: "keeps R m \<Longrightarrow> keeps R (transaction m)"
  by (rule tri_transaction)

lemma keeps_new_id: "keeps R new_id"
  by (simp add: tri_def new_id_def seed_free)

lemma keeps_utc_now: "keeps R utc_now"
  by (simp add: utc_now_def keeps_gets)

lemma keeps_after_ms: "keeps R (after_ms d)"
  by (simp add: after_ms_def keeps_gets)

lemmas keeps_db = keeps_rules keeps_transaction keeps_new_id keeps_utc_now keeps_after_ms

end

lemma utc_now_apply [simp]: "utc_now w = (Inr (w_now w), w)"
  by (simp add: utc_now_def)

lemma after_ms_apply [simp]: "after_ms d w = (Inr (w_now w + d), w)"
  by (simp add: after_ms_def)

lemma new_id_apply [simp]:
  "new_id w = (Inr (w_uuid w (w_seed w)), w\<lparr>w_seed := Suc (w_seed w)\<rparr>)"
  by (simp add: new_id_def)

end
