(* ===== verification/Store_Records.thy ===== *)
theory Store_Records
  imports Store_State
begin

text \<open>
  The namespaced record store (\<^verbatim>\<open>get\<close>, \<^verbatim>\<open>list\<close>, \<^verbatim>\<open>put\<close>, \<^verbatim>\<open>compare_and_set\<close>, \<^verbatim>\<open>get_version\<close>,
  \<^verbatim>\<open>delete\<close> of \<^verbatim>\<open>Store\<close>): a key-value table with a revision per key, written by compare-and-set,
  and a table of every version ever written. The interface the services use is the locale
  \<open>cas_store\<close>; its interpretation on the model discharges the laws.
\<close>

section \<open>Operations\<close>

definition rec_id :: "record_row \<Rightarrow> string \<times> string" where
  "rec_id r = (rec_namespace r, rec_key r)"

definition record_at :: "world \<Rightarrow> string \<Rightarrow> string \<Rightarrow> record_row option" where
  "record_at w ns k = row_of rec_id (ns, k) (t_records w)"

definition record_revision :: "world \<Rightarrow> string \<Rightarrow> string \<Rightarrow> int" where
  "record_revision w ns k = (case record_at w ns k of None \<Rightarrow> 0 | Some r \<Rightarrow> rec_revision r)"

definition record_value :: "world \<Rightarrow> string \<Rightarrow> string \<Rightarrow> json option" where
  "record_value w ns k = map_option rec_payload (record_at w ns k)"

definition store_get :: "string \<Rightarrow> string \<Rightarrow> json option store" where
  "store_get ns k = gets (\<lambda>w. record_value w ns k)"

definition store_list :: "string \<Rightarrow> json list store" where
  "store_list ns = gets (\<lambda>w.
     map rec_payload (sort_key rec_key (filter (\<lambda>r. rec_namespace r = ns) (t_records w))))"

definition upsert_record :: "record_row \<Rightarrow> world \<Rightarrow> world" where
  "upsert_record row w =
     w\<lparr>t_records :=
        (if record_at w (rec_namespace row) (rec_key row) = None then t_records w @ [row]
         else update_rows (\<lambda>r. rec_id r = rec_id row) (\<lambda>_. row) (t_records w))\<rparr>"

definition version_id :: "record_row \<Rightarrow> string \<times> string \<times> int" where
  "version_id r = (rec_namespace r, rec_key r, rec_revision r)"

definition insert_version :: "record_row \<Rightarrow> unit store" where
  "insert_version row =
     bnd (gets t_versions) (\<lambda>versions.
     andthen (raise_if (version_id row \<in> version_id ` set versions) SqlIntegrityError)
       (modify (\<lambda>w. w\<lparr>t_versions := t_versions w @ [row]\<rparr>)))"

definition unversioned :: "string \<Rightarrow> bool" where
  "unversioned ns \<longleftrightarrow> ns \<in> {''system'', ''process_sessions'', ''model_permits'', ''metrics''}"

definition compare_and_set :: "string \<Rightarrow> string \<Rightarrow> int option \<Rightarrow> json \<Rightarrow> json store" where
  "compare_and_set ns k expected value =
     (let expected_revision = (case expected of None \<Rightarrow> 0 | Some n \<Rightarrow> n);
          row = \<lparr>rec_namespace = ns, rec_key = k, rec_revision = expected_revision + 1,
                 rec_payload = value\<rparr>
      in transaction
        (bnd (gets (\<lambda>w. record_revision w ns k)) (\<lambda>current.
         andthen (raise_if (current \<noteq> expected_revision) (HErr ''REVISION_CONFLICT'' 409))
         (andthen (modify (upsert_record row))
         (andthen (whenever (\<not> unversioned ns) (insert_version row))
         (ret value))))))"

definition store_put :: "string \<Rightarrow> string \<Rightarrow> json \<Rightarrow> unit store" where
  "store_put ns k value =
     transaction
       (bnd (gets (\<lambda>w. record_revision w ns k)) (\<lambda>current.
        andthen (compare_and_set ns k (Some current) value) (ret ())))"

definition get_version :: "string \<Rightarrow> string \<Rightarrow> int \<Rightarrow> json option store" where
  "get_version ns k revision =
     gets (\<lambda>w. map_option rec_payload (row_of version_id (ns, k, revision) (t_versions w)))"

definition store_delete :: "string \<Rightarrow> string \<Rightarrow> unit store" where
  "store_delete ns k =
     modify (\<lambda>w. w\<lparr>t_records := filter (\<lambda>r. rec_id r \<noteq> (ns, k)) (t_records w)\<rparr>)"

section \<open>What a write does\<close>

definition new_record :: "string \<Rightarrow> string \<Rightarrow> int \<Rightarrow> json \<Rightarrow> record_row" where
  "new_record ns k n v = \<lparr>rec_namespace = ns, rec_key = k, rec_revision = n, rec_payload = v\<rparr>"

lemma new_record_simps [simp]:
  "rec_namespace (new_record ns k n v) = ns" "rec_key (new_record ns k n v) = k"
  "rec_revision (new_record ns k n v) = n" "rec_payload (new_record ns k n v) = v"
  "rec_id (new_record ns k n v) = (ns, k)" "version_id (new_record ns k n v) = (ns, k, n)"
  by (simp_all add: new_record_def rec_id_def version_id_def)

definition written :: "record_row \<Rightarrow> world \<Rightarrow> world" where
  "written row w =
     (if unversioned (rec_namespace row) then upsert_record row w
      else (upsert_record row w)\<lparr>t_versions := t_versions w @ [row]\<rparr>)"

definition version_taken :: "world \<Rightarrow> record_row \<Rightarrow> bool" where
  "version_taken w row \<longleftrightarrow>
     \<not> unversioned (rec_namespace row) \<and> version_id row \<in> version_id ` set (t_versions w)"

lemma upsert_frame [simp]:
  "t_versions (upsert_record row w) = t_versions w"
  "w_active (upsert_record row w) = w_active w"
  "record_at (w\<lparr>w_active := b\<rparr>) ns k = record_at w ns k"
  "record_at (w\<lparr>t_versions := vs\<rparr>) ns k = record_at w ns k"
  "(upsert_record row (w\<lparr>w_active := b\<rparr>)) = (upsert_record row w)\<lparr>w_active := b\<rparr>"
  by (simp_all add: upsert_record_def record_at_def)

lemma record_revision_frame [simp]:
  "record_revision (w\<lparr>w_active := b\<rparr>) ns k = record_revision w ns k"
  "record_revision (w\<lparr>t_versions := vs\<rparr>) ns k = record_revision w ns k"
  "record_value (w\<lparr>w_active := b\<rparr>) ns k = record_value w ns k"
  "record_value (w\<lparr>t_versions := vs\<rparr>) ns k = record_value w ns k"
  by (simp_all add: record_revision_def record_value_def)

text \<open>The whole behaviour of an outermost compare-and-set, branch by branch.\<close>

lemma compare_and_set_eval:
  assumes "\<not> w_active w"
  shows "compare_and_set ns k expected v w =
    (let n = (case expected of None \<Rightarrow> 0 | Some n \<Rightarrow> n); row = new_record ns k (n + 1) v in
     if record_revision w ns k \<noteq> n then (Inl (HErr ''REVISION_CONFLICT'' 409), w)
     else if version_taken w row then (Inl SqlIntegrityError, w)
     else (Inr v, written row w))"
  using assms
  by (simp add: compare_and_set_def transaction_def Let_def new_record_def [symmetric]
      insert_version_def bnd_def andthen_def whenever_def raise_if_def version_taken_def
      written_def upsert_record_def record_at_def)

lemma store_put_eval:
  assumes "\<not> w_active w"
  shows "store_put ns k v w =
    (let row = new_record ns k (record_revision w ns k + 1) v in
     if version_taken w row then (Inl SqlIntegrityError, w) else (Inr (), written row w))"
  using assms
  by (simp add: store_put_def compare_and_set_def transaction_def Let_def new_record_def [symmetric]
      insert_version_def bnd_def andthen_def whenever_def raise_if_def version_taken_def
      written_def upsert_record_def record_at_def)

lemma record_at_upsert:
  "record_at (upsert_record row w) ns k =
     (if (ns, k) = rec_id row then Some row else record_at w ns k)"
proof (cases "record_at w (rec_namespace row) (rec_key row)")
  case None
  then show ?thesis
    by (auto simp: upsert_record_def record_at_def row_of_append rec_id_def split: option.splits)
next
  case (Some r)
  then have "row_of rec_id (rec_id row) (t_records w) = Some r"
    by (simp add: record_at_def rec_id_def)
  with Some show ?thesis
    by (simp add: upsert_record_def record_at_def row_of_update_key)
qed

lemma record_at_written:
  "record_at (written row w) ns k = (if (ns, k) = rec_id row then Some row else record_at w ns k)"
  by (simp add: written_def record_at_upsert)

lemma record_revision_written:
  "record_revision (written (new_record ns k n v) w) ns' k' =
     (if ns' = ns \<and> k' = k then n else record_revision w ns' k')"
  by (simp add: record_revision_def record_at_written)

lemma record_value_written:
  "record_value (written (new_record ns k n v) w) ns' k' =
     (if ns' = ns \<and> k' = k then Some v else record_value w ns' k')"
  by (simp add: record_value_def record_at_written)

lemma row_of_filter_out: "row_of key k (filter (\<lambda>r. key r \<noteq> k) rows) = None"
  by (induction rows) auto

section \<open>Well-formed record tables\<close>

text \<open>
  In a well-formed store a key occurs once, no version lies beyond the key's current revision (0
  for an absent key), versions are unique, and the current row of a versioned namespace is the
  newest version, and every revision from 1 to the current one has been kept.
\<close>

definition wf_records :: "world \<Rightarrow> bool" where
  "wf_records w \<longleftrightarrow>
     distinct (map rec_id (t_records w)) \<and> distinct (map version_id (t_versions w)) \<and>
     (\<forall>r \<in> set (t_records w). 1 \<le> rec_revision r) \<and>
     (\<forall>v \<in> set (t_versions w).
        rec_revision v \<le> record_revision w (rec_namespace v) (rec_key v)) \<and>
     (\<forall>r \<in> set (t_records w). \<not> unversioned (rec_namespace r) \<longrightarrow> r \<in> set (t_versions w)) \<and>
     (\<forall>ns k n. \<not> unversioned ns \<longrightarrow> 1 \<le> n \<longrightarrow> n \<le> record_revision w ns k \<longrightarrow>
        (ns, k, n) \<in> version_id ` set (t_versions w))"

lemma version_not_taken:
  assumes "wf_records w"
  shows "\<not> version_taken w (new_record ns k (record_revision w ns k + 1) v)"
proof
  assume "version_taken w (new_record ns k (record_revision w ns k + 1) v)"
  then obtain row where "row \<in> set (t_versions w)"
    and "rec_namespace row = ns" "rec_key row = k" "rec_revision row = record_revision w ns k + 1"
    by (auto simp: version_taken_def version_id_def)
  with assms have "record_revision w ns k + 1 \<le> record_revision w ns k"
    unfolding wf_records_def by metis
  then show False by simp
qed

lemma set_upsert:
  "set (t_records (upsert_record row w)) \<subseteq> insert row (set (t_records w))"
  by (auto simp: upsert_record_def set_update_rows)

lemma distinct_upsert:
  assumes "distinct (map rec_id (t_records w))"
  shows "distinct (map rec_id (t_records (upsert_record row w)))"
proof (cases "record_at w (rec_namespace row) (rec_key row)")
  case None
  then have "rec_id row \<notin> rec_id ` set (t_records w)"
    by (simp add: record_at_def rec_id_def [of row] row_of_None_iff)
  with None assms show ?thesis by (simp add: upsert_record_def)
next
  case (Some r)
  with assms show ?thesis by (simp add: upsert_record_def distinct_update_rows)
qed

lemma record_revision_nonneg:
  assumes "wf_records w"
  shows "0 \<le> record_revision w ns k"
proof (cases "record_at w ns k")
  case None
  then show ?thesis by (simp add: record_revision_def)
next
  case (Some r)
  then have "r \<in> set (t_records w)" by (auto simp: record_at_def dest: row_of_SomeD)
  with assms have "1 \<le> rec_revision r" by (simp add: wf_records_def)
  with Some show ?thesis by (simp add: record_revision_def)
qed

lemma wf_records_written:
  assumes wf: "wf_records w"
  shows "wf_records (written (new_record ns k (record_revision w ns k + 1) v) w)"
proof -
  let ?row = "new_record ns k (record_revision w ns k + 1) v"
  let ?w = "written ?row w"
  have fresh: "\<not> version_taken w ?row" by (rule version_not_taken [OF wf])
  have recs: "t_records ?w = t_records (upsert_record ?row w)"
    by (simp add: written_def)
  have vers: "t_versions ?w = (if unversioned ns then t_versions w else t_versions w @ [?row])"
    by (simp add: written_def)
  have "distinct (map rec_id (t_records ?w))"
    using wf by (simp add: recs distinct_upsert wf_records_def)
  moreover have "distinct (map version_id (t_versions ?w))"
    using wf fresh by (auto simp: vers wf_records_def version_taken_def)
  moreover have "1 \<le> rec_revision x" if x: "x \<in> set (t_records ?w)" for x
  proof (cases "x = ?row")
    case True
    with record_revision_nonneg [OF wf] show ?thesis by simp
  next
    case False
    with x set_upsert [of ?row w] have "x \<in> set (t_records w)" by (auto simp: recs)
    with wf show ?thesis by (simp add: wf_records_def)
  qed
  moreover have "rec_revision x \<le> record_revision ?w (rec_namespace x) (rec_key x)"
    if x: "x \<in> set (t_versions ?w)" for x
  proof (cases "x = ?row")
    case True
    then show ?thesis by (simp add: record_revision_written)
  next
    case False
    with x have "x \<in> set (t_versions w)" by (simp add: vers split: if_splits)
    with wf have "rec_revision x \<le> record_revision w (rec_namespace x) (rec_key x)"
      by (simp add: wf_records_def)
    then show ?thesis by (auto simp: record_revision_written)
  qed
  moreover have "x \<in> set (t_versions ?w)"
    if x: "x \<in> set (t_records ?w)" and ns: "\<not> unversioned (rec_namespace x)" for x
  proof (cases "x = ?row")
    case True
    with ns show ?thesis by (simp add: vers)
  next
    case False
    with x set_upsert [of ?row w] have "x \<in> set (t_records w)" by (auto simp: recs)
    with wf ns show ?thesis by (auto simp: wf_records_def vers)
  qed
  moreover have "(ns', k', n) \<in> version_id ` set (t_versions ?w)"
    if "\<not> unversioned ns'" "1 \<le> n" "n \<le> record_revision ?w ns' k'" for ns' k' n
  proof (cases "ns' = ns \<and> k' = k \<and> n = record_revision w ns k + 1")
    case True
    with that(1) show ?thesis by (auto simp: vers)
  next
    case False
    with that(3) have "n \<le> record_revision w ns' k'"
      by (auto simp: record_revision_written split: if_splits)
    with wf that(1,2) have "(ns', k', n) \<in> version_id ` set (t_versions w)"
      by (simp add: wf_records_def)
    then show ?thesis by (auto simp: vers)
  qed
  ultimately show ?thesis by (simp add: wf_records_def)
qed


section \<open>The compare-and-set interface\<close>

text \<open>
  What a service relies on when it writes by compare-and-set: a successful write was made at the
  revision it expected, advances that key's revision by one, stores its value and touches no other
  key; an unsuccessful one changes nothing; at the current revision a write succeeds.
\<close>

text \<open>
  Any sequence of attempts, each at the revision its writer believes to be current: the writes that
  succeeded, in order, and the state afterwards.
\<close>

fun attempts ::
  "('k \<Rightarrow> int \<Rightarrow> 'v \<Rightarrow> ('w, 'v) act) \<Rightarrow> ('k \<times> int \<times> 'v) list \<Rightarrow> 'w \<Rightarrow> ('k \<times> 'v) list \<times> 'w" where
  "attempts cas [] w = ([], w)"
| "attempts cas ((k, n, v) # rest) w =
     (case cas k n v w of
        (Inl e, u) \<Rightarrow> attempts cas rest u
      | (Inr x, u) \<Rightarrow> (case attempts cas rest u of (won, t) \<Rightarrow> ((k, v) # won, t)))"

locale cas_store =
  fixes ok :: "'w \<Rightarrow> bool"
    and revision_of :: "'w \<Rightarrow> 'k \<Rightarrow> int"
    and value_of :: "'w \<Rightarrow> 'k \<Rightarrow> 'v option"
    and cas :: "'k \<Rightarrow> int \<Rightarrow> 'v \<Rightarrow> ('w, 'v) act"
  assumes cas_success: "ok w \<Longrightarrow> cas k n v w = (Inr x, u) \<Longrightarrow>
      ok u \<and> revision_of w k = n \<and> revision_of u k = n + 1 \<and> value_of u k = Some v \<and>
      (\<forall>j. j \<noteq> k \<longrightarrow> revision_of u j = revision_of w j \<and> value_of u j = value_of w j)"
    and cas_failure: "ok w \<Longrightarrow> cas k n v w = (Inl e, u) \<Longrightarrow> u = w"
    and cas_current: "ok w \<Longrightarrow> revision_of w k = n \<Longrightarrow> \<exists>x u. cas k n v w = (Inr x, u)"
begin

lemma cas_wins_iff: "ok w \<Longrightarrow> (\<exists>x u. cas k n v w = (Inr x, u)) \<longleftrightarrow> revision_of w k = n"
  using cas_success cas_current by blast

text \<open>A second writer that read the same revision loses: no update is lost.\<close>

lemma no_lost_update:
  assumes "ok w" and "cas k n v w = (Inr x, u)"
  shows "\<exists>e. cas k n v' u = (Inl e, u)"
proof -
  from assms have u: "ok u" "revision_of u k = n + 1" by (blast dest: cas_success)+
  obtain r t where run: "cas k n v' u = (r, t)" by (cases "cas k n v' u")
  show ?thesis
  proof (cases r)
    case (Inl e)
    with run u have "t = u" by (blast dest: cas_failure)
    with run Inl show ?thesis by blast
  next
    case (Inr y)
    with run u have "revision_of u k = n" by (blast dest: cas_success)
    with u show ?thesis by simp
  qed
qed

text \<open>The revision counts the writes that succeeded, and the value is that of the last of them.\<close>

lemma attempts_count:
  "ok w \<Longrightarrow> attempts cas ws w = (won, u) \<Longrightarrow>
   ok u \<and> revision_of u k = revision_of w k + int (length (filter (\<lambda>p. fst p = k) won)) \<and>
   value_of u k = (case map_of (rev won) k of None \<Rightarrow> value_of w k | Some v \<Rightarrow> Some v)"
proof (induction ws arbitrary: w won u)
  case Nil
  then show ?case by simp
next
  case (Cons a rest)
  obtain k' n v where a: "a = (k', n, v)" by (cases a)
  obtain r t where run: "cas k' n v w = (r, t)" by (cases "cas k' n v w")
  show ?case
  proof (cases r)
    case (Inl e)
    with run Cons.prems(1) have "t = w" by (blast dest: cas_failure)
    with Inl run Cons a show ?thesis by simp
  next
    case (Inr x)
    then have run': "cas k' n v w = (Inr x, t)" using run by simp
    obtain won' where won: "attempts cas rest t = (won', u)" "won = (k', v) # won'"
      using Cons.prems(2) run' a by (auto split: prod.splits)
    have step: "ok t" "revision_of t k = revision_of w k + (if k = k' then 1 else 0)"
        "value_of t k = (if k = k' then Some v else value_of w k)"
      using cas_success [OF Cons.prems(1) run'] by auto
    from Cons.IH [OF step(1) won(1)] step won(2) show ?thesis
      by (auto simp: map_add_def split: option.splits)
  qed
qed

end

text \<open>The model's records satisfy the interface outside a transaction.\<close>

definition records_ok :: "world \<Rightarrow> bool" where
  "records_ok w \<longleftrightarrow> wf_records w \<and> \<not> w_active w"

definition cas_record :: "string \<times> string \<Rightarrow> int \<Rightarrow> json \<Rightarrow> json store" where
  "cas_record k n v = compare_and_set (fst k) (snd k) (Some n) v"

lemma written_active [simp]: "w_active (written row w) = w_active w"
  by (simp add: written_def)

interpretation records: cas_store records_ok
  "\<lambda>w k. record_revision w (fst k) (snd k)" "\<lambda>w k. record_value w (fst k) (snd k)" cas_record
proof unfold_locales
  fix w :: world and k :: "string \<times> string" and n v x u
  assume ok: "records_ok w" and run: "cas_record k n v w = (Inr x, u)"
  then have n: "record_revision w (fst k) (snd k) = n"
    and u: "u = written (new_record (fst k) (snd k) (n + 1) v) w"
    by (auto simp: cas_record_def compare_and_set_eval records_ok_def Let_def split: if_splits)
  from ok n have "wf_records u"
    unfolding u n [symmetric] by (intro wf_records_written) (simp add: records_ok_def)
  with ok n show "records_ok u \<and> record_revision w (fst k) (snd k) = n \<and>
      record_revision u (fst k) (snd k) = n + 1 \<and> record_value u (fst k) (snd k) = Some v \<and>
      (\<forall>j. j \<noteq> k \<longrightarrow> record_revision u (fst j) (snd j) = record_revision w (fst j) (snd j) \<and>
        record_value u (fst j) (snd j) = record_value w (fst j) (snd j))"
    by (auto simp: u records_ok_def record_revision_written record_value_written prod_eq_iff)
next
  fix w :: world and k :: "string \<times> string" and n v e u
  assume "records_ok w" and "cas_record k n v w = (Inl e, u)"
  then show "u = w"
    by (auto simp: cas_record_def compare_and_set_eval records_ok_def Let_def split: if_splits)
next
  fix w :: world and k :: "string \<times> string" and n v
  assume ok: "records_ok w" and n: "record_revision w (fst k) (snd k) = n"
  from ok have "\<not> version_taken w (new_record (fst k) (snd k) (n + 1) v)"
    unfolding n [symmetric] by (intro version_not_taken) (simp add: records_ok_def)
  with ok n show "\<exists>x u. cas_record k n v w = (Inr x, u)"
    by (auto simp: cas_record_def compare_and_set_eval records_ok_def)
qed


section \<open>Properties\<close>

lemma distinct_row_of_version:
  assumes "distinct (map version_id vs)" and "row \<in> set vs"
  shows "row_of version_id (version_id row) vs = Some row"
  using assms by (rule row_of_unique)

lemma get_version_written:
  "fst (get_version ns k n w) = Inr (Some x) \<Longrightarrow> fst (get_version ns k n (written row w)) = Inr (Some x)"
  by (auto simp: get_version_def written_def row_of_append split: option.splits)

lemma store_put_ok:
  assumes "wf_records w" and "\<not> w_active w"
  shows "store_put ns k v w = (Inr (), written (new_record ns k (record_revision w ns k + 1) v) w)"
  using assms by (simp add: store_put_eval Let_def version_not_taken)

text \<open>
  Two writers that read the same revision of a record cannot both write: once one
  compare-and-set at a revision has succeeded, another at the same revision is refused and leaves
  the database unchanged.
\<close>

theorem cas_no_lost_update:
  assumes "wf_records w" and "\<not> w_active w"
    and "compare_and_set ns k (Some n) v w = (Inr x, u)"
  shows "\<exists>e. compare_and_set ns k (Some n) v' u = (Inl e, u)"
  using records.no_lost_update [of w "(ns, k)" n v x u v'] assms
  by (simp add: cas_record_def records_ok_def)

text \<open>
  C14: over any interleaving of compare-and-set attempts by any writers, a record's revision
  advances by exactly the number of attempts on it that succeeded and its value is the one the
  last of them wrote; every other attempt had no effect.
\<close>

theorem cas_history_linear:
  assumes "wf_records w" and "\<not> w_active w" and "attempts cas_record ws w = (won, u)"
  shows "record_revision u ns k =
      record_revision w ns k + int (length (filter (\<lambda>p. fst p = (ns, k)) won)) \<and>
    record_value u ns k =
      (case map_of (rev won) (ns, k) of None \<Rightarrow> record_value w ns k | Some v \<Rightarrow> Some v)"
  using records.attempts_count [of w ws won u "(ns, k)"] assms
  by (simp add: records_ok_def split: option.split)

text \<open>
  A put always succeeds in a well-formed store, is read back by get, keeps the store
  well-formed, leaves every version that could be read before readable with the same value, and in
  a versioned namespace every revision from 1 to the current one can be read back.
\<close>

theorem put_keeps_history:
  assumes wf: "wf_records w" and "\<not> w_active w" and run: "store_put ns k v w = (r, u)"
  shows "r = Inr () \<and> store_get ns k u = (Inr (Some v), u) \<and> wf_records u \<and>
    (\<forall>ns' k' n x. fst (get_version ns' k' n w) = Inr (Some x) \<longrightarrow>
       fst (get_version ns' k' n u) = Inr (Some x)) \<and>
    (\<not> unversioned ns \<longrightarrow>
       (\<forall>n. 1 \<le> n \<and> n \<le> record_revision u ns k \<longrightarrow> (\<exists>x. fst (get_version ns k n u) = Inr (Some x))))"
proof -
  have u: "r = Inr ()" "u = written (new_record ns k (record_revision w ns k + 1) v) w"
    using store_put_ok [OF assms(1,2)] run by auto
  have wfu: "wf_records u" unfolding u by (rule wf_records_written [OF wf])
  have "\<exists>x. fst (get_version ns k n u) = Inr (Some x)"
    if "\<not> unversioned ns" "1 \<le> n" "n \<le> record_revision u ns k" for n
  proof -
    from wfu that have "(ns, k, n) \<in> version_id ` set (t_versions u)"
      by (simp add: wf_records_def)
    then have "row_of version_id (ns, k, n) (t_versions u) \<noteq> None"
      by (simp add: row_of_None_iff)
    then show ?thesis by (auto simp: get_version_def)
  qed
  with u wfu show ?thesis
    by (auto simp: store_get_def record_value_written intro: get_version_written)
qed

text \<open>
  C16: deleting a record of a versioned namespace and then writing the same key again does not
  work: the new row restarts at revision 1, whose version row is still there, and the write fails
  with an integrity error. So a plugin contribution that was removed cannot be registered again.
\<close>

theorem put_after_delete_fails:
  assumes wf: "wf_records w" and "\<not> w_active w" and "\<not> unversioned ns"
    and there: "record_value w ns k = Some x" and run: "store_delete ns k w = (r, u)"
  shows "store_put ns k v u = (Inl SqlIntegrityError, u)"
proof -
  have u: "u = w\<lparr>t_records := filter (\<lambda>r. rec_id r \<noteq> (ns, k)) (t_records w)\<rparr>"
    using run by (simp add: store_delete_def)
  obtain row where row: "record_at w ns k = Some row"
    using there by (auto simp: record_value_def)
  then have "row \<in> set (t_records w)"
    by (auto simp: record_at_def dest: row_of_SomeD)
  with wf row have "1 \<le> record_revision w ns k"
    by (simp add: wf_records_def record_revision_def)
  with wf assms(3) have "(ns, k, 1) \<in> version_id ` set (t_versions w)"
    by (simp add: wf_records_def)
  moreover have "record_revision u ns k = 0"
    by (simp add: u record_revision_def record_at_def row_of_filter_out)
  ultimately show ?thesis
    using assms(2,3) by (simp add: store_put_eval Let_def version_taken_def u)
qed

section \<open>Concrete runs\<close>

definition fresh_store :: world where "fresh_store = empty_world (\<lambda>n. replicate n CHR ''x'') 0"

lemma fresh_store_wf: "wf_records fresh_store" "\<not> w_active fresh_store"
  by (simp_all add: fresh_store_def empty_world_def wf_records_def record_revision_def record_at_def)

lemma cas_no_lost_update_witness:
  "\<exists>e. compare_and_set ''ns'' ''k'' (Some 0) (JInt 2)
     (snd (compare_and_set ''ns'' ''k'' (Some 0) (JInt 1) fresh_store)) =
   (Inl e, snd (compare_and_set ''ns'' ''k'' (Some 0) (JInt 1) fresh_store))"
proof -
  have "fst (compare_and_set ''ns'' ''k'' (Some 0) (JInt 1) fresh_store) = Inr (JInt 1)"
    by code_simp
  from cas_no_lost_update [OF fresh_store_wf run_split [OF this]] show ?thesis .
qed

lemma cas_history_linear_witness:
  "record_revision (snd (attempts cas_record
       [((''ns'', ''k''), 0, JInt 1), ((''ns'', ''k''), 0, JInt 2), ((''ns'', ''k''), 1, JInt 3)]
       fresh_store)) ''ns'' ''k'' = 2"
proof -
  let ?ws = "[((''ns'', ''k''), 0, JInt 1), ((''ns'', ''k''), 0, JInt 2), ((''ns'', ''k''), 1, JInt 3)]"
  have "fst (attempts cas_record ?ws fresh_store) = [((''ns'', ''k''), JInt 1), ((''ns'', ''k''), JInt 3)]"
    by code_simp
  from cas_history_linear [OF fresh_store_wf run_split [OF this], of "''ns''" "''k''"]
  show ?thesis by (simp add: fresh_store_def empty_world_def record_revision_def record_at_def)
qed

lemma put_keeps_history_witness:
  "wf_records (snd (store_put ''ns'' ''k'' (JInt 1) fresh_store))"
  using put_keeps_history [OF fresh_store_wf prod.collapse [symmetric], of "''ns''" "''k''" "JInt 1"]
  by blast

lemma put_after_delete_fails_witness:
  "fst (store_put ''ns'' ''k'' (JInt 2) (snd (store_delete ''ns'' ''k''
     (snd (store_put ''ns'' ''k'' (JInt 1) fresh_store))))) = Inl SqlIntegrityError"
proof -
  let ?w = "snd (store_put ''ns'' ''k'' (JInt 1) fresh_store)"
  have w: "?w = written (new_record ''ns'' ''k'' 1 (JInt 1)) fresh_store"
    using store_put_ok [OF fresh_store_wf, of "''ns''" "''k''"]
    by (simp add: fresh_store_def empty_world_def record_revision_def record_at_def)
  have "wf_records ?w"
    unfolding w using wf_records_written [OF fresh_store_wf(1), of "''ns''" "''k''"]
    by (simp add: fresh_store_def empty_world_def record_revision_def record_at_def)
  moreover have "\<not> w_active ?w" "record_value ?w ''ns'' ''k'' = Some (JInt 1)" by code_simp+
  moreover have "\<not> unversioned ''ns''" by code_simp
  ultimately show ?thesis
    using put_after_delete_fails [OF _ _ _ _ prod.collapse [symmetric], of ?w "''ns''" "''k''" "JInt 1" "JInt 2"]
    by simp
qed

end
