(* ===== verification/Store_Runs.thy ===== *)
theory Store_Runs
  imports Store_Records
begin

text \<open>
  Runs, branches, worker attempts, the durable event log, the outbox and messages of
  \<^verbatim>\<open>harness/storage/store.py\<close>. Every statement is modelled with its conditions and with the
  primary keys and unique constraints of the schema, which raise an integrity error; foreign keys
  are not: the code reads the referenced row before it writes the reference.
\<close>

section \<open>Statements\<close>

definition insert_unique ::
  "(world \<Rightarrow> 'r list) \<Rightarrow> (('r list \<Rightarrow> 'r list) \<Rightarrow> world \<Rightarrow> world) \<Rightarrow> ('r \<Rightarrow> 'k) \<Rightarrow> 'r \<Rightarrow> unit store" where
  "insert_unique tbl upd key row =
     bnd (gets tbl) (\<lambda>rows.
     andthen (raise_if (key row \<in> key ` set rows) SqlIntegrityError)
       (modify (upd (\<lambda>rs. rs @ [row]))))"

definition update_where ::
  "(('r list \<Rightarrow> 'r list) \<Rightarrow> world \<Rightarrow> world) \<Rightarrow> ('r \<Rightarrow> bool) \<Rightarrow> ('r \<Rightarrow> 'r) \<Rightarrow> unit store" where
  "update_where upd p f = modify (upd (update_rows p f))"

lemma insert_unique_apply:
  "insert_unique tbl upd key row w =
     (if key row \<in> key ` set (tbl w) then (Inl SqlIntegrityError, w)
      else (Inr (), upd (\<lambda>rs. rs @ [row]) w))"
  by (simp add: insert_unique_def bnd_def andthen_def raise_if_def)

lemma update_where_apply [simp]: "update_where upd p f w = (Inr (), upd (update_rows p f) w)"
  by (simp add: update_where_def)

lemma tri_insert_unique:
  assumes "\<And>w. R w w"
    and "\<And>w. P w \<Longrightarrow> key row \<notin> key ` set (tbl w) \<Longrightarrow>
      R w (upd (\<lambda>rs. rs @ [row]) w) \<and> Q () (upd (\<lambda>rs. rs @ [row]) w)"
  shows "tri R P (insert_unique tbl upd key row) Q"
  using assms by (auto simp: tri_def insert_unique_apply)

lemma tri_update_where:
  assumes "\<And>w. P w \<Longrightarrow> R w (upd (update_rows p f) w) \<and> Q () (upd (update_rows p f) w)"
  shows "tri R P (update_where upd p f) Q"
  using assms by (auto simp: tri_def)

text \<open>\<^verbatim>\<open>ORDER BY created_at, id\<close>: the position of a run in the queue.\<close>

datatype queue_pos = Queue_pos (qp_created: timestamp) (qp_id: string)

instantiation queue_pos :: linorder
begin

definition less_eq_queue_pos :: "queue_pos \<Rightarrow> queue_pos \<Rightarrow> bool" where
  "less_eq_queue_pos p q \<longleftrightarrow>
     qp_created p < qp_created q \<or> qp_created p = qp_created q \<and> qp_id p \<le> qp_id q"

definition less_queue_pos :: "queue_pos \<Rightarrow> queue_pos \<Rightarrow> bool" where
  "less_queue_pos p q \<longleftrightarrow>
     qp_created p < qp_created q \<or> qp_created p = qp_created q \<and> qp_id p < qp_id q"

instance
  by standard (auto simp: less_eq_queue_pos_def less_queue_pos_def intro: queue_pos.expand)

end

section \<open>Branches\<close>

definition store_branch :: "string \<Rightarrow> branch_row store" where
  "store_branch i =
     bnd (gets (\<lambda>w. row_of b_id i (t_branches w))) (need (HErr ''NOT_FOUND'' 404))"

definition store_branches :: "string \<Rightarrow> branch_row list store" where
  "store_branches session_id =
     gets (\<lambda>w. sort_key b_created (filter (\<lambda>b. b_session b = session_id) (t_branches w)))"

definition add_branch ::
  "string \<Rightarrow> string option \<Rightarrow> checkpoint_ref option \<Rightarrow> string option \<Rightarrow> branch_row store" where
  "add_branch session_id parent_id checkpoint graph_thread_key =
     bnd new_id (\<lambda>identity.
     bnd (case graph_thread_key of Some k \<Rightarrow> (if k = '''' then new_id else ret k) | None \<Rightarrow> new_id) (\<lambda>thread.
     bnd utc_now (\<lambda>now.
     bnd (gets t_branches) (\<lambda>rows.
     andthen (raise_if (thread \<in> b_thread ` set rows) SqlIntegrityError)
     (andthen (insert_unique t_branches t_branches_update b_id
        \<lparr>b_id = identity, b_session = session_id, b_parent = parent_id, b_thread = thread,
         b_checkpoint = checkpoint, b_active = None, b_revision = 1, b_created = now\<rparr>)
     (store_branch identity))))))"

definition advance_branch :: "string \<Rightarrow> int \<Rightarrow> int store" where
  "advance_branch branch_id expected_revision =
     bnd (gets (\<lambda>w. row_of b_id branch_id (t_branches w))) (\<lambda>row.
     andthen (raise_if (\<not> (case row of None \<Rightarrow> False | Some b \<Rightarrow> b_revision b = expected_revision))
       (HErr ''REVISION_CONFLICT'' 409))
     (andthen (update_where t_branches_update (\<lambda>b. b_id b = branch_id)
        (\<lambda>b. b\<lparr>b_revision := b_revision b + 1\<rparr>))
     (ret (expected_revision + 1))))"

definition set_branch_owner :: "string \<Rightarrow> string option \<Rightarrow> string option \<Rightarrow> unit store" where
  "set_branch_owner branch_id expected run_id =
     bnd (gets (\<lambda>w. row_of b_id branch_id (t_branches w))) (\<lambda>row.
     andthen (raise_if (\<not> (case row of None \<Rightarrow> False | Some b \<Rightarrow> b_active b = expected))
       (HErr ''BRANCH_BUSY'' 409))
     (update_where t_branches_update (\<lambda>b. b_id b = branch_id) (\<lambda>b. b\<lparr>b_active := run_id\<rparr>)))"

section \<open>Runs\<close>

text \<open>\<^verbatim>\<open>run(identity, owner)\<close>: an owner that is given and not empty must match.\<close>

definition store_run :: "string \<Rightarrow> string option \<Rightarrow> run_row store" where
  "store_run i owner =
     bnd (gets (\<lambda>w. row_of r_id i (t_runs w))) (\<lambda>row.
     case row of
       None \<Rightarrow> raise (HErr ''NOT_FOUND'' 404)
     | Some r \<Rightarrow>
         (case owner of
            Some own \<Rightarrow> (if own \<noteq> '''' \<and> r_owner r \<noteq> own then raise (HErr ''NOT_FOUND'' 404) else ret r)
          | None \<Rightarrow> ret r))"

definition queue_key :: "run_row \<Rightarrow> queue_pos" where
  "queue_key r = Queue_pos (r_created r) (r_id r)"

definition store_runs ::
  "string option \<Rightarrow> run_status list \<Rightarrow> string option \<Rightarrow> run_row list store" where
  "store_runs session_id statuses root_id =
     gets (\<lambda>w. sort_key queue_key (filter (\<lambda>r.
        (case session_id of None \<Rightarrow> True | Some s \<Rightarrow> s = '''' \<or> r_session r = s) \<and>
        (case root_id of None \<Rightarrow> True | Some s \<Rightarrow> s = '''' \<or> r_root r = s) \<and>
        (statuses = [] \<or> r_status r \<in> set statuses)) (t_runs w)))"

definition insert_run :: "run_row \<Rightarrow> run_row store" where
  "insert_run row =
     andthen (insert_unique t_runs t_runs_update r_id
       (row\<lparr>r_checkpoint := None, r_result := None, r_error := None, r_next_seq := 1, r_fence := 0,
            r_attempt := None, r_cancel := False, r_required := []\<rparr>))
     (store_run (r_id row) None)"

datatype run_patch =
    P_status run_status
  | P_input_revision int
  | P_checkpoint "checkpoint_ref option"
  | P_result "artifact_ref option"
  | P_error "error_envelope option"
  | P_fence int
  | P_attempt "string option"
  | P_cancel bool
  | P_required "string list"

fun patch_run :: "run_patch \<Rightarrow> run_row \<Rightarrow> run_row" where
  "patch_run (P_status s) r = r\<lparr>r_status := s\<rparr>"
| "patch_run (P_input_revision n) r = r\<lparr>r_input_revision := n\<rparr>"
| "patch_run (P_checkpoint c) r = r\<lparr>r_checkpoint := c\<rparr>"
| "patch_run (P_result a) r = r\<lparr>r_result := a\<rparr>"
| "patch_run (P_error e) r = r\<lparr>r_error := e\<rparr>"
| "patch_run (P_fence n) r = r\<lparr>r_fence := n\<rparr>"
| "patch_run (P_attempt a) r = r\<lparr>r_attempt := a\<rparr>"
| "patch_run (P_cancel b) r = r\<lparr>r_cancel := b\<rparr>"
| "patch_run (P_required xs) r = r\<lparr>r_required := xs\<rparr>"

definition patched :: "run_patch list \<Rightarrow> timestamp \<Rightarrow> run_row \<Rightarrow> run_row" where
  "patched ps now r = (fold patch_run ps r)\<lparr>r_revision := r_revision r + 1, r_updated := now\<rparr>"

section \<open>Attempts and the fence\<close>

definition store_attempt :: "string \<Rightarrow> attempt_row option store" where
  "store_attempt i = gets (\<lambda>w. row_of a_id i (t_attempts w))"

definition assert_fence :: "execution_context \<Rightarrow> bool \<Rightarrow> unit store" where
  "assert_fence ctx allow_cancelling =
     bnd (store_run (c_run ctx) None) (\<lambda>row.
     bnd (store_attempt (c_attempt ctx)) (\<lambda>attempt.
     bnd utc_now (\<lambda>now.
     andthen (raise_if
       (r_fence row \<noteq> c_fence ctx \<or> r_attempt row \<noteq> Some (c_attempt ctx) \<or>
        (case attempt of None \<Rightarrow> True | Some a \<Rightarrow> a_ended a \<noteq> None \<or> a_lease a \<le> now))
       (HErr ''STALE_WORKER'' 409))
     (raise_if
       (r_status row \<notin> (if allow_cancelling then {running, cancelling} else {running}) \<or>
        r_cancel row \<and> \<not> allow_cancelling)
       (HErr ''RUN_STOPPED'' 409)))))"

definition update_run ::
  "string \<Rightarrow> int \<Rightarrow> run_patch list \<Rightarrow> execution_context option \<Rightarrow> run_row store" where
  "update_run i expected patch ctx =
     transaction
       (andthen (case ctx of None \<Rightarrow> ret () | Some c \<Rightarrow> assert_fence c True)
       (bnd utc_now (\<lambda>now.
        bnd (gets (\<lambda>w. row_of r_id i (t_runs w))) (\<lambda>row.
        andthen (raise_if (\<not> (case row of None \<Rightarrow> False | Some r \<Rightarrow> r_revision r = expected))
          (HErr ''REVISION_CONFLICT'' 409))
        (andthen (update_where t_runs_update (\<lambda>r. r_id r = i) (patched patch now))
        (store_run i None))))))"

definition add_attempt ::
  "string \<Rightarrow> string \<Rightarrow> string \<Rightarrow> int \<Rightarrow> rat \<Rightarrow> timestamp \<Rightarrow> int \<Rightarrow> unit store" where
  "add_attempt i run_id worker_id pid process_start lease_expiry fencing_token =
     bnd utc_now (\<lambda>now.
     insert_unique t_attempts t_attempts_update a_id
       \<lparr>a_id = i, a_run = run_id, a_worker = worker_id, a_pid = pid, a_start = process_start,
        a_lease = lease_expiry, a_fence = fencing_token, a_ended = None, a_reason = None,
        a_created = now\<rparr>)"

definition store_heartbeat :: "execution_context \<Rightarrow> timestamp \<Rightarrow> unit store" where
  "store_heartbeat ctx expiry =
     transaction
       (andthen (assert_fence ctx True)
       (update_where t_attempts_update (\<lambda>a. a_id a = c_attempt ctx \<and> a_ended a = None)
          (\<lambda>a. a\<lparr>a_lease := expiry\<rparr>)))"

definition end_attempt :: "string \<Rightarrow> string \<Rightarrow> unit store" where
  "end_attempt i reason =
     bnd utc_now (\<lambda>now.
     update_where t_attempts_update (\<lambda>a. a_id a = i \<and> a_ended a = None)
       (\<lambda>a. a\<lparr>a_ended := Some now, a_reason := Some reason\<rparr>))"

section \<open>Outbox and events\<close>

text \<open>\<^verbatim>\<open>INSERT OR IGNORE\<close>: a row with the same consumer and key is left alone.\<close>

definition store_outbox :: "string \<Rightarrow> string \<Rightarrow> json \<Rightarrow> unit store" where
  "store_outbox consumer key payload =
     bnd new_id (\<lambda>identity.
     bnd utc_now (\<lambda>now.
     bnd (gets t_outbox) (\<lambda>rows.
     whenever ((consumer, key) \<notin> (\<lambda>o'. (ob_consumer o', ob_key o')) ` set rows \<and>
           identity \<notin> ob_id ` set rows)
       (modify (t_outbox_update (\<lambda>rs. rs @ [
          \<lparr>ob_id = identity, ob_consumer = consumer, ob_key = key, ob_payload = payload,
           ob_delivered = None, ob_created = now\<rparr>]))))))"

definition pending_outbox :: "string \<Rightarrow> outbox_row list store" where
  "pending_outbox consumer =
     gets (\<lambda>w. take 200 (sort_key ob_created
        (filter (\<lambda>o'. ob_consumer o' = consumer \<and> ob_delivered o' = None) (t_outbox w))))"

definition deliver_outbox :: "string \<Rightarrow> unit store" where
  "deliver_outbox identity =
     bnd utc_now (\<lambda>now.
     update_where t_outbox_update (\<lambda>o'. ob_id o' = identity) (\<lambda>o'. o'\<lparr>ob_delivered := Some now\<rparr>))"

definition publish_event_outbox :: "unit store" where
  "publish_event_outbox =
     bnd utc_now (\<lambda>now.
     bnd (gets t_events) (\<lambda>events.
     update_where t_outbox_update
       (\<lambda>o'. ob_consumer o' = ''events'' \<and> ob_delivered o' = None \<and> ob_key o' \<in> e_id ` set events)
       (\<lambda>o'. o'\<lparr>ob_delivered := Some now\<rparr>)))"

definition envelope_json :: "event_row \<Rightarrow> json" where
  "envelope_json e = JObj
     [(''schema_version'', JInt 1), (''event_id'', JStr (e_id e)), (''run_id'', JStr (e_run e)),
      (''type'', JStr (e_type e)), (''timestamp'', JInt (int (e_time e))),
      (''durability'', JStr ''durable''), (''seq'', JInt (e_seq e)), (''data'', e_payload e)]"

text \<open>
  \<open>event\<close>: the run's counter gives the sequence number. The constraints of the event table are
  checked before the counter is advanced; the code meets them after it, inside a transaction that
  then undoes the advance.
\<close>

definition store_event :: "string \<Rightarrow> string \<Rightarrow> json \<Rightarrow> event_row store" where
  "store_event run_id event_type data =
     transaction
       (bnd (store_run run_id None) (\<lambda>run.
        bnd new_id (\<lambda>eid.
        bnd utc_now (\<lambda>now.
        bnd (ret \<lparr>e_id = eid, e_run = run_id, e_seq = r_next_seq run, e_type = event_type,
                  e_payload = data, e_time = now\<rparr>) (\<lambda>event.
        bnd (gets t_events) (\<lambda>rows.
        andthen (raise_if ((run_id, r_next_seq run) \<in> (\<lambda>e. (e_run e, e_seq e)) ` set rows \<or>
            eid \<in> e_id ` set rows) SqlIntegrityError)
        (andthen (update_where t_runs_update (\<lambda>r. r_id r = run_id)
            (\<lambda>r. r\<lparr>r_next_seq := r_next_seq r + 1\<rparr>))
        (andthen (modify (t_events_update (\<lambda>rs. rs @ [event])))
        (andthen (store_outbox ''events'' eid (envelope_json event))
        (ret event))))))))))"

text \<open>A reader's page: the events after a cursor, in sequence order, at most \<open>limit\<close> of them.\<close>

definition store_events :: "string \<Rightarrow> int \<Rightarrow> nat \<Rightarrow> event_row list store" where
  "store_events run_id after limit =
     gets (\<lambda>w. take limit (sort_key e_seq
        (filter (\<lambda>e. e_run e = run_id \<and> after < e_seq e) (t_events w))))"

definition event_range :: "string \<Rightarrow> (int \<times> int) store" where
  "event_range run_id =
     gets (\<lambda>w. let seqs = map e_seq (filter (\<lambda>e. e_run e = run_id) (t_events w))
               in case seqs of [] \<Rightarrow> (1, 0) | s # ss \<Rightarrow>
                    (let lo = fold min ss s; hi = fold max ss s
                     in (if lo = 0 then 1 else lo, hi)))"

section \<open>Messages\<close>

definition add_message :: "string \<Rightarrow> string \<Rightarrow> string \<Rightarrow> json \<Rightarrow> unit store" where
  "add_message run_id message_id role payload =
     transaction
       (bnd (store_run run_id None) (\<lambda>row.
        bnd (gets (\<lambda>w. row_of m_id message_id (t_messages w))) (\<lambda>existing.
        case existing of
          Some m \<Rightarrow> raise_if (canon (m_payload m) \<noteq> canon payload) (HErr ''MESSAGE_CONFLICT'' 409)
        | None \<Rightarrow>
            bnd utc_now (\<lambda>now.
            andthen (insert_unique t_messages t_messages_update m_id
              \<lparr>m_id = message_id, m_run = run_id, m_branch = r_branch row, m_role = role,
               m_payload = payload, m_created = now\<rparr>)
            (bnd (store_event run_id ''message.committed'' payload) (\<lambda>_. ret ()))))))"

definition store_messages :: "string \<Rightarrow> string option \<Rightarrow> json list store" where
  "store_messages branch_id run_id =
     gets (\<lambda>w. map m_payload (filter (\<lambda>m. m_branch m = branch_id \<and>
        (case run_id of None \<Rightarrow> True | Some r \<Rightarrow> r = '''' \<or> m_run m = r)) (t_messages w)))"

section \<open>Dependencies\<close>

definition store_dependency :: "string \<Rightarrow> dependency_row option store" where
  "store_dependency key = gets (\<lambda>w. row_of dp_key key (t_dependencies w))"

definition add_dependency :: "string \<Rightarrow> string \<Rightarrow> string \<Rightarrow> string \<Rightarrow> unit store" where
  "add_dependency parent child key args_hash =
     bnd (gets t_dependencies) (\<lambda>rows.
     andthen (raise_if ((parent, child) \<in> (\<lambda>d. (dp_parent d, dp_child d)) ` set rows) SqlIntegrityError)
     (insert_unique t_dependencies t_dependencies_update dp_key
        \<lparr>dp_parent = parent, dp_child = child, dp_key = key, dp_args_hash = args_hash\<rparr>))"

definition store_children :: "string \<Rightarrow> run_row list store" where
  "store_children parent =
     bnd (gets (\<lambda>w. filter (\<lambda>d. dp_parent d = parent) (t_dependencies w))) (\<lambda>deps.
     collect deps (\<lambda>d. store_run (dp_child d) None))"

end
