(* ===== verification/Run_Steps.thy ===== *)
theory Run_Steps
  imports Store_Runs
begin

text \<open>
  The abstract specification of what the program may do to runs, branches and the event log: an
  inductive step relation with one rule per kind of change, its guards the conditions under which
  the change is allowed. The operations of the store keep to it (proved here), and the scheduler's
  operations keep to it (proved where they are defined); the safety properties are invariants of
  the relation, proved once by rule induction.
\<close>

section \<open>Allowed transitions\<close>

text \<open>The table \<^verbatim>\<open>ALLOWED\<close> of \<^verbatim>\<open>harness/scheduler/service.py\<close>.\<close>

fun allowed_next :: "run_status \<Rightarrow> run_status list" where
  "allowed_next queued = [running, cancelled]"
| "allowed_next running =
     [waiting_user, waiting_children, recovering, needs_review, completed, failed, cancelling]"
| "allowed_next waiting_user = [queued, cancelled, cancelling]"
| "allowed_next waiting_children = [queued, cancelling]"
| "allowed_next recovering = [queued, needs_review, cancelling]"
| "allowed_next needs_review = [queued, cancelling]"
| "allowed_next cancelling = [cancelled]"
| "allowed_next _ = []"

definition allowed :: "run_status \<Rightarrow> run_status \<Rightarrow> bool" where
  "allowed s t \<longleftrightarrow> t \<in> set (allowed_next s)"

lemma terminal_final: "terminal s \<Longrightarrow> \<not> allowed s t"
  by (cases s) (auto simp: allowed_def)

lemma allowed_running: "allowed s running \<Longrightarrow> s = queued"
  by (cases s) (auto simp: allowed_def)

section \<open>Steps\<close>

definition run_at :: "world \<Rightarrow> string \<Rightarrow> run_row option" where
  "run_at w i = row_of r_id i (t_runs w)"

definition branch_at :: "world \<Rightarrow> string \<Rightarrow> branch_row option" where
  "branch_at w i = row_of b_id i (t_branches w)"

definition core :: "world \<Rightarrow> run_row list \<times> branch_row list \<times> event_row list" where
  "core w = (t_runs w, t_branches w, t_events w)"

text \<open>Patches that change neither status, fence nor attempt, and never withdraw a cancellation.\<close>

fun quiet_patch :: "run_patch \<Rightarrow> bool" where
  "quiet_patch (P_status s) = False"
| "quiet_patch (P_fence n) = False"
| "quiet_patch (P_attempt a) = False"
| "quiet_patch (P_cancel b) = b"
| "quiet_patch _ = True"

definition put_run :: "string \<Rightarrow> (run_row \<Rightarrow> run_row) \<Rightarrow> world \<Rightarrow> world" where
  "put_run i f w = w\<lparr>t_runs := update_rows (\<lambda>r. r_id r = i) f (t_runs w)\<rparr>"

definition put_branch :: "string \<Rightarrow> (branch_row \<Rightarrow> branch_row) \<Rightarrow> world \<Rightarrow> world" where
  "put_branch i f w = w\<lparr>t_branches := update_rows (\<lambda>b. b_id b = i) f (t_branches w)\<rparr>"

definition fresh_run :: "run_row \<Rightarrow> bool" where
  "fresh_run r \<longleftrightarrow> r_status r = queued \<and> r_next_seq r = 1 \<and> r_fence r = 0 \<and>
     r_attempt r = None \<and> \<not> r_cancel r"

inductive run_step :: "world \<Rightarrow> world \<Rightarrow> bool" where
  other: "core v = core w \<Longrightarrow> run_step w v"
| log_event: "run_at w i = Some r \<Longrightarrow> e_run e = i \<Longrightarrow> e_seq e = r_next_seq r \<Longrightarrow>
     core v = core ((put_run i (\<lambda>r. r\<lparr>r_next_seq := r_next_seq r + 1\<rparr>) w)
       \<lparr>t_events := t_events w @ [e]\<rparr>) \<Longrightarrow> run_step w v"
| new_run: "run_at w (r_id r) = None \<Longrightarrow> fresh_run r \<Longrightarrow>
     core v = core (w\<lparr>t_runs := t_runs w @ [r]\<rparr>) \<Longrightarrow> run_step w v"
| new_branch: "branch_at w (b_id b) = None \<Longrightarrow> b_active b = None \<Longrightarrow>
     core v = core (w\<lparr>t_branches := t_branches w @ [b]\<rparr>) \<Longrightarrow> run_step w v"
| advance: "core v = core (put_branch i (\<lambda>b. b\<lparr>b_revision := b_revision b + 1\<rparr>) w) \<Longrightarrow>
     run_step w v"
| acquire: "branch_at w i = Some b \<Longrightarrow> b_active b = None \<or> b_active b = Some j \<Longrightarrow>
     core v = core (put_branch i (\<lambda>b. b\<lparr>b_active := Some j\<rparr>) w) \<Longrightarrow> run_step w v"
| release: "branch_at w i = Some b \<Longrightarrow> b_active b = Some j \<Longrightarrow>
     run_at w j = Some r \<Longrightarrow> terminal (r_status r) \<Longrightarrow>
     core v = core (put_branch i (\<lambda>b. b\<lparr>b_active := None\<rparr>) w) \<Longrightarrow> run_step w v"
| adjust: "list_all quiet_patch ps \<Longrightarrow> core v = core (put_run i (patched ps now) w) \<Longrightarrow> run_step w v"
| move: "run_at w i = Some r \<Longrightarrow> allowed (r_status r) s \<Longrightarrow> s \<noteq> running \<Longrightarrow>
     list_all quiet_patch ps \<Longrightarrow>
     core v = core (put_run i (patched (P_status s # ps) now) w) \<Longrightarrow> run_step w v"
| start: "run_at w i = Some r \<Longrightarrow> r_status r = queued \<Longrightarrow>
     branch_at w (r_branch r) = Some b \<Longrightarrow> b_active b = Some i \<Longrightarrow>
     core v = core (put_run i
       (patched [P_status running, P_attempt (Some a), P_fence (r_fence r + 1)] now) w) \<Longrightarrow>
     run_step w v"

definition run_path :: "world \<Rightarrow> world \<Rightarrow> bool" where
  "run_path = run_step\<^sup>*\<^sup>*"

lemma run_path_refl [simp]: "run_path w w"
  by (simp add: run_path_def)

lemma run_path_step: "run_step w v \<Longrightarrow> run_path w v"
  by (simp add: run_path_def)

lemma run_path_core: "core v = core w \<Longrightarrow> run_path w v"
  by (blast intro: run_path_step other)

interpretation path: db_history run_path
proof unfold_locales
  show "run_path w w" for w by simp
  show "run_path u v \<Longrightarrow> run_path v w \<Longrightarrow> run_path u w" for u v w
    by (auto simp: run_path_def)
  show "run_path w (w\<lparr>w_active := b\<rparr>)" "run_path w (w\<lparr>w_seed := n\<rparr>)" for w b n
    by (auto intro!: run_path_core simp: core_def)
qed

interpretation same_core: db_history "same_view core"
  by unfold_locales (auto simp: same_view_def core_def)

text \<open>An action that leaves runs, branches and events alone keeps to the specification.\<close>

lemma keeps_path_of_core: "keeps (same_view core) m \<Longrightarrow> keeps run_path m"
  by (erule tri_mono) (auto simp: same_view_def intro: run_path_core)

section \<open>Invariants of the specification\<close>

lemma quiet_patch_keeps:
  "quiet_patch p \<Longrightarrow> r_status (patch_run p r) = r_status r \<and> r_fence (patch_run p r) = r_fence r \<and>
     r_attempt (patch_run p r) = r_attempt r \<and> (r_cancel r \<longrightarrow> r_cancel (patch_run p r))"
  by (cases p) auto

lemma patch_keeps_identity:
  "r_id (patch_run p r) = r_id r \<and> r_branch (patch_run p r) = r_branch r \<and>
   r_next_seq (patch_run p r) = r_next_seq r \<and> r_root (patch_run p r) = r_root r \<and>
   r_parent (patch_run p r) = r_parent r \<and> r_owner (patch_run p r) = r_owner r \<and>
   r_depth (patch_run p r) = r_depth r"
  by (cases p) auto

lemma fold_quiet:
  "list_all quiet_patch ps \<Longrightarrow>
   r_status (fold patch_run ps r) = r_status r \<and> r_fence (fold patch_run ps r) = r_fence r \<and>
   r_attempt (fold patch_run ps r) = r_attempt r \<and> (r_cancel r \<longrightarrow> r_cancel (fold patch_run ps r))"
  by (induction ps arbitrary: r) (auto simp: quiet_patch_keeps)

lemma fold_identity:
  "r_id (fold patch_run ps r) = r_id r \<and> r_branch (fold patch_run ps r) = r_branch r \<and>
   r_next_seq (fold patch_run ps r) = r_next_seq r \<and> r_root (fold patch_run ps r) = r_root r \<and>
   r_parent (fold patch_run ps r) = r_parent r \<and> r_owner (fold patch_run ps r) = r_owner r \<and>
   r_depth (fold patch_run ps r) = r_depth r"
  by (induction ps arbitrary: r) (auto simp: patch_keeps_identity)

lemma patched_simps [simp]:
  "r_id (patched ps now r) = r_id r" "r_branch (patched ps now r) = r_branch r"
  "r_next_seq (patched ps now r) = r_next_seq r" "r_root (patched ps now r) = r_root r"
  "r_parent (patched ps now r) = r_parent r" "r_owner (patched ps now r) = r_owner r"
  "r_depth (patched ps now r) = r_depth r"
  "r_revision (patched ps now r) = r_revision r + 1" "r_updated (patched ps now r) = now"
  by (simp_all add: patched_def fold_identity)

lemma patched_quiet [simp]:
  assumes "list_all quiet_patch ps"
  shows "r_status (patched ps now r) = r_status r" "r_fence (patched ps now r) = r_fence r"
    "r_attempt (patched ps now r) = r_attempt r"
    "r_status (patched (P_status s # ps) now r) = s"
    "r_fence (patched (P_status s # ps) now r) = r_fence r"
    "r_attempt (patched (P_status s # ps) now r) = r_attempt r"
  using fold_quiet [OF assms] by (simp_all add: patched_def)

lemma patched_cancel:
  "list_all quiet_patch ps \<Longrightarrow> r_cancel r \<Longrightarrow> r_cancel (patched ps now r)"
  "list_all quiet_patch ps \<Longrightarrow> r_cancel r \<Longrightarrow> r_cancel (patched (P_status s # ps) now r)"
  using fold_quiet [of ps] by (simp_all add: patched_def)

lemma run_at_put_run:
  "(\<And>r. r_id (f r) = r_id r) \<Longrightarrow>
   run_at (put_run i f w) j = (if j = i then map_option f (run_at w j) else run_at w j)"
  by (simp add: run_at_def put_run_def row_of_update_key)

lemma branch_at_put_branch:
  "(\<And>b. b_id (f b) = b_id b) \<Longrightarrow>
   branch_at (put_branch i f w) j = (if j = i then map_option f (branch_at w j) else branch_at w j)"
  by (simp add: branch_at_def put_branch_def row_of_update_key)

lemma at_frame [simp]:
  "run_at (put_branch i g w) j = run_at w j"
  "branch_at (put_run i f w) j = branch_at w j"
  "run_at (w\<lparr>t_events := es\<rparr>) j = run_at w j" "branch_at (w\<lparr>t_events := es\<rparr>) j = branch_at w j"
  "run_at (w\<lparr>t_branches := bs\<rparr>) j = run_at w j" "branch_at (w\<lparr>t_runs := rs\<rparr>) j = branch_at w j"
  "t_events (put_run i f w) = t_events w" "t_events (put_branch i g w) = t_events w"
  by (simp_all add: run_at_def branch_at_def put_run_def put_branch_def)

lemma core_eqD:
  "core v = core w \<Longrightarrow> run_at v = run_at w \<and> branch_at v = branch_at w \<and> t_events v = t_events w"
  by (auto simp: core_def run_at_def branch_at_def)

lemma run_at_append:
  "run_at w (r_id r) = None \<Longrightarrow>
   run_at (w\<lparr>t_runs := t_runs w @ [r]\<rparr>) j = (if j = r_id r then Some r else run_at w j)"
  by (auto simp: run_at_def row_of_append split: option.splits)

lemma branch_at_append:
  "branch_at w (b_id b) = None \<Longrightarrow>
   branch_at (w\<lparr>t_branches := t_branches w @ [b]\<rparr>) j = (if j = b_id b then Some b else branch_at w j)"
  by (auto simp: branch_at_def row_of_append split: option.splits)

lemmas at_simps = run_at_put_run branch_at_put_branch run_at_append branch_at_append

text \<open>
  What a run's row keeps over any number of steps: the row stays; its identity does not change;
  revision and fence never go back; a cancellation is never withdrawn; the status moves along
  allowed transitions; and at an unchanged revision nothing but the event counter has changed.
\<close>

definition row_progress :: "run_row \<Rightarrow> run_row \<Rightarrow> bool" where
  "row_progress r r' \<longleftrightarrow>
     r_id r' = r_id r \<and> r_branch r' = r_branch r \<and> r_root r' = r_root r \<and>
     r_parent r' = r_parent r \<and> r_owner r' = r_owner r \<and> r_depth r' = r_depth r \<and>
     r_revision r \<le> r_revision r' \<and> r_fence r \<le> r_fence r' \<and> r_next_seq r \<le> r_next_seq r' \<and>
     (r_cancel r \<longrightarrow> r_cancel r') \<and> allowed\<^sup>*\<^sup>* (r_status r) (r_status r') \<and>
     (r_revision r' = r_revision r \<longrightarrow> r'\<lparr>r_next_seq := 0\<rparr> = r\<lparr>r_next_seq := 0\<rparr>)"

lemma row_progress_refl: "row_progress r r"
  by (simp add: row_progress_def)

lemma row_progress_trans: "row_progress a b \<Longrightarrow> row_progress b c \<Longrightarrow> row_progress a c"
  unfolding row_progress_def by (auto intro: rtranclp_trans)

lemma step_progress:
  assumes "run_step w v" and "run_at w i = Some r"
  shows "\<exists>r'. run_at v i = Some r' \<and> row_progress r r'"
  using assms
proof (cases rule: run_step.cases)
  case other
  then show ?thesis using assms(2) core_eqD [OF other] row_progress_refl by auto
next
  case (log_event j x e)
  then show ?thesis using assms(2) core_eqD [OF log_event(4)]
    by (auto simp: at_simps row_progress_def)
next
  case (new_run x)
  then show ?thesis using assms(2) core_eqD [OF new_run(3)] row_progress_refl
    by (auto simp: at_simps)
next
  case (new_branch b)
  then show ?thesis using assms(2) core_eqD [OF new_branch(3)] row_progress_refl by auto
next
  case (advance j)
  then show ?thesis using assms(2) core_eqD [OF advance] row_progress_refl by auto
next
  case (acquire k b j)
  then show ?thesis using assms(2) core_eqD [OF acquire(3)] row_progress_refl by auto
next
  case (release k b j x)
  then show ?thesis using assms(2) core_eqD [OF release(5)] row_progress_refl by auto
next
  case (adjust ps j now)
  then show ?thesis using assms(2) core_eqD [OF adjust(2)]
    by (auto simp: at_simps row_progress_def patched_cancel)
next
  case (move j x s ps now)
  then show ?thesis using assms(2) core_eqD [OF move(5)]
    by (auto simp: at_simps row_progress_def patched_cancel)
next
  case (start j x b a now)
  then show ?thesis using assms(2) core_eqD [OF start(5)]
    by (auto simp: at_simps row_progress_def patched_def allowed_def)
qed

lemma path_progress:
  assumes "run_path w v" and "run_at w i = Some r"
  shows "\<exists>r'. run_at v i = Some r' \<and> row_progress r r'"
  using assms unfolding run_path_def
proof (induction rule: rtranclp_induct)
  case base
  then show ?case using row_progress_refl by blast
next
  case (step u v)
  then show ?case by (meson step_progress row_progress_trans)
qed


text \<open>A run that has been started and has not ended owns its branch.\<close>

definition engaged :: "run_status \<Rightarrow> bool" where
  "engaged s \<longleftrightarrow> s \<noteq> queued \<and> \<not> terminal s"

definition owner_inv :: "world \<Rightarrow> bool" where
  "owner_inv w \<longleftrightarrow> (\<forall>i r. run_at w i = Some r \<longrightarrow> engaged (r_status r) \<longrightarrow>
     (\<exists>b. branch_at w (r_branch r) = Some b \<and> b_active b = Some i))"

text \<open>
  The event log of a run is the sequence 1, 2, ... up to the counter, in insertion order; a run
  that does not exist has no events.
\<close>

definition run_log :: "world \<Rightarrow> string \<Rightarrow> event_row list" where
  "run_log w i = filter (\<lambda>e. e_run e = i) (t_events w)"

definition log_inv :: "world \<Rightarrow> bool" where
  "log_inv w \<longleftrightarrow> (\<forall>i. case run_at w i of
       None \<Rightarrow> run_log w i = []
     | Some r \<Rightarrow> 1 \<le> r_next_seq r \<and> map e_seq (run_log w i) = [1..r_next_seq r - 1])"

lemma engaged_move:
  "allowed s t \<Longrightarrow> t \<noteq> running \<Longrightarrow> engaged t \<Longrightarrow> engaged s"
  by (cases s; cases t) (auto simp: allowed_def engaged_def)

lemma run_at_id: "run_at w i = Some r \<Longrightarrow> r_id r = i"
  by (auto simp: run_at_def dest: row_of_SomeD)

lemma branch_at_id: "branch_at w i = Some b \<Longrightarrow> b_id b = i"
  by (auto simp: branch_at_def dest: row_of_SomeD)

lemma owner_inv_branch_update:
  assumes inv: "owner_inv w" and eq: "run_at v = run_at w"
    and br: "\<And>i r b. run_at w i = Some r \<Longrightarrow> engaged (r_status r) \<Longrightarrow>
      branch_at w (r_branch r) = Some b \<Longrightarrow> b_active b = Some i \<Longrightarrow>
      \<exists>b'. branch_at v (r_branch r) = Some b' \<and> b_active b' = Some i"
  shows "owner_inv v"
  using assms unfolding owner_inv_def by metis

lemma owner_inv_run_update:
  assumes inv: "owner_inv w" and eq: "branch_at v = branch_at w"
    and run: "\<And>i r. run_at v i = Some r \<Longrightarrow> engaged (r_status r) \<Longrightarrow>
      \<exists>r'. run_at w i = Some r' \<and> r_branch r' = r_branch r \<and>
        (engaged (r_status r') \<or> (\<exists>b. branch_at w (r_branch r) = Some b \<and> b_active b = Some i))"
  shows "owner_inv v"
  using assms unfolding owner_inv_def by metis

lemma step_owner_inv:
  assumes "run_step w v" and inv: "owner_inv w"
  shows "owner_inv v"
  using assms(1)
proof (cases rule: run_step.cases)
  case other
  then show ?thesis using inv core_eqD [OF other] by (simp add: owner_inv_def)
next
  case (log_event j x e)
  show ?thesis
    by (rule owner_inv_run_update [OF inv]) (use log_event core_eqD [OF log_event(4)] in
      \<open>auto simp: at_simps split: if_splits\<close>)
next
  case (new_run x)
  show ?thesis
    by (rule owner_inv_run_update [OF inv]) (use new_run core_eqD [OF new_run(3)] in
      \<open>auto simp: at_simps fresh_run_def engaged_def split: if_splits\<close>)
next
  case (new_branch b)
  show ?thesis
    by (rule owner_inv_branch_update [OF inv]) (use new_branch core_eqD [OF new_branch(3)] in
      \<open>auto simp: at_simps\<close>)
next
  case (advance j)
  show ?thesis
    by (rule owner_inv_branch_update [OF inv]) (use core_eqD [OF advance] in \<open>auto simp: at_simps\<close>)
next
  case (acquire k b j)
  show ?thesis
    by (rule owner_inv_branch_update [OF inv]) (use acquire core_eqD [OF acquire(3)] in
      \<open>auto simp: at_simps\<close>)
next
  case (release k b j x)
  show ?thesis
    by (rule owner_inv_branch_update [OF inv]) (use release core_eqD [OF release(5)] in
      \<open>auto simp: at_simps engaged_def\<close>)
next
  case (adjust ps j now)
  show ?thesis
    by (rule owner_inv_run_update [OF inv]) (use adjust core_eqD [OF adjust(2)] in
      \<open>auto simp: at_simps split: if_splits\<close>)
next
  case (move j x s ps now)
  show ?thesis
    by (rule owner_inv_run_update [OF inv]) (use move core_eqD [OF move(5)] in
      \<open>auto simp: at_simps split: if_splits dest: engaged_move\<close>)
next
  case (start j x b a now)
  show ?thesis
    by (rule owner_inv_run_update [OF inv]) (use start core_eqD [OF start(5)] in
      \<open>auto simp: at_simps split: if_splits\<close>)
qed

lemma log_inv_same_log:
  assumes inv: "log_inv w" and ev: "t_events v = t_events w"
    and run: "\<And>i. (case run_at v i of None \<Rightarrow> run_at w i = None | Some r \<Rightarrow>
      (case run_at w i of None \<Rightarrow> r_next_seq r = 1 | Some r' \<Rightarrow> r_next_seq r = r_next_seq r'))"
  shows "log_inv v"
  unfolding log_inv_def
proof
  fix i
  from inv have "case run_at w i of None \<Rightarrow> run_log w i = []
      | Some r \<Rightarrow> 1 \<le> r_next_seq r \<and> map e_seq (run_log w i) = [1..r_next_seq r - 1]"
    by (simp add: log_inv_def)
  then show "case run_at v i of None \<Rightarrow> run_log v i = []
      | Some r \<Rightarrow> 1 \<le> r_next_seq r \<and> map e_seq (run_log v i) = [1..r_next_seq r - 1]"
    using run [of i] ev by (auto simp: run_log_def split: option.splits)
qed

lemma step_log_inv:
  assumes "run_step w v" and inv: "log_inv w"
  shows "log_inv v"
  using assms(1)
proof (cases rule: run_step.cases)
  case other
  show ?thesis
    by (rule log_inv_same_log [OF inv]) (use core_eqD [OF other] in \<open>auto split: option.splits\<close>)
next
  case (log_event j x e)
  have v: "run_at v = run_at (put_run j (\<lambda>r. r\<lparr>r_next_seq := r_next_seq r + 1\<rparr>) w)"
      "t_events v = t_events w @ [e]"
    using core_eqD [OF log_event(4)] by (auto simp: fun_eq_iff)
  show ?thesis
    unfolding log_inv_def
  proof
    fix i
    from inv have old: "case run_at w i of None \<Rightarrow> run_log w i = []
        | Some r \<Rightarrow> 1 \<le> r_next_seq r \<and> map e_seq (run_log w i) = [1..r_next_seq r - 1]"
      by (simp add: log_inv_def)
    show "case run_at v i of None \<Rightarrow> run_log v i = []
        | Some r \<Rightarrow> 1 \<le> r_next_seq r \<and> map e_seq (run_log v i) = [1..r_next_seq r - 1]"
    proof (cases "i = j")
      case True
      with old log_event have "1 \<le> r_next_seq x" "map e_seq (run_log w i) = [1..r_next_seq x - 1]"
        by simp_all
      moreover have "[1..r_next_seq x] = [1..r_next_seq x - 1] @ [r_next_seq x]"
        using upto_rec2 [of 1 "r_next_seq x"] \<open>1 \<le> r_next_seq x\<close> by simp
      ultimately show ?thesis
        using True log_event by (simp add: v at_simps run_log_def)
    next
      case False
      with old log_event show ?thesis
        by (simp add: v at_simps run_log_def split: option.splits)
    qed
  qed
next
  case (new_run x)
  show ?thesis
    by (rule log_inv_same_log [OF inv]) (use new_run core_eqD [OF new_run(3)] in
      \<open>auto simp: at_simps fresh_run_def split: option.splits\<close>)
next
  case (new_branch b)
  show ?thesis
    by (rule log_inv_same_log [OF inv]) (use core_eqD [OF new_branch(3)] in
      \<open>auto split: option.splits\<close>)
next
  case (advance j)
  show ?thesis
    by (rule log_inv_same_log [OF inv]) (use core_eqD [OF advance] in \<open>auto split: option.splits\<close>)
next
  case (acquire k b j)
  show ?thesis
    by (rule log_inv_same_log [OF inv]) (use core_eqD [OF acquire(3)] in
      \<open>auto split: option.splits\<close>)
next
  case (release k b j x)
  show ?thesis
    by (rule log_inv_same_log [OF inv]) (use core_eqD [OF release(5)] in
      \<open>auto split: option.splits\<close>)
next
  case (adjust ps j now)
  show ?thesis
    by (rule log_inv_same_log [OF inv]) (use core_eqD [OF adjust(2)] in
      \<open>auto simp: at_simps split: option.splits\<close>)
next
  case (move j x s ps now)
  show ?thesis
    by (rule log_inv_same_log [OF inv]) (use core_eqD [OF move(5)] in
      \<open>auto simp: at_simps split: option.splits\<close>)
next
  case (start j x b a now)
  show ?thesis
    by (rule log_inv_same_log [OF inv]) (use core_eqD [OF start(5)] in
      \<open>auto simp: at_simps split: option.splits\<close>)
qed

lemma path_invs:
  assumes "run_path w v"
  shows "owner_inv w \<Longrightarrow> owner_inv v" and "log_inv w \<Longrightarrow> log_inv v"
  using assms unfolding run_path_def
  by (induction rule: rtranclp_induct) (auto dest: step_owner_inv step_log_inv)

lemma empty_invs: "owner_inv (empty_world uuid now)" "log_inv (empty_world uuid now)"
  by (simp_all add: owner_inv_def log_inv_def run_at_def run_log_def empty_world_def)

lemma owner_exclusive:
  assumes "owner_inv w" and "run_at w i = Some r" and "run_at w j = Some s"
    and "engaged (r_status r)" and "engaged (r_status s)" and "r_branch r = r_branch s"
  shows "i = j"
  using assms unfolding owner_inv_def by (metis option.inject)

end
