(* ===== verification/Run_Store.thy ===== *)
theory Run_Store
  imports Run_Steps
begin

text \<open>
  The operations of the store on runs, branches, events and messages keep to the specification of
  \<open>Run_Steps\<close>; with the exact effect of the two that carry the safety argument, \<open>update_run\<close> and
  \<open>store_event\<close>.
\<close>

section \<open>Reads\<close>

context db_history
begin

lemma keeps_reads:
  "keeps R (store_branch i)" "keeps R (store_branches s)" "keeps R (store_run i own)"
  "keeps R (store_runs so sts ro)" "keeps R (store_attempt a)" "keeps R (assert_fence ctx b)"
  "keeps R (pending_outbox c)" "keeps R (store_events i n l)" "keeps R (event_range i)"
  "keeps R (store_messages i ro)" "keeps R (store_dependency k)" "keeps R (store_children i)"
  "keeps R (store_get ns k)" "keeps R (store_list ns)" "keeps R (get_version ns k n)"
  unfolding store_branch_def store_branches_def store_run_def store_runs_def store_attempt_def
    assert_fence_def pending_outbox_def store_events_def event_range_def store_messages_def
    store_dependency_def store_children_def store_get_def store_list_def get_version_def
  by (intro keeps_db | simp)+

lemma keeps_insert_unique:
  "(\<And>w. key row \<notin> key ` set (tbl w) \<Longrightarrow> R w (upd (\<lambda>rs. rs @ [row]) w)) \<Longrightarrow>
   keeps R (insert_unique tbl upd key row)"
  by (rule tri_insert_unique) (simp_all add: refl_history)

lemma keeps_update_where:
  "(\<And>w. R w (upd (update_rows p f) w)) \<Longrightarrow> keeps R (update_where upd p f)"
  by (rule tri_update_where) simp

end

section \<open>Exact effects\<close>

lemma store_run_Inr:
  "store_run i own w = (Inr r, v) \<longleftrightarrow>
     v = w \<and> run_at w i = Some r \<and> (\<forall>o'. own = Some o' \<longrightarrow> o' = '''' \<or> r_owner r = o')"
  by (auto simp: store_run_def run_at_def bnd_def raise_if_def split: option.splits)

lemma store_run_Inl: "store_run i own w = (Inl e, v) \<Longrightarrow> v = w \<and> e = HErr ''NOT_FOUND'' 404"
  by (auto simp: store_run_def bnd_def split: option.splits if_splits)

lemma store_branch_Inr: "store_branch i w = (Inr b, v) \<longleftrightarrow> v = w \<and> branch_at w i = Some b"
  by (auto simp: store_branch_def branch_at_def bnd_def need_def split: option.splits)

text \<open>The condition under which a context passes the fence.\<close>

definition fence_open :: "world \<Rightarrow> execution_context \<Rightarrow> bool \<Rightarrow> bool" where
  "fence_open w ctx allow \<longleftrightarrow>
     (\<exists>r a. run_at w (c_run ctx) = Some r \<and> row_of a_id (c_attempt ctx) (t_attempts w) = Some a \<and>
        r_fence r = c_fence ctx \<and> r_attempt r = Some (c_attempt ctx) \<and>
        a_ended a = None \<and> w_now w < a_lease a \<and>
        (r_status r = running \<or> allow \<and> r_status r = cancelling) \<and> (r_cancel r \<longrightarrow> allow))"

lemma assert_fence_frame: "snd (assert_fence ctx allow w) = w"
  by (auto simp: assert_fence_def store_run_def store_attempt_def bnd_def andthen_def raise_if_def
      split: option.splits)

lemma assert_fence_Inr:
  "assert_fence ctx allow w = (Inr x, v) \<longleftrightarrow> v = w \<and> fence_open w ctx allow"
  by (auto simp: assert_fence_def fence_open_def store_run_def run_at_def store_attempt_def bnd_def
      andthen_def raise_if_def not_le split: option.splits)

definition fence_result :: "execution_context \<Rightarrow> bool \<Rightarrow> world \<Rightarrow> err + unit" where
  "fence_result ctx allow w = fst (assert_fence ctx allow w)"

lemma assert_fence_eval: "assert_fence ctx allow w = (fence_result ctx allow w, w)"
  using assert_fence_frame [of ctx allow w] by (simp add: fence_result_def prod_eq_iff)

lemma fence_result_active [simp]:
  "fence_result ctx allow (w\<lparr>w_active := b\<rparr>) = fence_result ctx allow w"
  by (auto simp: fence_result_def assert_fence_def store_run_def store_attempt_def bnd_def
      andthen_def raise_if_def split: option.splits)

lemma fence_result_Inr: "fence_result ctx allow w = Inr x \<longleftrightarrow> fence_open w ctx allow"
  using assert_fence_Inr [of ctx allow w x w] by (simp add: assert_fence_eval)

definition ctx_result :: "execution_context option \<Rightarrow> world \<Rightarrow> err + unit" where
  "ctx_result ctx w = (case ctx of None \<Rightarrow> Inr () | Some c \<Rightarrow> fence_result c True w)"

lemma ctx_guard_eval:
  "(case ctx of None \<Rightarrow> ret () | Some c \<Rightarrow> assert_fence c True) w = (ctx_result ctx w, w)"
  by (cases ctx) (simp_all add: ctx_result_def assert_fence_eval)

lemma ctx_result_active [simp]: "ctx_result ctx (w\<lparr>w_active := b\<rparr>) = ctx_result ctx w"
  by (cases ctx) (simp_all add: ctx_result_def)

lemma active_frame [simp]:
  "run_at (w\<lparr>w_active := b\<rparr>) i = run_at w i" "branch_at (w\<lparr>w_active := b\<rparr>) i = branch_at w i"
  "put_run i f (w\<lparr>w_active := b\<rparr>) = (put_run i f w)\<lparr>w_active := b\<rparr>"
  "w_active (put_run i f w) = w_active w" "w_now (put_run i f w) = w_now w"
  "w_active (put_branch i g w) = w_active w" "w_now (put_branch i g w) = w_now w"
  by (simp_all add: run_at_def branch_at_def put_run_def put_branch_def)

lemma fence_open_active [simp]: "fence_open (w\<lparr>w_active := b\<rparr>) ctx allow = fence_open w ctx allow"
  by (simp add: fence_open_def)

lemma reset_active [simp]: "\<not> w_active w \<Longrightarrow> w\<lparr>w_active := False\<rparr> = w"
  by simp

lemma update_run_eval:
  "update_run i n ps ctx w =
     (case ctx_result ctx w of
        Inl e \<Rightarrow> (Inl e, w)
      | Inr _ \<Rightarrow>
          (case run_at w i of
             Some r \<Rightarrow>
               (if r_revision r = n
                then (Inr (patched ps (w_now w) r), put_run i (patched ps (w_now w)) w)
                else (Inl (HErr ''REVISION_CONFLICT'' 409), w))
           | None \<Rightarrow> (Inl (HErr ''REVISION_CONFLICT'' 409), w)))"
proof -
  let ?b = "\<lambda>now row. andthen (raise_if (\<not> (case row of None \<Rightarrow> False | Some r \<Rightarrow> r_revision r = n))
          (HErr ''REVISION_CONFLICT'' 409))
        (andthen (update_where t_runs_update (\<lambda>r. r_id r = i) (patched ps now))
        (store_run i None))"
  have body: "?b (w_now u) (run_at u i) u =
      (case run_at u i of
         Some r \<Rightarrow> (if r_revision r = n
            then (Inr (patched ps (w_now u) r), put_run i (patched ps (w_now u)) u)
            else (Inl (HErr ''REVISION_CONFLICT'' 409), u))
       | None \<Rightarrow> (Inl (HErr ''REVISION_CONFLICT'' 409), u))" for u
    by (auto simp: store_run_def put_run_def run_at_def row_of_update_key bnd_def andthen_def
        raise_if_def split: option.split)
  let ?m = "andthen (case ctx of None \<Rightarrow> ret () | Some c \<Rightarrow> assert_fence c True)
       (bnd utc_now (\<lambda>now. bnd (gets (\<lambda>w. row_of r_id i (t_runs w))) (\<lambda>row. ?b now row)))"
  have m: "?m u = (case ctx_result ctx u of Inl e \<Rightarrow> (Inl e, u) | Inr _ \<Rightarrow> ?b (w_now u) (run_at u i) u)" for u
    by (simp add: andthen_def [of "case ctx of None \<Rightarrow> ret () | Some c \<Rightarrow> assert_fence c True"]
        bnd_def ctx_guard_eval run_at_def split: sum.split)
  show ?thesis
    unfolding update_run_def transaction_def m body
    by (cases "ctx_result ctx w"; cases "run_at w i"; cases "w_active w") simp_all
qed

lemma update_run_Inr:
  assumes "update_run i n ps ctx w = (Inr r', v)"
  obtains r where "run_at w i = Some r" "r_revision r = n" "r' = patched ps (w_now w) r"
    "v = put_run i (patched ps (w_now w)) w" "run_at v i = Some r'"
  using assms
  by (auto simp: update_run_eval at_simps split: sum.splits option.splits if_splits)

lemma update_run_Inl: "update_run i n ps ctx w = (Inl e, v) \<Longrightarrow> v = w"
  by (auto simp: update_run_eval split: sum.splits option.splits if_splits)

text \<open>A write under a context passes only an open fence.\<close>

lemma update_run_fenced:
  assumes "update_run i n ps (Some ctx) w = (Inr r, v)"
  shows "fence_open w ctx True"
proof -
  from assms have "fence_result ctx True w = Inr ()"
    by (auto simp: update_run_eval ctx_result_def split: sum.splits)
  then show ?thesis by (simp only: fence_result_Inr)
qed

section \<open>Keeping to the specification\<close>

lemma keeps_update_run_quiet:
  assumes "list_all quiet_patch ps"
  shows "keeps run_path (update_run i n ps ctx)"
proof (rule triI)
  fix w r v
  assume run: "update_run i n ps ctx w = (r, v)"
  have "run_path w v"
  proof (cases r)
    case (Inl e)
    with run show ?thesis by (auto dest: update_run_Inl)
  next
    case (Inr x)
    with run obtain y where "v = put_run i (patched ps (w_now w)) w"
      by (auto elim: update_run_Inr)
    with assms show ?thesis by (auto intro: run_path_step run_step.adjust)
  qed
  then show "run_path w v \<and> (\<forall>x. r = Inr x \<longrightarrow> True)" by simp
qed

lemma core_cong_simps [simp]:
  "core (w\<lparr>w_active := b\<rparr>) = core w" "core (w\<lparr>w_seed := n\<rparr>) = core w"
  "core (w\<lparr>t_outbox := obs\<rparr>) = core w"
  by (simp_all add: core_def)

lemma same_view_modify: "(\<And>w. f (g w) = f w) \<Longrightarrow> keeps (same_view f) (modify g)"
  by (simp add: tri_def same_view_def)

lemma keeps_core_outbox [core_keeps]: "keeps (same_view core) (store_outbox c k p)"
  unfolding store_outbox_def
  by (intro same_core.keeps_db same_view_modify) (simp add: core_def)

text \<open>An event takes the next sequence number of its run and advances the counter, or does nothing.\<close>

definition event_for :: "string \<Rightarrow> string \<Rightarrow> json \<Rightarrow> world \<Rightarrow> run_row \<Rightarrow> event_row" where
  "event_for i ty d w run = \<lparr>e_id = w_uuid w (w_seed w), e_run = i, e_seq = r_next_seq run, e_type = ty,
     e_payload = d, e_time = w_now w\<rparr>"

lemma event_for_simps [simp]:
  "e_run (event_for i ty d w run) = i" "e_seq (event_for i ty d w run) = r_next_seq run"
  "e_type (event_for i ty d w run) = ty" "e_payload (event_for i ty d w run) = d"
  "e_id (event_for i ty d w run) = w_uuid w (w_seed w)"
  by (simp_all add: event_for_def)

definition event_body :: "string \<Rightarrow> string \<Rightarrow> json \<Rightarrow> event_row store" where
  "event_body i ty d = bnd (store_run i None) (\<lambda>run.
        bnd new_id (\<lambda>eid.
        bnd utc_now (\<lambda>now.
        bnd (ret \<lparr>e_id = eid, e_run = i, e_seq = r_next_seq run, e_type = ty,
                  e_payload = d, e_time = now\<rparr>) (\<lambda>event.
        bnd (gets t_events) (\<lambda>rows.
        andthen (raise_if ((i, r_next_seq run) \<in> (\<lambda>e. (e_run e, e_seq e)) ` set rows \<or>
            eid \<in> e_id ` set rows) SqlIntegrityError)
        (andthen (update_where t_runs_update (\<lambda>r. r_id r = i)
            (\<lambda>r. r\<lparr>r_next_seq := r_next_seq r + 1\<rparr>))
        (andthen (modify (t_events_update (\<lambda>rs. rs @ [event])))
        (andthen (store_outbox ''events'' eid (envelope_json event))
        (ret event)))))))))"

lemma store_event_alt: "store_event i ty d = transaction (event_body i ty d)"
  by (simp only: store_event_def event_body_def)

lemma store_outbox_returns: "\<exists>v. store_outbox c k p w = (Inr (), v) \<and> core v = core w"
  by (simp add: store_outbox_def bnd_def whenever_def core_def)

lemma event_body_missing:
  "run_at w i = None \<Longrightarrow> event_body i ty d w = (Inl (HErr ''NOT_FOUND'' 404), w)"
  by (simp add: event_body_def store_run_def run_at_def bnd_def)

lemma event_body_there:
  fixes ty d
  assumes "run_at w i = Some run"
  defines "e \<equiv> event_for i ty d w run"
  shows "(\<exists>v. event_body i ty d w = (Inl SqlIntegrityError, v) \<and> core v = core w) \<or>
    (\<exists>v. event_body i ty d w = (Inr e, v) \<and>
       core v = core ((put_run i (\<lambda>r. r\<lparr>r_next_seq := r_next_seq r + 1\<rparr>) w)\<lparr>t_events := t_events w @ [e]\<rparr>))"
proof (cases "(i, r_next_seq run) \<in> (\<lambda>e. (e_run e, e_seq e)) ` set (t_events w) \<or>
    e_id e \<in> e_id ` set (t_events w)")
  case True
  then have "event_body i ty d w = (Inl SqlIntegrityError, w\<lparr>w_seed := Suc (w_seed w)\<rparr>)"
    using assms by (simp add: event_body_def store_run_Inr bnd_apply(2) [OF iffD2 [OF store_run_Inr]])
  then show ?thesis by (simp add: core_def)
next
  case False
  let ?u = "t_events_update (\<lambda>rs. rs @ [e]) (t_runs_update (update_rows (\<lambda>r. r_id r = i)
    (\<lambda>r. r\<lparr>r_next_seq := r_next_seq r + 1\<rparr>)) (w\<lparr>w_seed := Suc (w_seed w)\<rparr>))"
  obtain v where "store_outbox ''events'' (e_id e) (envelope_json e) ?u = (Inr (), v)" "core v = core ?u"
    using store_outbox_returns by blast
  then have "event_body i ty d w = (Inr e, v)"
    using False assms
    by (simp add: event_body_def store_run_Inr bnd_apply(2) [OF iffD2 [OF store_run_Inr]]
        event_for_def)
  with \<open>core v = core ?u\<close> show ?thesis by (auto simp: core_def put_run_def)
qed

lemma keeps_event_body: "keeps run_path (event_body i ty d)"
proof (rule triI)
  fix w r v
  assume run: "event_body i ty d w = (r, v)"
  have "run_path w v"
  proof (cases "run_at w i")
    case None
    with run event_body_missing [OF None, of ty d] show ?thesis by simp
  next
    case (Some row)
    from event_body_there [OF Some, where ty = ty and d = d] run consider "core v = core w"
      | "core v = core ((put_run i (\<lambda>r. r\<lparr>r_next_seq := r_next_seq r + 1\<rparr>) w)
          \<lparr>t_events := t_events w @ [event_for i ty d w row]\<rparr>)"
      by auto
    then show ?thesis
    proof cases
      case 1
      then show ?thesis by (rule run_path_core)
    next
      case 2
      show ?thesis by (rule run_path_step, rule run_step.log_event [OF Some _ _ 2]) simp_all
    qed
  qed
  then show "run_path w v \<and> (\<forall>x. r = Inr x \<longrightarrow> True)" by simp
qed

lemma keeps_store_event [path_keeps]: "keeps run_path (store_event i ty d)"
  unfolding store_event_alt by (intro path.keeps_transaction keeps_event_body)

lemma core_update_where:
  "(\<And>w. core (upd (update_rows p f) w) = core w) \<Longrightarrow> keeps (same_view core) (update_where upd p f)"
  by (rule same_core.keeps_update_where) (simp add: same_view_def)

lemma core_insert_unique:
  "(\<And>w. core (upd (\<lambda>rs. rs @ [row]) w) = core w) \<Longrightarrow>
   keeps (same_view core) (insert_unique tbl upd key row)"
  by (rule same_core.keeps_insert_unique) (simp add: same_view_def)

lemmas core_rules = same_core.keeps_db same_core.keeps_reads core_update_where core_insert_unique
  same_view_modify

lemma keeps_core_records [core_keeps]:
  "keeps (same_view core) (compare_and_set ns k n v)"
  "keeps (same_view core) (store_put ns k v)"
  "keeps (same_view core) (store_delete ns k)"
proof -
  show cas: "keeps (same_view core) (compare_and_set ns k n v)" for n
    unfolding compare_and_set_def Let_def insert_version_def
    by (intro core_rules) (simp_all add: core_def upsert_record_def)
  show "keeps (same_view core) (store_put ns k v)"
    unfolding store_put_def by (intro core_rules cas)
  show "keeps (same_view core) (store_delete ns k)"
    unfolding store_delete_def by (intro core_rules) (simp add: core_def)
qed

lemma keeps_core_attempts [core_keeps]:
  "keeps (same_view core) (add_attempt i run wid pid st lease fence)"
  "keeps (same_view core) (store_heartbeat ctx t)"
  "keeps (same_view core) (end_attempt i reason)"
  unfolding add_attempt_def store_heartbeat_def end_attempt_def
  by (intro core_rules; simp add: core_def)+

lemma keeps_core_outbox_marks [core_keeps]:
  "keeps (same_view core) (deliver_outbox i)" "keeps (same_view core) publish_event_outbox"
  unfolding deliver_outbox_def publish_event_outbox_def
  by (intro core_rules; simp add: core_def)+

lemma keeps_core_dependency [core_keeps]:
  "keeps (same_view core) (add_dependency p c k h)"
  unfolding add_dependency_def by (intro core_rules) (simp add: core_def)

text \<open>Writing runs, branches and messages.\<close>

lemma run_at_None: "r_id row \<notin> r_id ` set (t_runs w) \<Longrightarrow> run_at w (r_id row) = None"
  by (simp add: run_at_def row_of_None_iff)

lemma branch_at_None: "b_id b \<notin> b_id ` set (t_branches w) \<Longrightarrow> branch_at w (b_id b) = None"
  by (simp add: branch_at_def row_of_None_iff)

lemma keeps_insert_run:
  assumes "r_status row = queued"
  shows "keeps run_path (insert_run row)"
proof -
  let ?row = "row\<lparr>r_checkpoint := None, r_result := None, r_error := None, r_next_seq := 1,
    r_fence := 0, r_attempt := None, r_cancel := False, r_required := []\<rparr>"
  have "run_path w (t_runs_update (\<lambda>rs. rs @ [?row]) w)"
    if "r_id ?row \<notin> r_id ` set (t_runs w)" for w
    by (rule run_path_step, rule run_step.new_run [OF run_at_None [OF that]])
      (simp_all add: fresh_run_def assms core_def)
  then show ?thesis
    unfolding insert_run_def
    by (intro path.keeps_andthen path.keeps_insert_unique path.keeps_reads)
qed

lemma keeps_add_branch [path_keeps]: "keeps run_path (add_branch s p c t)"
proof -
  have "run_path w (t_branches_update (\<lambda>bs. bs @ [b]) w)"
    if "b_id b \<notin> b_id ` set (t_branches w)" "b_active b = None" for b w
    by (rule run_path_step, rule run_step.new_branch [OF branch_at_None [OF that(1)] that(2)])
      (simp add: core_def)
  then show ?thesis
    unfolding add_branch_def by (intro path.keeps_db path.keeps_insert_unique path.keeps_reads) simp
qed

lemma keeps_advance_branch [path_keeps]: "keeps run_path (advance_branch i n)"
proof -
  have "run_path w (t_branches_update
      (update_rows (\<lambda>b. b_id b = i) (\<lambda>b. b\<lparr>b_revision := b_revision b + 1\<rparr>)) w)" for w
    by (rule run_path_step, rule run_step.advance [where i = i]) (simp add: core_def put_branch_def)
  then show ?thesis
    unfolding advance_branch_def by (intro path.keeps_db path.keeps_update_where)
qed

lemma set_branch_owner_eval:
  "set_branch_owner i old j w =
     (case branch_at w i of
        Some b \<Rightarrow> (if b_active b = old then (Inr (), put_branch i (\<lambda>b. b\<lparr>b_active := j\<rparr>) w)
                  else (Inl (HErr ''BRANCH_BUSY'' 409), w))
      | None \<Rightarrow> (Inl (HErr ''BRANCH_BUSY'' 409), w))"
  by (auto simp: set_branch_owner_def branch_at_def bnd_def andthen_def raise_if_def put_branch_def
      split: option.split)

lemma keeps_acquire_branch:
  "old = None \<or> old = Some j \<Longrightarrow> keeps run_path (set_branch_owner i old (Some j))"
  by (rule triI) (auto simp: set_branch_owner_eval intro: run_path_step run_step.acquire
      split: option.splits if_splits)

lemma keeps_release_branch:
  "tri run_path (\<lambda>w. \<exists>r. run_at w j = Some r \<and> terminal (r_status r))
     (set_branch_owner i (Some j) None) (\<lambda>_ _. True)"
  by (rule triI) (auto simp: set_branch_owner_eval intro: run_path_step run_step.release
      split: option.splits if_splits)

lemma keeps_add_message [path_keeps]: "keeps run_path (add_message i m r p)"
proof -
  have "keeps run_path (insert_unique t_messages t_messages_update m_id row)" for row
    by (rule path.keeps_insert_unique) (auto intro: run_path_core simp: core_def)
  then show ?thesis
    unfolding add_message_def by (intro path.keeps_db path.keeps_reads keeps_store_event)
qed

end
