(* ===== verification/Store_Ops.thy ===== *)
theory Store_Ops
  imports Run_Store
begin

text \<open>
  Tool operations, execution grants, interactions and reconciliations of
  \<^verbatim>\<open>harness/storage/store.py\<close>: the rows that record what a run is about to do, who allowed it and
  what a user was asked. The section on grants proves that a grant is consumed at most once per
  unit it was given, and only with the binding it was issued for.
\<close>

section \<open>Operations\<close>

record op_request =
  oq_message :: string
  oq_call :: string
  oq_tool :: string
  oq_tool_revision :: string
  oq_args_hash :: string
  oq_args :: json
  oq_fingerprint :: string
  oq_metadata :: json
  oq_summary :: string

datatype op_patch =
    O_state op_state
  | O_result "tool_result option"
  | O_metadata json
  | O_grant "string option"
  | O_fingerprint string
  | O_attempt string
  | O_fence int

fun patch_op :: "op_patch \<Rightarrow> operation_row \<Rightarrow> operation_row" where
  "patch_op (O_state s) o' = o'\<lparr>op_state := s\<rparr>"
| "patch_op (O_result x) o' = o'\<lparr>op_result := x\<rparr>"
| "patch_op (O_metadata j) o' = o'\<lparr>op_metadata := j\<rparr>"
| "patch_op (O_grant g) o' = o'\<lparr>op_grant := g\<rparr>"
| "patch_op (O_fingerprint s) o' = o'\<lparr>op_fingerprint := s\<rparr>"
| "patch_op (O_attempt s) o' = o'\<lparr>op_attempt := s\<rparr>"
| "patch_op (O_fence n) o' = o'\<lparr>op_fence := n\<rparr>"

definition op_patched :: "op_patch list \<Rightarrow> timestamp \<Rightarrow> operation_row \<Rightarrow> operation_row" where
  "op_patched ps now o' = (fold patch_op ps o')\<lparr>op_revision := op_revision o' + 1, op_updated := now\<rparr>"

definition store_operation :: "string \<Rightarrow> operation_row store" where
  "store_operation i =
     bnd (gets (\<lambda>w. row_of op_id i (t_operations w))) (need (HErr ''NOT_FOUND'' 404))"

definition op_key :: "operation_row \<Rightarrow> string \<times> string \<times> string" where
  "op_key o' = (op_run o', op_message o', op_call o')"

definition operation_by_key :: "string \<Rightarrow> string \<Rightarrow> string \<Rightarrow> operation_row option store" where
  "operation_by_key run_id message_id call_id =
     bnd (gets (\<lambda>w. row_of op_key (run_id, message_id, call_id) (t_operations w))) (\<lambda>row.
     case row of
       None \<Rightarrow> ret None
     | Some o' \<Rightarrow> bnd (store_operation (op_id o')) (\<lambda>x. ret (Some x)))"

definition insert_operation :: "operation_row \<Rightarrow> unit store" where
  "insert_operation o' =
     bnd (gets t_operations) (\<lambda>rows.
     andthen (raise_if (op_key o' \<in> op_key ` set rows) SqlIntegrityError)
     (insert_unique t_operations t_operations_update op_id o'))"

definition prepare_operation :: "execution_context \<Rightarrow> op_request \<Rightarrow> operation_row store" where
  "prepare_operation ctx row =
     transaction
       (andthen (assert_fence ctx False)
       (bnd (operation_by_key (c_run ctx) (oq_message row) (oq_call row)) (\<lambda>existing.
        case existing of
          Some o' \<Rightarrow>
            (if op_args_hash o' \<noteq> oq_args_hash row \<or> op_tool_revision o' \<noteq> oq_tool_revision row \<or>
                op_tool o' \<noteq> oq_tool row
             then raise (HErr ''OPERATION_CONFLICT'' 409) else ret o')
        | None \<Rightarrow>
            bnd new_id (\<lambda>oid.
            bnd utc_now (\<lambda>now.
            andthen (insert_operation
              \<lparr>op_id = oid, op_run = c_run ctx, op_message = oq_message row, op_call = oq_call row,
               op_tool = oq_tool row, op_tool_revision = oq_tool_revision row,
               op_args_hash = oq_args_hash row, op_args = oq_args row,
               op_fingerprint = oq_fingerprint row, op_state = op_prepared, op_revision = 1,
               op_attempt = c_attempt ctx, op_fence = c_fence ctx, op_grant = None,
               op_result = None, op_metadata = oq_metadata row, op_created = now,
               op_updated = now\<rparr>)
            (bnd (store_event (c_run ctx) ''tool.prepared'' (JObj
              [(''operation_id'', JStr oid), (''tool_id'', JStr (oq_tool row)),
               (''tool_revision'', JStr (oq_tool_revision row)),
               (''input_summary'', JStr (oq_summary row)), (''artifact_refs'', JList [])])) (\<lambda>_.
            store_operation oid)))))))"

definition store_operations :: "string \<Rightarrow> operation_row list store" where
  "store_operations run_id =
     bnd (gets (\<lambda>w. sort_key op_created (filter (\<lambda>o'. op_run o' = run_id) (t_operations w)))) (\<lambda>rows.
     collect rows (\<lambda>o'. store_operation (op_id o')))"

definition update_operation ::
  "string \<Rightarrow> int \<Rightarrow> op_patch list \<Rightarrow> execution_context option \<Rightarrow> operation_row store" where
  "update_operation i expected patch ctx =
     transaction
       (andthen (case ctx of None \<Rightarrow> ret () | Some c \<Rightarrow> assert_fence c True)
       (bnd utc_now (\<lambda>now.
        bnd (gets (\<lambda>w. row_of op_id i (t_operations w))) (\<lambda>row.
        andthen (raise_if (\<not> (case row of None \<Rightarrow> False | Some o' \<Rightarrow> op_revision o' = expected))
          (HErr ''REVISION_CONFLICT'' 409))
        (andthen (update_where t_operations_update (\<lambda>o'. op_id o' = i) (op_patched patch now))
        (store_operation i))))))"

section \<open>Grants\<close>

definition add_grant ::
  "string \<Rightarrow> string \<Rightarrow> string \<Rightarrow> string \<Rightarrow> approval_binding \<Rightarrow> int \<Rightarrow> unit store" where
  "add_grant i operation_id owner_id run_id binding remaining =
     bnd utc_now (\<lambda>now.
     insert_unique t_grants t_grants_update g_id
       \<lparr>g_id = i, g_operation = operation_id, g_owner = owner_id, g_run = run_id,
        g_binding = binding, g_remaining = remaining, g_revoked = False, g_consumed = None,
        g_created = now\<rparr>)"

definition consume_grant ::
  "execution_context \<Rightarrow> string \<Rightarrow> approval_binding \<Rightarrow> int \<Rightarrow> operation_row store" where
  "consume_grant ctx grant_id binding policy_revision =
     transaction
       (andthen (assert_fence ctx False)
       (bnd (gets (\<lambda>w. row_of g_id grant_id (t_grants w))) (\<lambda>row.
        bnd (case row of
               None \<Rightarrow> raise (HErr ''GRANT_INVALID'' 403)
             | Some g \<Rightarrow>
                 (if g_owner g \<noteq> c_owner ctx \<or> g_run g \<noteq> c_run ctx \<or> g_revoked g \<or> g_remaining g < 1
                  then raise (HErr ''GRANT_INVALID'' 403) else ret g)) (\<lambda>g.
        bnd utc_now (\<lambda>now.
        andthen (raise_if (g_binding g \<noteq> binding \<or> ab_expires (g_binding g) \<le> now \<or>
            ab_policy_revision (g_binding g) \<noteq> policy_revision) (HErr ''GRANT_STALE'' 403))
        (bnd (store_operation (g_operation g)) (\<lambda>o'.
         andthen (raise_if (op_state o' \<notin> {op_prepared, op_authorized}) (HErr ''OPERATION_STATE'' 409))
         (andthen (update_where t_grants_update (\<lambda>g. g_id g = grant_id \<and> 0 < g_remaining g)
            (\<lambda>g. g\<lparr>g_remaining := g_remaining g - 1, g_consumed := Some now\<rparr>))
         (update_operation (op_id o') (op_revision o')
            [O_state op_running, O_grant (Some grant_id), O_attempt (c_attempt ctx),
             O_fence (c_fence ctx)] (Some ctx))))))))))"

definition revoke_grants :: "string \<Rightarrow> string list \<Rightarrow> unit store" where
  "revoke_grants run_id except_ids =
     update_where t_grants_update (\<lambda>g. g_run g = run_id \<and> g_id g \<notin> set except_ids)
       (\<lambda>g. g\<lparr>g_revoked := True\<rparr>)"

definition verify_consumed_grant :: "execution_context \<Rightarrow> string \<Rightarrow> int \<Rightarrow> bool store" where
  "verify_consumed_grant ctx operation_id policy_revision =
     transaction
       (andthen (assert_fence ctx False)
       (bnd (store_operation operation_id) (\<lambda>o'.
        bnd (gets (\<lambda>w. case op_grant o' of None \<Rightarrow> None | Some i \<Rightarrow> row_of g_id i (t_grants w))) (\<lambda>row.
        bnd (case row of
               None \<Rightarrow> raise (HErr ''GRANT_INVALID'' 403)
             | Some g \<Rightarrow>
                 (if g_owner g \<noteq> c_owner ctx \<or> g_run g \<noteq> c_run ctx \<or> g_operation g \<noteq> operation_id \<or>
                     g_revoked g \<or> g_remaining g \<noteq> 0 \<or> g_consumed g = None
                  then raise (HErr ''GRANT_INVALID'' 403) else ret g)) (\<lambda>g.
        bnd utc_now (\<lambda>now.
        andthen (raise_if (ab_expires (g_binding g) \<le> now \<or>
            ab_policy_revision (g_binding g) \<noteq> policy_revision \<or>
            ab_args_hash (g_binding g) \<noteq> op_args_hash o' \<or>
            ab_tool_revision (g_binding g) \<noteq> op_tool_revision o' \<or>
            ab_fingerprint (g_binding g) \<noteq> op_fingerprint o') (HErr ''GRANT_STALE'' 403))
        (ret True)))))))"

section \<open>Interactions\<close>

datatype interaction_patch =
    I_interrupt "string option"
  | I_checkpoint "checkpoint_ref option"
  | I_status interaction_status
  | I_resolution "resolution option"

fun patch_interaction :: "interaction_patch \<Rightarrow> interaction_row \<Rightarrow> interaction_row" where
  "patch_interaction (I_interrupt x) i = i\<lparr>i_interrupt := x\<rparr>"
| "patch_interaction (I_checkpoint x) i = i\<lparr>i_checkpoint := x\<rparr>"
| "patch_interaction (I_status s) i = i\<lparr>i_status := s\<rparr>"
| "patch_interaction (I_resolution x) i = i\<lparr>i_resolution := x\<rparr>"

definition interaction_patched :: "interaction_patch list \<Rightarrow> interaction_row \<Rightarrow> interaction_row" where
  "interaction_patched ps i = (fold patch_interaction ps i)\<lparr>i_revision := i_revision i + 1\<rparr>"

definition store_interaction :: "string \<Rightarrow> interaction_row store" where
  "store_interaction i =
     bnd (gets (\<lambda>w. row_of i_id i (t_interactions w))) (need (HErr ''NOT_FOUND'' 404))"

definition request_id :: "interaction_row \<Rightarrow> string \<times> string" where
  "request_id i = (i_run i, i_key i)"

definition prepare_interaction ::
  "execution_context \<Rightarrow> string \<Rightarrow> string \<Rightarrow> interaction_payload \<Rightarrow> timestamp option \<Rightarrow>
   interaction_row store" where
  "prepare_interaction ctx key kind payload expires_at =
     transaction
       (andthen (assert_fence ctx False)
       (bnd (gets (\<lambda>w. row_of request_id (c_run ctx, key) (t_interactions w))) (\<lambda>row.
        case row of
          Some i \<Rightarrow> store_interaction (i_id i)
        | None \<Rightarrow>
            bnd new_id (\<lambda>identity.
            bnd utc_now (\<lambda>now.
            andthen (insert_unique t_interactions t_interactions_update i_id
              \<lparr>i_id = identity, i_run = c_run ctx, i_key = key, i_interrupt = None,
               i_checkpoint = None, i_input_revision = c_input_revision ctx, i_kind = kind,
               i_status = pending_binding, i_revision = 1, i_payload = payload,
               i_resolution = None, i_expires = expires_at, i_created = now\<rparr>)
            (store_interaction identity))))))"

definition store_interactions :: "string \<Rightarrow> interaction_row list store" where
  "store_interactions run_id =
     bnd (gets (\<lambda>w. sort_key i_created (filter (\<lambda>i. i_run i = run_id) (t_interactions w)))) (\<lambda>rows.
     collect rows (\<lambda>i. store_interaction (i_id i)))"

text \<open>
  The unique constraint over run, interrupt and input revision: two rows of a run may not share a
  bound interrupt at one input revision. A null interrupt is not compared.
\<close>

definition interrupt_clash :: "interaction_row \<Rightarrow> interaction_row list \<Rightarrow> bool" where
  "interrupt_clash new rows \<longleftrightarrow>
     i_interrupt new \<noteq> None \<and>
     (\<exists>i\<in>set rows. i_id i \<noteq> i_id new \<and> i_run i = i_run new \<and>
        i_interrupt i = i_interrupt new \<and> i_input_revision i = i_input_revision new)"

definition update_interaction ::
  "string \<Rightarrow> int \<Rightarrow> interaction_patch list \<Rightarrow> interaction_row store" where
  "update_interaction i expected patch =
     bnd (gets (\<lambda>w. row_of i_id i (t_interactions w))) (\<lambda>row.
     bnd (case row of
            None \<Rightarrow> raise (HErr ''REVISION_CONFLICT'' 409)
          | Some r \<Rightarrow> (if i_revision r \<noteq> expected then raise (HErr ''REVISION_CONFLICT'' 409) else ret r)) (\<lambda>r.
     bnd (gets t_interactions) (\<lambda>rows.
     andthen (raise_if (interrupt_clash (interaction_patched patch r) rows) SqlIntegrityError)
     (andthen (update_where t_interactions_update (\<lambda>r. i_id r = i) (interaction_patched patch))
     (store_interaction i)))))"

section \<open>Reconciliations\<close>

definition add_reconciliation ::
  "string \<Rightarrow> int \<Rightarrow> string \<Rightarrow> string \<Rightarrow> json \<Rightarrow> string store" where
  "add_reconciliation operation_id expected_revision actor decision payload =
     bnd new_id (\<lambda>identity.
     bnd utc_now (\<lambda>now.
     andthen (insert_unique t_reconciliations t_reconciliations_update rcn_id
       \<lparr>rcn_id = identity, rcn_operation = operation_id, rcn_expected = expected_revision,
        rcn_actor = actor, rcn_decision = decision, rcn_payload = payload, rcn_created = now\<rparr>)
     (ret identity)))"

definition store_reconciliations :: "string \<Rightarrow> reconciliation_row list store" where
  "store_reconciliations operation_id =
     gets (\<lambda>w. sort_key rcn_created
       (filter (\<lambda>r. rcn_operation r = operation_id) (t_reconciliations w)))"

section \<open>Frames\<close>

context db_history
begin

lemma keeps_op_reads:
  "keeps R (store_operation i)" "keeps R (operation_by_key r m c)" "keeps R (store_operations r)"
  "keeps R (verify_consumed_grant ctx o' n)" "keeps R (store_interaction i)"
  "keeps R (store_interactions r)" "keeps R (store_reconciliations o')"
  unfolding store_operations_def operation_by_key_def store_interactions_def store_reconciliations_def
    verify_consumed_grant_def store_operation_def store_interaction_def
  by (intro keeps_db keeps_reads | simp)+

end

lemma core_ops [core_keeps]:
  "keeps (same_view core) (update_operation i n ps ctx)"
  "keeps (same_view core) (add_grant i o' own run b k)"
  "keeps (same_view core) (consume_grant cx g b n)"
  "keeps (same_view core) (revoke_grants run xs)"
  "keeps (same_view core) (prepare_interaction cx key kind p e)"
  "keeps (same_view core) (update_interaction i n ips)"
  "keeps (same_view core) (add_reconciliation o' n a d j)"
proof -
  show upd: "keeps (same_view core) (update_operation i n ps ctx)" for i n ps ctx
    unfolding update_operation_def
    by (intro core_rules same_core.keeps_op_reads; simp add: core_def)
  show "keeps (same_view core) (add_grant i o' own run b k)"
    unfolding add_grant_def by (intro core_rules; simp add: core_def)
  show "keeps (same_view core) (consume_grant cx g b n)"
    unfolding consume_grant_def
    by (intro core_rules same_core.keeps_op_reads upd; simp add: core_def)
  show "keeps (same_view core) (revoke_grants run xs)"
    unfolding revoke_grants_def by (intro core_rules; simp add: core_def)
  show "keeps (same_view core) (prepare_interaction cx key kind p e)"
    unfolding prepare_interaction_def
    by (intro core_rules same_core.keeps_op_reads; simp add: core_def)
  show "keeps (same_view core) (update_interaction i n ips)"
    unfolding update_interaction_def
    by (intro core_rules same_core.keeps_op_reads; simp add: core_def)
  show "keeps (same_view core) (add_reconciliation o' n a d j)"
    unfolding add_reconciliation_def by (intro core_rules; simp add: core_def)
qed

lemma keeps_prepare_operation [path_keeps]: "keeps run_path (prepare_operation ctx row)"
proof -
  have "keeps run_path (insert_operation o')" for o'
    unfolding insert_operation_def
    by (intro path.keeps_db path.keeps_insert_unique) (auto intro: run_path_core simp: core_def)
  then show ?thesis
    unfolding prepare_operation_def
    by (intro path.keeps_db path.keeps_reads path.keeps_op_reads keeps_store_event)
qed

section \<open>What the writes do\<close>

definition op_at :: "world \<Rightarrow> string \<Rightarrow> operation_row option" where
  "op_at w i = row_of op_id i (t_operations w)"

definition grant_at :: "world \<Rightarrow> string \<Rightarrow> grant_row option" where
  "grant_at w i = row_of g_id i (t_grants w)"

definition put_op :: "string \<Rightarrow> (operation_row \<Rightarrow> operation_row) \<Rightarrow> world \<Rightarrow> world" where
  "put_op i f w = w\<lparr>t_operations := update_rows (\<lambda>o'. op_id o' = i) f (t_operations w)\<rparr>"

definition use_grant :: "string \<Rightarrow> world \<Rightarrow> world" where
  "use_grant i w = w\<lparr>t_grants := update_rows (\<lambda>g. g_id g = i \<and> 0 < g_remaining g)
     (\<lambda>g. g\<lparr>g_remaining := g_remaining g - 1, g_consumed := Some (w_now w)\<rparr>) (t_grants w)\<rparr>"

lemma patch_op_id: "op_id (patch_op p o') = op_id o' \<and> op_run (patch_op p o') = op_run o' \<and>
    op_key (patch_op p o') = op_key o' \<and> op_tool (patch_op p o') = op_tool o' \<and>
    op_args_hash (patch_op p o') = op_args_hash o'"
  by (cases p) (auto simp: op_key_def)

lemma fold_patch_op_id: "op_id (fold patch_op ps o') = op_id o' \<and> op_run (fold patch_op ps o') = op_run o' \<and>
    op_key (fold patch_op ps o') = op_key o' \<and> op_tool (fold patch_op ps o') = op_tool o' \<and>
    op_args_hash (fold patch_op ps o') = op_args_hash o'"
  by (induction ps arbitrary: o') (auto simp: patch_op_id)

lemma op_patched_simps [simp]:
  "op_id (op_patched ps now o') = op_id o'" "op_run (op_patched ps now o') = op_run o'"
  "op_key (op_patched ps now o') = op_key o'" "op_revision (op_patched ps now o') = op_revision o' + 1"
  "op_tool (op_patched ps now o') = op_tool o'" "op_args_hash (op_patched ps now o') = op_args_hash o'"
  using fold_patch_op_id [of ps o'] by (simp_all add: op_patched_def op_key_def)

lemma op_frames [simp]:
  "op_at (w\<lparr>w_active := b\<rparr>) i = op_at w i" "grant_at (w\<lparr>w_active := b\<rparr>) i = grant_at w i"
  "op_at (use_grant g w) i = op_at w i" "grant_at (put_op j f w) i = grant_at w i"
  "put_op i f (w\<lparr>w_active := b\<rparr>) = (put_op i f w)\<lparr>w_active := b\<rparr>"
  "use_grant g (w\<lparr>w_active := b\<rparr>) = (use_grant g w)\<lparr>w_active := b\<rparr>"
  "w_active (put_op i f w) = w_active w" "w_active (use_grant g w) = w_active w"
  "w_now (put_op i f w) = w_now w" "w_now (use_grant g w) = w_now w"
  "run_at (use_grant g w) r = run_at w r" "run_at (put_op i f w) r = run_at w r"
  "core (use_grant g w) = core w" "core (put_op i f w) = core w"
  by (simp_all add: op_at_def grant_at_def put_op_def use_grant_def run_at_def core_def)

lemma op_at_put_op:
  "(\<And>o'. op_id (f o') = op_id o') \<Longrightarrow>
   op_at (put_op i f w) j = (if j = i then map_option f (op_at w j) else op_at w j)"
  by (simp add: op_at_def put_op_def row_of_update_key)

lemma grant_at_use_grant:
  "grant_at (use_grant i w) j =
     (if j = i then map_option (\<lambda>g. if 0 < g_remaining g
        then g\<lparr>g_remaining := g_remaining g - 1, g_consumed := Some (w_now w)\<rparr> else g) (grant_at w j)
      else grant_at w j)"
  by (cases "row_of g_id i (t_grants w)")
    (auto simp: grant_at_def use_grant_def row_of_update_rows option.map_id0 dest: row_of_SomeD
      intro!: option.map_ident_strong)

lemma store_operation_eval:
  "store_operation i w = (case op_at w i of None \<Rightarrow> (Inl (HErr ''NOT_FOUND'' 404), w) | Some o' \<Rightarrow> (Inr o', w))"
  by (simp add: store_operation_def op_at_def bnd_def split: option.split)

lemma fence_result_frame [simp]:
  "fence_result ctx allow (use_grant g w) = fence_result ctx allow w"
  "ctx_result c (use_grant g w) = ctx_result c w"
proof -
  show "fence_result ctx allow (use_grant g w) = fence_result ctx allow w" for ctx allow
    by (auto simp: fence_result_def assert_fence_def store_run_def store_attempt_def bnd_def
        andthen_def raise_if_def use_grant_def split: option.splits)
  then show "ctx_result c (use_grant g w) = ctx_result c w"
    by (simp add: ctx_result_def split: option.split)
qed

lemma update_operation_eval:
  "update_operation i n ps ctx w =
     (case ctx_result ctx w of
        Inl e \<Rightarrow> (Inl e, w)
      | Inr _ \<Rightarrow>
          (case op_at w i of
             Some o' \<Rightarrow>
               (if op_revision o' = n
                then (Inr (op_patched ps (w_now w) o'), put_op i (op_patched ps (w_now w)) w)
                else (Inl (HErr ''REVISION_CONFLICT'' 409), w))
           | None \<Rightarrow> (Inl (HErr ''REVISION_CONFLICT'' 409), w)))"
proof -
  let ?b = "\<lambda>now row. andthen (raise_if (\<not> (case row of None \<Rightarrow> False | Some o' \<Rightarrow> op_revision o' = n))
          (HErr ''REVISION_CONFLICT'' 409))
        (andthen (update_where t_operations_update (\<lambda>o'. op_id o' = i) (op_patched ps now))
        (store_operation i))"
  have body: "?b (w_now u) (op_at u i) u =
      (case op_at u i of
         Some r \<Rightarrow> (if op_revision r = n
            then (Inr (op_patched ps (w_now u) r), put_op i (op_patched ps (w_now u)) u)
            else (Inl (HErr ''REVISION_CONFLICT'' 409), u))
       | None \<Rightarrow> (Inl (HErr ''REVISION_CONFLICT'' 409), u))" for u
    by (auto simp: store_operation_eval put_op_def op_at_def row_of_update_key bnd_def andthen_def
        raise_if_def split: option.split)
  let ?m = "andthen (case ctx of None \<Rightarrow> ret () | Some c \<Rightarrow> assert_fence c True)
       (bnd utc_now (\<lambda>now. bnd (gets (\<lambda>w. row_of op_id i (t_operations w))) (\<lambda>row. ?b now row)))"
  have m: "?m u = (case ctx_result ctx u of Inl e \<Rightarrow> (Inl e, u) | Inr _ \<Rightarrow> ?b (w_now u) (op_at u i) u)" for u
    by (simp add: andthen_def [of "case ctx of None \<Rightarrow> ret () | Some c \<Rightarrow> assert_fence c True"]
        bnd_def ctx_guard_eval op_at_def split: sum.split)
  show ?thesis
    unfolding update_operation_def transaction_def m body
    by (cases "ctx_result ctx w"; cases "op_at w i"; cases "w_active w") simp_all
qed

text \<open>The conditions under which a grant may be consumed.\<close>

definition grant_usable ::
  "world \<Rightarrow> execution_context \<Rightarrow> approval_binding \<Rightarrow> int \<Rightarrow> grant_row \<Rightarrow> bool" where
  "grant_usable w ctx binding policy g \<longleftrightarrow>
     g_owner g = c_owner ctx \<and> g_run g = c_run ctx \<and> \<not> g_revoked g \<and> 1 \<le> g_remaining g \<and>
     g_binding g = binding \<and> w_now w < ab_expires binding \<and> ab_policy_revision binding = policy"

definition consume_body ::
  "execution_context \<Rightarrow> string \<Rightarrow> approval_binding \<Rightarrow> int \<Rightarrow> operation_row store" where
  "consume_body ctx grant_id binding policy_revision =
       andthen (assert_fence ctx False)
       (bnd (gets (\<lambda>w. row_of g_id grant_id (t_grants w))) (\<lambda>row.
        bnd (case row of
               None \<Rightarrow> raise (HErr ''GRANT_INVALID'' 403)
             | Some g \<Rightarrow>
                 (if g_owner g \<noteq> c_owner ctx \<or> g_run g \<noteq> c_run ctx \<or> g_revoked g \<or> g_remaining g < 1
                  then raise (HErr ''GRANT_INVALID'' 403) else ret g)) (\<lambda>g.
        bnd utc_now (\<lambda>now.
        andthen (raise_if (g_binding g \<noteq> binding \<or> ab_expires (g_binding g) \<le> now \<or>
            ab_policy_revision (g_binding g) \<noteq> policy_revision) (HErr ''GRANT_STALE'' 403))
        (bnd (store_operation (g_operation g)) (\<lambda>o'.
         andthen (raise_if (op_state o' \<notin> {op_prepared, op_authorized}) (HErr ''OPERATION_STATE'' 409))
         (andthen (update_where t_grants_update (\<lambda>g. g_id g = grant_id \<and> 0 < g_remaining g)
            (\<lambda>g. g\<lparr>g_remaining := g_remaining g - 1, g_consumed := Some now\<rparr>))
         (update_operation (op_id o') (op_revision o')
            [O_state op_running, O_grant (Some grant_id), O_attempt (c_attempt ctx),
             O_fence (c_fence ctx)] (Some ctx)))))))))"

lemma consume_grant_alt: "consume_grant ctx i b n = transaction (consume_body ctx i b n)"
  by (simp only: consume_grant_def consume_body_def)

lemma consume_body_Inr:
  assumes run: "consume_body ctx i binding policy w = (Inr x, v)"
  obtains g o' where "fence_open w ctx False" "grant_at w i = Some g" "grant_usable w ctx binding policy g"
    "op_at w (g_operation g) = Some o'" "op_state o' \<in> {op_prepared, op_authorized}"
    "x = op_patched [O_state op_running, O_grant (Some i), O_attempt (c_attempt ctx),
       O_fence (c_fence ctx)] (w_now w) o'"
    "v = put_op (g_operation g) (op_patched [O_state op_running, O_grant (Some i),
       O_attempt (c_attempt ctx), O_fence (c_fence ctx)] (w_now w)) (use_grant i w)"
proof -
  let ?ps = "[O_state op_running, O_grant (Some i), O_attempt (c_attempt ctx), O_fence (c_fence ctx)]"
  from run [unfolded consume_body_def]
  obtain g o' where fence: "fence_open w ctx False" and g: "row_of g_id i (t_grants w) = Some g"
    and own: "\<not> (g_owner g \<noteq> c_owner ctx \<or> g_run g \<noteq> c_run ctx \<or> g_revoked g \<or> g_remaining g < 1)"
    and fresh: "\<not> (g_binding g \<noteq> binding \<or> ab_expires (g_binding g) \<le> w_now w \<or>
      ab_policy_revision (g_binding g) \<noteq> policy)"
    and o': "store_operation (g_operation g) w = (Inr o', w)"
    and state: "op_state o' \<in> {op_prepared, op_authorized}"
    and upd: "update_operation (op_id o') (op_revision o') ?ps (Some ctx)
      (t_grants_update (update_rows (\<lambda>g. g_id g = i \<and> 0 < g_remaining g)
        (\<lambda>g. g\<lparr>g_remaining := g_remaining g - 1, g_consumed := Some (w_now w)\<rparr>)) w) = (Inr x, v)"
    by (auto simp: act_iffs assert_fence_Inr store_operation_eval simp del: bnd_apply andthen_apply
        split: option.splits)
  have use: "t_grants_update (update_rows (\<lambda>g. g_id g = i \<and> 0 < g_remaining g)
        (\<lambda>g. g\<lparr>g_remaining := g_remaining g - 1, g_consumed := Some (w_now w)\<rparr>)) w = use_grant i w"
    by (simp add: use_grant_def)
  from o' have "op_at w (g_operation g) = Some o'" and oid: "op_id o' = g_operation g"
    by (auto simp: store_operation_eval op_at_def dest: row_of_SomeD split: option.splits)
  moreover from upd oid this have "x = op_patched ?ps (w_now w) o'"
    "v = put_op (g_operation g) (op_patched ?ps (w_now w)) (use_grant i w)"
    unfolding use by (auto simp: update_operation_eval split: sum.splits if_splits)
  moreover have "grant_at w i = Some g" "grant_usable w ctx binding policy g"
    using g own fresh by (auto simp: grant_at_def grant_usable_def)
  ultimately show ?thesis using that fence state by blast
qed

lemma consume_grant_Inr:
  assumes "\<not> w_active w" and run: "consume_grant ctx i binding policy w = (Inr x, v)"
  obtains g o' where "fence_open w ctx False" "grant_at w i = Some g" "grant_usable w ctx binding policy g"
    "op_at w (g_operation g) = Some o'" "op_state o' \<in> {op_prepared, op_authorized}"
    "x = op_patched [O_state op_running, O_grant (Some i), O_attempt (c_attempt ctx),
       O_fence (c_fence ctx)] (w_now w) o'"
    "v = put_op (g_operation g) (op_patched [O_state op_running, O_grant (Some i),
       O_attempt (c_attempt ctx), O_fence (c_fence ctx)] (w_now w)) (use_grant i w)"
proof -
  from transaction_InrD [OF assms(1) run [unfolded consume_grant_alt]]
  obtain u where body: "consume_body ctx i binding policy (w\<lparr>w_active := True\<rparr>) = (Inr x, u)"
    and v: "v = u\<lparr>w_active := False\<rparr>"
    by blast
  from body show ?thesis
  proof (rule consume_body_Inr)
    fix g o'
    assume "fence_open (w\<lparr>w_active := True\<rparr>) ctx False" "grant_at (w\<lparr>w_active := True\<rparr>) i = Some g"
      "grant_usable (w\<lparr>w_active := True\<rparr>) ctx binding policy g"
      "op_at (w\<lparr>w_active := True\<rparr>) (g_operation g) = Some o'"
      "op_state o' \<in> {op_prepared, op_authorized}"
      "x = op_patched [O_state op_running, O_grant (Some i), O_attempt (c_attempt ctx),
         O_fence (c_fence ctx)] (w_now (w\<lparr>w_active := True\<rparr>)) o'"
      "u = put_op (g_operation g) (op_patched [O_state op_running, O_grant (Some i),
         O_attempt (c_attempt ctx), O_fence (c_fence ctx)] (w_now (w\<lparr>w_active := True\<rparr>)))
         (use_grant i (w\<lparr>w_active := True\<rparr>))"
    then show ?thesis
      using that [of g o'] assms(1) by (simp add: v grant_usable_def grant_at_def use_grant_def put_op_def)
  qed
qed

text \<open>A consumption that is refused changes nothing.\<close>

lemma consume_grant_Inl: "\<not> w_active w \<Longrightarrow> consume_grant ctx i b n w = (Inl e, v) \<Longrightarrow> v = w"
  unfolding consume_grant_def by (rule transaction_atomic)

section \<open>Properties\<close>


text \<open>
  A grant for one use is used once: after it has been consumed no attempt to consume it again
  succeeds, whatever the worker, the binding, the policy revision or the time.
\<close>

theorem single_use_grant:
  assumes "\<not> w_active w" and "grant_at w i = Some g" and "g_remaining g = 1"
    and "consume_grant ctx i b n w = (Inr x, v)" and "\<not> w_active u" and "t_grants u = t_grants v"
  shows "\<exists>e. consume_grant ctx' i b' n' u = (Inl e, u)"
proof (cases "consume_grant ctx' i b' n' u")
  case (Pair r t)
  have same: "grant_at u i = grant_at v i" using assms(6) by (simp add: grant_at_def)
  have used: "\<exists>g'. grant_at u i = Some g' \<and> g_remaining g' = 0"
    by (rule consume_grant_Inr [OF assms(1,4)])
      (use assms(2,3) same in \<open>auto simp: grant_at_use_grant grant_usable_def\<close>)
  show ?thesis
  proof (cases r)
    case (Inl e)
    with Pair assms(5) show ?thesis by (auto dest: consume_grant_Inl)
  next
    case (Inr y)
    with Pair assms(5) obtain g' where "grant_at u i = Some g'" "1 \<le> g_remaining g'"
      by (auto elim: consume_grant_Inr simp: grant_usable_def)
    with used show ?thesis by simp
  qed
qed

text \<open>
  After the grants of a run are revoked, none of them can be consumed except the ones named as
  retained: cancelling or ending a run closes every permission it still held.
\<close>

theorem revoked_grants_closed:
  assumes "\<not> w_active w" and "revoke_grants run keep w = (r, v)"
    and "grant_at w i = Some g" and "g_run g = run" and "i \<notin> set keep"
  shows "\<exists>e. consume_grant ctx i b n v = (Inl e, v)"
proof (cases "consume_grant ctx i b n v")
  case (Pair r t)
  have v: "\<not> w_active v" and "grant_at v i = Some (g\<lparr>g_revoked := True\<rparr>)"
    using assms by (auto simp: revoke_grants_def grant_at_def row_of_update_rows dest: row_of_SomeD)
  then show ?thesis
    using Pair by (cases r) (auto dest: consume_grant_Inl elim: consume_grant_Inr simp: grant_usable_def)
qed

section \<open>Concrete runs\<close>

text \<open>One run that a worker has claimed, with a prepared operation and a grant for it.\<close>

definition sample_run :: run_row where
  "sample_run =
     \<lparr>r_id = ''run'', r_owner = ''owner'', r_workspace = ''ws'', r_session = ''session'',
      r_branch = ''branch'', r_root = ''run'', r_parent = None, r_status = running, r_revision = 2,
      r_input_revision = 1, r_snapshot = ''snap'', r_input = JObj [], r_checkpoint = None,
      r_result = None, r_error = None, r_deadline = None, r_created = 0, r_updated = 0,
      r_next_seq = 1, r_fence = 1, r_attempt = Some ''attempt'', r_cancel = False, r_required = [],
      r_depth = 0\<rparr>"

definition sample_context :: execution_context where
  "sample_context =
     \<lparr>c_owner = ''owner'', c_workspace = ''ws'', c_session = ''session'', c_branch = ''branch'',
      c_run = ''run'', c_root = ''run'', c_parent = None, c_attempt = ''attempt'', c_fence = 1,
      c_thread = ''thread'', c_input_revision = 1, c_snapshot = ''snap'', c_deadline = None,
      c_trace = ''run''\<rparr>"

definition sample_branch :: branch_row where
  "sample_branch =
     \<lparr>b_id = ''branch'', b_session = ''session'', b_parent = None, b_thread = ''thread'',
      b_checkpoint = None, b_active = Some ''run'', b_revision = 1, b_created = 0\<rparr>"

definition sample_attempt :: attempt_row where
  "sample_attempt =
     \<lparr>a_id = ''attempt'', a_run = ''run'', a_worker = ''worker'', a_pid = 1, a_start = 0,
      a_lease = 1000, a_fence = 1, a_ended = None, a_reason = None, a_created = 0\<rparr>"

definition sample_operation :: operation_row where
  "sample_operation =
     \<lparr>op_id = ''op'', op_run = ''run'', op_message = ''msg'', op_call = ''call'', op_tool = ''write_file'',
      op_tool_revision = ''1'', op_args_hash = ''hash'', op_args = JObj [], op_fingerprint = ''print'',
      op_state = op_prepared, op_revision = 1, op_attempt = ''attempt'', op_fence = 1,
      op_grant = None, op_result = None, op_metadata = JObj [], op_created = 0, op_updated = 0\<rparr>"

definition sample_binding :: approval_binding where
  "sample_binding =
     \<lparr>ab_operation = ''op'', ab_tool_revision = ''1'', ab_args_hash = ''hash'',
      ab_fingerprint = ''print'', ab_policy_revision = 7, ab_expires = 500\<rparr>"

definition running_world :: world where
  "running_world = fresh_store
     \<lparr>t_runs := [sample_run], t_branches := [sample_branch], t_attempts := [sample_attempt]\<rparr>"

definition granted_world :: world where
  "granted_world = running_world
     \<lparr>t_operations := [sample_operation],
      t_grants := [\<lparr>g_id = ''grant'', g_operation = ''op'', g_owner = ''owner'', g_run = ''run'',
         g_binding = sample_binding, g_remaining = 1, g_revoked = False, g_consumed = None,
         g_created = 0\<rparr>]\<rparr>"

lemma granted_quiet: "\<not> w_active granted_world"
  by code_simp

abbreviation sample_consume :: "world \<Rightarrow> (err + operation_row) \<times> world" where
  "sample_consume \<equiv> consume_grant sample_context ''grant'' sample_binding 7"

lemma sample_consumed:
  "\<exists>x. sample_consume granted_world = (Inr x, snd (sample_consume granted_world))"
proof -
  have "\<not> isl (fst (sample_consume granted_world))" by code_simp
  then show ?thesis
    by (cases "fst (sample_consume granted_world)") (auto simp: prod_eq_iff)
qed


lemma single_use_grant_witness:
  "\<exists>e. sample_consume (snd (sample_consume granted_world)) = (Inl e, snd (sample_consume granted_world))"
proof -
  obtain x where run: "sample_consume granted_world = (Inr x, snd (sample_consume granted_world))"
    using sample_consumed by blast
  have "\<not> w_active (snd (sample_consume granted_world))" by code_simp
  moreover have "map_option g_remaining (grant_at granted_world ''grant'') = Some 1" by code_simp
  ultimately show ?thesis
    using single_use_grant [OF granted_quiet _ _ run _ refl] by auto
qed

lemma revoked_grants_closed_witness:
  "\<exists>e. sample_consume (snd (revoke_grants ''run'' [] granted_world)) =
     (Inl e, snd (revoke_grants ''run'' [] granted_world))"
proof -
  have "map_option g_run (grant_at granted_world ''grant'') = Some ''run''" by code_simp
  then obtain g where "grant_at granted_world ''grant'' = Some g" "g_run g = ''run''" by auto
  then show ?thesis
    using revoked_grants_closed [OF granted_quiet prod.collapse [symmetric], of _ g "''run''" "[]"] by simp
qed

end
