(* ===== verification/Ledger.thy ===== *)
theory Ledger
  imports Store_Ops "HOL-Library.AList"
begin

text \<open>
  Budget accounts and reservations of \<^verbatim>\<open>harness/storage/store.py\<close>: a caller reserves an upper
  bound under a key before it acts, and settles the key with what it really used. The ledger
  invariant says that an account's two totals are exactly the sums over its reservations and that
  reserved plus consumed stays within the limit. Arithmetic is exact here; the program adds
  costs in floating point.
\<close>

section \<open>Amounts\<close>

definition amt :: "string \<Rightarrow> amount \<Rightarrow> rat" where
  "amt d a = (case map_of a d of None \<Rightarrow> 0 | Some v \<Rightarrow> v)"

definition amt_set :: "string \<Rightarrow> rat \<Rightarrow> amount \<Rightarrow> amount" where
  "amt_set d v a = AList.update d v a"

text \<open>Two dictionaries are equal as stored texts when their sorted entries are.\<close>

definition same_amount :: "amount \<Rightarrow> amount \<Rightarrow> bool" where
  "same_amount a b \<longleftrightarrow> sort_key fst a = sort_key fst b"

lemma amt_Nil [simp]: "amt d [] = 0"
  by (simp add: amt_def)

lemma amt_Cons: "amt d ((k, v) # a) = (if k = d then v else amt d a)"
  by (simp add: amt_def)

lemma amt_set [simp]: "amt d (amt_set k v a) = (if d = k then v else amt d a)"
  by (simp add: amt_def amt_set_def update_conv')

section \<open>Operations\<close>

definition store_account :: "string \<Rightarrow> account_row store" where
  "store_account i =
     bnd (gets (\<lambda>w. row_of acc_id i (t_accounts w))) (need (HErr ''NO_BUDGET'' 409))"

definition add_account ::
  "string \<Rightarrow> string \<Rightarrow> string \<Rightarrow> (string \<times> rat option) list \<Rightarrow> unit store" where
  "add_account i scope scope_id limits =
     bnd (gets t_accounts) (\<lambda>rows.
     andthen (raise_if ((scope, scope_id) \<in> (\<lambda>a. (acc_scope a, acc_scope_id a)) ` set rows)
       SqlIntegrityError)
     (insert_unique t_accounts t_accounts_update acc_id
       \<lparr>acc_id = i, acc_scope = scope, acc_scope_id = scope_id, acc_limits = limits,
        acc_consumed = [], acc_reserved = []\<rparr>))"

definition limit_of :: "(string \<times> rat option) list \<Rightarrow> string \<Rightarrow> rat option" where
  "limit_of limits d = (case map_of limits d of None \<Rightarrow> None | Some l \<Rightarrow> l)"

text \<open>The loop of \<^verbatim>\<open>reserve\<close> over the dimensions of the amount.\<close>

fun reserve_dims ::
  "(string \<times> rat option) list \<Rightarrow> amount \<Rightarrow> amount \<Rightarrow> amount \<Rightarrow> err + amount" where
  "reserve_dims limits consumed [] reserved = Inr reserved"
| "reserve_dims limits consumed ((d, v) # rest) reserved =
     (if v < 0 then Inl PyValueError
      else if (case limit_of limits d of None \<Rightarrow> False
               | Some l \<Rightarrow> l < amt d reserved + amt d consumed + v)
        then Inl (HErr ''BUDGET_EXHAUSTED'' 429)
      else reserve_dims limits consumed rest (amt_set d (amt d reserved + v) reserved))"

definition reserve :: "string \<Rightarrow> string \<Rightarrow> amount \<Rightarrow> reservation_row store" where
  "reserve account_id key amount =
     transaction
       (bnd (gets (\<lambda>w. row_of rv_key key (t_reservations w))) (\<lambda>saved.
        case saved of
          Some s \<Rightarrow>
            (if rv_account s \<noteq> account_id \<or> \<not> same_amount (rv_amount s) amount
             then raise (HErr ''RESERVATION_CONFLICT'' 409) else ret s)
        | None \<Rightarrow>
            bnd (store_account account_id) (\<lambda>account.
            bnd (lift (reserve_dims (acc_limits account) (acc_consumed account) amount
                   (acc_reserved account))) (\<lambda>reserved.
            andthen (update_where t_accounts_update (\<lambda>a. acc_id a = account_id)
              (\<lambda>a. a\<lparr>acc_reserved := reserved\<rparr>))
            (bnd utc_now (\<lambda>now.
             bnd (ret \<lparr>rv_key = key, rv_account = account_id, rv_amount = amount, rv_actual = None,
                       rv_state = rv_reserved, rv_created = now\<rparr>) (\<lambda>row.
             andthen (insert_unique t_reservations t_reservations_update rv_key row)
             (ret row))))))))"

definition store_reservation :: "string \<Rightarrow> reservation_row option store" where
  "store_reservation key = gets (\<lambda>w. row_of rv_key key (t_reservations w))"

definition usage_fits :: "amount \<Rightarrow> amount \<Rightarrow> bool" where
  "usage_fits actual amount \<longleftrightarrow> list_all (\<lambda>(d, v). 0 \<le> v \<and> v \<le> amt d amount) actual"

text \<open>The loop of \<^verbatim>\<open>settle\<close> over the dimensions of the reserved amount.\<close>

fun settle_dims :: "amount \<Rightarrow> amount \<Rightarrow> amount \<times> amount \<Rightarrow> amount \<times> amount" where
  "settle_dims actual [] totals = totals"
| "settle_dims actual ((d, v) # rest) (reserved, consumed) =
     settle_dims actual rest
       (amt_set d (amt d reserved - v) reserved, amt_set d (amt d consumed + amt d actual) consumed)"

definition settle :: "string \<Rightarrow> amount option \<Rightarrow> reservation_row store" where
  "settle key actual =
     transaction
       (bnd (gets (\<lambda>w. row_of rv_key key (t_reservations w))) (\<lambda>saved.
        bnd (need (HErr ''NOT_FOUND'' 404) saved) (\<lambda>s.
        if rv_state s = rv_settled
        then (if (case (rv_actual s, actual) of
                    (Some x, Some y) \<Rightarrow> same_amount x y | (None, None) \<Rightarrow> True | _ \<Rightarrow> False)
              then ret s else raise (HErr ''SETTLEMENT_CONFLICT'' 409))
        else
          (case actual of
             None \<Rightarrow>
               andthen (update_where t_reservations_update (\<lambda>r. rv_key r = key)
                 (\<lambda>r. r\<lparr>rv_state := rv_unknown\<rparr>))
               (ret (s\<lparr>rv_state := rv_unknown\<rparr>))
           | Some used \<Rightarrow>
               bnd (store_account (rv_account s)) (\<lambda>account.
               andthen (raise_if (\<not> usage_fits used (rv_amount s))
                 (HErr ''USAGE_EXCEEDS_RESERVATION'' 409))
               (bnd (ret (settle_dims used (rv_amount s) (acc_reserved account, acc_consumed account)))
                (\<lambda>totals.
                andthen (update_where t_accounts_update (\<lambda>a. acc_id a = acc_id account)
                  (\<lambda>a. a\<lparr>acc_reserved := fst totals, acc_consumed := snd totals\<rparr>))
                (andthen (update_where t_reservations_update (\<lambda>r. rv_key r = key)
                  (\<lambda>r. r\<lparr>rv_state := rv_settled, rv_actual := Some used\<rparr>))
                (ret (s\<lparr>rv_state := rv_settled, rv_actual := Some used\<rparr>))))))))))"

context db_history
begin

lemma keeps_ledger_reads: "keeps R (store_account i)" "keeps R (store_reservation k)"
  unfolding store_account_def store_reservation_def by (intro keeps_db)+

end

lemma core_ledger [core_keeps]:
  "keeps (same_view core) (add_account i s t l)" "keeps (same_view core) (reserve a k m)"
  "keeps (same_view core) (settle k x)"
  unfolding add_account_def reserve_def settle_def
  by (intro core_rules same_core.keeps_ledger_reads; simp add: core_def)+

section \<open>The ledger invariant\<close>

definition account_at :: "world \<Rightarrow> string \<Rightarrow> account_row option" where
  "account_at w i = row_of acc_id i (t_accounts w)"

definition reservation_at :: "world \<Rightarrow> string \<Rightarrow> reservation_row option" where
  "reservation_at w k = row_of rv_key k (t_reservations w)"

definition held_by :: "string \<Rightarrow> string \<Rightarrow> reservation_row \<Rightarrow> rat" where
  "held_by i d r = (if rv_account r = i \<and> rv_state r \<noteq> rv_settled then amt d (rv_amount r) else 0)"

definition spent_by :: "string \<Rightarrow> string \<Rightarrow> reservation_row \<Rightarrow> rat" where
  "spent_by i d r = (if rv_account r = i \<and> rv_state r = rv_settled
     then (case rv_actual r of None \<Rightarrow> 0 | Some a \<Rightarrow> amt d a) else 0)"

definition held :: "world \<Rightarrow> string \<Rightarrow> string \<Rightarrow> rat" where
  "held w i d = sum_list (map (held_by i d) (t_reservations w))"

definition spent :: "world \<Rightarrow> string \<Rightarrow> string \<Rightarrow> rat" where
  "spent w i d = sum_list (map (spent_by i d) (t_reservations w))"

definition wf_amount :: "amount \<Rightarrow> bool" where
  "wf_amount a \<longleftrightarrow> distinct (map fst a) \<and> (\<forall>e\<in>set a. 0 \<le> snd e)"

definition wf_reservation :: "reservation_row \<Rightarrow> bool" where
  "wf_reservation r \<longleftrightarrow> wf_amount (rv_amount r) \<and>
     (rv_state r = rv_settled \<longrightarrow> (\<exists>a. rv_actual r = Some a \<and> usage_fits a (rv_amount r)))"

definition balanced :: "world \<Rightarrow> account_row \<Rightarrow> bool" where
  "balanced w a \<longleftrightarrow> (\<forall>d. amt d (acc_reserved a) = held w (acc_id a) d \<and>
     amt d (acc_consumed a) = spent w (acc_id a) d \<and>
     (\<forall>l. limit_of (acc_limits a) d = Some l \<longrightarrow>
        held w (acc_id a) d + spent w (acc_id a) d \<le> max 0 l))"

definition ledger_ok :: "world \<Rightarrow> bool" where
  "ledger_ok w \<longleftrightarrow> distinct (map rv_key (t_reservations w)) \<and>
     (\<forall>r\<in>set (t_reservations w). wf_reservation r \<and> account_at w (rv_account r) \<noteq> None) \<and>
     (\<forall>i a. account_at w i = Some a \<longrightarrow> balanced w a)"

lemma amt_nonneg: "wf_amount a \<Longrightarrow> 0 \<le> amt d a"
  by (auto simp: wf_amount_def amt_def split: option.split dest!: map_of_SomeD)

lemma amt_fits: "usage_fits u a \<Longrightarrow> wf_amount a \<Longrightarrow> 0 \<le> amt d u \<and> amt d u \<le> amt d a"
  using amt_nonneg [of a d]
  by (auto simp: usage_fits_def list_all_iff amt_def [of d u] split: option.split dest!: map_of_SomeD)

lemma reserve_dims_Inr:
  assumes "reserve_dims limits consumed amount reserved = Inr res" and "distinct (map fst amount)"
  shows "(\<forall>e\<in>set amount. 0 \<le> snd e) \<and> (\<forall>d. amt d res = amt d reserved + amt d amount) \<and>
    (\<forall>d\<in>fst ` set amount. \<forall>l. limit_of limits d = Some l \<longrightarrow> amt d res + amt d consumed \<le> l)"
  using assms
proof (induction limits consumed amount reserved rule: reserve_dims.induct)
  case (1 limits consumed reserved)
  then show ?case by simp
next
  case (2 limits consumed d v rest reserved)
  let ?r = "amt_set d (amt d reserved + v) reserved"
  from 2(2) have v: "0 \<le> v" and fit: "\<forall>l. limit_of limits d = Some l \<longrightarrow> amt d reserved + amt d consumed + v \<le> l"
    and run: "reserve_dims limits consumed rest ?r = Inr res"
    by (auto split: if_splits option.splits)
  from 2(2) have within: "\<not> (case limit_of limits d of None \<Rightarrow> False
      | Some l \<Rightarrow> l < amt d reserved + amt d consumed + v)"
    by (auto split: if_splits)
  from 2(3) have d: "d \<notin> fst ` set rest" "distinct (map fst rest)" by auto
  have rest: "(\<forall>e\<in>set rest. 0 \<le> snd e) \<and> (\<forall>x. amt x res = amt x ?r + amt x rest) \<and>
      (\<forall>x\<in>fst ` set rest. \<forall>l. limit_of limits x = Some l \<longrightarrow> amt x res + amt x consumed \<le> l)"
    by (rule 2(1) [OF _ within run d(2)]) (use v in simp)
  have zero: "amt d rest = 0" using d(1) by (simp add: amt_def map_of_eq_None_iff [THEN iffD2])
  show ?case
  proof (intro conjI allI ballI impI)
    fix e assume "e \<in> set ((d, v) # rest)"
    then show "0 \<le> snd e" using v rest by auto
  next
    fix x show "amt x res = amt x reserved + amt x ((d, v) # rest)"
      using rest zero by (auto simp: amt_Cons)
  next
    fix x l assume "x \<in> fst ` set ((d, v) # rest)" "limit_of limits x = Some l"
    then show "amt x res + amt x consumed \<le> l"
      using rest zero fit by (cases "x = d") (auto simp: algebra_simps)
  qed
qed

lemma reserve_dims_total:
  "wf_amount m \<Longrightarrow> reserve_dims lm con m res = Inl (HErr ''BUDGET_EXHAUSTED'' 429) \<or>
     (\<exists>out. reserve_dims lm con m res = Inr out)"
  by (induction lm con m res rule: reserve_dims.induct) (auto simp: wf_amount_def)

lemma reserve_dims_Inl:
  "reserve_dims lm con m res = Inl (HErr ''BUDGET_EXHAUSTED'' 429) \<Longrightarrow> distinct (map fst m) \<Longrightarrow>
   \<exists>d l. d \<in> fst ` set m \<and> limit_of lm d = Some l \<and> l < amt d res + amt d con + amt d m"
proof (induction lm con m res rule: reserve_dims.induct)
  case (2 lm con d v rest res)
  have d: "d \<notin> fst ` set rest" "distinct (map fst rest)" using 2(3) by auto
  show ?case
  proof (cases "case limit_of lm d of None \<Rightarrow> False | Some l \<Rightarrow> l < amt d res + amt d con + v")
    case True
    then obtain l where "limit_of lm d = Some l" "l < amt d res + amt d con + v"
      by (auto split: option.splits)
    then show ?thesis by (auto simp: amt_Cons)
  next
    case False
    with 2(2) have v: "\<not> v < 0"
      and rest: "reserve_dims lm con rest (amt_set d (amt d res + v) res) =
        Inl (HErr ''BUDGET_EXHAUSTED'' 429)"
      by (auto split: if_splits)
    from 2(1) [OF v False rest d(2)] obtain x l where
      x: "x \<in> fst ` set rest" "limit_of lm x = Some l"
        "l < amt x (amt_set d (amt d res + v) res) + amt x con + amt x rest"
      by blast
    with d(1) have "x \<noteq> d" by auto
    with x show ?thesis by (intro exI [of _ x] exI [of _ l]) (simp add: amt_Cons)
  qed
qed simp

lemma settle_dims_amt:
  assumes "distinct (map fst amount)"
  shows "amt d (fst (settle_dims actual amount (reserved, consumed))) = amt d reserved - amt d amount"
    "amt d (snd (settle_dims actual amount (reserved, consumed))) =
       amt d consumed + (if d \<in> fst ` set amount then amt d actual else 0)"
proof -
  have "amt d (fst (settle_dims actual amount (reserved, consumed))) = amt d reserved - amt d amount \<and>
    amt d (snd (settle_dims actual amount (reserved, consumed))) =
       amt d consumed + (if d \<in> fst ` set amount then amt d actual else 0)"
    using assms
  proof (induction amount arbitrary: reserved consumed)
    case (Cons e rest)
    obtain k v where e: "e = (k, v)" by (cases e)
    from Cons.prems e have k: "k \<notin> fst ` set rest" by auto
    then have "amt k rest = 0" by (simp add: amt_def map_of_eq_None_iff [THEN iffD2])
    with Cons e k show ?case by (auto simp: amt_Cons)
  qed simp
  then show "amt d (fst (settle_dims actual amount (reserved, consumed))) = amt d reserved - amt d amount"
    "amt d (snd (settle_dims actual amount (reserved, consumed))) =
       amt d consumed + (if d \<in> fst ` set amount then amt d actual else 0)" by simp_all
qed

text \<open>A sum over rows when the row of one key is rewritten.\<close>

lemma sum_update_key:
  fixes g :: "'r \<Rightarrow> rat"
  assumes "distinct (map key rows)" and "row_of key k rows = Some r"
  shows "sum_list (map g (update_rows (\<lambda>x. key x = k) f rows)) = sum_list (map g rows) - g r + g (f r)"
  using assms
proof (induction rows)
  case (Cons x rows)
  show ?case
  proof (cases "key x = k")
    case True
    with Cons.prems have "key y \<noteq> k" if "y \<in> set rows" for y
      using that by (metis distinct.simps(2) image_eqI list.map(2) set_map)
    then have "update_rows (\<lambda>x. key x = k) f rows = rows"
      by (rule update_rows_none)
    with True Cons.prems show ?thesis by simp
  next
    case False
    with Cons show ?thesis by simp
  qed
qed simp

section \<open>What the operations do\<close>

definition new_reservation :: "string \<Rightarrow> string \<Rightarrow> amount \<Rightarrow> timestamp \<Rightarrow> reservation_row" where
  "new_reservation i k m now = \<lparr>rv_key = k, rv_account = i, rv_amount = m, rv_actual = None,
     rv_state = rv_reserved, rv_created = now\<rparr>"

definition after_reserve :: "amount \<Rightarrow> reservation_row \<Rightarrow> world \<Rightarrow> world" where
  "after_reserve res row w = w\<lparr>
     t_accounts := update_rows (\<lambda>a. acc_id a = rv_account row) (\<lambda>a. a\<lparr>acc_reserved := res\<rparr>) (t_accounts w),
     t_reservations := t_reservations w @ [row]\<rparr>"

definition mark_reservation :: "string \<Rightarrow> (reservation_row \<Rightarrow> reservation_row) \<Rightarrow> world \<Rightarrow> world" where
  "mark_reservation k f w = w\<lparr>t_reservations := update_rows (\<lambda>r. rv_key r = k) f (t_reservations w)\<rparr>"

definition after_settle :: "string \<Rightarrow> amount \<Rightarrow> amount \<times> amount \<Rightarrow> string \<Rightarrow> world \<Rightarrow> world" where
  "after_settle k used totals i w =
     (mark_reservation k (\<lambda>r. r\<lparr>rv_state := rv_settled, rv_actual := Some used\<rparr>) w)\<lparr>
       t_accounts := update_rows (\<lambda>a. acc_id a = i)
         (\<lambda>a. a\<lparr>acc_reserved := fst totals, acc_consumed := snd totals\<rparr>) (t_accounts w)\<rparr>"

definition settled_alike :: "amount option \<Rightarrow> amount option \<Rightarrow> bool" where
  "settled_alike x y \<longleftrightarrow>
     (case (x, y) of (Some x, Some y) \<Rightarrow> same_amount x y | (None, None) \<Rightarrow> True | _ \<Rightarrow> False)"

lemma ledger_frames [simp]:
  "account_at (w\<lparr>w_active := b\<rparr>) i = account_at w i"
  "reservation_at (w\<lparr>w_active := b\<rparr>) k = reservation_at w k"
  "after_reserve res row (w\<lparr>w_active := b\<rparr>) = (after_reserve res row w)\<lparr>w_active := b\<rparr>"
  "mark_reservation k f (w\<lparr>w_active := b\<rparr>) = (mark_reservation k f w)\<lparr>w_active := b\<rparr>"
  "after_settle k u t i (w\<lparr>w_active := b\<rparr>) = (after_settle k u t i w)\<lparr>w_active := b\<rparr>"
  "w_active (after_reserve res row w) = w_active w" "w_active (mark_reservation k f w) = w_active w"
  "w_active (after_settle k u t i w) = w_active w"
  by (simp_all add: account_at_def reservation_at_def after_reserve_def mark_reservation_def
      after_settle_def)

lemma store_account_eval:
  "store_account i w = (case account_at w i of None \<Rightarrow> (Inl (HErr ''NO_BUDGET'' 409), w) | Some a \<Rightarrow> (Inr a, w))"
  by (simp add: store_account_def account_at_def bnd_def split: option.split)

lemma transaction_eval:
  "(\<And>u. m u = (f u, g u)) \<Longrightarrow> (\<And>u b. f (u\<lparr>w_active := b\<rparr>) = f u) \<Longrightarrow>
   (\<And>u b. g (u\<lparr>w_active := b\<rparr>) = (g u)\<lparr>w_active := b\<rparr>) \<Longrightarrow>
   (\<And>u. w_active (g u) = w_active u) \<Longrightarrow> (\<And>u e. f u = Inl e \<Longrightarrow> g u = u) \<Longrightarrow>
   transaction m w = (f w, g w)"
  by (cases "w_active w"; cases "f w") (simp_all add: transaction_def)

definition reserve_result :: "string \<Rightarrow> string \<Rightarrow> amount \<Rightarrow> world \<Rightarrow> (err + reservation_row) \<times> world" where
  "reserve_result i k m w =
     (case reservation_at w k of
        Some s \<Rightarrow> ((if rv_account s \<noteq> i \<or> \<not> same_amount (rv_amount s) m
                  then Inl (HErr ''RESERVATION_CONFLICT'' 409) else Inr s), w)
      | None \<Rightarrow>
          (case account_at w i of
             None \<Rightarrow> (Inl (HErr ''NO_BUDGET'' 409), w)
           | Some a \<Rightarrow>
               (case reserve_dims (acc_limits a) (acc_consumed a) m (acc_reserved a) of
                  Inl e \<Rightarrow> (Inl e, w)
                | Inr res \<Rightarrow> (let row = new_reservation i k m (w_now w)
                             in (Inr row, after_reserve res row w)))))"

lemma reserve_eval: "reserve i k m w = reserve_result i k m w"
proof -
  have "reserve i k m w = (fst (reserve_result i k m w), snd (reserve_result i k m w))"
    unfolding reserve_def
  proof (rule transaction_eval [where f = "\<lambda>u. fst (reserve_result i k m u)" and g = "\<lambda>u. snd (reserve_result i k m u)"], goal_cases)
    case (1 u)
    show ?case
    proof (cases "reservation_at u k")
      case (Some s)
      then show ?thesis by (simp add: reserve_result_def reservation_at_def)
    next
      case None
      then have fresh: "k \<notin> rv_key ` set (t_reservations u)"
        by (simp add: reservation_at_def row_of_None_iff)
      show ?thesis
      proof (cases "account_at u i")
        case None
        with \<open>reservation_at u k = None\<close> show ?thesis
          by (simp add: reserve_result_def reservation_at_def store_account_eval)
      next
        case (Some a)
        with \<open>reservation_at u k = None\<close> fresh show ?thesis
          by (cases "reserve_dims (acc_limits a) (acc_consumed a) m (acc_reserved a)")
            (simp_all add: reserve_result_def reservation_at_def store_account_eval Let_def
              insert_unique_apply after_reserve_def new_reservation_def)
      qed
    qed
  qed (auto simp: reserve_result_def Let_def new_reservation_def split: option.splits sum.splits if_splits)
  then show ?thesis by simp
qed

definition settle_result :: "string \<Rightarrow> amount option \<Rightarrow> world \<Rightarrow> (err + reservation_row) \<times> world" where
  "settle_result k actual w =
     (case reservation_at w k of
        None \<Rightarrow> (Inl (HErr ''NOT_FOUND'' 404), w)
      | Some s \<Rightarrow>
          if rv_state s = rv_settled
          then ((if settled_alike (rv_actual s) actual then Inr s
                 else Inl (HErr ''SETTLEMENT_CONFLICT'' 409)), w)
          else (case actual of
             None \<Rightarrow> (Inr (s\<lparr>rv_state := rv_unknown\<rparr>), mark_reservation k (\<lambda>r. r\<lparr>rv_state := rv_unknown\<rparr>) w)
           | Some used \<Rightarrow>
               (case account_at w (rv_account s) of
                  None \<Rightarrow> (Inl (HErr ''NO_BUDGET'' 409), w)
                | Some a \<Rightarrow>
                    if usage_fits used (rv_amount s)
                    then (Inr (s\<lparr>rv_state := rv_settled, rv_actual := Some used\<rparr>),
                      after_settle k used (settle_dims used (rv_amount s) (acc_reserved a, acc_consumed a))
                        (rv_account s) w)
                    else (Inl (HErr ''USAGE_EXCEEDS_RESERVATION'' 409), w))))"

lemma account_at_id: "account_at w i = Some a \<Longrightarrow> acc_id a = i"
  by (auto simp: account_at_def dest: row_of_SomeD)

lemma reservation_at_key: "reservation_at w k = Some r \<Longrightarrow> rv_key r = k \<and> r \<in> set (t_reservations w)"
  by (auto simp: reservation_at_def dest: row_of_SomeD)

lemma settle_eval: "settle k actual w = settle_result k actual w"
proof -
  have "settle k actual w = (fst (settle_result k actual w), snd (settle_result k actual w))"
    unfolding settle_def
  proof (rule transaction_eval [where f = "\<lambda>u. fst (settle_result k actual u)" and g = "\<lambda>u. snd (settle_result k actual u)"], goal_cases)
    case (1 u)
    show ?case
    proof (cases "reservation_at u k")
      case None
      then show ?thesis by (simp add: settle_result_def reservation_at_def)
    next
      case (Some s)
      note s = Some
      show ?thesis
      proof (cases "rv_state s = rv_settled")
        case True
        with s show ?thesis
          by (simp add: settle_result_def reservation_at_def settled_alike_def)
      next
        case False
        show ?thesis
        proof (cases actual)
          case None
          with s False show ?thesis
            by (simp add: settle_result_def reservation_at_def mark_reservation_def)
        next
          case (Some used)
          show ?thesis
          proof (cases "account_at u (rv_account s)")
            case None
            with s False Some show ?thesis
              by (simp add: settle_result_def reservation_at_def store_account_eval)
          next
            case (Some a)
            with s False \<open>actual = Some used\<close> account_at_id [OF Some] show ?thesis
              by (cases "usage_fits used (rv_amount s)")
                (simp_all add: settle_result_def reservation_at_def store_account_eval
                  after_settle_def mark_reservation_def)
          qed
        qed
      qed
    qed
  qed (auto simp: settle_result_def Let_def new_reservation_def split: option.splits sum.splits if_splits)
  then show ?thesis by simp
qed

section \<open>The invariant is kept\<close>

lemma account_at_reserve:
  "account_at (after_reserve res row w) j =
     (if j = rv_account row then map_option (\<lambda>a. a\<lparr>acc_reserved := res\<rparr>) (account_at w j)
      else account_at w j)"
  by (simp add: account_at_def after_reserve_def row_of_update_key)

lemma account_at_settle:
  "account_at (after_settle k u t i w) j =
     (if j = i then map_option (\<lambda>a. a\<lparr>acc_reserved := fst t, acc_consumed := snd t\<rparr>) (account_at w j)
      else account_at w j)"
  by (simp add: account_at_def after_settle_def mark_reservation_def row_of_update_key)

lemma account_at_mark [simp]: "account_at (mark_reservation k f w) j = account_at w j"
  by (simp add: account_at_def mark_reservation_def)

lemma held_reserve:
  "held (after_reserve res row w) j d = held w j d + held_by j d row"
  "spent (after_reserve res row w) j d = spent w j d + spent_by j d row"
  by (simp_all add: held_def spent_def after_reserve_def)

lemma held_mark:
  assumes "distinct (map rv_key (t_reservations w))" and "reservation_at w k = Some s"
  shows "held (mark_reservation k f w) j d = held w j d - held_by j d s + held_by j d (f s)"
    "spent (mark_reservation k f w) j d = spent w j d - spent_by j d s + spent_by j d (f s)"
  using assms by (simp_all add: held_def spent_def mark_reservation_def reservation_at_def
      sum_update_key)

lemma held_settle:
  "held (after_settle k u t i w) = held (mark_reservation k (\<lambda>r. r\<lparr>rv_state := rv_settled, rv_actual := Some u\<rparr>) w)"
  "spent (after_settle k u t i w) = spent (mark_reservation k (\<lambda>r. r\<lparr>rv_state := rv_settled, rv_actual := Some u\<rparr>) w)"
  by (intro ext, simp add: held_def spent_def after_settle_def)+

lemma balanced_reserve:
  assumes bal: "balanced w a" and at: "account_at w i = Some a" and m: "distinct (map fst m)"
    and dims: "reserve_dims (acc_limits a) (acc_consumed a) m (acc_reserved a) = Inr res"
  shows "balanced (after_reserve res (new_reservation i k m now) w) (a\<lparr>acc_reserved := res\<rparr>)"
  unfolding balanced_def
proof (intro allI conjI impI)
  fix d
  note D = reserve_dims_Inr [OF dims m]
  have i: "acc_id a = i" using at by (rule account_at_id)
  have res: "amt d res = amt d (acc_reserved a) + amt d m" using D by blast
  show "amt d (acc_reserved (a\<lparr>acc_reserved := res\<rparr>)) =
      held (after_reserve res (new_reservation i k m now) w) (acc_id (a\<lparr>acc_reserved := res\<rparr>)) d"
    using bal res i by (simp add: balanced_def held_reserve held_by_def new_reservation_def)
  show "amt d (acc_consumed (a\<lparr>acc_reserved := res\<rparr>)) =
      spent (after_reserve res (new_reservation i k m now) w) (acc_id (a\<lparr>acc_reserved := res\<rparr>)) d"
    using bal i by (simp add: balanced_def held_reserve spent_by_def new_reservation_def)
  fix l assume lm: "limit_of (acc_limits (a\<lparr>acc_reserved := res\<rparr>)) d = Some l"
  have old: "amt d (acc_reserved a) = held w i d" "amt d (acc_consumed a) = spent w i d"
    using bal i by (simp_all add: balanced_def)
  show "held (after_reserve res (new_reservation i k m now) w) (acc_id (a\<lparr>acc_reserved := res\<rparr>)) d +
      spent (after_reserve res (new_reservation i k m now) w) (acc_id (a\<lparr>acc_reserved := res\<rparr>)) d
      \<le> max 0 l"
  proof (cases "d \<in> fst ` set m")
    case True
    with D lm have "amt d res + amt d (acc_consumed a) \<le> l" by auto
    then show ?thesis
      using i res old
      by (simp add: held_reserve held_by_def spent_by_def new_reservation_def)
  next
    case False
    then have "amt d m = 0" by (simp add: amt_def map_of_eq_None_iff [THEN iffD2])
    with bal lm i show ?thesis
      by (simp add: balanced_def held_reserve held_by_def spent_by_def new_reservation_def)
  qed
qed

lemma ledger_ok_reserve:
  assumes ok: "ledger_ok w" and m: "distinct (map fst m)" and fresh: "reservation_at w k = None"
    and at: "account_at w i = Some a"
    and dims: "reserve_dims (acc_limits a) (acc_consumed a) m (acc_reserved a) = Inr res"
  shows "ledger_ok (after_reserve res (new_reservation i k m now) w)" (is "ledger_ok ?v")
proof -
  let ?row = "new_reservation i k m now"
  have rows: "t_reservations ?v = t_reservations w @ [?row]" by (simp add: after_reserve_def)
  have keys: "k \<notin> rv_key ` set (t_reservations w)"
    using fresh by (simp add: reservation_at_def row_of_None_iff)
  have row: "wf_reservation ?row"
    using reserve_dims_Inr [OF dims m] m
    by (simp add: wf_reservation_def wf_amount_def new_reservation_def)
  have same: "account_at ?v j \<noteq> None \<longleftrightarrow> account_at w j \<noteq> None" for j
    by (simp add: account_at_reserve)
  have bal: "balanced ?v b" if b: "account_at ?v j = Some b" for j b
  proof (cases "j = i")
    case True
    with b at have "b = a\<lparr>acc_reserved := res\<rparr>"
      by (simp add: account_at_reserve new_reservation_def)
    with ok at dims m show ?thesis
      by (simp add: balanced_reserve ledger_ok_def)
  next
    case False
    with b have old: "account_at w j = Some b" by (simp add: account_at_reserve new_reservation_def)
    with ok have "balanced w b" by (simp add: ledger_ok_def)
    moreover have "acc_id b = j" using old by (rule account_at_id)
    ultimately show ?thesis
      using False by (simp add: balanced_def held_reserve held_by_def spent_by_def new_reservation_def)
  qed
  have acc: "rv_account ?row = i" "rv_key ?row = k" by (simp_all add: new_reservation_def)
  show ?thesis
    unfolding ledger_ok_def rows
    using ok keys row at acc bal same by (auto simp: ledger_ok_def)
qed

lemma mark_rows_ok:
  assumes "distinct (map rv_key (t_reservations w))"
    and "\<forall>r\<in>set (t_reservations w). wf_reservation r \<and> account_at w (rv_account r) \<noteq> None"
    and "reservation_at w k = Some s" and "rv_account (f s) = rv_account s" and "rv_key (f s) = rv_key s"
    and "wf_reservation (f s)"
  shows "\<forall>r\<in>set (t_reservations (mark_reservation k f w)). wf_reservation r \<and> account_at w (rv_account r) \<noteq> None"
proof -
  have only: "r = s" if "r \<in> set (t_reservations w)" "rv_key r = k" for r
    using row_of_unique [OF assms(1) that(1)] assms(3) that(2) by (simp add: reservation_at_def)
  show ?thesis
  proof
    fix r' assume "r' \<in> set (t_reservations (mark_reservation k f w))"
    then obtain r where r: "r \<in> set (t_reservations w)" "r' = (if rv_key r = k then f r else r)"
      by (auto simp: mark_reservation_def set_update_rows)
    show "wf_reservation r' \<and> account_at w (rv_account r') \<noteq> None"
    proof (cases "rv_key r = k")
      case True
      with r only have "r' = f s" by simp
      with assms(2,4,6) reservation_at_key [OF assms(3)] show ?thesis by simp
    next
      case False
      with r assms(2) show ?thesis by simp
    qed
  qed
qed

lemma ledger_ok_unknown:
  assumes ok: "ledger_ok w" and s: "reservation_at w k = Some s" and live: "rv_state s \<noteq> rv_settled"
  shows "ledger_ok (mark_reservation k (\<lambda>r. r\<lparr>rv_state := rv_unknown\<rparr>) w)" (is "ledger_ok ?v")
proof -
  have d: "distinct (map rv_key (t_reservations w))" using ok by (simp add: ledger_ok_def)
  have "distinct (map rv_key (t_reservations ?v))"
    using d by (simp add: mark_reservation_def distinct_update_rows)
  moreover have "wf_reservation s" using ok reservation_at_key [OF s] by (simp add: ledger_ok_def)
  then have "\<forall>r\<in>set (t_reservations ?v). wf_reservation r \<and> account_at w (rv_account r) \<noteq> None"
    using ok by (intro mark_rows_ok [OF d _ s]) (auto simp: ledger_ok_def wf_reservation_def)
  moreover have "balanced ?v a" if "account_at w j = Some a" for j a
  proof -
    from ok that have "balanced w a" by (simp add: ledger_ok_def)
    then show ?thesis
      using live by (simp add: balanced_def held_mark [OF d s] held_by_def spent_by_def)
  qed
  ultimately show ?thesis by (simp add: ledger_ok_def)
qed

lemma balanced_settle:
  assumes ok: "ledger_ok w" and s: "reservation_at w k = Some s" and live: "rv_state s \<noteq> rv_settled"
    and at: "account_at w (rv_account s) = Some a" and fits: "usage_fits used (rv_amount s)"
  defines "t \<equiv> settle_dims used (rv_amount s) (acc_reserved a, acc_consumed a)"
  shows "balanced (after_settle k used t (rv_account s) w)
    (a\<lparr>acc_reserved := fst t, acc_consumed := snd t\<rparr>)"
  unfolding balanced_def
proof (intro allI conjI impI)
  fix d
  let ?v = "after_settle k used t (rv_account s) w"
  have dist: "distinct (map rv_key (t_reservations w))" using ok by (simp add: ledger_ok_def)
  have wf: "wf_amount (rv_amount s)"
    using ok reservation_at_key [OF s] by (simp add: ledger_ok_def wf_reservation_def)
  have bal: "balanced w a" using ok at by (simp add: ledger_ok_def)
  have i: "acc_id a = rv_account s" using at by (rule account_at_id)
  have u: "0 \<le> amt d used" "amt d used \<le> amt d (rv_amount s)" using amt_fits [OF fits wf] by blast+
  have zero: "d \<notin> fst ` set (rv_amount s) \<Longrightarrow> amt d used = 0"
    using u by (simp add: amt_def [of d "rv_amount s"] map_of_eq_None_iff [THEN iffD2])
  have dims: "distinct (map fst (rv_amount s))" using wf by (simp add: wf_amount_def)
  have r: "amt d (fst t) = amt d (acc_reserved a) - amt d (rv_amount s)"
    unfolding t_def by (rule settle_dims_amt [OF dims])
  have c: "amt d (snd t) = amt d (acc_consumed a) + amt d used"
    unfolding t_def using settle_dims_amt(2) [OF dims, of d used "acc_reserved a" "acc_consumed a"] zero
    by simp
  let ?b = "a\<lparr>acc_reserved := fst t, acc_consumed := snd t\<rparr>"
  show "amt d (acc_reserved ?b) = held ?v (acc_id ?b) d"
    using bal r i live by (simp add: balanced_def held_settle held_mark [OF dist s] held_by_def)
  show "amt d (acc_consumed ?b) = spent ?v (acc_id ?b) d"
    using bal c i live by (simp add: balanced_def held_settle held_mark [OF dist s] spent_by_def)
  fix l assume "limit_of (acc_limits ?b) d = Some l"
  with bal have "held w (acc_id a) d + spent w (acc_id a) d \<le> max 0 l"
    by (simp add: balanced_def)
  with u i live show "held ?v (acc_id ?b) d + spent ?v (acc_id ?b) d \<le> max 0 l"
    by (simp add: held_settle held_mark [OF dist s] held_by_def spent_by_def del: max.bounded_iff)
qed

lemma ledger_ok_settle:
  assumes ok: "ledger_ok w" and s: "reservation_at w k = Some s" and live: "rv_state s \<noteq> rv_settled"
    and at: "account_at w (rv_account s) = Some a" and fits: "usage_fits used (rv_amount s)"
  defines "t \<equiv> settle_dims used (rv_amount s) (acc_reserved a, acc_consumed a)"
  shows "ledger_ok (after_settle k used t (rv_account s) w)" (is "ledger_ok ?v")
proof -
  let ?f = "\<lambda>r. r\<lparr>rv_state := rv_settled, rv_actual := Some used\<rparr>"
  have d: "distinct (map rv_key (t_reservations w))" using ok by (simp add: ledger_ok_def)
  have rows: "t_reservations ?v = t_reservations (mark_reservation k ?f w)"
    by (simp add: after_settle_def)
  have "distinct (map rv_key (t_reservations ?v))"
    using d by (simp add: rows mark_reservation_def distinct_update_rows)
  moreover have "wf_reservation s" using ok reservation_at_key [OF s] by (simp add: ledger_ok_def)
  then have "\<forall>r\<in>set (t_reservations (mark_reservation k ?f w)).
      wf_reservation r \<and> account_at w (rv_account r) \<noteq> None"
    using ok fits by (intro mark_rows_ok [OF d _ s]) (auto simp: ledger_ok_def wf_reservation_def)
  then have "\<forall>r\<in>set (t_reservations ?v). wf_reservation r \<and> account_at ?v (rv_account r) \<noteq> None"
    by (auto simp: rows account_at_settle)
  moreover have "balanced ?v b" if b: "account_at ?v j = Some b" for j b
  proof (cases "j = rv_account s")
    case True
    with b at have "b = a\<lparr>acc_reserved := fst t, acc_consumed := snd t\<rparr>"
      by (simp add: account_at_settle)
    with balanced_settle [OF ok s live at fits] show ?thesis by (simp add: t_def)
  next
    case False
    with b have old: "account_at w j = Some b" by (simp add: account_at_settle)
    with ok have "balanced w b" by (simp add: ledger_ok_def)
    with account_at_id [OF old] False show ?thesis
      by (simp add: balanced_def held_settle held_mark [OF d s] held_by_def spent_by_def)
  qed
  ultimately show ?thesis by (simp add: ledger_ok_def)
qed

lemma reserve_keeps_ledger:
  "distinct (map fst m) \<Longrightarrow> reserve i k m w = (r, v) \<Longrightarrow> ledger_ok w \<Longrightarrow> ledger_ok v"
  by (auto simp: reserve_eval reserve_result_def Let_def intro: ledger_ok_reserve
      split: option.splits sum.splits)

lemma settle_keeps_ledger: "settle k x w = (r, v) \<Longrightarrow> ledger_ok w \<Longrightarrow> ledger_ok v"
  by (auto simp: settle_eval settle_result_def intro: ledger_ok_unknown ledger_ok_settle
      split: option.splits if_splits)

lemma ledger_ok_frame:
  "t_accounts v = t_accounts w \<Longrightarrow> t_reservations v = t_reservations w \<Longrightarrow> ledger_ok v = ledger_ok w"
  by (simp add: ledger_ok_def account_at_def balanced_def held_def spent_def)

section \<open>The interface of a ledger\<close>

text \<open>
  What the callers of a ledger rely on: whatever they reserve and settle, in whatever order and
  whether or not a call is refused, each account stays within its cap and what was spent is never
  taken back.
\<close>

datatype ('a, 'k, 'm) ledger_call = Reserve 'a 'k 'm | Settle 'k "'m option"

fun ledger_calls ::
  "('a \<Rightarrow> 'k \<Rightarrow> 'm \<Rightarrow> ('w, 'r) act) \<Rightarrow> ('k \<Rightarrow> 'm option \<Rightarrow> ('w, 'r) act) \<Rightarrow>
   ('a, 'k, 'm) ledger_call list \<Rightarrow> 'w \<Rightarrow> 'w" where
  "ledger_calls rsv stl [] w = w"
| "ledger_calls rsv stl (Reserve a k m # cs) w = ledger_calls rsv stl cs (snd (rsv a k m w))"
| "ledger_calls rsv stl (Settle k m # cs) w = ledger_calls rsv stl cs (snd (stl k m w))"

fun call_valid :: "('m \<Rightarrow> bool) \<Rightarrow> ('a, 'k, 'm) ledger_call \<Rightarrow> bool" where
  "call_valid valid (Reserve a k m) = valid m"
| "call_valid valid (Settle k m) = True"

locale spending =
  fixes ok :: "'w \<Rightarrow> bool" and valid :: "'m \<Rightarrow> bool"
    and held_of :: "'w \<Rightarrow> 'a \<Rightarrow> 'd \<Rightarrow> rat" and spent_of :: "'w \<Rightarrow> 'a \<Rightarrow> 'd \<Rightarrow> rat"
    and cap_of :: "'w \<Rightarrow> 'a \<Rightarrow> 'd \<Rightarrow> rat option"
    and rsv :: "'a \<Rightarrow> 'k \<Rightarrow> 'm \<Rightarrow> ('w, 'r) act" and stl :: "'k \<Rightarrow> 'm option \<Rightarrow> ('w, 'r) act"
  assumes within: "ok w \<Longrightarrow> cap_of w a d = Some l \<Longrightarrow> held_of w a d + spent_of w a d \<le> l"
    and held_nonneg: "ok w \<Longrightarrow> 0 \<le> held_of w a d"
    and rsv_ok: "ok w \<Longrightarrow> valid m \<Longrightarrow> rsv a k m w = (r, u) \<Longrightarrow>
      ok u \<and> cap_of u = cap_of w \<and> spent_of u = spent_of w"
    and stl_ok: "ok w \<Longrightarrow> stl k x w = (r, u) \<Longrightarrow>
      ok u \<and> cap_of u = cap_of w \<and> spent_of w b d \<le> spent_of u b d"
begin

lemma calls_safe:
  "ok w \<Longrightarrow> list_all (call_valid valid) cs \<Longrightarrow>
   ok (ledger_calls rsv stl cs w) \<and> cap_of (ledger_calls rsv stl cs w) = cap_of w \<and>
   spent_of w a d \<le> spent_of (ledger_calls rsv stl cs w) a d"
proof (induction cs arbitrary: w)
  case Nil
  then show ?case by simp
next
  case (Cons c cs)
  show ?case
  proof (cases c)
    case (Reserve b k m)
    with Cons.prems rsv_ok [of w m b k "fst (rsv b k m w)" "snd (rsv b k m w)"]
      Cons.IH [of "snd (rsv b k m w)"]
    show ?thesis by simp
  next
    case (Settle k x)
    have "ok (snd (stl k x w)) \<and> cap_of (snd (stl k x w)) = cap_of w \<and>
        spent_of w a d \<le> spent_of (snd (stl k x w)) a d"
      using stl_ok [OF Cons.prems(1), of k x "fst (stl k x w)" "snd (stl k x w)" a d] by simp
    with Settle Cons.prems Cons.IH [of "snd (stl k x w)"] show ?thesis by auto
  qed
qed

lemma spent_within:
  assumes "ok w" and "list_all (call_valid valid) cs" and "cap_of w a d = Some l"
  shows "spent_of (ledger_calls rsv stl cs w) a d \<le> l"
proof -
  let ?v = "ledger_calls rsv stl cs w"
  have "ok ?v" "cap_of ?v a d = Some l" using calls_safe [OF assms(1,2)] assms(3) by simp_all
  then have "held_of ?v a d + spent_of ?v a d \<le> l" "0 \<le> held_of ?v a d"
    by (simp_all add: within held_nonneg)
  then show ?thesis by simp
qed

end

definition cap :: "world \<Rightarrow> string \<Rightarrow> string \<Rightarrow> rat option" where
  "cap w i d = (case account_at w i of None \<Rightarrow> None
     | Some a \<Rightarrow> map_option (max 0) (limit_of (acc_limits a) d))"

lemma held_nonneg:
  assumes "ledger_ok w"
  shows "0 \<le> held w i d"
proof -
  have "0 \<le> held_by i d r" if "r \<in> set (t_reservations w)" for r
    using assms that by (auto simp: ledger_ok_def held_by_def wf_reservation_def intro: amt_nonneg)
  then show ?thesis unfolding held_def by (intro sum_list_nonneg) auto
qed

lemma cap_frames [simp]:
  "cap (after_reserve res row w) = cap w" "cap (mark_reservation k f w) = cap w"
  "cap (after_settle k u t i w) = cap w"
  by (intro ext, auto simp: cap_def account_at_reserve account_at_settle split: option.splits)+

lemma cap_reserve: "reserve i k m w = (r, u) \<Longrightarrow> cap u = cap w"
  by (auto simp: reserve_eval reserve_result_def Let_def split: option.splits sum.splits)

lemma cap_settle: "settle k x w = (r, u) \<Longrightarrow> cap u = cap w"
  by (auto simp: settle_eval settle_result_def split: option.splits if_splits)

lemma spent_reserve: "reserve i k m w = (r, u) \<Longrightarrow> spent u = spent w"
  by (auto simp: reserve_eval reserve_result_def Let_def held_reserve spent_by_def
      new_reservation_def intro!: ext split: option.splits sum.splits)

lemma spent_settle:
  assumes ok: "ledger_ok w" and run: "settle k x w = (r, u)"
  shows "spent w i d \<le> spent u i d"
proof -
  have dist: "distinct (map rv_key (t_reservations w))" using ok by (simp add: ledger_ok_def)
  show ?thesis
  proof (cases "reservation_at w k")
    case None
    with run show ?thesis by (simp add: settle_eval settle_result_def)
  next
    case (Some s)
    have wf: "wf_amount (rv_amount s)"
      using ok reservation_at_key [OF Some] by (simp add: ledger_ok_def wf_reservation_def)
    from run Some show ?thesis
      by (auto simp: settle_eval settle_result_def held_settle held_mark [OF dist Some] spent_by_def
          amt_fits [OF _ wf] split: option.splits if_splits)
  qed
qed

interpretation budget: spending ledger_ok "\<lambda>m. distinct (map fst m)" held spent cap reserve settle
proof unfold_locales
  fix w i d l
  assume ok: "ledger_ok w" and c: "cap w i d = Some l"
  then obtain a l' where a: "account_at w i = Some a" "limit_of (acc_limits a) d = Some l'" "l = max 0 l'"
    by (auto simp: cap_def split: option.splits)
  from ok a(1) have "balanced w a" by (simp add: ledger_ok_def)
  then have "held w (acc_id a) d + spent w (acc_id a) d \<le> max 0 l'"
    using a(2) unfolding balanced_def by blast
  with account_at_id [OF a(1)] a(3) show "held w i d + spent w i d \<le> l" by simp
next
  fix w i d assume "ledger_ok w" then show "0 \<le> held w i d" by (rule held_nonneg)
next
  fix w m i k r u
  assume "ledger_ok w" and "distinct (map fst (m :: amount))" and "reserve i k m w = (r, u)"
  then show "ledger_ok u \<and> cap u = cap w \<and> spent u = spent w"
    using reserve_keeps_ledger cap_reserve spent_reserve by blast
next
  fix w k x r u b d
  assume "ledger_ok w" and "settle k x w = (r, u)"
  then show "ledger_ok u \<and> cap u = cap w \<and> spent w b d \<le> spent u b d"
    using settle_keeps_ledger cap_settle spent_settle by blast
qed

section \<open>Properties\<close>



text \<open>
  Both calls are idempotent on their key. Reserving again with the same account and amount, or
  settling again with the same usage, returns what is stored and changes nothing; reserving it with
  other content, or settling it with other usage, is refused and changes nothing.
\<close>

theorem ledger_idempotent:
  assumes "reservation_at w k = Some s"
  shows "reserve i k m w =
      ((if rv_account s = i \<and> same_amount (rv_amount s) m then Inr s
        else Inl (HErr ''RESERVATION_CONFLICT'' 409)), w) \<and>
    (rv_state s = rv_settled \<longrightarrow> settle k x w =
      ((if settled_alike (rv_actual s) x then Inr s
        else Inl (HErr ''SETTLEMENT_CONFLICT'' 409)), w))"
  using assms by (simp add: reserve_eval reserve_result_def settle_eval settle_result_def)

text \<open>
  Settling an open reservation with a usage inside its amount gives the whole hold back, books
  the usage, and marks the reservation as settled with it; a usage beyond the reserved amount is
  refused and changes nothing.
\<close>

theorem settle_releases:
  assumes ok: "ledger_ok w" and s: "reservation_at w k = Some s" and live: "rv_state s \<noteq> rv_settled"
    and at: "account_at w (rv_account s) = Some a" and run: "settle k (Some used) w = (r, v)"
  shows "if usage_fits used (rv_amount s)
    then (\<exists>s' b. r = Inr s' \<and> rv_state s' = rv_settled \<and> rv_actual s' = Some used \<and>
      reservation_at v k = Some s' \<and> account_at v (rv_account s) = Some b \<and>
      (\<forall>d. amt d (acc_reserved b) = amt d (acc_reserved a) - amt d (rv_amount s) \<and>
         amt d (acc_consumed b) = amt d (acc_consumed a) + amt d used))
    else r = Inl (HErr ''USAGE_EXCEEDS_RESERVATION'' 409) \<and> v = w"
proof (cases "usage_fits used (rv_amount s)")
  case False
  with s live at run show ?thesis by (simp add: settle_eval settle_result_def)
next
  case True
  let ?t = "settle_dims used (rv_amount s) (acc_reserved a, acc_consumed a)"
  let ?s = "s\<lparr>rv_state := rv_settled, rv_actual := Some used\<rparr>"
  let ?b = "a\<lparr>acc_reserved := fst ?t, acc_consumed := snd ?t\<rparr>"
  have v: "r = Inr ?s" "v = after_settle k used ?t (rv_account s) w"
    using s live at run True by (simp_all add: settle_eval settle_result_def)
  have wf: "wf_amount (rv_amount s)"
    using ok reservation_at_key [OF s] by (simp add: ledger_ok_def wf_reservation_def)
  have dims: "distinct (map fst (rv_amount s))" using wf by (simp add: wf_amount_def)
  have zero: "d \<notin> fst ` set (rv_amount s) \<Longrightarrow> amt d used = 0" for d
    using amt_fits [OF True wf, of d]
    by (simp add: amt_def [of d "rv_amount s"] map_of_eq_None_iff [THEN iffD2])
  have "reservation_at v k = Some ?s"
    using s unfolding v(2) by (simp add: reservation_at_def after_settle_def mark_reservation_def
        row_of_update_key)
  moreover have "account_at v (rv_account s) = Some ?b"
    using at unfolding v(2) by (simp add: account_at_settle)
  moreover have "amt d (acc_reserved ?b) = amt d (acc_reserved a) - amt d (rv_amount s) \<and>
      amt d (acc_consumed ?b) = amt d (acc_consumed a) + amt d used" for d
    using settle_dims_amt [OF dims, of d used "acc_reserved a" "acc_consumed a"] zero [of d] by auto
  ultimately show ?thesis using True v(1) by auto
qed

section \<open>Concrete runs\<close>

definition sample_account :: account_row where
  "sample_account =
     \<lparr>acc_id = ''acc'', acc_scope = ''run'', acc_scope_id = ''run'', acc_limits = [(''tool_calls'', Some 2)],
      acc_consumed = [], acc_reserved = []\<rparr>"

definition funded_world :: world where
  "funded_world = fresh_store\<lparr>t_accounts := [sample_account]\<rparr>"

lemma funded_ok: "ledger_ok funded_world"
  by (auto simp: funded_world_def fresh_store_def empty_world_def ledger_ok_def balanced_def
      account_at_def held_def spent_def sample_account_def amt_def limit_of_def)

abbreviation sample_calls :: "world \<Rightarrow> world" where
  "sample_calls \<equiv> ledger_calls reserve settle
     [Reserve ''acc'' ''k1'' [(''tool_calls'', 1)], Reserve ''acc'' ''k2'' [(''tool_calls'', 2)],
      Settle ''k1'' (Some [(''tool_calls'', 1)])]"

lemma sample_calls_account:
  "map_option acc_id (account_at (sample_calls funded_world) ''acc'') = Some ''acc''"
  by code_simp



abbreviation reserved_once :: world where
  "reserved_once \<equiv> snd (reserve ''acc'' ''k1'' [(''tool_calls'', 2)] funded_world)"


lemma ledger_idempotent_witness:
  "reserve ''acc'' ''k1'' [(''tool_calls'', 1)] reserved_once =
     (Inl (HErr ''RESERVATION_CONFLICT'' 409), reserved_once)"
proof -
  have "map_option (\<lambda>s. same_amount (rv_amount s) [(''tool_calls'', 1)])
      (reservation_at reserved_once ''k1'') = Some False"
    by code_simp
  then obtain s where s: "reservation_at reserved_once ''k1'' = Some s"
      "\<not> same_amount (rv_amount s) [(''tool_calls'', 1)]"
    by auto
  from ledger_idempotent [OF s(1)] s(2) show ?thesis by simp
qed

lemma settle_releases_witness:
  "\<exists>b. account_at (snd (settle ''k1'' (Some [(''tool_calls'', 1)]) reserved_once)) ''acc'' = Some b \<and>
     amt ''tool_calls'' (acc_reserved b) = 0 \<and> amt ''tool_calls'' (acc_consumed b) = 1"
proof -
  let ?u = "[(''tool_calls'', 1)] :: amount"
  have ok: "ledger_ok reserved_once"
    using reserve_keeps_ledger [OF _ prod.collapse [symmetric] funded_ok] by simp
  have "map_option (\<lambda>s. (rv_state s = rv_reserved, rv_account s, rv_amount s, usage_fits ?u (rv_amount s)))
      (reservation_at reserved_once ''k1'') = Some (True, ''acc'', [(''tool_calls'', 2)], True)"
    by code_simp
  then obtain s where s: "reservation_at reserved_once ''k1'' = Some s" "rv_state s = rv_reserved"
      "rv_account s = ''acc''" "rv_amount s = [(''tool_calls'', 2)]" "usage_fits ?u (rv_amount s)"
    by auto
  have "map_option (\<lambda>a. (acc_reserved a, acc_consumed a)) (account_at reserved_once ''acc'') =
      Some ([(''tool_calls'', 2)], [])"
    by code_simp
  then obtain a where a: "account_at reserved_once (rv_account s) = Some a"
      "acc_reserved a = [(''tool_calls'', 2)]" "acc_consumed a = []"
    using s(3) by auto
  have live: "rv_state s \<noteq> rv_settled" using s(2) by simp
  obtain b where b: "account_at (snd (settle ''k1'' (Some ?u) reserved_once)) ''acc'' = Some b"
      "\<forall>d. amt d (acc_reserved b) = amt d (acc_reserved a) - amt d (rv_amount s) \<and>
         amt d (acc_consumed b) = amt d (acc_consumed a) + amt d ?u"
    using settle_releases [OF ok s(1) live a(1) prod.collapse [symmetric], of ?u] s(3,5) by auto
  then show ?thesis using a s(4) by (auto simp: amt_def)
qed

end
