(* ===== verification/Store_Misc.thy ===== *)
theory Store_Misc
  imports Ledger
begin

text \<open>
  The remaining repositories of \<^verbatim>\<open>harness/storage/store.py\<close>: projects and sessions, waits on child
  runs, recorded API commands, artifacts, steering commands, ephemeral frames and the snapshot a
  client reads.
\<close>

section \<open>Projects and sessions\<close>

text \<open>A workspace is read with its roots and the time it was removed, which are records.\<close>

record workspace_view =
  wv_row :: workspace_row
  wv_roots :: json
  wv_removed :: json

definition store_workspace :: "string \<Rightarrow> string option \<Rightarrow> workspace_view store" where
  "store_workspace i owner =
     bnd (gets (\<lambda>w. row_of ws_id i (t_workspaces w))) (\<lambda>row.
     bnd (case row of
            None \<Rightarrow> raise (HErr ''NOT_FOUND'' 404)
          | Some r \<Rightarrow> (if (case owner of None \<Rightarrow> False | Some own \<Rightarrow> own \<noteq> '''' \<and> ws_owner r \<noteq> own)
              then raise (HErr ''NOT_FOUND'' 404) else ret r)) (\<lambda>r.
     bnd (store_get ''project_roots'' i) (\<lambda>roots.
     bnd (store_get ''project_tombstones'' i) (\<lambda>tombstone.
     ret \<lparr>wv_row = r,
          wv_roots = jget_or ''roots'' (JList [JStr (ws_root r)])
            (case roots of None \<Rightarrow> JObj [] | Some j \<Rightarrow> j),
          wv_removed = (case tombstone of None \<Rightarrow> JNull
            | Some t \<Rightarrow> if jtruthy t then jget ''removed_at'' t else JNull)\<rparr>))))"

definition active_workspace :: "string \<Rightarrow> string option \<Rightarrow> workspace_view store" where
  "active_workspace i owner =
     bnd (store_workspace i owner) (\<lambda>row.
     andthen (raise_if (jtruthy (wv_removed row)) (HErr ''NOT_FOUND'' 404)) (ret row))"

definition project_busy :: "string \<Rightarrow> bool store" where
  "project_busy i = gets (\<lambda>w. \<exists>r\<in>set (t_runs w). r_workspace r = i \<and> \<not> terminal (r_status r))"

definition create_workspace :: "string \<Rightarrow> string \<Rightarrow> string \<Rightarrow> json \<Rightarrow> workspace_view store" where
  "create_workspace owner name root_path policy =
     bnd new_id (\<lambda>identity.
     bnd utc_now (\<lambda>now.
     andthen (insert_unique t_workspaces t_workspaces_update ws_id
       \<lparr>ws_id = identity, ws_owner = owner, ws_name = name, ws_root = root_path, ws_revision = 1,
        ws_policy = policy, ws_created = now\<rparr>)
     (store_workspace identity (Some owner))))"

definition update_workspace :: "string \<Rightarrow> int option \<Rightarrow> (workspace_row \<Rightarrow> workspace_row) \<Rightarrow> unit store" where
  "update_workspace i expected f =
     bnd (gets (\<lambda>w. row_of ws_id i (t_workspaces w))) (\<lambda>row.
     andthen (raise_if (\<not> (case row of None \<Rightarrow> False | Some r \<Rightarrow> Some (ws_revision r) = expected))
       (HErr ''REVISION_CONFLICT'' 409))
     (update_where t_workspaces_update (\<lambda>r. ws_id r = i)
       (\<lambda>r. (f r)\<lparr>ws_revision := ws_revision r + 1\<rparr>)))"

text \<open>\<^verbatim>\<open>roots[0]\<close>, which raises on an empty list.\<close>

definition first_of :: "'a list \<Rightarrow> 'a store" where
  "first_of xs = (case xs of [] \<Rightarrow> raise PyIndexError | x # _ \<Rightarrow> ret x)"

definition save_project ::
  "string \<Rightarrow> string \<Rightarrow> string list \<Rightarrow> json \<Rightarrow> string option \<Rightarrow> int option \<Rightarrow> workspace_view store" where
  "save_project owner name roots policy identity expected_revision =
     transaction
       (bnd (case identity of
          Some i \<Rightarrow> (if i = '''' then bnd (first_of roots) (\<lambda>r0. bnd (create_workspace owner name r0 policy) (\<lambda>v. ret (ws_id (wv_row v))))
             else
              andthen (bnd (active_workspace i (Some owner)) (\<lambda>_. ret ()))
              (bnd (project_busy i) (\<lambda>active.
               andthen (raise_if active (HErr ''PROJECT_BUSY'' 409))
               (bnd (first_of roots) (\<lambda>r0.
                andthen (update_workspace i expected_revision
                  (\<lambda>r. r\<lparr>ws_name := name, ws_root := r0\<rparr>))
                (ret i))))))
        | None \<Rightarrow> bnd (first_of roots) (\<lambda>r0. bnd (create_workspace owner name r0 policy) (\<lambda>v. ret (ws_id (wv_row v))))) (\<lambda>i.
        andthen (store_put ''project_roots'' i (JObj [(''roots'', JList (map JStr roots))]))
        (store_workspace i (Some owner))))"

definition store_workspaces :: "string \<Rightarrow> workspace_view list store" where
  "store_workspaces owner =
     bnd (gets (\<lambda>w. sort_key ws_created (filter (\<lambda>r. ws_owner r = owner \<and>
        record_at w ''project_tombstones'' (ws_id r) = None) (t_workspaces w)))) (\<lambda>rows.
     collect rows (\<lambda>r. store_workspace (ws_id r) None))"

definition remove_project :: "string \<Rightarrow> string \<Rightarrow> int \<Rightarrow> json store" where
  "remove_project owner i expected_revision =
     transaction
       (andthen (bnd (active_workspace i (Some owner)) (\<lambda>_. ret ()))
       (bnd (project_busy i) (\<lambda>active.
        andthen (raise_if active (HErr ''PROJECT_BUSY'' 409))
        (bnd utc_now (\<lambda>now.
         andthen (update_workspace i (Some expected_revision) (\<lambda>r. r))
         (bnd (ret (JObj [(''id'', JStr i), (''removed'', JBool True), (''removed_at'', JInt (int now)),
              (''revision'', JInt (expected_revision + 1))])) (\<lambda>receipt.
          andthen (store_put ''project_tombstones'' i receipt) (ret receipt))))))))"

definition store_session :: "string \<Rightarrow> string option \<Rightarrow> session_row store" where
  "store_session i owner =
     bnd (gets (\<lambda>w. row_of se_id i (t_sessions w))) (\<lambda>row.
     bnd (need (HErr ''NOT_FOUND'' 404) row) (\<lambda>r.
     bnd (store_workspace (se_workspace r) owner) (\<lambda>_. ret r)))"

definition create_session :: "string \<Rightarrow> string \<Rightarrow> string \<Rightarrow> session_row store" where
  "create_session workspace_id title agent =
     bnd new_id (\<lambda>sid.
     bnd new_id (\<lambda>bid.
     bnd utc_now (\<lambda>now.
     andthen (transaction
       (andthen (insert_unique t_sessions t_sessions_update se_id
         \<lparr>se_id = sid, se_workspace = workspace_id, se_title = title, se_agent = agent,
          se_branch = bid, se_revision = 1, se_archived = None, se_created = now,
          se_updated = now\<rparr>)
       (bnd new_id (\<lambda>thread.
        bnd (gets t_branches) (\<lambda>rows.
        andthen (raise_if (thread \<in> b_thread ` set rows) SqlIntegrityError)
        (insert_unique t_branches t_branches_update b_id
          \<lparr>b_id = bid, b_session = sid, b_parent = None, b_thread = thread, b_checkpoint = None,
           b_active = None, b_revision = 1, b_created = now\<rparr>))))))
     (store_session sid None))))"

definition store_sessions :: "string \<Rightarrow> bool \<Rightarrow> session_row list store" where
  "store_sessions workspace_id archived =
     gets (\<lambda>w. rev (sort_key se_updated (rev (filter
       (\<lambda>s. se_workspace s = workspace_id \<and> (se_archived s \<noteq> None) = archived) (t_sessions w)))))"

definition patch_session :: "string \<Rightarrow> int \<Rightarrow> string option \<Rightarrow> bool option \<Rightarrow> session_row store" where
  "patch_session i expected title archived =
     andthen (transaction
       (bnd (store_session i None) (\<lambda>row.
        bnd utc_now (\<lambda>now.
        andthen (raise_if (se_revision row \<noteq> expected) (HErr ''REVISION_CONFLICT'' 409))
        (update_where t_sessions_update (\<lambda>s. se_id s = i)
          (\<lambda>s. s\<lparr>se_title := (case title of None \<Rightarrow> se_title row | Some t \<Rightarrow> t),
                 se_archived := (case archived of None \<Rightarrow> se_archived row
                   | Some b \<Rightarrow> if b then Some now else None),
                 se_revision := se_revision s + 1, se_updated := now\<rparr>))))))
     (store_session i None)"

section \<open>Waits on child runs\<close>

definition wait_key :: "wait_row \<Rightarrow> string \<times> string" where
  "wait_key x = (wt_parent x, wt_key x)"

definition store_wait :: "string \<Rightarrow> wait_row store" where
  "store_wait i =
     bnd (gets (\<lambda>w. row_of wt_id i (t_waits w))) (need (HErr ''NOT_FOUND'' 404))"

definition add_wait :: "string \<Rightarrow> string \<Rightarrow> string list \<Rightarrow> string \<Rightarrow> wait_row store" where
  "add_wait parent key children mode =
     transaction
       (bnd (gets (\<lambda>w. row_of wait_key (parent, key) (t_waits w))) (\<lambda>row.
        case row of
          Some x \<Rightarrow> store_wait (wt_id x)
        | None \<Rightarrow>
            bnd new_id (\<lambda>identity.
            andthen (insert_unique t_waits t_waits_update wt_id
              \<lparr>wt_id = identity, wt_parent = parent, wt_key = key, wt_children = children,
               wt_mode = mode, wt_interrupt = None, wt_checkpoint = None, wt_resolution = None,
               wt_revision = 1\<rparr>)
            (store_wait identity))))"

definition store_waits :: "string option \<Rightarrow> wait_row list store" where
  "store_waits parent =
     bnd (gets (\<lambda>w. filter (\<lambda>x. case parent of None \<Rightarrow> True | Some p \<Rightarrow> p = '''' \<or> wt_parent x = p)
       (t_waits w))) (\<lambda>rows.
     collect rows (\<lambda>x. store_wait (wt_id x)))"

definition update_wait ::
  "string \<Rightarrow> int \<Rightarrow> string option \<Rightarrow> checkpoint_ref option \<Rightarrow> resolution option \<Rightarrow> unit store" where
  "update_wait i expected interrupt checkpoint res =
     bnd (gets (\<lambda>w. row_of wt_id i (t_waits w))) (\<lambda>row.
     andthen (raise_if (\<not> (case row of None \<Rightarrow> False | Some x \<Rightarrow> wt_revision x = expected))
       (HErr ''REVISION_CONFLICT'' 409))
     (update_where t_waits_update (\<lambda>x. wt_id x = i)
       (\<lambda>x. x\<lparr>wt_interrupt := interrupt, wt_checkpoint := checkpoint, wt_resolution := res,
              wt_revision := wt_revision x + 1\<rparr>)))"

section \<open>API commands\<close>

definition command_id :: "command_row \<Rightarrow> string \<times> string \<times> string \<times> string" where
  "command_id c = (cmd_owner c, cmd_method c, cmd_route c, cmd_key c)"

definition api_command ::
  "string \<Rightarrow> string \<Rightarrow> string \<Rightarrow> string \<Rightarrow> command_row option store" where
  "api_command owner method route key =
     gets (\<lambda>w. row_of command_id (owner, method, route, key) (t_commands w))"

definition save_api_command ::
  "string \<Rightarrow> string \<Rightarrow> string \<Rightarrow> string \<Rightarrow> string \<Rightarrow> json \<Rightarrow> int \<Rightarrow> timestamp \<Rightarrow> unit store" where
  "save_api_command owner method route key body_hash response status expiry =
     insert_unique t_commands t_commands_update command_id
       \<lparr>cmd_owner = owner, cmd_method = method, cmd_route = route, cmd_key = key,
        cmd_body_hash = body_hash, cmd_response = response, cmd_status = status,
        cmd_expires = expiry\<rparr>"

definition complete_api_command ::
  "string \<Rightarrow> string \<Rightarrow> string \<Rightarrow> string \<Rightarrow> json \<Rightarrow> int \<Rightarrow> unit store" where
  "complete_api_command owner method route key response status =
     update_where t_commands_update (\<lambda>c. command_id c = (owner, method, route, key))
       (\<lambda>c. c\<lparr>cmd_response := response, cmd_status := status\<rparr>)"

section \<open>Artifacts\<close>

definition add_artifact :: "artifact_row \<Rightarrow> unit store" where
  "add_artifact row = insert_unique t_artifacts t_artifacts_update af_id row"

definition store_artifact :: "string \<Rightarrow> string option \<Rightarrow> artifact_row store" where
  "store_artifact i owner =
     bnd (gets (\<lambda>w. row_of af_id i (t_artifacts w))) (\<lambda>row.
     case row of
       None \<Rightarrow> raise (HErr ''NOT_FOUND'' 404)
     | Some a \<Rightarrow> (if (case owner of None \<Rightarrow> False | Some own \<Rightarrow> own \<noteq> '''' \<and> af_owner a \<noteq> own)
         then raise (HErr ''NOT_FOUND'' 404) else ret a))"

definition store_artifacts :: "string option \<Rightarrow> artifact_row list store" where
  "store_artifacts workspace_id =
     gets (\<lambda>w. filter (\<lambda>a. case workspace_id of None \<Rightarrow> True | Some s \<Rightarrow> s = '''' \<or> af_workspace a = s)
       (t_artifacts w))"

definition use_id :: "artifact_use_row \<Rightarrow> string \<times> string \<times> string" where
  "use_id u = (au_artifact u, au_kind u, au_ref u)"

definition reference_artifact :: "string \<Rightarrow> string \<Rightarrow> string \<Rightarrow> unit store" where
  "reference_artifact i kind target =
     bnd (gets t_artifact_uses) (\<lambda>rows.
     whenever ((i, kind, target) \<notin> use_id ` set rows)
       (modify (t_artifact_uses_update (\<lambda>rs. rs @ [\<lparr>au_artifact = i, au_kind = kind, au_ref = target\<rparr>]))))"

definition run_artifacts :: "string \<Rightarrow> artifact_row list store" where
  "run_artifacts run_id =
     gets (\<lambda>w. filter (\<lambda>a. (af_id a, ''run'', run_id) \<in> use_id ` set (t_artifact_uses w)) (t_artifacts w))"

section \<open>Steering commands\<close>

definition add_input_command :: "string \<Rightarrow> int \<Rightarrow> string \<Rightarrow> input_command_row store" where
  "add_input_command run_id revision txt =
     bnd new_id (\<lambda>identity.
     bnd utc_now (\<lambda>now.
     bnd (gets t_input_commands) (\<lambda>rows.
     bnd (ret \<lparr>ic_id = identity, ic_run = run_id, ic_revision = revision, ic_text = txt,
               ic_consumed = False, ic_created = now\<rparr>) (\<lambda>row.
     andthen (raise_if ((run_id, revision) \<in> (\<lambda>c. (ic_run c, ic_revision c)) ` set rows)
       SqlIntegrityError)
     (andthen (insert_unique t_input_commands t_input_commands_update ic_id row)
     (ret row))))))"

definition unconsumed :: "string \<Rightarrow> world \<Rightarrow> input_command_row list" where
  "unconsumed run_id w =
     sort_key ic_revision (filter (\<lambda>c. ic_run c = run_id \<and> \<not> ic_consumed c) (t_input_commands w))"

definition consume_input_commands :: "execution_context \<Rightarrow> input_command_row list store" where
  "consume_input_commands ctx =
     transaction
       (andthen (assert_fence ctx False)
       (bnd (gets (unconsumed (c_run ctx))) (\<lambda>rows.
        andthen (update_where t_input_commands_update
          (\<lambda>c. ic_run c = c_run ctx \<and> \<not> ic_consumed c) (\<lambda>c. c\<lparr>ic_consumed := True\<rparr>))
        (ret rows))))"

definition pending_input_commands :: "string \<Rightarrow> input_command_row list store" where
  "pending_input_commands run_id = gets (unconsumed run_id)"

definition ack_input_commands :: "execution_context \<Rightarrow> string list \<Rightarrow> unit store" where
  "ack_input_commands ctx identities =
     transaction
       (andthen (assert_fence ctx False)
       (bnd (store_run (c_run ctx) None) (\<lambda>run.
        andthen
          (if r_input_revision run < c_input_revision ctx
           then bnd (update_run (c_run ctx) (r_revision run)
             [P_input_revision (c_input_revision ctx)] (Some ctx)) (\<lambda>_. ret ())
           else ret ())
          (foreach identities (\<lambda>i.
             update_where t_input_commands_update (\<lambda>c. ic_id c = i \<and> ic_run c = c_run ctx)
               (\<lambda>c. c\<lparr>ic_consumed := True\<rparr>))))))"

section \<open>Ephemeral frames\<close>

text \<open>Frames live five minutes; publishing one also drops those that have expired.\<close>

definition frame_lifetime :: nat where
  "frame_lifetime = 5 * 60 * 1000"

definition publish_ephemeral :: "string \<Rightarrow> json \<Rightarrow> unit store" where
  "publish_ephemeral run_id data =
     bnd (after_ms frame_lifetime) (\<lambda>expiry.
     bnd new_id (\<lambda>eid.
     bnd utc_now (\<lambda>now.
     bnd (ret (JObj [(''schema_version'', JInt 1), (''event_id'', JStr eid), (''run_id'', JStr run_id),
        (''type'', JStr ''message.delta''), (''timestamp'', JInt (int now)),
        (''durability'', JStr ''ephemeral''), (''seq'', JNull), (''data'', data)])) (\<lambda>event.
     transaction
       (andthen (modify (\<lambda>w. w\<lparr>t_frames := t_frames w @
            [\<lparr>ef_id = t_frame_counter w + 1, ef_run = run_id, ef_event = event, ef_expires = expiry\<rparr>],
          t_frame_counter := t_frame_counter w + 1\<rparr>))
       (modify (\<lambda>w. w\<lparr>t_frames := filter (\<lambda>f. now \<le> ef_expires f) (t_frames w)\<rparr>)))))))"

definition ephemeral_cursor :: "string \<Rightarrow> int store" where
  "ephemeral_cursor run_id =
     gets (\<lambda>w. fold max (map ef_id (filter (\<lambda>f. ef_run f = run_id) (t_frames w))) 0)"

definition read_ephemeral :: "string \<Rightarrow> int \<Rightarrow> nat \<Rightarrow> (int \<times> json) list store" where
  "read_ephemeral run_id after limit =
     gets (\<lambda>w. map (\<lambda>f. (ef_id f, ef_event f)) (take limit (sort_key ef_id (filter
       (\<lambda>f. ef_run f = run_id \<and> after < ef_id f \<and> w_now w < ef_expires f) (t_frames w)))))"

section \<open>The snapshot of a run\<close>

record run_snapshot =
  sn_run :: run_row
  sn_last_seq :: int
  sn_messages :: "json list"
  sn_tools :: "operation_row list"
  sn_interactions :: "interaction_row list"
  sn_artifacts :: "artifact_row list"
  sn_children :: "run_row list"

definition store_snapshot :: "string \<Rightarrow> string \<Rightarrow> run_snapshot store" where
  "store_snapshot run_id owner =
     transaction
       (bnd (store_run run_id (Some owner)) (\<lambda>run.
        bnd (store_messages (r_branch run) None) (\<lambda>messages.
        bnd (store_operations run_id) (\<lambda>tools.
        bnd (store_interactions run_id) (\<lambda>interactions.
        bnd (run_artifacts run_id) (\<lambda>artifacts.
        bnd (store_children run_id) (\<lambda>children.
        ret \<lparr>sn_run = run, sn_last_seq = r_next_seq run - 1, sn_messages = messages,
             sn_tools = tools,
             sn_interactions = filter (\<lambda>i. i_status i \<noteq> pending_binding) interactions,
             sn_artifacts = artifacts, sn_children = children\<rparr>)))))))"

section \<open>Frames\<close>

context db_history
begin

lemma keeps_misc_reads:
  "keeps R (store_workspace i own)" "keeps R (active_workspace i own)" "keeps R (project_busy i)"
  "keeps R (store_workspaces s)" "keeps R (store_session i own)" "keeps R (store_sessions s b)"
  "keeps R (store_wait i)" "keeps R (store_waits p)" "keeps R (api_command s m rt k)"
  "keeps R (store_artifact i own)" "keeps R (store_artifacts own)" "keeps R (run_artifacts i)"
  "keeps R (pending_input_commands i)" "keeps R (ephemeral_cursor i)" "keeps R (read_ephemeral i n l)"
  "keeps R (store_snapshot i s)"
  unfolding active_workspace_def store_workspaces_def store_session_def store_workspace_def
    project_busy_def store_sessions_def store_wait_def store_waits_def api_command_def
    store_artifact_def store_artifacts_def run_artifacts_def pending_input_commands_def
    ephemeral_cursor_def read_ephemeral_def store_snapshot_def
  by (intro keeps_db keeps_reads keeps_op_reads | simp)+

end

lemma core_misc [core_keeps]:
  "keeps (same_view core) (create_workspace s n rt pj)"
  "keeps (same_view core) (save_project s n rs pj i e)"
  "keeps (same_view core) (remove_project s ky k)"
  "keeps (same_view core) (patch_session ky k tt arch)"
  "keeps (same_view core) (add_wait p ky cs md)"
  "keeps (same_view core) (update_wait ky k ir ck res)"
  "keeps (same_view core) (save_api_command s m rt ky h rsp st ex)"
  "keeps (same_view core) (complete_api_command s m rt ky rsp st)"
  "keeps (same_view core) (add_artifact a)"
  "keeps (same_view core) (reference_artifact m n ky)"
  "keeps (same_view core) (add_input_command n k m)"
  "keeps (same_view core) (consume_input_commands ctx)"
  "keeps (same_view core) (publish_ephemeral n data)"
  unfolding create_workspace_def save_project_def remove_project_def update_workspace_def
    first_of_def patch_session_def add_wait_def update_wait_def save_api_command_def complete_api_command_def
    add_artifact_def reference_artifact_def add_input_command_def consume_input_commands_def
    publish_ephemeral_def
  by (intro core_rules core_keeps same_core.keeps_misc_reads; simp add: core_def)+

lemma path_misc [path_keeps]:
  "keeps run_path (create_session s t a)" "keeps run_path (ack_input_commands ctx ids)"
proof -
  have branch: "run_path w (t_branches_update (\<lambda>bs. bs @ [b]) w)"
    if "b_id b \<notin> b_id ` set (t_branches w)" "b_active b = None" for b w
    by (rule run_path_step, rule run_step.new_branch [OF branch_at_None [OF that(1)] that(2)])
      (simp add: core_def)
  have session: "keeps run_path (insert_unique t_sessions t_sessions_update se_id row)" for row
    by (rule keeps_path_of_core) (intro core_rules, simp add: core_def)
  have mark: "keeps run_path (update_where t_input_commands_update p f)" for p f
    by (rule keeps_path_of_core) (intro core_rules, simp add: core_def)
  show "keeps run_path (create_session s t a)"
    unfolding create_session_def
    by (intro path.keeps_db path.keeps_misc_reads session path.keeps_insert_unique branch) simp_all
  show "keeps run_path (ack_input_commands ctx ids)"
    unfolding ack_input_commands_def
    by (intro path.keeps_db path.keeps_reads keeps_update_run_quiet mark) simp_all
qed

end
