(* ===== verification/Tools.thy ===== *)
theory Tools
  imports Store_Misc
begin

text \<open>
  Tool contracts (\<^verbatim>\<open>harness/tools/contracts.py\<close>), the registry of tools
  (\<^verbatim>\<open>harness/tools/registry.py\<close>) and the policy of run modes (\<^verbatim>\<open>harness/runtime/modes.py\<close>). A
  snapshot is a JSON object, read with the accessors of \<open>Json\<close>.
\<close>

section \<open>Contracts\<close>

datatype effect = ef_read | ef_workspace_write | ef_external_write | ef_process

fun effect_name :: "effect \<Rightarrow> string" where
  "effect_name ef_read = ''read''"
| "effect_name ef_workspace_write = ''workspace_write''"
| "effect_name ef_external_write = ''external_write''"
| "effect_name ef_process = ''process''"

datatype retry_class = rc_safe | rc_idempotency_key | rc_manual

record tool_spec =
  ts_id :: string
  ts_version :: string
  ts_origin :: string
  ts_input :: json
  ts_output :: json
  ts_effect :: effect
  ts_retry :: retry_class
  ts_capabilities :: "string list"
  ts_timeout :: nat

datatype wait_kind = wk_user | wk_children | wk_review

record tool_wait =
  tw_kind :: wait_kind
  tw_interaction :: "string option"
  tw_wait :: "string option"
  tw_operation :: "string option"

datatype tool_reply = Done tool_result | Wait tool_wait

definition plain_result :: "string \<Rightarrow> result_status \<Rightarrow> string \<Rightarrow> string option \<Rightarrow> tool_result" where
  "plain_result i status summary code =
     \<lparr>tr_operation = i, tr_status = status, tr_summary = summary, tr_data = JObj [], tr_blocks = [],
      tr_artifacts = [], tr_truncated = False, tr_exit = None, tr_started = None,
      tr_completed = None, tr_code = code, tr_retryable = False\<rparr>"

lemma plain_result_simps [simp]:
  "tr_status (plain_result i s m c) = s" "tr_operation (plain_result i s m c) = i"
  "tr_code (plain_result i s m c) = c" "tr_data (plain_result i s m c) = JObj []"
  by (simp_all add: plain_result_def)

section \<open>Registry\<close>

text \<open>
  The registry maps a tool and its version to its specification and its executor; \<open>schema_ok\<close> is the
  check that a schema is well-formed (\<^verbatim>\<open>jsonschema\<close>).
\<close>

type_synonym 'x registry = "((string \<times> string) \<times> (tool_spec \<times> 'x)) list"

definition registry_register ::
  "(json \<Rightarrow> bool) \<Rightarrow> tool_spec \<Rightarrow> 'x \<Rightarrow> 'x registry \<Rightarrow> err + 'x registry" where
  "registry_register schema_ok spec executor items =
     (if \<not> schema_ok (ts_input spec) \<or> \<not> schema_ok (ts_output spec) then Inl PyValueError
      else if map_of items (ts_id spec, ts_version spec) \<noteq> None then Inl (HErr ''TOOL_CONFLICT'' 409)
      else Inr (items @ [((ts_id spec, ts_version spec), (spec, executor))]))"

definition registry_unregister :: "string \<Rightarrow> string \<Rightarrow> 'x registry \<Rightarrow> 'x registry" where
  "registry_unregister i version items = filter (\<lambda>e. fst e \<noteq> (i, version)) items"

definition registry_get :: "'x registry \<Rightarrow> string \<Rightarrow> string \<Rightarrow> err + tool_spec \<times> 'x" where
  "registry_get items i version =
     (case map_of items (i, version) of
        None \<Rightarrow> Inl (HErr ''TOOL_UNAVAILABLE'' 422)
      | Some x \<Rightarrow> Inr x)"

definition registry_specs :: "'x registry \<Rightarrow> tool_spec list" where
  "registry_specs items = map (\<lambda>e. fst (snd e)) items"

text \<open>Registered tools stay what they were: a later registration never replaces one.\<close>

lemma registry_stable:
  "registry_register ok spec x items = Inr items' \<Longrightarrow> registry_get items i v = Inr y \<Longrightarrow>
   registry_get items' i v = Inr y"
  by (auto simp: registry_register_def registry_get_def map_add_def split: if_splits option.splits)

lemma registry_register_get:
  "registry_register ok spec x items = Inr items' \<Longrightarrow>
   registry_get items' (ts_id spec) (ts_version spec) = Inr (spec, x)"
  by (auto simp: registry_register_def registry_get_def map_add_def split: if_splits option.splits)

section \<open>Modes\<close>

definition plan_capabilities :: "string list" where
  "plan_capabilities = [''file_read'', ''network'', ''input'', ''delegate'', ''mcp'']"

definition plan_tools :: "string list" where
  "plan_tools =
     [''read_file'', ''stat_file'', ''list_files'', ''search_files'', ''fetch'', ''search_web'',
      ''artifact_read'', ''artifact_preview'', ''archive_search'', ''memory_search'',
      ''inspect_child'', ''request_input'', ''plan_update'', ''delegate'', ''wait_children'',
      ''skill_activate'', ''skill_read'']"

definition starts_with :: "string \<Rightarrow> string \<Rightarrow> bool" where
  "starts_with p s \<longleftrightarrow> take (length p) s = p"

definition is_mcp :: "tool_spec \<Rightarrow> bool" where
  "is_mcp spec \<longleftrightarrow> starts_with ''mcp:'' (ts_origin spec)"

definition permitted :: "string \<Rightarrow> tool_spec \<Rightarrow> json \<Rightarrow> bool" where
  "permitted mode spec snapshot =
     (if mode \<noteq> ''plan'' then True
      else if is_mcp spec
        then ts_effect spec = ef_read \<and>
          ts_id spec \<in> set (jstrings (jget ''plan_readonly_tools'' snapshot))
      else ts_origin spec = ''builtin'' \<and> ts_effect spec = ef_read \<and> ts_id spec \<in> set plan_tools)"

definition mode_of :: "json \<Rightarrow> string" where
  "mode_of snapshot = jstr (jget_or ''mode'' (JStr ''react'') snapshot)"

definition enforce :: "json \<Rightarrow> tool_spec \<Rightarrow> err + unit" where
  "enforce snapshot spec =
     (if permitted (mode_of snapshot) spec snapshot then Inr ()
      else Inl (HErr ''PLAN_TOOL_DENIED'' 403))"

text \<open>In plan mode nothing but a reading tool passes.\<close>

lemma plan_reads_only:
  "mode_of snapshot = ''plan'' \<Longrightarrow> enforce snapshot spec = Inr () \<Longrightarrow> ts_effect spec = ef_read"
  by (auto simp: enforce_def permitted_def split: if_splits)

end
