(* ===== verification/Policy.thy ===== *)
theory Policy
  imports Tools
begin

text \<open>
  The policy engine (\<^verbatim>\<open>harness/policy/engine.py\<close>): the effective policy of a run is built from the
  global policy, the workspace's, the agent's, the one frozen in the run's snapshot, the mode and the
  permissions of the host environment. A policy is a JSON object. What depends on the host is a
  parameter: the digest that gives a combined policy its revision, the parsed form of a URL, name
  resolution, and the classification of addresses.
\<close>

section \<open>Reading policies\<close>

definition names :: "string \<Rightarrow> json \<Rightarrow> string list" where
  "names k p = jstrings (jget k p)"

definition sorted_names :: "string list \<Rightarrow> json" where
  "sorted_names xs = JList (map JStr (sort (remdups xs)))"

definition meet :: "string list \<Rightarrow> string list \<Rightarrow> string list" where
  "meet xs ys = filter (\<lambda>x. x \<in> set ys) xs"

text \<open>\<^verbatim>\<open>a and b\<close> on values.\<close>

definition jand :: "json \<Rightarrow> json \<Rightarrow> json" where
  "jand a b = (if jtruthy a then b else a)"

lemma jtruthy_jand [simp]: "jtruthy (jand a b) \<longleftrightarrow> jtruthy a \<and> jtruthy b"
  by (auto simp: jand_def)

lemma jstrings_sorted_names [simp]: "set (jstrings (sorted_names xs)) = set xs"
  by (auto simp: sorted_names_def)

lemma set_meet [simp]: "set (meet xs ys) = set xs \<inter> set ys"
  by (auto simp: meet_def)

definition egress :: "json \<Rightarrow> string" where
  "egress p = jstr (jget ''egress'' p)"

definition capabilities :: "json \<Rightarrow> string set" where
  "capabilities p = set (names ''capabilities'' p)"

definition approvals :: "json \<Rightarrow> string set" where
  "approvals p = set (names ''approval_effects'' p)"

definition default_policy :: json where
  "default_policy = JObj
     [(''revision'', JInt 1), (''egress'', JStr ''cloud_allowed''), (''domains'', JList []),
      (''capabilities'', JList (map JStr
        [''file_read'', ''file_write'', ''process'', ''network'', ''input'', ''artifact'', ''delegate'',
         ''memory'', ''skills'', ''mcp''])),
      (''approval_effects'', JList (map JStr [''workspace_write'', ''process'', ''external_write''])),
      (''trusted_local_execution'', JBool True)]"

section \<open>Combining policies\<close>

text \<open>The strictest egress of two policies; the allowed domains are those every allowlist names.\<close>

definition narrow_egress :: "json \<Rightarrow> json \<Rightarrow> json \<Rightarrow> json" where
  "narrow_egress p q combined =
     (if ''local_only'' \<in> {egress p, egress q} then jset ''egress'' (JStr ''local_only'') combined
      else if ''domain_allowlist'' \<in> {egress p, egress q}
        then (let sets = map (names ''domains'') (filter (\<lambda>r. egress r = ''domain_allowlist'') [p, q])
              in jset ''domains'' (sorted_names (fold meet (tl sets) (hd sets)))
                   (jset ''egress'' (JStr ''domain_allowlist'') combined))
      else combined)"

definition environment_cap :: "json \<Rightarrow> json store" where
  "environment_cap p =
     bnd (store_get ''system'' ''platform_permissions'') (\<lambda>rec.
     ret (case rec of
            None \<Rightarrow> p
          | Some r \<Rightarrow>
              if \<not> jtruthy r then p else
              (let cap = jget ''permissions'' r;
                   caps = filter (\<lambda>c. \<not> (c = ''network'' \<and> \<not> jtruthy (jget ''network'' cap)) \<and>
                       \<not> (c = ''process'' \<and> \<not> jtruthy (jget ''process'' cap)) \<and>
                       \<not> (c = ''file_write'' \<and> \<not> jtruthy (jget ''workspace_write'' cap)))
                     (names ''capabilities'' p);
                   q = jset ''revision''
                         (JInt (jint (jget ''revision'' r) * 1000000000000 + jint (jget ''revision'' p)))
                       (jset ''platform_process'' (jget ''process'' cap)
                       (jset ''platform_network'' (jget ''network'' cap)
                       (jset ''trusted_local_execution''
                         (jand (jget ''trusted_local_execution'' p) (jget ''process'' cap))
                       (jset ''capabilities'' (sorted_names caps) p))))
               in if jtruthy (jget ''allowed_hosts'' cap)
                  then jset ''platform_allowed_hosts''
                    (sorted_names (if egress q = ''domain_allowlist''
                       then meet (names ''allowed_hosts'' cap) (names ''domains'' q)
                       else names ''allowed_hosts'' cap)) q
                  else q)))"

definition set_environment_cap :: "json \<Rightarrow> unit store" where
  "set_environment_cap permissions =
     transaction
       (bnd (store_get ''system'' ''platform_permissions'') (\<lambda>rec.
        bnd (ret (case rec of None \<Rightarrow> JObj [] | Some r \<Rightarrow> if jtruthy r then r else JObj [])) (\<lambda>prior.
        whenever (map_option canon (jlookup ''permissions'' prior) \<noteq> Some (canon permissions))
          (store_put ''system'' ''platform_permissions''
            (JObj [(''permissions'', permissions),
                   (''revision'', JInt (jint (jget_or ''revision'' (JInt 0) prior) + 1))])))))"

definition or_empty :: "json option \<Rightarrow> json" where
  "or_empty j = (case j of None \<Rightarrow> JObj [] | Some x \<Rightarrow> if jtruthy x then x else JObj [])"

definition workspace_of :: "access_context \<Rightarrow> string option" where
  "workspace_of ctx =
     (case ctx of
        Execution c \<Rightarrow> if c_workspace c = '''' then None else Some (c_workspace c)
      | Diagnostic d \<Rightarrow> if d_workspace d = Some '''' then None else d_workspace d)"

definition owner_of :: "access_context \<Rightarrow> string" where
  "owner_of ctx = (case ctx of Execution c \<Rightarrow> c_owner c | Diagnostic d \<Rightarrow> d_owner d)"

text \<open>The policy of a workspace under the global one.\<close>

definition combine_workspace :: "json \<Rightarrow> json \<Rightarrow> json" where
  "combine_workspace lcl global =
     jset ''trusted_local_execution''
       (jand (jget ''trusted_local_execution'' lcl) (jget ''trusted_local_execution'' global))
     (narrow_egress lcl global
     (jset ''revision'' (JInt (jint (jget ''revision'' global) * 1000000 + jint (jget ''revision'' lcl)))
     (jset ''approval_effects''
        (sorted_names (names ''approval_effects'' lcl @ names ''approval_effects'' global))
     (jset ''capabilities''
        (sorted_names (meet (names ''capabilities'' lcl) (names ''capabilities'' global))) lcl))))"

definition policy_current :: "access_context \<Rightarrow> json store" where
  "policy_current ctx =
     bnd (store_get ''config/policies'' ''default'') (\<lambda>rec.
     bnd (ret (jmerge default_policy (or_empty rec))) (\<lambda>global.
     case workspace_of ctx of
       Some ws \<Rightarrow>
         bnd (store_workspace ws (Some (owner_of ctx))) (\<lambda>workspace.
         environment_cap
           (combine_workspace (jmerge default_policy (ws_policy (wv_row workspace))) global))
     | None \<Rightarrow> environment_cap global))"

text \<open>The policy an agent names, under the current one; \<open>rev\<close> digests the two into a revision.\<close>

definition combine_agent :: "(json \<Rightarrow> int) \<Rightarrow> json \<Rightarrow> json \<Rightarrow> string \<Rightarrow> json" where
  "combine_agent rvn base named ref =
     jset ''agent_policy_ref'' (JStr ref)
     (jset ''revision'' (JInt (rvn (JList [base, named, JStr ref])))
     (narrow_egress base named
     (jset ''trusted_local_execution''
        (jand (jget ''trusted_local_execution'' base) (jget ''trusted_local_execution'' named))
     (jset ''approval_effects''
        (sorted_names (names ''approval_effects'' base @ names ''approval_effects'' named))
     (jset ''capabilities''
        (sorted_names (meet (names ''capabilities'' base) (names ''capabilities'' named))) base)))))"

definition policy_for_agent :: "(json \<Rightarrow> int) \<Rightarrow> access_context \<Rightarrow> json \<Rightarrow> json store" where
  "policy_for_agent rvn ctx policy_ref =
     bnd (policy_current ctx) (\<lambda>base.
     if policy_ref = JStr ''default'' then ret base
     else
       (case policy_ref of
          JStr ref \<Rightarrow>
            bnd (store_get ''config/policies'' ref) (\<lambda>named.
            (case named of
               None \<Rightarrow> raise (HErr ''POLICY_NOT_FOUND'' 403)
             | Some n \<Rightarrow> ret (combine_agent rvn base (jmerge default_policy n) ref)))
        | _ \<Rightarrow> raise PyValueError))"

definition combine_frozen :: "json \<Rightarrow> json \<Rightarrow> json \<Rightarrow> json" where
  "combine_frozen snapshot current frozen =
     (let caps0 = meet (names ''capabilities'' current) (names ''capabilities'' frozen);
          caps1 = (if jget ''mode'' snapshot = JStr ''plan'' then meet caps0 plan_capabilities else caps0);
          agent_policy = jget ''policy'' (jget ''agent_spec'' snapshot);
          caps = (case jlookup ''capabilities'' agent_policy of
                    None \<Rightarrow> caps1 | Some c \<Rightarrow> meet caps1 (jstrings c));
          r0 = jset ''approval_effects''
                 (sorted_names (names ''approval_effects'' current @ names ''approval_effects'' frozen))
               (jset ''capabilities'' (sorted_names caps) current);
          r1 = narrow_egress current frozen r0;
          r2 = fold (\<lambda>k r. jset k (jand (jget_or k (JBool True) current) (jget_or k (JBool True) frozen)) r)
                 [''platform_network'', ''platform_process'', ''trusted_local_execution''] r1;
          hosts = map (names ''platform_allowed_hosts'')
                 (filter (\<lambda>p. jlookup ''platform_allowed_hosts'' p \<noteq> None) [current, frozen])
      in if hosts = [] then r2
         else jset ''platform_allowed_hosts'' (sorted_names (fold meet (tl hosts) (hd hosts))) r2)"

definition snapshot_of :: "execution_context \<Rightarrow> json store" where
  "snapshot_of ctx = bnd (store_get ''snapshots'' (c_snapshot ctx)) (\<lambda>s. ret (or_empty s))"

definition policy_effective :: "(json \<Rightarrow> int) \<Rightarrow> execution_context \<Rightarrow> json store" where
  "policy_effective rvn ctx =
     bnd (snapshot_of ctx) (\<lambda>snapshot.
     bnd (policy_for_agent rvn (Execution ctx)
            (jget_or ''policy'' (JStr ''default'') (jget_or ''agent_spec'' (JObj []) snapshot))) (\<lambda>current.
     ret (combine_frozen snapshot current (jget_or ''policy'' current snapshot))))"

section \<open>Decisions\<close>

datatype decision_kind = deny | approval | allow

record decision =
  dc_kind :: decision_kind
  dc_revision :: int

definition enabled_servers :: "json \<Rightarrow> string list" where
  "enabled_servers snapshot =
     map (\<lambda>p. jstr (jget ''server_id'' p)) (jitems (jget ''mcp'' snapshot))"

definition required_capabilities :: "json \<Rightarrow> tool_spec \<Rightarrow> string set" where
  "required_capabilities snapshot spec =
     (\<lambda>c. if starts_with ''mcp:'' c \<and> drop 4 c \<in> set (enabled_servers snapshot) then ''mcp'' else c) `
       set (ts_capabilities spec)"

definition decide_on :: "json \<Rightarrow> json \<Rightarrow> tool_spec \<Rightarrow> decision" where
  "decide_on snapshot p spec =
     \<lparr>dc_kind =
        (if \<not> required_capabilities snapshot spec \<subseteq> capabilities p then deny
         else if ts_effect spec = ef_process \<and> \<not> jtruthy (jget ''trusted_local_execution'' p) then deny
         else if effect_name (ts_effect spec) \<in> approvals p \<or> ts_id spec = ''request_approval''
           then approval
         else allow),
      dc_revision = jint (jget ''revision'' p)\<rparr>"

definition policy_decide ::
  "(json \<Rightarrow> int) \<Rightarrow> access_context \<Rightarrow> tool_spec \<Rightarrow> decision store" where
  "policy_decide rvn actx spec =
     (case actx of
        Diagnostic d \<Rightarrow> raise (HErr ''DIAGNOSTIC_TOOL_DENIED'' 403)
      | Execution ctx \<Rightarrow>
          andthen (assert_fence ctx False)
          (bnd (policy_effective rvn ctx) (\<lambda>p.
           bnd (snapshot_of ctx) (\<lambda>snapshot.
           ret (decide_on snapshot p spec)))))"

section \<open>Network targets\<close>

text \<open>The provider presets of \<^verbatim>\<open>harness/model_gateway/presets.py\<close>, without their display names.\<close>

record preset =
  ps_id :: string
  ps_requires_key :: bool
  ps_url :: string
  ps_custom :: bool
  ps_models :: "string list"
  ps_adapter :: string
  ps_api_mode :: string
  ps_discovery :: "string option"

definition preset_of ::
  "string \<Rightarrow> string \<Rightarrow> string list \<Rightarrow> string \<Rightarrow> string \<Rightarrow> string option \<Rightarrow> preset" where
  "preset_of i url models adapter mode discovery =
     \<lparr>ps_id = i, ps_requires_key = True, ps_url = url, ps_custom = False, ps_models = models,
      ps_adapter = adapter, ps_api_mode = mode, ps_discovery = discovery\<rparr>"

definition presets :: "preset list" where
  "presets =
     [preset_of ''openai'' ''https://api.openai.com/v1''
        [''gpt-5.6-terra'', ''gpt-5.6-luna'', ''gpt-6-astra''] ''openai'' ''responses'' (Some ''/models''),
      preset_of ''anthropic'' ''https://api.anthropic.com''
        [''claude-sonnet-4-6'', ''claude-opus-5''] ''anthropic'' ''messages'' (Some ''/v1/models''),
      preset_of ''deepseek'' ''https://api.deepseek.com''
        [''deepseek-flash'', ''deepseek-v4-pro''] ''openai'' ''chat_completions'' (Some ''/models''),
      preset_of ''qwen'' ''https://dashscope.aliyuncs.com/compatible-mode/v1''
        [''qwen-plus'', ''qwen3.8-max''] ''openai'' ''chat_completions'' None,
      preset_of ''tencent'' ''https://api.lkeap.cloud.tencent.com/plan/v3''
        [''tc-code-latest'', ''glm-5.1'', ''minimax-m2.7'', ''kimi-k2.5''] ''openai'' ''chat_completions'' None,
      preset_of ''siliconflow'' ''https://api.siliconflow.cn/v1''
        [''deepseek-ai/DeepSeek-V4-Flash'', ''Pro/zai-org/GLM-5.1''] ''openai'' ''chat_completions''
        (Some ''/models?sub_type=chat''),
      (preset_of ''ollama'' ''http://127.0.0.1:11434'' [] ''ollama'' ''chat'' (Some ''/api/tags''))
        \<lparr>ps_requires_key := False\<rparr>,
      (preset_of ''custom'' '''' [] ''openai'' ''chat_completions'' (Some ''/models''))
        \<lparr>ps_requires_key := False, ps_custom := True\<rparr>]"

record url_parts =
  up_scheme :: string
  up_host :: "string option"
  up_userinfo :: bool
  up_fragment :: bool
  up_port :: "nat option"

text \<open>An address with the answers of \<^verbatim>\<open>ipaddress\<close> the code asks for.\<close>

record address =
  ad_text :: string
  ad_global :: bool
  ad_loopback :: bool
  ad_benchmark :: bool

record setup_grant =
  sg_owner :: string
  sg_diagnostic :: string
  sg_profile :: string
  sg_endpoint :: string

text \<open>What the host answers: the parts of a URL and the addresses of a name at a port.\<close>

record network =
  nw_split :: "string \<Rightarrow> url_parts"
  nw_resolve :: "string \<Rightarrow> nat \<Rightarrow> address list"

definition rstrip_slash :: "string \<Rightarrow> string" where
  "rstrip_slash s = rev (dropWhile (\<lambda>c. c = CHR ''/'') (rev s))"

definition official_endpoints :: "string list" where
  "official_endpoints =
     map (\<lambda>p. rstrip_slash (ps_url p))
       (filter (\<lambda>p. \<not> ps_custom p \<and> starts_with ''https://'' (ps_url p)) presets)"

definition model_granted ::
  "access_context \<Rightarrow> string \<Rightarrow> string \<Rightarrow> bool \<Rightarrow> string option \<Rightarrow> setup_grant option \<Rightarrow> bool store" where
  "model_granted ctx url purpose configured profile_ref grant =
     (case profile_ref of
        None \<Rightarrow> ret False
      | Some ref \<Rightarrow>
          if purpose \<noteq> ''model'' \<or> \<not> configured \<or> ref = '''' then ret False
          else
            bnd (ret (case (grant, ctx) of
                (Some g, Diagnostic d) \<Rightarrow>
                  sg_owner g = d_owner d \<and> sg_diagnostic g = d_id d \<and> sg_profile g = ref \<and>
                  sg_endpoint g = url
              | _ \<Rightarrow> False)) (\<lambda>minted.
            bnd (store_get ''model_endpoint_grants'' ref) (\<lambda>saved.
            ret (minted \<or> (case saved of
                None \<Rightarrow> False
              | Some s \<Rightarrow> jtruthy (jget ''enabled'' s) \<and> jget ''owner_id'' s = JStr (owner_of ctx) \<and>
                  jget ''profile_ref'' s = JStr ref \<and> jget ''endpoint'' s = JStr url)))))"

definition policy_of_context :: "(json \<Rightarrow> int) \<Rightarrow> access_context \<Rightarrow> json store" where
  "policy_of_context rvn ctx =
     (case ctx of Execution c \<Rightarrow> policy_effective rvn c | Diagnostic d \<Rightarrow> policy_current ctx)"

definition port_of :: "url_parts \<Rightarrow> nat" where
  "port_of parts =
     (case up_port parts of
        Some n \<Rightarrow> if n = 0 then (if up_scheme parts = ''https'' then 443 else 80) else n
      | None \<Rightarrow> if up_scheme parts = ''https'' then 443 else 80)"

definition policy_endpoint ::
  "(json \<Rightarrow> int) \<Rightarrow> network \<Rightarrow> string \<Rightarrow> access_context \<Rightarrow> string \<Rightarrow> bool \<Rightarrow> string option \<Rightarrow>
   setup_grant option \<Rightarrow> address list store" where
  "policy_endpoint rvn net url ctx purpose configured profile_ref grant =
     (let parts = nw_split net url;
          host = (case up_host parts of None \<Rightarrow> '''' | Some h \<Rightarrow> h);
          addresses = nw_resolve net host (port_of parts);
          lcl = list_all ad_loopback addresses
      in
        andthen (raise_if (up_scheme parts \<notin> {''http'', ''https''} \<or> host = '''' \<or>
            up_userinfo parts \<or> up_fragment parts) (HErr ''ENDPOINT_DENIED'' 403))
        (bnd (policy_of_context rvn ctx) (\<lambda>p.
         bnd (model_granted ctx url purpose configured profile_ref grant) (\<lambda>granted.
         andthen (raise_if (\<not> jtruthy (jget_or ''platform_network'' (JBool True) p) \<and> \<not> granted)
           (HErr ''NETWORK_DISABLED'' 403))
         (andthen (raise_if (jlookup ''platform_allowed_hosts'' p \<noteq> None \<and>
             host \<notin> set (names ''platform_allowed_hosts'' p)) (HErr ''EGRESS_DENIED'' 403))
         (andthen (raise_if (addresses = []) (HErr ''ENDPOINT_DENIED'' 403))
         (bnd (ret (granted \<and> up_scheme parts = ''https'' \<and>
             rstrip_slash url \<in> set official_endpoints \<and>
             list_all (\<lambda>a. ad_global a \<or> ad_benchmark a) addresses)) (\<lambda>fake_ip.
          andthen (raise_if (list_ex (\<lambda>a. \<not> ad_global a) addresses \<and>
              \<not> (fake_ip \<or> configured \<and> purpose \<in> {''model'', ''mcp''} \<and> lcl))
            (HErr ''SSRF_DENIED'' 403))
          (andthen (raise_if (egress p = ''local_only'' \<and> \<not> lcl) (HErr ''EGRESS_DENIED'' 403))
          (andthen (raise_if (egress p = ''domain_allowlist'' \<and> host \<notin> set (names ''domains'' p))
            (HErr ''EGRESS_DENIED'' 403))
          (ret addresses)))))))))))"

definition authorize_skill :: "(json \<Rightarrow> int) \<Rightarrow> access_context \<Rightarrow> unit store" where
  "authorize_skill rvn ctx =
     (case ctx of
        Diagnostic d \<Rightarrow> raise (HErr ''SKILL_DENIED'' 403)
      | Execution c \<Rightarrow>
          bnd (policy_effective rvn c) (\<lambda>p.
          raise_if (''skills'' \<notin> capabilities p) (HErr ''SKILL_DENIED'' 403)))"

record mcp_profile =
  mp_server :: string
  mp_transport :: string
  mp_endpoint :: string
  mp_command :: "string list"

definition authorize_mcp ::
  "(json \<Rightarrow> int) \<Rightarrow> network \<Rightarrow> mcp_profile \<Rightarrow> access_context \<Rightarrow> unit store" where
  "authorize_mcp rvn net profile ctx =
     bnd (store_get ''mcp_revoked'' (mp_server profile)) (\<lambda>rec.
     andthen (raise_if (jtruthy (jget ''revoked'' (or_empty rec))) (HErr ''MCP_REVOKED'' 403))
     (andthen
       (if mp_transport profile \<noteq> ''stdio''
        then bnd (policy_endpoint rvn net (mp_endpoint profile) ctx ''mcp'' True None None) (\<lambda>_. ret ())
        else if mp_command profile = [] then raise (HErr ''MCP_CONFIG'' 422)
        else bnd (policy_current ctx) (\<lambda>p.
          raise_if (\<not> jtruthy (jget_or ''platform_process'' (JBool True) p))
            (HErr ''PROCESS_DISABLED'' 403)))
     (case ctx of
        Diagnostic d \<Rightarrow> ret ()
      | Execution c \<Rightarrow>
          bnd (policy_effective rvn c) (\<lambda>p.
          raise_if (''mcp'' \<notin> capabilities p) (HErr ''MCP_DENIED'' 403)))))"

section \<open>Frames\<close>

lemma keeps_cap [core_keeps]: "keeps (same_view core) (set_environment_cap p)"
  unfolding set_environment_cap_def by (intro core_rules core_keeps)

context db_history
begin

lemma keeps_case_access:
  "(\<And>c. x = Execution c \<Longrightarrow> keeps R (f c)) \<Longrightarrow> (\<And>d. x = Diagnostic d \<Longrightarrow> keeps R (g d)) \<Longrightarrow>
   keeps R (case x of Execution c \<Rightarrow> f c | Diagnostic d \<Rightarrow> g d)"
  by (cases x) simp_all

lemma keeps_policy:
  "keeps R (environment_cap p)" "keeps R (policy_current ctx)" "keeps R (policy_for_agent rvn ctx ref)"
  "keeps R (policy_effective rvn c)" "keeps R (policy_decide rvn ctx spec)" "keeps R (snapshot_of c)"
  "keeps R (policy_endpoint rvn net url ctx pu cf pr gr)" "keeps R (authorize_skill rvn ctx)"
  "keeps R (authorize_mcp rvn net prof ctx)"
proof -
  show cap: "keeps R (environment_cap p)" for p
    unfolding environment_cap_def by (intro keeps_db keeps_reads)
  show cur: "keeps R (policy_current ctx)" for ctx
    unfolding policy_current_def by (intro keeps_db keeps_reads keeps_misc_reads cap)
  show ag: "keeps R (policy_for_agent rvn ctx ref)" for ctx ref
    unfolding policy_for_agent_def by (cases ref) (intro keeps_db keeps_reads cur | simp)+
  show snap: "keeps R (snapshot_of c)" for c
    unfolding snapshot_of_def by (intro keeps_db keeps_reads)
  show eff: "keeps R (policy_effective rvn c)" for c
    unfolding policy_effective_def by (intro keeps_db ag snap)
  show "keeps R (policy_decide rvn ctx spec)" for ctx spec
    unfolding policy_decide_def by (intro keeps_case_access keeps_db keeps_reads eff snap)
  show endp: "keeps R (policy_endpoint rvn net url ctx pu cf pr gr)" for url ctx pu cf pr gr
    unfolding policy_endpoint_def model_granted_def policy_of_context_def Let_def
    by (intro keeps_case_access keeps_db keeps_reads eff cur)
  show "keeps R (authorize_skill rvn ctx)" for ctx
    unfolding authorize_skill_def by (intro keeps_case_access keeps_db eff)
  show "keeps R (authorize_mcp rvn net prof ctx)" for prof ctx
    unfolding authorize_mcp_def
    by (intro keeps_case_access keeps_db keeps_reads endp cur eff)
qed

end

section \<open>Strictness\<close>

definition trusted :: "json \<Rightarrow> bool" where
  "trusted p \<longleftrightarrow> jtruthy (jget_or ''trusted_local_execution'' (JBool True) p)"

text \<open>\<open>stricter p q\<close>: whatever \<open>p\<close> allows, \<open>q\<close> allows, and whatever \<open>q\<close> asks approval for, \<open>p\<close> does.\<close>

definition stricter :: "json \<Rightarrow> json \<Rightarrow> bool" where
  "stricter p q \<longleftrightarrow>
     capabilities p \<subseteq> capabilities q \<and> approvals q \<subseteq> approvals p \<and>
     (trusted p \<longrightarrow> trusted q) \<and>
     (egress q = ''local_only'' \<longrightarrow> egress p = ''local_only'') \<and>
     (egress q = ''domain_allowlist'' \<longrightarrow> egress p = ''local_only'' \<or>
        egress p = ''domain_allowlist'' \<and> set (names ''domains'' p) \<subseteq> set (names ''domains'' q))"

lemma stricter_refl: "stricter p p"
  by (simp add: stricter_def)

lemma stricter_trans: "stricter p q \<Longrightarrow> stricter q r \<Longrightarrow> stricter p r"
  unfolding stricter_def by auto

interpretation policy_order: history stricter
  by unfold_locales (auto intro: stricter_refl stricter_trans)

text \<open>The four combinations build their result field by field; what each field is.\<close>

lemma narrow_other [simp]:
  "k \<notin> {''egress'', ''domains''} \<Longrightarrow> jlookup k (narrow_egress p q j) = jlookup k j"
  by (simp add: narrow_egress_def Let_def)

lemma narrow_other_get [simp]:
  "k \<notin> {''egress'', ''domains''} \<Longrightarrow> jget k (narrow_egress p q j) = jget k j"
  "k \<notin> {''egress'', ''domains''} \<Longrightarrow> jget_or k d (narrow_egress p q j) = jget_or k d j"
  by (simp_all add: jget_def jget_or_def)

definition egress_part :: "json \<Rightarrow> json \<Rightarrow> bool" where
  "egress_part p q \<longleftrightarrow>
     (egress q = ''local_only'' \<longrightarrow> egress p = ''local_only'') \<and>
     (egress q = ''domain_allowlist'' \<longrightarrow> egress p = ''local_only'' \<or>
        egress p = ''domain_allowlist'' \<and> set (names ''domains'' p) \<subseteq> set (names ''domains'' q))"

lemma egress_part_cong:
  "jget ''egress'' p' = jget ''egress'' p \<Longrightarrow> jget ''domains'' p' = jget ''domains'' p \<Longrightarrow>
   egress_part p' q = egress_part p q"
  by (simp add: egress_part_def egress_def names_def)

lemma narrow_egress_part:
  "egress_part (narrow_egress p q j) p" "egress_part (narrow_egress p q j) q"
  by (auto simp: egress_part_def narrow_egress_def Let_def egress_def names_def meet_def)

lemma field_simps_jset [simp]:
  "capabilities (jset k v j) = (if k = ''capabilities'' then set (jstrings v) else capabilities j)"
  "approvals (jset k v j) = (if k = ''approval_effects'' then set (jstrings v) else approvals j)"
  "trusted (jset k v j) = (if k = ''trusted_local_execution'' then jtruthy v else trusted j)"
  by (simp_all add: capabilities_def approvals_def names_def trusted_def)

lemma field_simps_narrow [simp]:
  "capabilities (narrow_egress p q j) = capabilities j"
  "approvals (narrow_egress p q j) = approvals j" "trusted (narrow_egress p q j) = trusted j"
  by (simp_all add: capabilities_def approvals_def names_def trusted_def)

lemma egress_part_jset [simp]:
  "k \<notin> {''egress'', ''domains''} \<Longrightarrow> egress_part (jset k v j) q = egress_part j q"
  by (rule egress_part_cong) auto

lemma stricterI:
  assumes "capabilities p \<subseteq> capabilities q" "approvals q \<subseteq> approvals p" "trusted p \<Longrightarrow> trusted q"
    "egress_part p q"
  shows "stricter p q"
  using assms by (simp add: stricter_def egress_part_def)

lemma names_sets [simp]:
  "set (names ''capabilities'' p) = capabilities p" "set (names ''approval_effects'' p) = approvals p"
  by (simp_all add: capabilities_def approvals_def)

lemma trusted_get: "jtruthy (jget ''trusted_local_execution'' p) \<Longrightarrow> trusted p"
  by (auto simp: trusted_def jget_def jget_or_def split: option.splits)

lemma combine_workspace_stricter:
  "stricter (combine_workspace l g) l" "stricter (combine_workspace l g) g"
  by (rule stricterI; auto simp: combine_workspace_def narrow_egress_part intro: trusted_get)+

lemma combine_agent_stricter:
  "stricter (combine_agent rvn b n ref) b" "stricter (combine_agent rvn b n ref) n"
  by (rule stricterI; auto simp: combine_agent_def narrow_egress_part intro: trusted_get)+

lemma combine_frozen_fields:
  "capabilities (combine_frozen s c f) \<subseteq> capabilities c \<inter> capabilities f"
  "approvals (combine_frozen s c f) = approvals c \<union> approvals f"
  "trusted (combine_frozen s c f) \<longleftrightarrow> trusted c \<and> trusted f"
  "egress_part (combine_frozen s c f) c" "egress_part (combine_frozen s c f) f"
  "jget ''mode'' s = JStr ''plan'' \<Longrightarrow> capabilities (combine_frozen s c f) \<subseteq> set plan_capabilities"
  by (auto simp: combine_frozen_def Let_def narrow_egress_part trusted_def split: option.splits)

lemma combine_frozen_stricter:
  "stricter (combine_frozen s c f) c" "stricter (combine_frozen s c f) f"
  by (rule stricterI; use combine_frozen_fields [of s c f] in auto)+

text \<open>What the host environment's permissions take away.\<close>

definition capped :: "world \<Rightarrow> json \<Rightarrow> bool" where
  "capped w p \<longleftrightarrow> (case record_value w ''system'' ''platform_permissions'' of
       None \<Rightarrow> True
     | Some r \<Rightarrow> jtruthy r \<longrightarrow> (let cap = jget ''permissions'' r in
         (\<not> jtruthy (jget ''network'' cap) \<longrightarrow> ''network'' \<notin> capabilities p) \<and>
         (\<not> jtruthy (jget ''process'' cap) \<longrightarrow> ''process'' \<notin> capabilities p \<and> \<not> trusted p) \<and>
         (\<not> jtruthy (jget ''workspace_write'' cap) \<longrightarrow> ''file_write'' \<notin> capabilities p)))"

lemma capped_mono: "capped w q \<Longrightarrow> stricter p q \<Longrightarrow> capped w p"
  by (auto simp: capped_def stricter_def Let_def split: option.splits)

lemma environment_cap_Inr:
  assumes "environment_cap p w = (r, v)"
  shows "v = w \<and> (\<exists>q. r = Inr q \<and> stricter q p \<and> capped w q)"
proof (cases "record_value w ''system'' ''platform_permissions''")
  case None
  with assms show ?thesis
    by (auto simp: environment_cap_def store_get_def capped_def stricter_refl)
next
  case (Some rec)
  show ?thesis
  proof (cases "jtruthy rec")
    case False
    with Some assms show ?thesis
      by (auto simp: environment_cap_def store_get_def capped_def stricter_refl)
  next
    case True
    let ?cap = "jget ''permissions'' rec"
    obtain q where q: "r = Inr q" "v = w"
      and caps: "capabilities q = {c \<in> capabilities p.
        \<not> (c = ''network'' \<and> \<not> jtruthy (jget ''network'' ?cap)) \<and>
        \<not> (c = ''process'' \<and> \<not> jtruthy (jget ''process'' ?cap)) \<and>
        \<not> (c = ''file_write'' \<and> \<not> jtruthy (jget ''workspace_write'' ?cap))}"
      and app: "approvals q = approvals p"
      and tr: "trusted q \<longleftrightarrow> jtruthy (jand (jget ''trusted_local_execution'' p) (jget ''process'' ?cap))"
      and eg: "egress_part q p = egress_part p p"
      using assms Some True
      by (auto simp: environment_cap_def store_get_def Let_def split: if_splits)
    from eg have "egress_part q p" by (simp add: egress_part_def)
    with caps app tr have "stricter q p" by (intro stricterI) (auto intro: trusted_get)
    moreover have "capped w q" using Some True caps tr by (simp add: capped_def Let_def)
    ultimately show ?thesis using q by simp
  qed
qed

section \<open>The effective policy\<close>

text \<open>The documents that apply to a run: global, workspace, agent's and frozen policy.\<close>

definition global_policy :: "world \<Rightarrow> json" where
  "global_policy w = jmerge default_policy (or_empty (record_value w ''config/policies'' ''default''))"

definition workspace_policies :: "access_context \<Rightarrow> world \<Rightarrow> json list" where
  "workspace_policies ctx w =
     (case workspace_of ctx of
        None \<Rightarrow> []
      | Some ws \<Rightarrow> (case row_of ws_id ws (t_workspaces w) of None \<Rightarrow> []
          | Some row \<Rightarrow> [jmerge default_policy (ws_policy row)]))"

definition agent_policies :: "json \<Rightarrow> world \<Rightarrow> json list" where
  "agent_policies ref w =
     (case ref of
        JStr r \<Rightarrow> if r = ''default'' then []
          else (case record_value w ''config/policies'' r of None \<Rightarrow> []
            | Some n \<Rightarrow> [jmerge default_policy n])
      | _ \<Rightarrow> [])"

definition run_snapshot_json :: "execution_context \<Rightarrow> world \<Rightarrow> json" where
  "run_snapshot_json ctx w = or_empty (record_value w ''snapshots'' (c_snapshot ctx))"

definition policy_documents :: "execution_context \<Rightarrow> world \<Rightarrow> json list" where
  "policy_documents ctx w =
     (let s = run_snapshot_json ctx w in
      global_policy w # workspace_policies (Execution ctx) w @
      agent_policies (jget_or ''policy'' (JStr ''default'') (jget_or ''agent_spec'' (JObj []) s)) w @
      (case jlookup ''policy'' s of None \<Rightarrow> [] | Some f \<Rightarrow> [f]))"

lemma store_workspace_Inr:
  "store_workspace i own w = (Inr x, v) \<Longrightarrow> v = w \<and> row_of ws_id i (t_workspaces w) = Some (wv_row x)"
  by (auto simp: store_workspace_def act_iffs store_get_def split: if_splits)

lemma policy_current_Inr:
  assumes "policy_current ctx w = (Inr q, v)"
  shows "v = w \<and> capped w q \<and> stricter q (global_policy w) \<and>
    (\<forall>l\<in>set (workspace_policies ctx w). stricter q l)"
proof (cases "workspace_of ctx")
  case None
  with assms environment_cap_Inr [of "global_policy w" w] show ?thesis
    by (auto simp: policy_current_def store_get_def global_policy_def workspace_policies_def)
next
  case (Some ws)
  with assms obtain x where x: "store_workspace ws (Some (owner_of ctx)) w = (Inr x, w)"
    and cap: "environment_cap (combine_workspace (jmerge default_policy (ws_policy (wv_row x)))
      (global_policy w)) w = (Inr q, v)"
    by (auto simp: policy_current_def store_get_def global_policy_def act_iffs
        dest: store_workspace_Inr)
  let ?c = "combine_workspace (jmerge default_policy (ws_policy (wv_row x))) (global_policy w)"
  have "v = w" "stricter q ?c" "capped w q" using environment_cap_Inr [OF cap] by auto
  with store_workspace_Inr [OF x] Some show ?thesis
    by (auto simp: workspace_policies_def
        intro: stricter_trans combine_workspace_stricter)
qed

lemma policy_for_agent_Inr:
  assumes "policy_for_agent rvn ctx ref w = (Inr q, v)"
  shows "v = w \<and> capped w q \<and> stricter q (global_policy w) \<and>
    (\<forall>l\<in>set (workspace_policies ctx w @ agent_policies ref w). stricter q l)"
proof -
  from assms obtain base u where base: "policy_current ctx w = (Inr base, u)"
    by (auto simp: policy_for_agent_def act_iffs)
  note B = policy_current_Inr [OF base]
  show ?thesis
  proof (cases "ref = JStr ''default''")
    case True
    with assms base B show ?thesis by (auto simp: policy_for_agent_def agent_policies_def)
  next
    case False
    obtain r where ref: "ref = JStr r" using assms base False
      by (cases ref) (simp_all add: policy_for_agent_def)
    with False have "r \<noteq> ''default''" by simp
    obtain n where n: "record_value w ''config/policies'' r = Some n"
      using assms base False ref B
      by (cases "record_value w ''config/policies'' r") (simp_all add: policy_for_agent_def store_get_def)
    with assms base False ref B \<open>r \<noteq> ''default''\<close> have r: "ref = JStr r" "r \<noteq> ''default''"
      "record_value w ''config/policies'' r = Some n"
      "q = combine_agent rvn base (jmerge default_policy n) r" "v = w"
      by (simp_all add: policy_for_agent_def store_get_def)
    have q: "stricter q base" "stricter q (jmerge default_policy n)"
      unfolding r(4) by (rule combine_agent_stricter)+
    have "stricter q l" if "stricter base l" for l using q(1) that by (rule stricter_trans)
    with B q(2) r capped_mono [OF _ q(1)] show ?thesis
      by (auto simp: agent_policies_def)
  qed
qed

lemma policy_effective_Inr:
  assumes "policy_effective rvn ctx w = (Inr p, v)"
  shows "v = w \<and> (\<forall>q\<in>set (policy_documents ctx w). stricter p q) \<and> capped w p \<and>
    (jget ''mode'' (run_snapshot_json ctx w) = JStr ''plan'' \<longrightarrow>
       capabilities p \<subseteq> set plan_capabilities)"
proof -
  let ?s = "run_snapshot_json ctx w"
  let ?ref = "jget_or ''policy'' (JStr ''default'') (jget_or ''agent_spec'' (JObj []) ?s)"
  from assms obtain c u where c: "policy_for_agent rvn (Execution ctx) ?ref w = (Inr c, u)"
    and p: "p = combine_frozen ?s c (jget_or ''policy'' c ?s)" and v: "v = u"
    by (auto simp: policy_effective_def snapshot_of_def store_get_def act_iffs run_snapshot_json_def)
  note C = policy_for_agent_Inr [OF c]
  have pc: "stricter p c" "stricter p (jget_or ''policy'' c ?s)"
    unfolding p by (rule combine_frozen_stricter)+
  have up: "stricter p l" if "stricter c l" for l using pc(1) that by (rule stricter_trans)
  have "capabilities p \<subseteq> set plan_capabilities" if "jget ''mode'' ?s = JStr ''plan''"
    unfolding p using that by (rule combine_frozen_fields)
  moreover have "stricter p f" if "jlookup ''policy'' ?s = Some f" for f
    using pc(2) that by (simp add: jget_or_def)
  ultimately show ?thesis
    using C v capped_mono [OF _ pc(1)] up
    by (auto simp: policy_documents_def Let_def split: option.splits)
qed


text \<open>
  C11: a tool call that the policy allows without approval runs under an open fence, needs no
  capability that some applicable document withholds, has an effect for which no applicable document
  asks approval, and is a local process only where every document trusts local execution; a
  diagnostic identity is never allowed to run a tool.
\<close>

theorem allowed_by_every_policy:
  assumes run: "policy_decide rvn actx spec w = (Inr d, v)" and "dc_kind d = allow"
  shows "\<exists>ctx. actx = Execution ctx \<and> v = w \<and> fence_open w ctx False \<and>
    (\<forall>q\<in>set (policy_documents ctx w).
       required_capabilities (run_snapshot_json ctx w) spec \<subseteq> capabilities q \<and>
       effect_name (ts_effect spec) \<notin> approvals q \<and> (ts_effect spec = ef_process \<longrightarrow> trusted q))"
proof (cases actx)
  case (Diagnostic d')
  with run show ?thesis by (simp add: policy_decide_def)
next
  case (Execution ctx)
  with run obtain p u where fence: "fence_open w ctx False"
    and p: "policy_effective rvn ctx w = (Inr p, u)"
    and d: "bnd (snapshot_of ctx) (\<lambda>s. ret (decide_on s p spec)) u = (Inr d, v)"
    by (auto simp: policy_decide_def act_iffs assert_fence_Inr)
  note E = policy_effective_Inr [OF p]
  have dd: "d = decide_on (run_snapshot_json ctx w) p spec" "v = w"
    using d E by (auto simp: snapshot_of_def store_get_def act_iffs run_snapshot_json_def)
  have ok: "required_capabilities (run_snapshot_json ctx w) spec \<subseteq> capabilities p"
    "effect_name (ts_effect spec) \<notin> approvals p" "ts_effect spec = ef_process \<longrightarrow> trusted p"
    using assms(2) unfolding dd(1) decide_on_def by (auto split: if_splits intro: trusted_get)
  have "required_capabilities (run_snapshot_json ctx w) spec \<subseteq> capabilities q \<and>
      effect_name (ts_effect spec) \<notin> approvals q \<and> (ts_effect spec = ef_process \<longrightarrow> trusted q)"
    if "q \<in> set (policy_documents ctx w)" for q
  proof -
    from E that have "stricter p q" by blast
    with ok show ?thesis unfolding stricter_def by blast
  qed
  with Execution fence dd(2) show ?thesis by blast
qed

text \<open>
  C12: a network target is opened only where it is safe. Every address returned for a URL is a global
  one, or all of them are loopback and the target is a configured model or MCP endpoint, or the URL
  is an official provider endpoint over https with an explicit grant and the address is a
  benchmark-range one; under a local-only policy all are loopback, and under an allowlist the host
  is on it.
\<close>

theorem endpoint_safe:
  assumes "policy_endpoint rvn net url ctx purpose configured ref grant w = (Inr addrs, v)"
  shows "\<exists>p u host. policy_of_context rvn ctx w = (Inr p, u) \<and> up_host (nw_split net url) = Some host \<and>
    addrs = nw_resolve net host (port_of (nw_split net url)) \<and> addrs \<noteq> [] \<and>
    (\<forall>a\<in>set addrs. ad_global a \<or>
       configured \<and> purpose \<in> {''model'', ''mcp''} \<and> list_all ad_loopback addrs \<or>
       ad_benchmark a \<and> rstrip_slash url \<in> set official_endpoints \<and>
         up_scheme (nw_split net url) = ''https'' \<and>
         fst (model_granted ctx url purpose configured ref grant u) = Inr True) \<and>
    (egress p = ''local_only'' \<longrightarrow> list_all ad_loopback addrs) \<and>
    (egress p = ''domain_allowlist'' \<longrightarrow> host \<in> set (names ''domains'' p)) \<and>
    (jlookup ''platform_allowed_hosts'' p \<noteq> None \<longrightarrow> host \<in> set (names ''platform_allowed_hosts'' p))"
proof -
  let ?parts = "nw_split net url"
  let ?host = "case up_host ?parts of None \<Rightarrow> '''' | Some h \<Rightarrow> h"
  from assms obtain p u g t where h: "?host \<noteq> ''''" and p: "policy_of_context rvn ctx w = (Inr p, u)"
    and g: "model_granted ctx url purpose configured ref grant u = (Inr g, t)"
    and hosts: "\<not> (jlookup ''platform_allowed_hosts'' p \<noteq> None \<and>
        ?host \<notin> set (names ''platform_allowed_hosts'' p))"
    and addrs: "addrs = nw_resolve net ?host (port_of ?parts)" "addrs \<noteq> []"
    and safe: "\<not> (list_ex (\<lambda>a. \<not> ad_global a) addrs \<and>
        \<not> (g \<and> up_scheme ?parts = ''https'' \<and> rstrip_slash url \<in> set official_endpoints \<and>
             list_all (\<lambda>a. ad_global a \<or> ad_benchmark a) addrs \<or>
           configured \<and> purpose \<in> {''model'', ''mcp''} \<and> list_all ad_loopback addrs))"
    and eg: "\<not> (egress p = ''local_only'' \<and> \<not> list_all ad_loopback addrs)"
      "\<not> (egress p = ''domain_allowlist'' \<and> ?host \<notin> set (names ''domains'' p))"
    unfolding policy_endpoint_def Let_def
    by (simp only: act_iffs ret_apply prod.inject sum.inject) blast
  from h obtain host where host: "up_host ?parts = Some host" by (cases "up_host ?parts") auto
  have "ad_global a \<or> configured \<and> purpose \<in> {''model'', ''mcp''} \<and> list_all ad_loopback addrs \<or>
      ad_benchmark a \<and> rstrip_slash url \<in> set official_endpoints \<and> up_scheme ?parts = ''https'' \<and>
      fst (model_granted ctx url purpose configured ref grant u) = Inr True" if "a \<in> set addrs" for a
    using safe that g unfolding list_ex_iff list_all_iff by auto
  with p host addrs hosts eg show ?thesis by auto
qed

section \<open>Concrete runs\<close>

definition sample_workspace :: workspace_row where
  "sample_workspace =
     \<lparr>ws_id = ''ws'', ws_owner = ''owner'', ws_name = ''ws'', ws_root = ''/ws'', ws_revision = 1,
      ws_policy = JObj [], ws_created = 0\<rparr>"

text \<open>A run in plan mode, in a workspace under a global policy for local targets only.\<close>

definition policy_world :: world where
  "policy_world = running_world
     \<lparr>t_workspaces := [sample_workspace],
      t_records :=
        [new_record ''snapshots'' ''snap'' 1 (JObj [(''mode'', JStr ''plan'')]),
         new_record ''config/policies'' ''default'' 1 (JObj [(''egress'', JStr ''local_only'')])]\<rparr>"

definition sample_tool :: "effect \<Rightarrow> tool_spec" where
  "sample_tool e =
     \<lparr>ts_id = ''read_file'', ts_version = ''1'', ts_origin = ''builtin'', ts_input = JObj [],
      ts_output = JObj [], ts_effect = e, ts_retry = rc_safe, ts_capabilities = [''file_read''],
      ts_timeout = 60\<rparr>"


lemma allowed_by_every_policy_witness:
  "fence_open policy_world sample_context False"
proof -
  let ?d = "policy_decide (\<lambda>_. 0) (Execution sample_context) (sample_tool ef_read) policy_world"
  have "fst ?d = Inr \<lparr>dc_kind = allow, dc_revision = 1000001\<rparr>"
    by code_simp
  from allowed_by_every_policy [OF run_split [OF this]] show ?thesis by simp
qed

definition sample_network :: network where
  "sample_network =
     \<lparr>nw_split = \<lambda>url. \<lparr>up_scheme = ''http'', up_host = Some ''localhost'', up_userinfo = False,
        up_fragment = False, up_port = Some 80\<rparr>,
      nw_resolve = \<lambda>h p. [\<lparr>ad_text = ''127.0.0.1'', ad_global = False, ad_loopback = True,
        ad_benchmark = False\<rparr>]\<rparr>"

lemma endpoint_safe_witness:
  "list_all ad_loopback (nw_resolve sample_network ''localhost'' 80)"
proof -
  let ?e = "policy_endpoint (\<lambda>_. 0) sample_network ''u'' (Execution sample_context) ''mcp'' True None
    None policy_world"
  have "fst ?e = Inr [\<lparr>ad_text = ''127.0.0.1'', ad_global = False, ad_loopback = True, ad_benchmark = False\<rparr>]"
    by code_simp
  from endpoint_safe [OF run_split [OF this]] show ?thesis
    by (auto simp: sample_network_def)
qed

end
