(* ===== verification/Scheduler.thy ===== *)
theory Scheduler
  imports Policy
begin

text \<open>
  The scheduler (\<^verbatim>\<open>harness/scheduler/service.py\<close>): run transitions and their cleanup, submission,
  claiming, settling, interactions, cancellation, delegation, waits, steering and branching.
  Recovery and reconciliation are in \<open>Recovery\<close>. What the scheduler is wired to is a record of its
  attributes: the configuration, the digests, the hooks and the checks of other services.
\<close>

section \<open>Configuration\<close>

record scheduler =
  sch_slots :: nat
  sch_child_slots :: nat
  sch_max_depth :: int
  sch_lease :: nat
  sch_digest :: "json \<Rightarrow> string"
  sch_revision :: "json \<Rightarrow> int"
  sch_snapshot :: "(string \<Rightarrow> session_row \<Rightarrow> json \<Rightarrow> json store) option"
  sch_created :: "run_row \<Rightarrow> json \<Rightarrow> unit store"
  sch_terminal :: "run_row \<Rightarrow> unit store"
  sch_artifact :: "string \<Rightarrow> string \<Rightarrow> unit store"
  sch_image :: "json \<Rightarrow> string \<Rightarrow> unit store"
  sch_schema :: "json \<Rightarrow> json \<Rightarrow> bool"

record budget_policy =
  bp_model_calls :: rat
  bp_total_tokens :: rat
  bp_cost :: "rat option"
  bp_wall_seconds :: nat
  bp_tool_calls :: rat
  bp_children :: rat

fun jrat :: "rat \<Rightarrow> json \<Rightarrow> rat" where
  "jrat d (JInt n) = of_int n"
| "jrat d (JFloat r) = r"
| "jrat d _ = d"

text \<open>\<^verbatim>\<open>BudgetPolicy.model_validate\<close> of a validated document: its values over the defaults.\<close>

definition budget_policy_of :: "json \<Rightarrow> budget_policy" where
  "budget_policy_of j =
     \<lparr>bp_model_calls = jrat 100 (jget ''max_model_calls'' j),
      bp_total_tokens = jrat 1000000 (jget ''max_total_tokens'' j),
      bp_cost = (case jget ''max_cost'' j of JInt n \<Rightarrow> Some (of_int n) | JFloat r \<Rightarrow> Some r | _ \<Rightarrow> None),
      bp_wall_seconds = nat (case jlookup ''max_wall_seconds'' j of None \<Rightarrow> 3600 | Some v \<Rightarrow> jint v),
      bp_tool_calls = jrat 100 (jget ''max_tool_calls'' j),
      bp_children = jrat 8 (jget ''max_children'' j)\<rparr>"

definition budget_limits :: "budget_policy \<Rightarrow> (string \<times> rat option) list" where
  "budget_limits b =
     [(''model_calls'', Some (bp_model_calls b)), (''total_tokens'', Some (bp_total_tokens b)),
      (''cost'', bp_cost b), (''tool_calls'', Some (bp_tool_calls b)),
      (''children'', Some (bp_children b))]"

section \<open>Transitions\<close>

definition emit :: "string \<Rightarrow> string \<Rightarrow> json \<Rightarrow> unit store" where
  "emit run_id event_type data = bnd (store_event run_id event_type data) (\<lambda>_. ret ())"

definition event_state :: "run_row \<Rightarrow> string \<Rightarrow> string option \<Rightarrow> unit store" where
  "event_state run event reason =
     emit (r_id run) event (JObj
       [(''revision'', JInt (r_revision run)), (''status'', JStr (status_name (r_status run))),
        (''reason'', jopt JStr reason), (''result_ref'', jopt artifact_json (r_result run)),
        (''error'', jopt error_json (r_error run))])"

definition interaction_event :: "interaction_row \<Rightarrow> string \<Rightarrow> json" where
  "interaction_event i outcome = JObj
     [(''interaction_id'', JStr (i_id i)), (''revision'', JInt (i_revision i)),
      (''resolution'', JStr outcome)]"

definition unanswered :: "interaction_row \<Rightarrow> bool" where
  "unanswered i \<longleftrightarrow> i_status i \<in> {pending_binding, interaction_open}"

definition closing :: "interaction_row \<Rightarrow> resolution_outcome \<Rightarrow> string \<Rightarrow> resolution" where
  "closing i outcome reason =
     \<lparr>rs_interrupt = i_interrupt i, rs_outcome = outcome, rs_reason = reason, rs_response = None,
      rs_children = []\<rparr>"

definition close_interaction ::
  "string \<Rightarrow> interaction_row \<Rightarrow> interaction_status \<Rightarrow> resolution_outcome \<Rightarrow> string \<Rightarrow> string \<Rightarrow> unit store" where
  "close_interaction run_id i status outcome reason word =
     bnd (update_interaction (i_id i) (i_revision i)
       [I_status status, I_resolution (Some (closing i outcome reason))]) (\<lambda>closed.
     emit run_id ''interaction.resolved'' (interaction_event closed word))"

definition close_interactions :: "string \<Rightarrow> string \<Rightarrow> unit store" where
  "close_interactions run_id reason =
     bnd (store_interactions run_id) (\<lambda>is.
     foreach is (\<lambda>i. whenever (unanswered i)
       (close_interaction run_id i interaction_cancelled outcome_cancelled reason ''cancelled'')))"

definition close_operations :: "string \<Rightarrow> unit store" where
  "close_operations run_id =
     bnd (store_operations run_id) (\<lambda>ops.
     foreach ops (\<lambda>o'. whenever (op_state o' \<in> {op_prepared, op_authorized})
       (bnd utc_now (\<lambda>now.
        bnd (update_operation (op_id o') (op_revision o')
          [O_state op_cancelled, O_result (Some ((plain_result (op_id o') tr_cancelled ''run ended''
             (Some ''RUN_TERMINAL''))\<lparr>tr_completed := Some now\<rparr>))] None) (\<lambda>_.
        bnd (store_reservation (''tool:'' @ op_id o')) (\<lambda>held.
        andthen (whenever (held \<noteq> None)
          (bnd (settle (''tool:'' @ op_id o') (Some [(''tool_calls'',
             if op_tool o' \<in> {''request_input'', ''wait_children''} then 1 else 0)])) (\<lambda>_. ret ())))
        (emit run_id ''tool.completed'' (JObj
          [(''operation_id'', JStr (op_id o')), (''tool_id'', JStr (op_tool o')),
           (''tool_revision'', JStr (op_tool_revision o')), (''result_status'', JStr ''cancelled''),
           (''result_summary'', JStr ''run ended''), (''artifact_refs'', JList [])]))))))))"

definition notify_parent :: "run_row \<Rightarrow> run_status \<Rightarrow> run_row \<Rightarrow> unit store" where
  "notify_parent run status updated =
     (case r_parent run of
        None \<Rightarrow> ret ()
      | Some parent \<Rightarrow> whenever (parent \<noteq> '''')
          (andthen (store_outbox ''children'' (r_id run) (JObj
             [(''child_run_id'', JStr (r_id run)), (''parent_run_id'', JStr parent)]))
          (emit parent ''child.completed'' (JObj
             [(''child_run_id'', JStr (r_id run)),
              (''goal_summary'', jget_or ''text'' (JStr '''') (r_input run)),
              (''status'', JStr (status_name status)),
              (''result_ref'', jopt artifact_json (r_result updated))]))))"

definition terminal_cleanup :: "scheduler \<Rightarrow> run_row \<Rightarrow> run_status \<Rightarrow> run_row \<Rightarrow> unit store" where
  "terminal_cleanup s run status updated =
     bnd (store_branch (r_branch run)) (\<lambda>branch.
     andthen (whenever (b_active branch = Some (r_id run))
       (set_branch_owner (b_id branch) (Some (r_id run)) None))
     (andthen (revoke_grants (r_id run) [])
     (andthen (close_interactions (r_id run) ''run_terminal'')
     (andthen (close_operations (r_id run))
     (andthen (sch_terminal s updated)
     (notify_parent run status updated))))))"

definition state_event :: "run_status \<Rightarrow> string" where
  "state_event status =
     (if terminal status then ''run.'' @ status_name status
      else if status = running then ''run.started''
      else if status = queued then ''run.queued''
      else ''run.state_changed'')"

definition transition ::
  "scheduler \<Rightarrow> run_row \<Rightarrow> run_status \<Rightarrow> execution_context option \<Rightarrow> string option \<Rightarrow>
   run_patch list \<Rightarrow> run_row store" where
  "transition s run status ctx reason extra =
     andthen (raise_if (\<not> allowed (r_status run) status) (HErr ''INVALID_TRANSITION'' 409))
     (transaction
       (bnd (update_run (r_id run) (r_revision run) (P_status status # extra) ctx) (\<lambda>updated.
        andthen (whenever (terminal status) (terminal_cleanup s run status updated))
        (andthen (event_state updated (state_event status) reason)
        (ret updated)))))"

section \<open>Claiming\<close>

definition in_maintenance :: "bool store" where
  "in_maintenance =
     bnd (store_get ''system'' ''maintenance'') (\<lambda>m. ret (jtruthy (jget ''enabled'' (or_empty m))))"

definition sched_context :: "run_row \<Rightarrow> execution_context store" where
  "sched_context run =
     bnd (store_branch (r_branch run)) (\<lambda>branch.
     ret \<lparr>c_owner = r_owner run, c_workspace = r_workspace run, c_session = r_session run,
          c_branch = r_branch run, c_run = r_id run, c_root = r_root run, c_parent = r_parent run,
          c_attempt = (case r_attempt run of None \<Rightarrow> '''' | Some a \<Rightarrow> a), c_fence = r_fence run,
          c_thread = b_thread branch, c_input_revision = r_input_revision run,
          c_snapshot = r_snapshot run, c_deadline = r_deadline run, c_trace = r_root run\<rparr>)"

definition is_child :: "run_row \<Rightarrow> bool" where
  "is_child r \<longleftrightarrow> r_parent r \<noteq> None \<and> r_parent r \<noteq> Some ''''"

fun claim_loop ::
  "scheduler \<Rightarrow> string \<Rightarrow> int \<Rightarrow> rat \<Rightarrow> run_row list \<Rightarrow> run_row list \<Rightarrow>
   execution_context option store" where
  "claim_loop s worker pid started active [] = ret None"
| "claim_loop s worker pid started active (run # rest) =
     bnd (store_branch (r_branch run)) (\<lambda>branch.
     if b_active branch \<noteq> None \<and> b_active branch \<noteq> Some (r_id run)
     then claim_loop s worker pid started active rest
     else if r_cancel run
     then bnd (transition s run cancelled None (Some ''cancelled'') []) (\<lambda>_.
       claim_loop s worker pid started active rest)
     else if is_child run \<and>
       sch_child_slots s \<le> length (filter (\<lambda>r. r_root r = r_root run \<and> is_child r) active)
     then claim_loop s worker pid started active rest
     else
       andthen (set_branch_owner (b_id branch) (b_active branch) (Some (r_id run)))
       (bnd new_id (\<lambda>attempt_id.
        bnd (after_ms (sch_lease s)) (\<lambda>lease.
        andthen (add_attempt attempt_id (r_id run) worker pid started lease (r_fence run + 1))
        (bnd (transition s run running None None
          [P_attempt (Some attempt_id), P_fence (r_fence run + 1)]) (\<lambda>updated.
        bnd (sched_context updated) (\<lambda>ctx. ret (Some ctx))))))))"

definition claim :: "scheduler \<Rightarrow> string \<Rightarrow> int \<Rightarrow> rat \<Rightarrow> execution_context option store" where
  "claim s worker pid started =
     bnd in_maintenance (\<lambda>paused.
     if paused then ret None
     else transaction
       (bnd (store_runs None [running, cancelling] None) (\<lambda>active.
        if sch_slots s \<le> length active then ret None
        else
          bnd (store_runs None [queued] None) (\<lambda>waiting.
          claim_loop s worker pid started active waiting))))"

definition sched_heartbeat :: "scheduler \<Rightarrow> execution_context \<Rightarrow> unit store" where
  "sched_heartbeat s ctx = bnd (after_ms (sch_lease s)) (\<lambda>expiry. store_heartbeat ctx expiry)"

definition boundary :: "execution_context \<Rightarrow> unit store" where
  "boundary ctx =
     andthen (assert_fence ctx False)
     (bnd utc_now (\<lambda>now.
      raise_if (case c_deadline ctx of None \<Rightarrow> False | Some d \<Rightarrow> d \<le> now)
        (HErr ''DEADLINE_EXCEEDED'' 409)))"

section \<open>Waking\<close>

text \<open>
  Resolutions by interrupt: the resolved interactions, overridden by the resolved waits, overridden
  by the values recorded for reviews. An answer is the stored resolution, or the recorded value.
\<close>

datatype answer = Resolved resolution | Reviewed json

definition entry_of :: "string option \<Rightarrow> resolution option \<Rightarrow> (string \<times> answer) list" where
  "entry_of interrupt res =
     (case (interrupt, res) of
        (Some i, Some r) \<Rightarrow> if i = '''' then [] else [(i, Resolved r)]
      | _ \<Rightarrow> [])"

definition review_entries :: "json option \<Rightarrow> (string \<times> answer) list" where
  "review_entries rec =
     (case jget_or ''values'' (JObj []) (or_empty rec) of
        JObj kvs \<Rightarrow> map (\<lambda>(k, v). (k, Reviewed v)) kvs
      | _ \<Rightarrow> [])"

definition resolutions :: "string \<Rightarrow> (string \<times> answer) list store" where
  "resolutions run_id =
     bnd (store_interactions run_id) (\<lambda>is.
     bnd (store_waits (Some run_id)) (\<lambda>ws.
     bnd (store_get ''review_resolutions'' run_id) (\<lambda>rec.
     ret (review_entries rec @
          rev (concat (map (\<lambda>x. entry_of (wt_interrupt x) (wt_resolution x)) ws)) @
          rev (concat (map (\<lambda>i. entry_of (i_interrupt i) (i_resolution i)) is))))))"

definition wake :: "scheduler \<Rightarrow> string \<Rightarrow> unit store" where
  "wake s run_id =
     bnd (store_run run_id None) (\<lambda>run.
     if r_status run \<notin> {waiting_user, waiting_children} \<or> r_cancel run then ret ()
     else
       bnd (resolutions run_id) (\<lambda>ready.
       whenever (set (r_required run) \<subseteq> fst ` set ready)
         (bnd (transition s run queued None (Some ''resumable'') []) (\<lambda>_. ret ()))))"

section \<open>Waits on children\<close>

definition prepare_wait :: "execution_context \<Rightarrow> string \<Rightarrow> string list \<Rightarrow> string \<Rightarrow> wait_row store" where
  "prepare_wait ctx key children mode =
     bnd (store_children (c_run ctx)) (\<lambda>known.
     andthen (raise_if (\<not> set children \<subseteq> r_id ` set known \<or> children = [] \<or>
         mode \<notin> {''all'', ''any''}) (HErr ''WAIT_SCOPE'' 422))
     (add_wait (c_run ctx) key children mode))"

definition report_of :: "run_row \<Rightarrow> child_report" where
  "report_of c = \<lparr>cr_run = r_id c, cr_status = r_status c, cr_result = r_result c, cr_error = r_error c\<rparr>"

definition wait_ready :: "string \<Rightarrow> run_row list \<Rightarrow> bool" where
  "wait_ready mode children =
     (if mode = ''all'' then list_all (\<lambda>c. terminal (r_status c)) children
      else list_ex (\<lambda>c. terminal (r_status c)) children)"

definition refresh_wait :: "scheduler \<Rightarrow> wait_row \<Rightarrow> unit store" where
  "refresh_wait s x =
     (if wt_checkpoint x = None \<or> wt_resolution x \<noteq> None then ret ()
      else
        bnd (collect (wt_children x) (\<lambda>c. store_run c None)) (\<lambda>children.
        whenever (wait_ready (wt_mode x) children)
          (andthen (update_wait (wt_id x) (wt_revision x) (wt_interrupt x) (wt_checkpoint x)
             (Some \<lparr>rs_interrupt = wt_interrupt x, rs_outcome = answered,
                    rs_reason = ''children_ready'', rs_response = None,
                    rs_children = map report_of children\<rparr>))
          (wake s (wt_parent x)))))"

definition refresh_waits_of :: "scheduler \<Rightarrow> string option \<Rightarrow> unit store" where
  "refresh_waits_of s parent = bnd (store_waits parent) (\<lambda>ws. foreach ws (refresh_wait s))"

definition refresh_waits :: "scheduler \<Rightarrow> unit store" where
  "refresh_waits s =
     transaction
       (andthen (refresh_waits_of s None)
       (bnd (pending_outbox ''children'') (\<lambda>items.
        foreach items (\<lambda>item.
          andthen (refresh_waits_of s (Some (jstr (jget ''parent_run_id'' (ob_payload item)))))
          (deliver_outbox (ob_id item))))))"

section \<open>Settling\<close>

definition accepted_unresolved :: "operation_row \<Rightarrow> bool" where
  "accepted_unresolved o' \<longleftrightarrow> jtruthy (jget ''unresolved_accepted'' (op_metadata o'))"

definition unresolved_ops :: "string \<Rightarrow> operation_row list store" where
  "unresolved_ops run_id =
     bnd (store_operations run_id) (\<lambda>ops.
     ret (filter (\<lambda>o'. op_state o' \<in> {op_running, op_unknown} \<and> \<not> accepted_unresolved o') ops))"

definition children_settled :: "string \<Rightarrow> bool store" where
  "children_settled run_id =
     bnd (store_children run_id) (\<lambda>cs. ret (list_all (\<lambda>c. terminal (r_status c)) cs))"

definition required_event :: "interaction_row \<Rightarrow> json" where
  "required_event i = JObj
     [(''interaction_id'', JStr (i_id i)), (''revision'', JInt (i_revision i)),
      (''kind'', JStr (i_kind i)), (''prompt'', JStr (ip_prompt (i_payload i))),
      (''response_schema'', ip_schema (i_payload i)),
      (''binding_ref'', jopt binding_json (ip_binding (i_payload i))),
      (''expires_at'', jopt (\<lambda>t. JInt (int t)) (i_expires i))]"

definition bind_interrupt :: "execution_context \<Rightarrow> run_row \<Rightarrow> checkpoint_ref \<Rightarrow> interrupt_ref \<Rightarrow> unit store" where
  "bind_interrupt ctx run checkpoint ref =
     (case ir_kind ref of
        user_interrupt \<Rightarrow>
          bnd (store_interaction (case ir_interaction ref of None \<Rightarrow> '''' | Some i \<Rightarrow> i)) (\<lambda>i.
          andthen (raise_if (i_run i \<noteq> r_id run \<or> i_input_revision i \<noteq> c_input_revision ctx)
            (HErr ''INTERRUPT_MISMATCH'' 409))
          (whenever (i_status i = pending_binding)
            (bnd (update_interaction (i_id i) (i_revision i)
              [I_interrupt (Some (ir_id ref)), I_checkpoint (Some checkpoint),
               I_status interaction_open]) (\<lambda>bound.
            emit (r_id run) ''interaction.required'' (required_event bound)))))
      | children_interrupt \<Rightarrow>
          bnd (store_wait (case ir_wait ref of None \<Rightarrow> '''' | Some i \<Rightarrow> i)) (\<lambda>x.
          update_wait (wt_id x) (wt_revision x) (Some (ir_id ref)) (Some checkpoint) (wt_resolution x))
      | review_interrupt \<Rightarrow>
          (case ir_operation ref of
             None \<Rightarrow> ret ()
           | Some i \<Rightarrow> whenever (i \<noteq> '''')
               (bnd (store_operation i) (\<lambda>o'.
                whenever (op_state o' = op_running)
                  (bnd (update_operation (op_id o') (op_revision o') [O_state op_unknown] None)
                    (\<lambda>_. ret ()))))))"

definition waiting_status :: "interrupt_ref list \<Rightarrow> run_status" where
  "waiting_status refs =
     (if review_interrupt \<in> ir_kind ` set refs then needs_review
      else if user_interrupt \<in> ir_kind ` set refs then waiting_user
      else waiting_children)"

definition stopped_error :: "error_envelope" where
  "stopped_error = \<lparr>ee_code = ''RUNTIME_STOPPED'', ee_retryable = False\<rparr>"

definition settle_cancelling :: "scheduler \<Rightarrow> execution_context \<Rightarrow> run_row \<Rightarrow> operation_row list \<Rightarrow> run_row store" where
  "settle_cancelling s ctx run unresolved =
     bnd (if unresolved \<noteq> [] then ret run
          else bnd (children_settled (r_id run)) (\<lambda>done.
            if done then transition s run cancelled (Some ctx) (Some ''executor left'') []
            else ret run)) (\<lambda>run'.
     andthen (end_attempt (c_attempt ctx) ''cancel'') (ret run'))"

definition settle_waiting :: "scheduler \<Rightarrow> execution_context \<Rightarrow> runtime_outcome \<Rightarrow> run_row \<Rightarrow> run_row store" where
  "settle_waiting s ctx outcome run =
     bnd (need (HErr ''CHECKPOINT_REQUIRED'' 409) (ro_checkpoint outcome)) (\<lambda>checkpoint.
     andthen (foreach (ro_interrupts outcome) (bind_interrupt ctx run checkpoint))
     (bnd (transition s run (waiting_status (ro_interrupts outcome)) (Some ctx) None
        [P_required (map ir_id (ro_interrupts outcome))]) (\<lambda>_.
      andthen (end_attempt (c_attempt ctx) ''waiting'')
      (andthen (refresh_waits_of s (Some (r_id run)))
      (andthen (wake s (r_id run))
      (store_run (r_id run) None))))))"

definition settle_final :: "scheduler \<Rightarrow> execution_context \<Rightarrow> runtime_outcome \<Rightarrow> run_row \<Rightarrow> run_row store" where
  "settle_final s ctx outcome run =
     bnd (need (HErr ''FINAL_NOT_DURABLE'' 409)
       (if ro_checkpoint outcome = None then None else ro_result outcome)) (\<lambda>result.
     andthen (sch_artifact s (ar_id result) (c_owner ctx))
     (bnd (children_settled (c_run ctx)) (\<lambda>done.
      andthen (raise_if (\<not> done) (HErr ''CHILDREN_UNSETTLED'' 409))
      (transition s run completed (Some ctx) None [P_result (Some result)]))))"

definition settle_failed :: "scheduler \<Rightarrow> execution_context \<Rightarrow> runtime_outcome \<Rightarrow> run_row \<Rightarrow> run_row store" where
  "settle_failed s ctx outcome run =
     bnd (case ro_error outcome of Some e \<Rightarrow> ret e | None \<Rightarrow> bnd new_id (\<lambda>_. ret stopped_error)) (\<lambda>e.
     transition s run failed (Some ctx) None [P_error (Some e)])"

definition sched_settle :: "scheduler \<Rightarrow> execution_context \<Rightarrow> runtime_outcome \<Rightarrow> run_row store" where
  "sched_settle s ctx outcome =
     andthen (raise_if (ro_run outcome \<noteq> c_run ctx \<or> ro_input_revision outcome \<noteq> c_input_revision ctx)
       (HErr ''OUTCOME_MISMATCH'' 409))
     (transaction
       (andthen (assert_fence ctx True)
       (bnd (store_run (c_run ctx) None) (\<lambda>run0.
        bnd (case ro_checkpoint outcome of
               None \<Rightarrow> ret run0
             | Some c \<Rightarrow> update_run (r_id run0) (r_revision run0) [P_checkpoint (Some c)] (Some ctx)) (\<lambda>run.
        bnd (unresolved_ops (c_run ctx)) (\<lambda>unresolved.
        if r_status run = cancelling then settle_cancelling s ctx run unresolved
        else if ro_kind outcome = waiting_outcome then settle_waiting s ctx outcome run
        else
          bnd (if unresolved \<noteq> []
               then transition s run needs_review (Some ctx) (Some ''unknown operations'') []
               else if ro_kind outcome = final_outcome then settle_final s ctx outcome run
               else settle_failed s ctx outcome run) (\<lambda>run'.
          andthen (end_attempt (c_attempt ctx) (outcome_name (ro_kind outcome))) (ret run'))))))))"

end
