(* ===== verification/Scheduler_Calls.thy ===== *)
theory Scheduler_Calls
  imports Scheduler
begin

text \<open>
  The calls of the scheduler that come from a client or a running agent
  (\<^verbatim>\<open>harness/scheduler/service.py\<close>): submitting a task, answering and expiring interactions,
  cancelling, delegating, steering and branching.
\<close>

section \<open>Submitting\<close>

definition text_of_parts :: "json list \<Rightarrow> string" where
  "text_of_parts parts =
     (let texts = map (\<lambda>p. jstr (jget_or ''text'' (JStr '''') p))
                    (filter (\<lambda>p. jget ''type'' p = JStr ''text'') parts)
      in concat (case texts of [] \<Rightarrow> [] | t # ts \<Rightarrow> t # map (\<lambda>u. CHR 0x0A # u) ts))"

definition artifact_of_json :: "json \<Rightarrow> artifact_ref" where
  "artifact_of_json j =
     \<lparr>ar_id = jstr (jget ''artifact_id'' j), ar_hash = jstr (jget ''content_hash'' j),
      ar_mime = jstr (jget ''mime_type'' j), ar_size = jint (jget ''size_bytes'' j),
      ar_owner = jstr (jget ''owner_id'' j), ar_workspace = jstr (jget ''workspace_id'' j),
      ar_provenance = jstr (jget ''provenance_ref'' j)\<rparr>"

definition artifact_of_row :: "artifact_row \<Rightarrow> artifact_ref" where
  "artifact_of_row a =
     \<lparr>ar_id = af_id a, ar_hash = af_hash a, ar_mime = af_mime a, ar_size = af_size a,
      ar_owner = af_owner a, ar_workspace = af_workspace a, ar_provenance = af_provenance a\<rparr>"

definition ref_id :: "json \<Rightarrow> string" where
  "ref_id ref = jstr (jget ''artifact_id'' ref)"

text \<open>Attachments that no part shows become parts of their own, each once.\<close>

fun add_parts :: "json list \<Rightarrow> string list \<Rightarrow> json list \<Rightarrow> json list" where
  "add_parts parts present [] = parts"
| "add_parts parts present (ref # refs) =
     (if ref_id ref \<in> set present then add_parts parts present refs
      else add_parts
        (parts @ [JObj [(''type'', JStr (if starts_with ''image/'' (jstr (jget ''mime_type'' ref))
             then ''image'' else ''file_reference'')), (''artifact_ref'', ref)]])
        (ref_id ref # present) refs)"

text \<open>A dictionary by id: the first position, the last value.\<close>

fun dedupe_refs :: "json list \<Rightarrow> (string \<times> json) list \<Rightarrow> json list" where
  "dedupe_refs [] acc = map snd acc"
| "dedupe_refs (ref # refs) acc = dedupe_refs refs (AList.update (ref_id ref) ref acc)"

definition is_image :: "json \<Rightarrow> bool" where
  "is_image p \<longleftrightarrow> jget ''type'' p = JStr ''image''"

definition profile_supports :: "json \<Rightarrow> string \<Rightarrow> bool" where
  "profile_supports profile name \<longleftrightarrow>
     jget ''status'' (jget name (jget ''capabilities'' profile)) = JStr ''verified''"

definition check_attachment :: "scheduler \<Rightarrow> string \<Rightarrow> session_row \<Rightarrow> json \<Rightarrow> unit store" where
  "check_attachment s owner session ref =
     bnd (store_artifact (ref_id ref) (Some owner)) (\<lambda>row.
     andthen (raise_if (af_workspace row \<noteq> se_workspace session \<or>
         artifact_of_row row \<noteq> artifact_of_json ref) (HErr ''ARTIFACT_SCOPE'' 403))
     (sch_artifact s (ref_id ref) owner))"

definition confirm_plan :: "string \<Rightarrow> string \<Rightarrow> json \<Rightarrow> json \<Rightarrow> json store" where
  "confirm_plan owner branch_id request snapshot =
     (let confirmation = jget ''plan_confirmation'' request in
      if \<not> jtruthy confirmation then ret snapshot
      else
        bnd (store_run (jstr (jget_or ''plan_id'' (JStr '''') confirmation)) (Some owner)) (\<lambda>source.
        bnd (store_get ''plans'' (r_id source)) (\<lambda>plan.
        andthen (raise_if
          (r_branch source \<noteq> branch_id \<or> r_status source \<noteq> completed \<or>
           \<not> jtruthy (or_empty plan) \<or> jget ''mode'' snapshot \<noteq> JStr ''react'' \<or>
           jget ''confirmed'' confirmation \<noteq> JBool True \<or>
           jget ''revision'' confirmation \<noteq> jget ''revision'' (or_empty plan) \<or>
           jget ''content_hash'' confirmation \<noteq> jget ''content_hash'' (or_empty plan))
          (HErr ''PLAN_CONFIRMATION_STALE'' 409))
        (ret (jset ''plan_confirmation'' confirmation snapshot)))))"

record submitted =
  sb_run :: string
  sb_branch :: string
  sb_branch_revision :: int
  sb_status :: run_status
  sb_revision :: int

definition blank_run :: "run_row" where
  "blank_run =
     \<lparr>r_id = '''', r_owner = '''', r_workspace = '''', r_session = '''', r_branch = '''', r_root = '''',
      r_parent = None, r_status = queued, r_revision = 1, r_input_revision = 1, r_snapshot = '''',
      r_input = JNull, r_checkpoint = None, r_result = None, r_error = None, r_deadline = None,
      r_created = 0, r_updated = 0, r_next_seq = 1, r_fence = 0, r_attempt = None, r_cancel = False,
      r_required = [], r_depth = 0\<rparr>"

definition create_root_run ::
  "scheduler \<Rightarrow> string \<Rightarrow> session_row \<Rightarrow> string \<Rightarrow> json \<Rightarrow> json \<Rightarrow> json list \<Rightarrow> json list \<Rightarrow>
   string \<Rightarrow> string \<Rightarrow> timestamp \<Rightarrow> submitted store" where
  "create_root_run s owner session branch_id request snapshot0 parts attachments rid sid now =
     transaction
       (bnd (confirm_plan owner branch_id request snapshot0) (\<lambda>snapshot.
        bnd (ret (budget_policy_of
          (jor (jget ''budget'' snapshot0) (jor (jget ''budget'' (jget ''agent_spec'' snapshot0)) (JObj []))))) (\<lambda>budget.
        bnd (advance_branch branch_id (jint (jget ''expected_branch_revision'' request))) (\<lambda>revision.
        andthen (store_put ''snapshots'' sid (jset ''config_snapshot_id'' (JStr sid) snapshot))
        (bnd (after_ms (bp_wall_seconds budget * 1000)) (\<lambda>deadline.
         bnd (insert_run (blank_run\<lparr>r_id := rid, r_owner := owner, r_workspace := se_workspace session,
            r_session := se_id session, r_branch := branch_id, r_root := rid, r_parent := None,
            r_status := queued, r_revision := 1, r_input_revision := revision, r_snapshot := sid,
            r_input := JObj [(''text'', JStr (text_of_parts (jitems (jget ''content_parts'' request)))),
              (''content_parts'', JList parts), (''attachment_refs'', JList attachments)],
            r_deadline := Some deadline, r_created := now, r_updated := now, r_depth := 0\<rparr>)) (\<lambda>run.
         andthen (add_account rid ''root'' rid (budget_limits budget))
         (andthen (sch_created s run snapshot)
         (bnd new_id (\<lambda>message_id.
          andthen (add_message rid message_id ''user'' (JObj
            [(''message_id'', JStr message_id), (''role'', JStr ''user''),
             (''content_parts'', JList parts)]))
          (andthen (foreach attachments (\<lambda>ref. reference_artifact (ref_id ref) ''run'' rid))
          (andthen (event_state run ''run.queued'' None)
          (ret \<lparr>sb_run = rid, sb_branch = branch_id, sb_branch_revision = revision,
                sb_status = r_status run, sb_revision = r_revision run\<rparr>)))))))))))))"

definition submit :: "scheduler \<Rightarrow> string \<Rightarrow> string \<Rightarrow> json \<Rightarrow> json option \<Rightarrow> submitted store" where
  "submit s owner session_id request given =
     bnd (store_session session_id (Some owner)) (\<lambda>session.
     bnd in_maintenance (\<lambda>paused.
     andthen (raise_if paused (HErr ''MAINTENANCE'' 503))
     (bnd (ret (jstr (jget_or ''branch_id'' (JStr (se_branch session)) request))) (\<lambda>branch_id.
      bnd (store_branch branch_id) (\<lambda>branch.
      andthen (raise_if (b_session branch \<noteq> session_id) (HErr ''BRANCH_SCOPE'' 404))
      (bnd (case given of
              Some snap \<Rightarrow> ret snap
            | None \<Rightarrow> (case sch_snapshot s of
                None \<Rightarrow> raise (HErr ''CONFIGURATION'' 503)
              | Some factory \<Rightarrow> factory owner session request)) (\<lambda>snapshot.
       bnd (lift (jfield ''agent_spec'' snapshot)) (\<lambda>agent.
       andthen (raise_if (jget ''agent_spec_revision'' request \<noteq> JNull \<and>
           jget ''agent_spec_revision'' request \<noteq> jget_or ''revision'' (JInt 1) agent)
         (HErr ''REVISION_CONFLICT'' 409))
       (bnd new_id (\<lambda>rid.
        bnd new_id (\<lambda>fresh.
        bnd utc_now (\<lambda>now.
        bnd (ret (jitems (jget ''content_parts'' request))) (\<lambda>given_parts.
        bnd (ret (filter jtruthy (map (jget ''artifact_ref'') given_parts))) (\<lambda>inline.
        bnd (ret (jitems (jget ''attachment_refs'' request))) (\<lambda>attached.
        bnd (ret (add_parts given_parts (map ref_id inline) attached)) (\<lambda>parts.
        andthen (foreach (inline @ attached) (check_attachment s owner session))
        (bnd (store_messages branch_id None) (\<lambda>history.
         andthen (raise_if ((list_ex is_image parts \<or>
              list_ex (\<lambda>m. list_ex is_image (jitems (jget ''content_parts'' m))) history) \<and>
             \<not> profile_supports (jget ''model_profile'' snapshot) ''vision'')
           (HErr ''VISION_UNVERIFIED'' 422))
         (andthen (foreach (filter is_image parts) (\<lambda>p. sch_image s (jget ''artifact_ref'' p) owner))
         (create_root_run s owner session branch_id request snapshot parts
            (dedupe_refs (inline @ attached) []) rid
            (jstr (jget_or ''config_snapshot_id'' (JStr fresh) snapshot)) now))))))))))))))))))))"

section \<open>Interactions\<close>

record answer_request =
  aq_revision :: int
  aq_response :: json
  aq_binding :: "approval_binding option"

record accepted_answer =
  aa_interaction :: string
  aa_run :: string
  aa_status :: run_status
  aa_revision :: int

definition respond :: "scheduler \<Rightarrow> string \<Rightarrow> string \<Rightarrow> answer_request \<Rightarrow> accepted_answer store" where
  "respond s owner interaction_id request =
     transaction
       (bnd (store_interaction interaction_id) (\<lambda>i.
        bnd (store_run (i_run i) (Some owner)) (\<lambda>run.
        bnd utc_now (\<lambda>now.
        andthen (raise_if (i_revision i \<noteq> aq_revision request) (HErr ''REVISION_CONFLICT'' 409))
        (andthen (raise_if (i_status i \<noteq> interaction_open \<or> r_status run \<noteq> waiting_user)
          (HErr ''INTERACTION_CLOSED'' 409))
        (andthen (raise_if (case i_expires i of None \<Rightarrow> False | Some t \<Rightarrow> t \<le> now)
          (HErr ''INTERACTION_EXPIRED'' 410))
        (andthen (raise_if (\<not> sch_schema s (aq_response request) (ip_schema (i_payload i)))
          (HErr ''RESPONSE_SCHEMA'' 422))
        (andthen (raise_if (i_kind i = ''approval'' \<and> aq_binding request \<noteq> ip_binding (i_payload i))
          (HErr ''BINDING_MISMATCH'' 409))
        (bnd (update_interaction interaction_id (i_revision i)
           [I_status resolved, I_resolution (Some \<lparr>rs_interrupt = i_interrupt i,
              rs_outcome = answered, rs_reason = ''user_response'',
              rs_response = Some (aq_response request), rs_children = []\<rparr>)]) (\<lambda>updated.
         andthen (emit (r_id run) ''interaction.resolved'' (interaction_event updated ''answered''))
         (andthen (wake s (r_id run))
         (bnd (store_run (r_id run) None) (\<lambda>after.
          ret \<lparr>aa_interaction = interaction_id, aa_run = r_id run, aa_status = r_status after,
               aa_revision = i_revision updated\<rparr>)))))))))))))"

definition expire_interactions :: "scheduler \<Rightarrow> unit store" where
  "expire_interactions s =
     transaction
       (bnd (store_runs None [waiting_user, waiting_children] None) (\<lambda>runs.
        foreach runs (\<lambda>run.
          andthen
            (bnd (store_interactions (r_id run)) (\<lambda>is.
             bnd utc_now (\<lambda>now.
             foreach is (\<lambda>i. whenever (i_status i = interaction_open \<and>
                 (case i_expires i of None \<Rightarrow> False | Some t \<Rightarrow> t \<le> now))
               (close_interaction (r_id run) i expired outcome_expired ''interaction_deadline''
                  ''expired'')))))
            (wake s (r_id run)))))"

section \<open>Cancelling\<close>

text \<open>
  The descendants of a run, breadth first: the rows already visited are the part of the code's list
  before its cursor, the queue is the part from the cursor on.
\<close>

fun descendants :: "nat \<Rightarrow> run_row list \<Rightarrow> run_row list store" where
  "descendants n [] = ret []"
| "descendants 0 (r # queue) = raise Diverges"
| "descendants (Suc n) (r # queue) =
     bnd (store_children (r_id r)) (\<lambda>cs.
     bnd (descendants n (queue @ cs)) (\<lambda>ds. ret (r # ds)))"

definition idle_operations :: "string \<Rightarrow> bool store" where
  "idle_operations run_id =
     bnd (store_operations run_id) (\<lambda>ops.
     ret (\<not> list_ex (\<lambda>o'. op_state o' \<in> {op_running, op_unknown}) ops))"

definition cancel_one :: "scheduler \<Rightarrow> string \<Rightarrow> run_row \<Rightarrow> unit store" where
  "cancel_one s reason row =
     whenever (\<not> terminal (r_status row))
       (bnd (update_run (r_id row) (r_revision row) [P_cancel True] None) (\<lambda>run.
        andthen (revoke_grants (r_id run) [])
        (andthen (close_interactions (r_id run) reason)
        (bnd (store_children (r_id run)) (\<lambda>cs.
         bnd (idle_operations (r_id run)) (\<lambda>idle.
         if r_status run = queued \<or> r_status run = waiting_user \<and> cs = [] \<and> idle
         then bnd (transition s run cancelled None (Some reason) []) (\<lambda>_. ret ())
         else whenever (r_status run \<noteq> cancelling)
           (bnd (transition s run cancelling None (Some reason) []) (\<lambda>_. ret ()))))))))"

definition finish_one :: "scheduler \<Rightarrow> run_row \<Rightarrow> unit store" where
  "finish_one s run =
     bnd (case r_attempt run of
            None \<Rightarrow> ret None
          | Some a \<Rightarrow> if a = '''' then ret None else store_attempt a) (\<lambda>attempt.
     if (case attempt of None \<Rightarrow> False | Some a \<Rightarrow> a_ended a = None) then ret ()
     else
       bnd (unresolved_ops (r_id run)) (\<lambda>unresolved.
       bnd (children_settled (r_id run)) (\<lambda>done.
       whenever (unresolved = [] \<and> done)
         (bnd (transition s run cancelled None (Some ''barrier met'') []) (\<lambda>_. ret ())))))"

definition finish_idle_cancellations :: "scheduler \<Rightarrow> unit store" where
  "finish_idle_cancellations s =
     transaction
       (bnd (store_runs None [cancelling] None) (\<lambda>runs. foreach (rev runs) (finish_one s)))"

text \<open>\<open>stop\<close> is what the code does to the processes of a run and its worker: effects outside the database.\<close>

definition cancel ::
  "scheduler \<Rightarrow> nat \<Rightarrow> (string \<Rightarrow> unit store) \<Rightarrow> string \<Rightarrow> string \<Rightarrow> string \<Rightarrow> run_row store" where
  "cancel s fuel stop owner run_id reason =
     bnd (transaction
       (bnd (store_run run_id (Some owner)) (\<lambda>root_run.
        bnd (descendants fuel [root_run]) (\<lambda>ds.
        andthen (foreach ds (cancel_one s reason)) (ret ds))))) (\<lambda>ds.
     andthen (foreach ds (\<lambda>r. stop (r_id r)))
     (andthen (finish_idle_cancellations s)
     (store_run run_id None)))"

section \<open>Delegating\<close>

text \<open>The label between a goal and its completion criteria, in UTF-8.\<close>

definition criteria_label :: string where
  "criteria_label = map char_of
     [10 :: nat, 229, 174, 140, 230, 136, 144, 230, 160, 135, 229, 135, 134, 239, 188, 154]"

definition with_profile :: "string \<Rightarrow> json \<Rightarrow> json \<Rightarrow> json" where
  "with_profile ref profile snapshot =
     (let agent = jget ''agent_spec'' snapshot;
          mp = jset ''profile_ref'' (JStr ref) (jget ''model_policy'' agent)
      in jset ''model_profile'' profile
           (jset ''agent_spec'' (jset ''model_policy'' mp agent) snapshot))"

definition child_snapshot :: "execution_context \<Rightarrow> string list \<Rightarrow> string \<Rightarrow> json store" where
  "child_snapshot ctx requested sid =
     bnd (store_get ''snapshots'' (c_snapshot ctx)) (\<lambda>given.
     bnd (need PyValueError given) (\<lambda>g.
     bnd (store_get ''run_model_controls'' (c_run ctx)) (\<lambda>control.
     bnd (if jtruthy (or_empty control)
          then bnd (lift (jfield ''effective_profile_ref'' (or_empty control))) (\<lambda>ref.
               bnd (store_get ''model_profiles'' (jstr ref)) (\<lambda>profile.
               ret (with_profile (jstr ref) (case profile of None \<Rightarrow> JNull | Some p \<Rightarrow> p)
                     (jset ''config_snapshot_id'' (JStr sid) g))))
          else ret (jset ''config_snapshot_id'' (JStr sid) g)) (\<lambda>snapshot.
     bnd (lift (jfield ''policy'' snapshot)) (\<lambda>p.
     ret (jset ''policy'' (jset ''capabilities'' (sorted_names requested) p) snapshot))))))"

definition delegate_new ::
  "scheduler \<Rightarrow> execution_context \<Rightarrow> string \<Rightarrow> string \<Rightarrow> json \<Rightarrow> run_row store" where
  "delegate_new s ctx dkey args_hash request =
     bnd (store_run (c_run ctx) None) (\<lambda>parent.
     bnd (store_run (c_root ctx) None) (\<lambda>root_run.
     andthen (raise_if (r_cancel root_run \<or> r_cancel parent \<or> sch_max_depth s \<le> r_depth parent)
       (HErr ''DELEGATION_LIMIT'' 409))
     (bnd (policy_effective (sch_revision s) ctx) (\<lambda>pol.
      bnd (ret (case jlookup ''capabilities'' request of
             None \<Rightarrow> names ''capabilities'' pol | Some c \<Rightarrow> jstrings c)) (\<lambda>requested.
      andthen (raise_if (\<not> set requested \<subseteq> capabilities pol) (HErr ''CHILD_PERMISSION'' 403))
      (andthen (bnd (reserve (c_root ctx) (''child:'' @ dkey) [(''children'', 1)]) (\<lambda>_. ret ()))
      (bnd new_id (\<lambda>sid.
       bnd (child_snapshot ctx requested sid) (\<lambda>snapshot.
       andthen (store_put ''snapshots'' sid snapshot)
       (bnd (add_branch (r_session parent) None None None) (\<lambda>branch.
        bnd new_id (\<lambda>rid.
        bnd utc_now (\<lambda>now.
        bnd (lift (jfield ''goal'' request)) (\<lambda>goal.
        bnd (lift (jfield ''completion_criteria'' request)) (\<lambda>criteria.
        bnd (insert_run (blank_run\<lparr>r_id := rid, r_owner := c_owner ctx,
           r_workspace := c_workspace ctx, r_session := c_session ctx, r_branch := b_id branch,
           r_root := c_root ctx, r_parent := Some (c_run ctx), r_status := queued, r_revision := 1,
           r_input_revision := 1, r_snapshot := sid,
           r_input := JObj [(''text'', JStr (jstr goal @ criteria_label @ jstr criteria)),
             (''content_parts'', JList [JObj [(''type'', JStr ''text''), (''text'', goal)]]),
             (''attachment_refs'', JList [])],
           r_deadline := r_deadline parent, r_created := now, r_updated := now,
           r_depth := r_depth parent + 1\<rparr>)) (\<lambda>child.
        andthen (sch_created s child snapshot)
        (andthen (add_dependency (c_run ctx) rid dkey args_hash)
        (andthen (bnd (settle (''child:'' @ dkey) (Some [(''children'', 1)])) (\<lambda>_. ret ()))
        (andthen (emit (c_run ctx) ''child.created'' (JObj
           [(''child_run_id'', JStr rid), (''goal_summary'', goal), (''status'', JStr ''queued''),
            (''result_ref'', JNull)]))
        (andthen (event_state child ''run.queued'' None)
        (ret child)))))))))))))))))))))"

definition delegate :: "scheduler \<Rightarrow> execution_context \<Rightarrow> operation_key \<Rightarrow> json \<Rightarrow> run_row store" where
  "delegate s ctx key request =
     (let dkey = sch_digest s (operation_key_json key); args_hash = sch_digest s request in
      transaction
        (andthen (boundary ctx)
        (bnd (store_dependency dkey) (\<lambda>saved.
         case saved of
           Some d \<Rightarrow>
             andthen (raise_if (dp_args_hash d \<noteq> args_hash) (HErr ''DELEGATION_CONFLICT'' 409))
             (store_run (dp_child d) None)
         | None \<Rightarrow> delegate_new s ctx dkey args_hash request))))"

section \<open>Steering and branching\<close>

definition steer :: "string \<Rightarrow> string \<Rightarrow> string \<Rightarrow> int \<Rightarrow> input_command_row store" where
  "steer owner run_id txt expected =
     transaction
       (bnd (store_run run_id (Some owner)) (\<lambda>run.
        andthen (raise_if (r_status run \<notin> {running, queued} \<or> r_cancel run)
          (HErr ''STEERING_UNAVAILABLE'' 409))
        (bnd (pending_input_commands run_id) (\<lambda>pending.
         bnd (ret (fold max (map ic_revision pending) (r_input_revision run))) (\<lambda>latest.
         andthen (raise_if (latest \<noteq> expected) (HErr ''REVISION_CONFLICT'' 409))
         (add_input_command run_id (latest + 1) txt))))))"

definition validate_branch_source ::
  "string \<Rightarrow> string \<Rightarrow> checkpoint_ref \<Rightarrow> int \<Rightarrow> string \<Rightarrow> branch_row store" where
  "validate_branch_source owner session_id checkpoint expected policy =
     bnd (store_session session_id (Some owner)) (\<lambda>_.
     andthen (raise_if (policy \<noteq> ''preserve_external'') (HErr ''SIDE_EFFECT_POLICY'' 422))
     (bnd (store_branches session_id) (\<lambda>bs.
      bnd (case find (\<lambda>b. b_thread b = ck_thread checkpoint) bs of
             None \<Rightarrow> raise (HErr ''REVISION_CONFLICT'' 409)
           | Some b \<Rightarrow> (if b_revision b \<noteq> expected then raise (HErr ''REVISION_CONFLICT'' 409) else ret b)) (\<lambda>source.
      bnd (store_runs (Some session_id) [] None) (\<lambda>runs.
      andthen (raise_if
        (\<not> list_ex (\<lambda>r. r_branch r = b_id source \<and> r_checkpoint r = Some checkpoint) runs \<or>
         b_active source \<noteq> None) (HErr ''CHECKPOINT_UNAVAILABLE'' 409))
      (ret source))))))"

definition create_branch ::
  "string \<Rightarrow> string \<Rightarrow> checkpoint_ref \<Rightarrow> int \<Rightarrow> string \<Rightarrow> string option \<Rightarrow> checkpoint_ref option \<Rightarrow>
   branch_row store" where
  "create_branch owner session_id checkpoint expected policy thread_key copied =
     transaction
       (bnd (validate_branch_source owner session_id checkpoint expected policy) (\<lambda>source.
        bnd (add_branch session_id (Some (b_id source))
          (Some (case copied of None \<Rightarrow> checkpoint | Some c \<Rightarrow> c)) thread_key) (\<lambda>branch.
        bnd (store_get ''context_pins'' (b_id source)) (\<lambda>pins.
        andthen (whenever (jtruthy (or_empty pins))
          (store_put ''context_pins'' (b_id branch) (jset ''revision'' (JInt 1) (or_empty pins))))
        (ret branch)))))"

end
