(* ===== verification/Scheduler_Steps.thy ===== *)
theory Scheduler_Steps
  imports Scheduler_Calls
begin

text \<open>
  The scheduler keeps to the specification of \<open>Run_Steps\<close>: every call is a sequence of steps that the
  specification allows. A call works on rows it has read; what it may rely on later is that the
  row it read is an earlier stage of the run's present row (\<open>coherent\<close>), which every step keeps.
\<close>

section \<open>Rows that were read\<close>

definition coherent :: "run_row \<Rightarrow> world \<Rightarrow> bool" where
  "coherent r w \<longleftrightarrow> (\<exists>r'. run_at w (r_id r) = Some r' \<and> row_progress r r')"

definition distinct_runs :: "world \<Rightarrow> bool" where
  "distinct_runs w \<longleftrightarrow> distinct (map r_id (t_runs w))"

text \<open>A condition on worlds that every allowed step keeps.\<close>

definition stable :: "(world \<Rightarrow> bool) \<Rightarrow> bool" where
  "stable K \<longleftrightarrow> (\<forall>w v. run_path w v \<longrightarrow> K w \<longrightarrow> K v)"

lemma coherent_active [simp]: "coherent r (w\<lparr>w_active := b\<rparr>) = coherent r w"
  by (simp add: coherent_def)

lemma coherent_read: "run_at w i = Some r \<Longrightarrow> coherent r w"
  using run_at_id [of w i r] row_progress_refl [of r] by (auto simp: coherent_def)

lemma stable_coherent: "stable (coherent r)"
  unfolding stable_def
proof (intro allI impI)
  fix w v
  assume path: "run_path w v" and "coherent r w"
  then obtain x where x: "run_at w (r_id r) = Some x" "row_progress r x"
    by (auto simp: coherent_def)
  from path_progress [OF path x(1)] obtain y where "run_at v (r_id r) = Some y" "row_progress x y"
    by blast
  with x(2) show "coherent r v" unfolding coherent_def by (blast intro: row_progress_trans)
qed

lemma stable_True: "stable (\<lambda>_. True)"
  by (simp add: stable_def)

lemma stable_conj: "stable K \<Longrightarrow> stable L \<Longrightarrow> stable (\<lambda>w. K w \<and> L w)"
  by (simp add: stable_def)

lemma stable_ball: "(\<And>x. x \<in> A \<Longrightarrow> stable (K x)) \<Longrightarrow> stable (\<lambda>w. \<forall>x\<in>A. K x w)"
  by (simp add: stable_def)

lemma step_distinct: "run_step w v \<Longrightarrow> distinct_runs w \<Longrightarrow> distinct_runs v"
proof (induction rule: run_step.cases)
  case (new_run w r v)
  then show ?case
    by (simp add: distinct_runs_def core_def run_at_def row_of_None_iff)
qed (auto simp: distinct_runs_def core_def put_run_def put_branch_def distinct_update_rows)

lemma stable_distinct: "stable distinct_runs"
proof -
  have "distinct_runs w \<longrightarrow> distinct_runs v" if "run_path w v" for w v
    using that unfolding run_path_def by (induction rule: rtranclp_induct) (auto dest: step_distinct)
  then show ?thesis by (simp add: stable_def)
qed

lemma terminal_stays:
  assumes "row_progress r r'" and "terminal (r_status r)"
  shows "r_status r' = r_status r"
proof -
  from assms(1) have "allowed\<^sup>*\<^sup>* (r_status r) (r_status r')" by (simp add: row_progress_def)
  then show ?thesis
    by (cases rule: converse_rtranclpE) (use assms(2) terminal_final in auto)
qed

lemmas stable_rules = stable_conj stable_ball stable_coherent stable_distinct stable_True

section \<open>Rules\<close>

lemma keeps_stable:
  "keeps run_path m \<Longrightarrow> stable K \<Longrightarrow> tri run_path K m (\<lambda>_. K)"
  by (auto simp: tri_def stable_def)

lemma keeps_any: "keeps run_path m \<Longrightarrow> tri run_path K m (\<lambda>_ _. True)"
  by (auto simp: tri_def)

lemma tri_step:
  assumes "keeps run_path m" "stable K" "\<And>x. tri run_path K (f x) Q"
  shows "tri run_path K (bnd m f) Q"
  by (rule path.tri_bnd [OF keeps_stable [OF assms(1,2)] assms(3)])

lemma tri_then:
  assumes "keeps run_path m" "stable K" "tri run_path K k Q"
  shows "tri run_path K (andthen m k) Q"
  by (rule path.tri_andthen [OF keeps_stable [OF assms(1,2)] assms(3)])

text \<open>After a guard, its condition may be used.\<close>

lemma tri_guard:
  assumes "\<not> b \<Longrightarrow> tri run_path K k Q"
  shows "tri run_path K (andthen (raise_if b e) k) Q"
  using assms by (cases b) (simp_all add: tri_def andthen_def bnd_def)

lemma tri_if: "(b \<Longrightarrow> tri run_path K m Q) \<Longrightarrow> (\<not> b \<Longrightarrow> tri run_path K k Q) \<Longrightarrow>
  tri run_path K (if b then m else k) Q"
  by simp

lemma tri_ret_any: "(\<And>w. K w \<Longrightarrow> Q x w) \<Longrightarrow> tri run_path K (ret x) Q"
  by (simp add: tri_def)

lemma tri_done: "tri run_path K (ret x) (\<lambda>_ _. True)"
  by (simp add: tri_def)

lemma tri_store_run:
  assumes "\<And>r. r_id r = i \<Longrightarrow> tri run_path (\<lambda>w. coherent r w \<and> K w) (f r) Q"
  shows "tri run_path K (bnd (store_run i own) f) Q"
proof (rule path.tri_bnd)
  show "tri run_path K (store_run i own) (\<lambda>r w. r_id r = i \<and> coherent r w \<and> K w)"
  proof (rule triI)
    fix w r v
    assume K: "K w" and run: "store_run i own w = (r, v)"
    show "run_path w v \<and> (\<forall>x. r = Inr x \<longrightarrow> r_id x = i \<and> coherent x v \<and> K v)"
    proof (cases r)
      case (Inl e)
      with run store_run_Inl [of i own w e v] show ?thesis by simp
    next
      case (Inr x)
      with run have "v = w" "run_at w i = Some x" by (auto simp: store_run_Inr)
      with K Inr coherent_read run_at_id show ?thesis by auto
    qed
  qed
  show "tri run_path (\<lambda>w. r_id r = i \<and> coherent r w \<and> K w) (f r) Q" for r
    using assms [of r] by (cases "r_id r = i") (auto simp: tri_def)
qed

lemma tri_transaction_stable:
  assumes "tri run_path K m (\<lambda>x w. Q x w)" "stable K" "\<And>x. stable (Q x)"
  shows "tri run_path K (transaction m) Q"
proof (rule path.tri_transaction [OF assms(1)])
  show "K (w\<lparr>w_active := b\<rparr>)" if "K w" for w b
    using assms(2) that path.active_free unfolding stable_def by blast
  show "Q x (w\<lparr>w_active := b\<rparr>)" if "Q x w" for x w b
    using assms(3) [of x] that path.active_free unfolding stable_def by blast
qed

lemma tri_foreach_stable:
  "(\<And>x. x \<in> set xs \<Longrightarrow> tri run_path K (f x) (\<lambda>_ _. True)) \<Longrightarrow> stable K \<Longrightarrow>
   tri run_path K (foreach xs f) (\<lambda>_ _. True)"
proof (induction xs)
  case Nil
  then show ?case by (simp add: tri_def)
next
  case (Cons x xs)
  have "tri run_path K (f x) (\<lambda>_. K)"
    using Cons.prems(1) [of x] Cons.prems(2) by (auto simp: tri_def stable_def)
  with Cons show ?case by (auto intro!: path.tri_andthen)
qed

lemma tri_weaken: "tri run_path K m Q \<Longrightarrow> (\<And>w. L w \<Longrightarrow> K w) \<Longrightarrow> tri run_path L m (\<lambda>_ _. True)"
  by (auto simp: tri_def)

text \<open>Forgetting what an action returned.\<close>

lemma tri_ignore: "tri run_path K m Q \<Longrightarrow> tri run_path K (bnd m (\<lambda>_. ret ())) (\<lambda>_ _. True)"
  by (rule path.tri_bnd) (auto simp: tri_def)

section \<open>Writes on a row that was read\<close>

lemma tri_update_run:
  assumes quiet: "list_all quiet_patch ps"
  shows "tri run_path K (update_run i n ps ctx) (\<lambda>u w. r_id u = i \<and> coherent u w)"
proof (rule triI)
  fix w r v
  assume run: "update_run i n ps ctx w = (r, v)"
  have "run_path w v" using keeps_update_run_quiet [OF quiet] run by (auto dest: triD(1))
  moreover have "r_id u = i \<and> coherent u v" if "r = Inr u" for u
    using run that by (auto elim!: update_run_Inr intro: coherent_read dest: run_at_id)
  ultimately show "run_path w v \<and> (\<forall>u. r = Inr u \<longrightarrow> r_id u = i \<and> coherent u v)" by blast
qed

text \<open>At the revision that was read, the row is what was read, up to the event counter.\<close>

lemma coherent_same:
  assumes "coherent r w" and "run_at w (r_id r) = Some r'" and "r_revision r' = r_revision r"
  shows "r_status r' = r_status r" "r_fence r' = r_fence r" "r_branch r' = r_branch r"
    "r_cancel r' = r_cancel r" "r_parent r' = r_parent r" "r_required r' = r_required r"
    "r_attempt r' = r_attempt r"
proof -
  from assms have "r'\<lparr>r_next_seq := 0\<rparr> = r\<lparr>r_next_seq := 0\<rparr>"
    by (auto simp: coherent_def row_progress_def)
  then show "r_status r' = r_status r" "r_fence r' = r_fence r" "r_branch r' = r_branch r"
    "r_cancel r' = r_cancel r" "r_parent r' = r_parent r" "r_required r' = r_required r"
    "r_attempt r' = r_attempt r"
    by (cases r; cases r'; simp)+
qed

lemma tri_move:
  assumes al: "allowed (r_status run) status" and nr: "status \<noteq> running" and quiet: "list_all quiet_patch ps"
  shows "tri run_path (coherent run) (update_run (r_id run) (r_revision run) (P_status status # ps) ctx)
    (\<lambda>u w. r_id u = r_id run \<and> r_status u = status \<and> coherent u w)"
proof (rule triI)
  fix w r v
  assume coh: "coherent run w"
    and upd: "update_run (r_id run) (r_revision run) (P_status status # ps) ctx w = (r, v)"
  show "run_path w v \<and> (\<forall>u. r = Inr u \<longrightarrow> r_id u = r_id run \<and> r_status u = status \<and> coherent u v)"
  proof (cases r)
    case (Inl e)
    with upd show ?thesis by (auto dest: update_run_Inl)
  next
    case (Inr u)
    with upd obtain x where x: "run_at w (r_id run) = Some x" "r_revision x = r_revision run"
      "u = patched (P_status status # ps) (w_now w) x"
      "v = put_run (r_id run) (patched (P_status status # ps) (w_now w)) w" "run_at v (r_id run) = Some u"
      by (auto elim: update_run_Inr)
    from coherent_same(1) [OF coh x(1,2)] al have "allowed (r_status x) status" by simp
    with x nr quiet have "run_step w v" by (auto intro: run_step.move)
    moreover have "r_id u = r_id run" using x(5) by (rule run_at_id)
    moreover have "r_status u = status" unfolding x(3) using quiet by simp
    moreover have "coherent u v" using x(5) by (rule coherent_read)
    ultimately show ?thesis using Inr by (auto intro: run_path_step)
  qed
qed

definition owns :: "run_row \<Rightarrow> world \<Rightarrow> bool" where
  "owns r w \<longleftrightarrow> (\<exists>b. branch_at w (r_branch r) = Some b \<and> b_active b = Some (r_id r))"

lemma owns_active [simp]: "owns r (w\<lparr>w_active := b\<rparr>) = owns r w"
  by (simp add: owns_def)

lemma tri_start:
  assumes "r_status run = queued"
  shows "tri run_path (\<lambda>w. coherent run w \<and> owns run w)
    (update_run (r_id run) (r_revision run)
      [P_status running, P_attempt (Some a), P_fence (r_fence run + 1)] ctx)
    (\<lambda>u w. r_id u = r_id run \<and> r_status u = running \<and> coherent u w)"
proof (rule triI)
  fix w r v
  assume pre: "coherent run w \<and> owns run w"
    and upd: "update_run (r_id run) (r_revision run)
      [P_status running, P_attempt (Some a), P_fence (r_fence run + 1)] ctx w = (r, v)"
  show "run_path w v \<and> (\<forall>u. r = Inr u \<longrightarrow> r_id u = r_id run \<and> r_status u = running \<and> coherent u v)"
  proof (cases r)
    case (Inl e)
    with upd show ?thesis by (auto dest: update_run_Inl)
  next
    case (Inr u)
    with upd obtain x where x: "run_at w (r_id run) = Some x" "r_revision x = r_revision run"
      "u = patched [P_status running, P_attempt (Some a), P_fence (r_fence run + 1)] (w_now w) x"
      "v = put_run (r_id run)
        (patched [P_status running, P_attempt (Some a), P_fence (r_fence run + 1)] (w_now w)) w"
      "run_at v (r_id run) = Some u"
      by (auto elim: update_run_Inr)
    note same = coherent_same [OF conjunct1 [OF pre] x(1,2)]
    from pre obtain b where b: "branch_at w (r_branch x) = Some b" "b_active b = Some (r_id run)"
      by (auto simp: owns_def same)
    have "run_step w v"
      by (rule run_step.start [OF x(1) _ b, where a = a and now = "w_now w"])
        (simp_all add: x(4) same assms)
    moreover have "r_id u = r_id run" using x(5) by (rule run_at_id)
    moreover have "r_status u = running" unfolding x(3) by (simp add: patched_def)
    moreover have "coherent u v" using x(5) by (rule coherent_read)
    ultimately show ?thesis using Inr by (auto intro: run_path_step)
  qed
qed

section \<open>Transitions\<close>

text \<open>What is assumed of the services the scheduler is wired to: they leave runs, branches and events alone.\<close>

definition quiet_hooks :: "scheduler \<Rightarrow> bool" where
  "quiet_hooks s \<longleftrightarrow>
     (\<forall>r. keeps (same_view core) (sch_terminal s r)) \<and>
     (\<forall>r j. keeps (same_view core) (sch_created s r j)) \<and>
     (\<forall>i own. keeps (same_view core) (sch_artifact s i own)) \<and>
     (\<forall>j own. keeps (same_view core) (sch_image s j own)) \<and>
     (\<forall>f own se j. sch_snapshot s = Some f \<longrightarrow> keeps (same_view core) (f own se j))"

lemma hook_rules:
  assumes "quiet_hooks s"
  shows "keeps run_path (sch_terminal s r)" "keeps run_path (sch_created s r j)"
    "keeps run_path (sch_artifact s i own)" "keeps run_path (sch_image s j own)"
    "sch_snapshot s = Some f \<Longrightarrow> keeps run_path (f own se j)"
  using assms by (auto simp: quiet_hooks_def intro: keeps_path_of_core)

lemmas path_core = core_keeps [THEN keeps_path_of_core]

lemmas path_reads = path.keeps_reads path.keeps_op_reads path.keeps_ledger_reads
  path.keeps_misc_reads path.keeps_policy

lemmas path_rules = path.keeps_db path_reads path_keeps path_core

lemma keeps_emit [path_keeps]: "keeps run_path (emit i ty d)"
  unfolding emit_def by (intro path_rules)

lemma keeps_event_state [path_keeps]: "keeps run_path (event_state r ev reason)"
  unfolding event_state_def by (rule keeps_emit)

lemma keeps_closing [path_keeps]:
  "keeps run_path (close_interaction i x ist oc re wd)" "keeps run_path (close_interactions i re)"
  "keeps run_path (close_operations i)" "keeps run_path (notify_parent r st u)"
proof -
  show one: "keeps run_path (close_interaction i x ist oc re wd)" for i x ist oc re wd
    unfolding close_interaction_def by (intro path_rules keeps_emit)
  show "keeps run_path (close_interactions i re)"
    unfolding close_interactions_def by (intro path_rules one)
  show "keeps run_path (close_operations i)"
    unfolding close_operations_def by (intro path_rules keeps_emit)
  show "keeps run_path (notify_parent r st u)"
    unfolding notify_parent_def by (intro path_rules keeps_emit)
qed

lemma coherent_terminal:
  assumes "coherent u w" and "terminal (r_status u)"
  shows "\<exists>r. run_at w (r_id u) = Some r \<and> terminal (r_status r)"
  using assms terminal_stays unfolding coherent_def by force

lemma tri_terminal_cleanup:
  assumes hooks: "quiet_hooks s" and i: "r_id u = r_id run" and t: "terminal (r_status u)"
  shows "tri run_path (coherent u) (terminal_cleanup s run st u) (\<lambda>_ _. True)"
  unfolding terminal_cleanup_def
proof (rule tri_step [OF path.keeps_reads(1) stable_coherent], rule path.tri_andthen)
  fix b
  have "tri run_path (coherent u) (set_branch_owner (b_id b) (Some (r_id run)) None) (\<lambda>_ _. True)"
    by (rule tri_pre [OF keeps_release_branch]) (use coherent_terminal [OF _ t] i in auto)
  then show "tri run_path (coherent u) (whenever (b_active b = Some (r_id run))
      (set_branch_owner (b_id b) (Some (r_id run)) None)) (\<lambda>_ _. True)"
    by (cases "b_active b = Some (r_id run)") (simp_all add: tri_def)
  show "keeps run_path (andthen (revoke_grants (r_id run) [])
     (andthen (close_interactions (r_id run) ''run_terminal'')
     (andthen (close_operations (r_id run))
     (andthen (sch_terminal s u) (notify_parent run st u)))))"
    by (intro path_rules keeps_closing hook_rules [OF hooks])
qed

lemma tri_transition_from:
  assumes hooks: "quiet_hooks s"
    and upd: "allowed (r_status run) status \<Longrightarrow>
      tri run_path K (update_run (r_id run) (r_revision run) (P_status status # extra) ctx)
        (\<lambda>u w. r_id u = r_id run \<and> r_status u = status \<and> coherent u w)"
    and K: "\<And>w b. K w \<Longrightarrow> K (w\<lparr>w_active := b\<rparr>)"
  shows "tri run_path K (transition s run status ctx reason extra)
    (\<lambda>u w. r_id u = r_id run \<and> r_status u = status \<and> coherent u w)"
  unfolding transition_def
proof (rule tri_guard, rule path.tri_transaction)
  let ?Q = "\<lambda>u w. r_id u = r_id run \<and> r_status u = status \<and> coherent u w"
  assume "\<not> \<not> allowed (r_status run) status"
  then have "allowed (r_status run) status" by simp
  note U = upd [OF this]
  show "tri run_path K (bnd (update_run (r_id run) (r_revision run) (P_status status # extra) ctx) (\<lambda>u.
        andthen (whenever (terminal status) (terminal_cleanup s run status u))
        (andthen (event_state u (state_event status) reason) (ret u)))) ?Q"
  proof (rule path.tri_bnd [OF U])
    fix u
    show "tri run_path (?Q u) (andthen (whenever (terminal status) (terminal_cleanup s run status u))
        (andthen (event_state u (state_event status) reason) (ret u))) ?Q"
    proof (cases "r_id u = r_id run \<and> r_status u = status")
      case False
      then show ?thesis by (auto simp: tri_def)
    next
      case True
      then have clean: "tri run_path (coherent u) (whenever (terminal status) (terminal_cleanup s run status u))
          (\<lambda>_. coherent u)"
        using tri_terminal_cleanup [OF hooks, of u run status] stable_coherent [of u]
        by (cases "terminal status") (auto simp: tri_def stable_def)
      have "tri run_path (coherent u) (andthen (whenever (terminal status) (terminal_cleanup s run status u))
          (andthen (event_state u (state_event status) reason) (ret u))) ?Q"
        by (rule path.tri_andthen [OF clean], rule tri_then [OF keeps_event_state stable_coherent],
            rule tri_ret_any) (use True in simp)
      then show ?thesis by (rule tri_pre) simp
    qed
  qed
  show "K (w\<lparr>w_active := b\<rparr>)" if "K w" for w b using K that .
  show "?Q u (w\<lparr>w_active := b\<rparr>)" if "?Q u w" for u w b
    using that by simp
qed

lemma tri_transition:
  assumes "quiet_hooks s" and "status \<noteq> running" and "list_all quiet_patch extra"
  shows "tri run_path (coherent run) (transition s run status ctx reason extra)
    (\<lambda>u w. r_id u = r_id run \<and> r_status u = status \<and> coherent u w)"
  by (rule tri_transition_from [OF assms(1)], rule tri_move) (simp_all add: assms)

lemma tri_transition_start:
  assumes "quiet_hooks s"
  shows "tri run_path (\<lambda>w. coherent run w \<and> owns run w)
    (transition s run running ctx reason [P_attempt (Some a), P_fence (r_fence run + 1)])
    (\<lambda>u w. r_id u = r_id run \<and> r_status u = running \<and> coherent u w)"
  by (rule tri_transition_from [OF assms])
    (auto intro: tri_start dest: allowed_running)

text \<open>A transition made inside a longer call: its row is coherent, the rest of the condition is stable.\<close>

lemma tri_transition_bnd:
  assumes "quiet_hooks s" and "status \<noteq> running" and "list_all quiet_patch extra"
    and K: "\<And>w. K w \<Longrightarrow> coherent run w" and st: "stable K"
    and f: "\<And>u. r_id u = r_id run \<Longrightarrow> r_status u = status \<Longrightarrow> tri run_path (\<lambda>w. coherent u w \<and> K w) (f u) Q"
  shows "tri run_path K (bnd (transition s run status ctx reason extra) f) Q"
proof (rule path.tri_bnd)
  show "tri run_path K (transition s run status ctx reason extra)
      (\<lambda>u w. (r_id u = r_id run \<and> r_status u = status \<and> coherent u w) \<and> K w)"
  proof -
    have "tri run_path K (transition s run status ctx reason extra)
        (\<lambda>u w. r_id u = r_id run \<and> r_status u = status \<and> coherent u w)"
      by (rule tri_pre [OF tri_transition [OF assms(1-3)] K])
    from tri_frame [OF this, of K] st show ?thesis by (simp add: stable_def)
  qed
  show "tri run_path (\<lambda>w. (r_id u = r_id run \<and> r_status u = status \<and> coherent u w) \<and> K w) (f u) Q" for u
    using f [of u] by (auto simp: tri_def)
qed

lemma tri_transition_end:
  assumes "quiet_hooks s" and "status \<noteq> running" and "list_all quiet_patch extra"
    and "\<And>w. K w \<Longrightarrow> coherent run w"
  shows "tri run_path K (transition s run status ctx reason extra) (\<lambda>_ _. True)"
  by (rule tri_weaken [OF tri_transition [OF assms(1-3)] assms(4)])

section \<open>Claiming\<close>

lemma tri_store_branch:
  assumes "\<And>b. b_id b = i \<Longrightarrow> tri run_path K (f b) Q"
  shows "tri run_path K (bnd (store_branch i) f) Q"
proof (rule triI)
  fix w r v
  assume K: "K w" and run: "bnd (store_branch i) f w = (r, v)"
  show "run_path w v \<and> (\<forall>x. r = Inr x \<longrightarrow> Q x v)"
  proof (cases "branch_at w i")
    case None
    with run have "v = w" "r = Inl (HErr ''NOT_FOUND'' 404)"
      by (auto simp: store_branch_def branch_at_def bnd_def)
    then show ?thesis by simp
  next
    case (Some b)
    then have "store_branch i w = (Inr b, w)" by (simp add: store_branch_Inr)
    with run have "f b w = (r, v)" by simp
    with assms [OF branch_at_id [OF Some]] K show ?thesis by (blast dest: triD)
  qed
qed

lemma tri_acquire:
  assumes "stable K" and "b_id b = r_branch run" and "old = None \<or> old = Some (r_id run)"
  shows "tri run_path K (set_branch_owner (b_id b) old (Some (r_id run))) (\<lambda>_ w. K w \<and> owns run w)"
proof (rule triI)
  fix w r v
  assume K: "K w" and run: "set_branch_owner (b_id b) old (Some (r_id run)) w = (r, v)"
  from keeps_acquire_branch [OF assms(3), of "b_id b"] run have path: "run_path w v"
    by (auto dest: triD(1))
  moreover have "owns run v" if "r = Inr x" for x
    using run that assms(2)
    by (auto simp: set_branch_owner_eval owns_def branch_at_put_branch split: option.splits if_splits)
  ultimately show "run_path w v \<and> (\<forall>x. r = Inr x \<longrightarrow> K v \<and> owns run v)"
    using K assms(1) unfolding stable_def by blast
qed

lemma tri_core:
  assumes "keeps (same_view core) m" and "\<And>w v. core v = core w \<Longrightarrow> K w \<Longrightarrow> K v"
  shows "tri run_path K m (\<lambda>_. K)"
  using assms(1) by (auto simp: tri_def same_view_def intro: run_path_core assms(2))

lemma core_coherent: "core v = core w \<Longrightarrow> coherent r w \<Longrightarrow> coherent r v"
  by (auto simp: coherent_def dest: core_eqD)

lemma core_owns: "core v = core w \<Longrightarrow> owns r w \<Longrightarrow> owns r v"
  by (auto simp: owns_def dest: core_eqD)

lemma keeps_sched_context [path_keeps]: "keeps run_path (sched_context r)"
  unfolding sched_context_def by (intro path_rules)

lemma keeps_maintenance [path_keeps]: "keeps run_path in_maintenance"
  unfolding in_maintenance_def by (intro path_rules)

definition all_coherent :: "run_row list \<Rightarrow> world \<Rightarrow> bool" where
  "all_coherent rs w \<longleftrightarrow> (\<forall>r\<in>set rs. coherent r w)"

lemma stable_all: "stable (all_coherent rs)"
  unfolding all_coherent_def by (rule stable_ball) (rule stable_coherent)

lemma all_coherent_simps [simp]:
  "all_coherent [] w" "all_coherent (r # rs) w \<longleftrightarrow> coherent r w \<and> all_coherent rs w"
  "all_coherent (rev rs) w \<longleftrightarrow> all_coherent rs w"
  "all_coherent (rs @ rs') w \<longleftrightarrow> all_coherent rs w \<and> all_coherent rs' w"
  by (auto simp: all_coherent_def)

lemma tri_store_runs:
  assumes "\<And>rs. (\<And>r. r \<in> set rs \<Longrightarrow> sts \<noteq> [] \<Longrightarrow> r_status r \<in> set sts) \<Longrightarrow>
    tri run_path (\<lambda>w. all_coherent rs w \<and> K w) (f rs) Q"
  shows "tri run_path (\<lambda>w. distinct_runs w \<and> K w) (bnd (store_runs so sts ro) f) Q"
proof (rule triI)
  fix w r v
  assume K: "distinct_runs w \<and> K w" and run: "bnd (store_runs so sts ro) f w = (r, v)"
  obtain rs where rs1: "store_runs so sts ro w = (Inr rs, w)" by (simp add: store_runs_def)
  have rs2: "set rs \<subseteq> set (t_runs w)" and rs3: "\<And>r. r \<in> set rs \<Longrightarrow> sts \<noteq> [] \<Longrightarrow> r_status r \<in> set sts"
    using rs1 unfolding store_runs_def gets_apply prod.inject sum.inject by auto
  have "coherent x w" if "x \<in> set rs" for x
  proof -
    from that rs2 have "x \<in> set (t_runs w)" by blast
    with K have "run_at w (r_id x) = Some x"
      by (auto simp: run_at_def distinct_runs_def intro: row_of_unique)
    then show ?thesis by (rule coherent_read)
  qed
  with K have pre: "all_coherent rs w \<and> K w" by (simp add: all_coherent_def)
  from run rs1 have "f rs w = (r, v)" by simp
  with assms [OF rs3] pre show "run_path w v \<and> (\<forall>x. r = Inr x \<longrightarrow> Q x v)"
    by (blast dest: triD)
qed

lemma tri_claim_loop:
  assumes hooks: "quiet_hooks s"
  shows "tri run_path (all_coherent runs) (claim_loop s wk pid st active runs) (\<lambda>_ _. True)"
proof (induction runs)
  case Nil
  then show ?case by (simp add: tri_def)
next
  case (Cons run rest)
  let ?K = "all_coherent (run # rest)"
  have rest: "tri run_path ?K (claim_loop s wk pid st active rest) (\<lambda>_ _. True)"
    by (rule tri_weaken [OF Cons]) simp
  show ?case
    unfolding claim_loop.simps
  proof (rule tri_store_branch, intro tri_if rest)
    fix b assume b: "b_id b = r_branch run"
    show "tri run_path ?K (bnd (transition s run cancelled None (Some ''cancelled'') [])
        (\<lambda>_. claim_loop s wk pid st active rest)) (\<lambda>_ _. True)"
      by (rule tri_transition_bnd [OF hooks _ _ _ stable_all]) (simp_all, rule tri_weaken [OF Cons], simp)
    assume "\<not> (b_active b \<noteq> None \<and> b_active b \<noteq> Some (r_id run))"
    then have old: "b_active b = None \<or> b_active b = Some (r_id run)" by blast
    let ?O = "\<lambda>w. coherent run w \<and> owns run w"
    have core: "core v = core w \<Longrightarrow> ?O w \<Longrightarrow> ?O v" for v w
      using core_coherent core_owns by blast
    have run: "tri run_path ?O (bnd (transition s run running None None
          [P_attempt (Some a), P_fence (r_fence run + 1)]) (\<lambda>u.
          bnd (sched_context u) (\<lambda>ctx. ret (Some ctx)))) (\<lambda>_ _. True)" for a
      by (rule path.tri_bnd [OF tri_transition_start [OF hooks]], rule keeps_any)
        (intro path_rules keeps_sched_context)
    have acq: "tri run_path ?K (set_branch_owner (b_id b) (b_active b) (Some (r_id run))) (\<lambda>_. ?O)"
      by (rule tri_conseq [OF tri_acquire [OF stable_all [of "run # rest"] b old]]) simp_all
    show "tri run_path ?K (andthen (set_branch_owner (b_id b) (b_active b) (Some (r_id run)))
       (bnd new_id (\<lambda>attempt_id.
        bnd (after_ms (sch_lease s)) (\<lambda>lease.
        andthen (add_attempt attempt_id (r_id run) wk pid st lease (r_fence run + 1))
        (bnd (transition s run running None None
          [P_attempt (Some attempt_id), P_fence (r_fence run + 1)]) (\<lambda>updated.
        bnd (sched_context updated) (\<lambda>ctx. ret (Some ctx)))))))) (\<lambda>_ _. True)"
    proof (rule path.tri_andthen [OF acq])
      show "tri run_path ?O (bnd new_id (\<lambda>attempt_id.
        bnd (after_ms (sch_lease s)) (\<lambda>lease.
        andthen (add_attempt attempt_id (r_id run) wk pid st lease (r_fence run + 1))
        (bnd (transition s run running None None
          [P_attempt (Some attempt_id), P_fence (r_fence run + 1)]) (\<lambda>updated.
        bnd (sched_context updated) (\<lambda>ctx. ret (Some ctx))))))) (\<lambda>_ _. True)"
        by (rule path.tri_bnd [OF tri_core [OF same_core.keeps_new_id core]], assumption+,
            rule path.tri_bnd [OF tri_core [OF same_core.keeps_after_ms core]], assumption+,
            rule path.tri_andthen [OF tri_core [OF keeps_core_attempts(1) core]], assumption+, rule run)
    qed
  qed
qed

lemma keeps_claim:
  assumes "quiet_hooks s"
  shows "tri run_path distinct_runs (claim s wk pid st) (\<lambda>_ _. True)"
proof -
  have "tri run_path (\<lambda>w. distinct_runs w \<and> distinct_runs w) (bnd (store_runs None [running, cancelling] None) (\<lambda>active.
      if sch_slots s \<le> length active then ret None
      else bnd (store_runs None [queued] None) (\<lambda>waiting. claim_loop s wk pid st active waiting)))
    (\<lambda>_ _. True)"
  proof (rule tri_store_runs, intro tri_if tri_done)
    fix rs
    have "tri run_path (\<lambda>w. distinct_runs w \<and> True)
        (bnd (store_runs None [queued] None) (claim_loop s wk pid st rs)) (\<lambda>_ _. True)"
      by (rule tri_store_runs, rule tri_weaken [OF tri_claim_loop [OF assms]]) simp
    then show "tri run_path (\<lambda>w. all_coherent rs w \<and> distinct_runs w)
        (bnd (store_runs None [queued] None) (claim_loop s wk pid st rs)) (\<lambda>_ _. True)"
      by (rule tri_weaken) simp
  qed
  then show ?thesis
    unfolding claim_def
    by (intro tri_step [OF keeps_maintenance stable_distinct] tri_if tri_done
        tri_transaction_stable [OF _ stable_distinct stable_True]) simp
qed

section \<open>Waking, waits and settling\<close>

lemma keeps_resolutions [path_keeps]: "keeps run_path (resolutions i)"
  unfolding resolutions_def by (intro path_rules)

lemma keeps_settled [path_keeps]:
  "keeps run_path (unresolved_ops i)" "keeps run_path (children_settled i)"
  "keeps run_path (idle_operations i)" "keeps run_path (prepare_wait ctx k cs md)"
  unfolding unresolved_ops_def children_settled_def idle_operations_def prepare_wait_def
  by (intro path_rules)+

lemma keeps_wake:
  assumes "quiet_hooks s"
  shows "keeps run_path (wake s i)"
  unfolding wake_def
proof (rule tri_store_run, intro tri_if tri_done tri_step [OF keeps_resolutions])
  fix r ready
  show "stable (\<lambda>w. coherent r w \<and> True)" by (intro stable_rules)
  show "tri run_path (\<lambda>w. coherent r w \<and> True)
      (whenever (set (r_required r) \<subseteq> fst ` set ready)
        (bnd (transition s r queued None (Some ''resumable'') []) (\<lambda>_. ret ()))) (\<lambda>_ _. True)"
    by (cases "set (r_required r) \<subseteq> fst ` set ready")
      (simp_all add: tri_done tri_ignore [OF tri_transition [OF assms]])
qed

lemma keeps_refresh:
  assumes "quiet_hooks s"
  shows "keeps run_path (refresh_wait s x)" "keeps run_path (refresh_waits_of s p)"
    "keeps run_path (refresh_waits s)"
proof -
  show one: "keeps run_path (refresh_wait s x)" for x
    unfolding refresh_wait_def by (intro path_rules keeps_wake [OF assms])
  show all: "keeps run_path (refresh_waits_of s p)" for p
    unfolding refresh_waits_of_def by (intro path_rules one)
  show "keeps run_path (refresh_waits s)"
    unfolding refresh_waits_def by (intro path_rules all)
qed

lemma keeps_bind_interrupt [path_keeps]: "keeps run_path (bind_interrupt ctx run ck ref)"
  unfolding bind_interrupt_def by (cases "ir_kind ref") (simp_all, (intro path_rules path_keeps)+)

text \<open>The row returned by the last action of a call may be forgotten for the steps that follow.\<close>

lemma tri_last: "tri run_path K m (\<lambda>_ _. True) \<Longrightarrow> (\<And>x. keeps run_path (f x)) \<Longrightarrow>
  tri run_path K (bnd m f) (\<lambda>_ _. True)"
  by (rule path.tri_bnd)

lemma tri_given: "(\<And>y. x = Some y \<Longrightarrow> tri run_path K (f y) Q) \<Longrightarrow> tri run_path K (bnd (need e x) f) Q"
  by (cases x) (simp_all add: tri_def bnd_def)

lemma tri_settle_parts:
  assumes hooks: "quiet_hooks s"
  shows "tri run_path (coherent run) (settle_cancelling s ctx run un) (\<lambda>_ _. True)"
    "tri run_path (coherent run) (settle_waiting s ctx oc run) (\<lambda>_ _. True)"
    "tri run_path (coherent run) (settle_final s ctx oc run) (\<lambda>_ _. True)"
    "tri run_path (coherent run) (settle_failed s ctx oc run) (\<lambda>_ _. True)"
proof -
  have move: "tri run_path (coherent run) (transition s run st c re ps) (\<lambda>_ _. True)"
    if "st \<noteq> running" "list_all quiet_patch ps" for st c re ps
    by (rule tri_transition_end [OF hooks that])
  show "tri run_path (coherent run) (settle_cancelling s ctx run un) (\<lambda>_ _. True)"
    unfolding settle_cancelling_def
  proof (rule tri_last)
    show "tri run_path (coherent run) (if un \<noteq> [] then ret run
        else bnd (children_settled (r_id run)) (\<lambda>done.
          if done then transition s run cancelled (Some ctx) (Some ''executor left'') [] else ret run))
      (\<lambda>_ _. True)"
      by (intro tri_if tri_done tri_step [OF keeps_settled(2) stable_coherent] move) simp_all
    show "keeps run_path (andthen (end_attempt (c_attempt ctx) ''cancel'') (ret x))" for x
      by (intro path_rules)
  qed
  show "tri run_path (coherent run) (settle_waiting s ctx oc run) (\<lambda>_ _. True)"
    unfolding settle_waiting_def
  proof (rule tri_given, rule tri_then [OF _ stable_coherent tri_last])
    show "keeps run_path (foreach (ro_interrupts oc) (bind_interrupt ctx run ck))" for ck
      by (intro path_rules keeps_bind_interrupt)
    show "tri run_path (coherent run) (transition s run (waiting_status (ro_interrupts oc)) (Some ctx) None
        [P_required (map ir_id (ro_interrupts oc))]) (\<lambda>_ _. True)"
      by (rule move) (simp_all add: waiting_status_def)
    show "keeps run_path (andthen (end_attempt (c_attempt ctx) ''waiting'')
      (andthen (refresh_waits_of s (Some (r_id run))) (andthen (wake s (r_id run)) (store_run (r_id run) None))))"
      by (intro path_rules keeps_refresh [OF hooks] keeps_wake [OF hooks])
  qed
  show "tri run_path (coherent run) (settle_final s ctx oc run) (\<lambda>_ _. True)"
    unfolding settle_final_def
    by (intro tri_given tri_then hook_rules [OF hooks] stable_coherent tri_step [OF keeps_settled(2)]
        tri_guard move) simp_all
  have "keeps run_path (case ro_error oc of Some e \<Rightarrow> ret e | None \<Rightarrow> bnd new_id (\<lambda>_. ret stopped_error))"
    by (intro path_rules)
  then show "tri run_path (coherent run) (settle_failed s ctx oc run) (\<lambda>_ _. True)"
    unfolding settle_failed_def by (intro tri_step stable_coherent move) simp_all
qed

lemma keeps_sched_settle:
  assumes hooks: "quiet_hooks s"
  shows "keeps run_path (sched_settle s ctx oc)"
proof -
  let ?ck = "\<lambda>run0. case ro_checkpoint oc of None \<Rightarrow> ret run0
      | Some c \<Rightarrow> update_run (r_id run0) (r_revision run0) [P_checkpoint (Some c)] (Some ctx)"
  let ?rest = "\<lambda>run un.
        if r_status run = cancelling then settle_cancelling s ctx run un
        else if ro_kind oc = waiting_outcome then settle_waiting s ctx oc run
        else bnd (if un \<noteq> []
               then transition s run needs_review (Some ctx) (Some ''unknown operations'') []
               else if ro_kind oc = final_outcome then settle_final s ctx oc run
               else settle_failed s ctx oc run) (\<lambda>run'.
          andthen (end_attempt (c_attempt ctx) (outcome_name (ro_kind oc))) (ret run'))"
  have ck: "tri run_path (coherent run0) (?ck run0) coherent" for run0
    by (cases "ro_checkpoint oc") (auto simp: tri_def [of _ _ "ret run0"] intro!: tri_post [OF tri_update_run])
  have rest: "tri run_path (coherent run) (?rest run un) (\<lambda>_ _. True)" for run un
  proof (intro tri_if tri_settle_parts [OF hooks] tri_last tri_transition_end [OF hooks])
    show "keeps run_path (andthen (end_attempt (c_attempt ctx) (outcome_name (ro_kind oc))) (ret x))" for x
      by (intro path_rules)
  qed simp_all
  have "tri run_path (\<lambda>_. True) (bnd (store_run (c_run ctx) None) (\<lambda>run0.
        bnd (?ck run0) (\<lambda>run. bnd (unresolved_ops (c_run ctx)) (?rest run)))) (\<lambda>_ _. True)"
  proof (rule tri_store_run, rule path.tri_bnd [OF tri_pre [OF ck]])
    show "tri run_path (coherent run) (bnd (unresolved_ops (c_run ctx)) (?rest run)) (\<lambda>_ _. True)" for run
      by (rule tri_step [OF keeps_settled(1) stable_coherent rest])
  qed simp
  then show ?thesis
    unfolding sched_settle_def
    by (intro path.keeps_andthen path.keeps_raise_if path.keeps_transaction path.keeps_reads)
qed

section \<open>Client calls\<close>

lemma keeps_respond:
  assumes "quiet_hooks s"
  shows "keeps run_path (respond s own i rq)"
  unfolding respond_def by (intro path_rules path_keeps keeps_wake [OF assms])

lemma keeps_expire:
  assumes hooks: "quiet_hooks s"
  shows "tri run_path distinct_runs (expire_interactions s) (\<lambda>_ _. True)"
proof -
  have "keeps run_path (expire_interactions s)"
    unfolding expire_interactions_def by (intro path_rules path_keeps keeps_wake [OF hooks])
  then show ?thesis by (rule keeps_any)
qed

lemma tri_collect_runs:
  assumes "stable K"
  shows "tri run_path K (collect xs (\<lambda>d. store_run (g d) None)) (\<lambda>rs w. all_coherent rs w \<and> K w)"
proof (induction xs)
  case Nil
  then show ?case by (simp add: tri_def)
next
  case (Cons x xs)
  show ?case
    unfolding collect.simps
  proof (rule tri_store_run, rule path.tri_bnd)
    fix r
    let ?L = "\<lambda>w. coherent r w \<and> K w"
    have "stable ?L" by (intro stable_rules assms)
    then show "tri run_path ?L (collect xs (\<lambda>d. store_run (g d) None))
        (\<lambda>rs w. (all_coherent rs w \<and> K w) \<and> ?L w)"
      using tri_frame [OF Cons, of ?L] by (auto simp: stable_def elim!: tri_pre)
    show "tri run_path (\<lambda>w. (all_coherent rs w \<and> K w) \<and> ?L w) (ret (r # rs))
        (\<lambda>rs w. all_coherent rs w \<and> K w)" for rs
      by (rule tri_ret_any) simp
  qed
qed

lemma tri_store_children:
  assumes "stable K"
  shows "tri run_path K (store_children i) (\<lambda>rs w. all_coherent rs w \<and> K w)"
  unfolding store_children_def
  by (rule tri_step [OF path.keeps_gets assms tri_collect_runs [OF assms]])

lemma tri_descendants: "tri run_path (all_coherent q) (descendants n q) (\<lambda>ds w. all_coherent ds w)"
proof (induction n q rule: descendants.induct)
  case (1 n)
  then show ?case by (simp add: tri_def)
next
  case (2 r queue)
  then show ?case by (simp add: tri_def)
next
  case (3 n r queue)
  let ?K = "all_coherent (r # queue)"
  show ?case
    unfolding descendants.simps
  proof (rule path.tri_bnd [OF tri_store_children [OF stable_all]], rule path.tri_bnd)
    fix cs
    have "tri run_path (\<lambda>w. all_coherent (queue @ cs) w \<and> ?K w) (descendants n (queue @ cs))
        (\<lambda>ds w. all_coherent ds w \<and> ?K w)"
      using stable_all by (intro tri_frame [OF 3]) (auto simp: stable_def simp del: all_coherent_simps)
    then show "tri run_path (\<lambda>w. all_coherent cs w \<and> ?K w) (descendants n (queue @ cs))
        (\<lambda>ds w. all_coherent ds w \<and> ?K w)"
      by (rule tri_pre) simp
    show "tri run_path (\<lambda>w. all_coherent ds w \<and> ?K w) (ret (r # ds)) all_coherent" for ds
      by (rule tri_ret_any) simp
  qed
qed

lemma tri_cancel_one:
  assumes hooks: "quiet_hooks s"
  shows "tri run_path K (cancel_one s reason row) (\<lambda>_ _. True)"
proof -
  have move: "tri run_path (coherent run) (bnd (transition s run st None (Some reason) []) (\<lambda>_. ret ())) (\<lambda>_ _. True)"
    if "st \<noteq> running" for st run
    by (rule tri_ignore [OF tri_transition [OF hooks that]]) simp
  have revoke: "keeps run_path (revoke_grants i [])" and children: "keeps run_path (store_children i)" for i
    by (intro path_rules)+
  let ?tail = "\<lambda>run cs idle.
      if r_status run = queued \<or> r_status run = waiting_user \<and> cs = [] \<and> idle
         then bnd (transition s run cancelled None (Some reason) []) (\<lambda>_. ret ())
         else whenever (r_status run \<noteq> cancelling)
           (bnd (transition s run cancelling None (Some reason) []) (\<lambda>_. ret ()))"
  have tail: "tri run_path (coherent run) (?tail run cs idle) (\<lambda>_ _. True)" for run cs idle
    by (cases "r_status run = cancelling") (simp_all add: move tri_done)
  have "tri run_path (\<lambda>_. True) (bnd (update_run (r_id row) (r_revision row) [P_cancel True] None) (\<lambda>run.
        andthen (revoke_grants (r_id run) [])
        (andthen (close_interactions (r_id run) reason)
        (bnd (store_children (r_id run)) (\<lambda>cs.
         bnd (idle_operations (r_id run)) (?tail run cs)))))) (\<lambda>_ _. True)"
  proof (rule path.tri_bnd)
    show "tri run_path (\<lambda>_. True) (update_run (r_id row) (r_revision row) [P_cancel True] None) coherent"
      by (rule tri_post [OF tri_update_run]) simp_all
    show "tri run_path (coherent run) (andthen (revoke_grants (r_id run) [])
        (andthen (close_interactions (r_id run) reason)
        (bnd (store_children (r_id run)) (\<lambda>cs.
         bnd (idle_operations (r_id run)) (?tail run cs))))) (\<lambda>_ _. True)" for run
      by (rule tri_then [OF revoke stable_coherent],
          rule tri_then [OF keeps_closing(2) stable_coherent],
          rule tri_step [OF children stable_coherent],
          rule tri_step [OF keeps_settled(3) stable_coherent tail])
  qed
  then show ?thesis
    unfolding cancel_one_def by (cases "terminal (r_status row)") (auto simp: tri_def)
qed

lemma tri_finish_one:
  assumes hooks: "quiet_hooks s"
  shows "tri run_path (coherent run) (finish_one s run) (\<lambda>_ _. True)"
proof -
  have att: "keeps run_path (case r_attempt run of None \<Rightarrow> ret None
      | Some a \<Rightarrow> if a = '''' then ret None else store_attempt a)"
    by (intro path_rules)
  have last: "tri run_path (coherent run) (whenever b
      (bnd (transition s run cancelled None (Some ''barrier met'') []) (\<lambda>_. ret ()))) (\<lambda>_ _. True)" for b
    by (cases b) (simp_all add: tri_done tri_ignore [OF tri_transition [OF hooks]])
  show ?thesis
    unfolding finish_one_def
    by (rule tri_step [OF att stable_coherent], rule tri_if, rule tri_done,
        rule tri_step [OF keeps_settled(1) stable_coherent],
        rule tri_step [OF keeps_settled(2) stable_coherent last])
qed

lemma keeps_finish_idle:
  assumes hooks: "quiet_hooks s"
  shows "tri run_path distinct_runs (finish_idle_cancellations s) (\<lambda>_ _. True)"
proof -
  have "tri run_path (all_coherent rs) (foreach (rev rs) (finish_one s)) (\<lambda>_ _. True)" for rs
    by (rule tri_foreach_stable [OF tri_weaken [OF tri_finish_one [OF hooks]] stable_all])
      (auto simp: all_coherent_def)
  then have "tri run_path (\<lambda>w. distinct_runs w \<and> True)
      (bnd (store_runs None [cancelling] None) (\<lambda>runs. foreach (rev runs) (finish_one s))) (\<lambda>_ _. True)"
    by (intro tri_store_runs) simp
  then show ?thesis
    unfolding finish_idle_cancellations_def
    by (intro tri_transaction_stable stable_distinct stable_True) simp
qed

lemma keeps_cancel:
  assumes hooks: "quiet_hooks s" and stop: "\<And>i. keeps run_path (stop i)"
  shows "tri run_path distinct_runs (cancel s fuel stop own i reason) (\<lambda>_ _. True)"
proof -
  have body: "tri run_path (\<lambda>_. True) (bnd (store_run i (Some own)) (\<lambda>root_run.
        bnd (descendants fuel [root_run]) (\<lambda>ds.
        andthen (foreach ds (cancel_one s reason)) (ret ds)))) (\<lambda>_ _. True)"
  proof (rule tri_store_run, rule path.tri_bnd [OF tri_pre [OF tri_descendants]])
    show "tri run_path (all_coherent ds) (andthen (foreach ds (cancel_one s reason)) (ret ds)) (\<lambda>_ _. True)" for ds
      by (rule path.tri_andthen [OF tri_foreach_stable [OF tri_cancel_one [OF hooks] stable_all]])
        (rule tri_done)
  qed simp
  then have "keeps run_path (transaction (bnd (store_run i (Some own)) (\<lambda>root_run.
        bnd (descendants fuel [root_run]) (\<lambda>ds.
        andthen (foreach ds (cancel_one s reason)) (ret ds)))))"
    by (rule path.keeps_transaction)
  then show ?thesis
    unfolding cancel_def
    by (rule tri_step [OF _ stable_distinct])
      (rule tri_then [OF path.keeps_foreach [OF stop] stable_distinct],
       rule path.tri_andthen [OF keeps_finish_idle [OF hooks]], rule path.keeps_reads)
qed

lemma keeps_delegate:
  assumes hooks: "quiet_hooks s"
  shows "keeps run_path (delegate s ctx key rq)"
proof -
  have snap: "keeps run_path (child_snapshot ctx xs sid)" for xs sid
    unfolding child_snapshot_def by (intro path_rules)
  have run: "keeps run_path (insert_run (row\<lparr>r_id := i, r_owner := own, r_workspace := ws, r_session := se,
      r_branch := b, r_root := rt, r_parent := p, r_status := queued, r_revision := k,
      r_input_revision := n, r_snapshot := sn, r_input := inp, r_deadline := dl, r_created := t,
      r_updated := t', r_depth := dp\<rparr>))" for row i own ws se b rt p k n sn inp dl t t' dp
    by (rule keeps_insert_run) simp
  have new: "keeps run_path (delegate_new s ctx dk ah rq)" for dk ah
    unfolding delegate_new_def by (intro path_rules path_keeps hook_rules [OF hooks] snap run)
  show ?thesis
    unfolding delegate_def Let_def boundary_def by (intro path_rules new)
qed

lemma keeps_submit:
  assumes hooks: "quiet_hooks s"
  shows "keeps run_path (submit s own se rq given)"
proof -
  have att: "keeps run_path (check_attachment s own sr ref)" for sr ref
    unfolding check_attachment_def by (intro path_rules hook_rules [OF hooks])
  have plan: "keeps run_path (confirm_plan own b rq sn)" for b sn
    unfolding confirm_plan_def Let_def by (intro path_rules)
  have run: "keeps run_path (insert_run (row\<lparr>r_id := i, r_owner := own', r_workspace := ws, r_session := se',
      r_branch := b, r_root := rt, r_parent := p, r_status := queued, r_revision := k,
      r_input_revision := n, r_snapshot := sn, r_input := inp, r_deadline := dl, r_created := t,
      r_updated := t', r_depth := dp\<rparr>))" for row i own' ws se' b rt p k n sn inp dl t t' dp
    by (rule keeps_insert_run) simp
  have root_run: "keeps run_path (create_root_run s own sr b rq sn ps ats rid sid now)" for sr b sn ps ats rid sid now
    unfolding create_root_run_def
    by (intro path_rules path_keeps hook_rules [OF hooks] plan run)
  show ?thesis
    unfolding submit_def
    by (intro path_rules path_keeps hook_rules [OF hooks] att root_run)
qed

lemma keeps_branching [path_keeps]:
  "keeps run_path (steer own i t n)" "keeps run_path (create_branch own se ck n pol key cp)"
  unfolding steer_def create_branch_def validate_branch_source_def by (intro path_rules path_keeps)+

end
