(* ===== verification/Tool_Gateway.thy ===== *)
theory Tool_Gateway
  imports Scheduler_Steps
begin

text \<open>
  The tool gateway (\<^verbatim>\<open>harness/tools/gateway.py\<close>): one call of a tool, from the identity check through
  policy, approval, grant and execution to the recorded result, and the reconciliation of an
  operation whose outcome is unknown. Executors, file fingerprints and locks belong to the host and
  are parameters. The in-process locks serialise calls with one key; the model runs one call at a
  time, and what others do while an executor runs is part of what the executor does to the world.
\<close>

section \<open>Parameters\<close>

text \<open>How an executor ends: a wait, a result, an error with a code, a cancellation, any other exception.\<close>

datatype exec_outcome =
    Ex_wait tool_wait
  | Ex_result tool_result
  | Ex_error string
  | Ex_cancelled
  | Ex_exception

type_synonym exec_call = "execution_context \<Rightarrow> operation_row \<Rightarrow> json \<Rightarrow> world \<Rightarrow> exec_outcome \<times> world"

record executor =
  ex_call :: exec_call
  ex_resume :: "exec_call option"

record gateway =
  gw_registry :: "executor registry"
  gw_digest :: "json \<Rightarrow> string"
  gw_revision :: "json \<Rightarrow> int"
  gw_valid :: "json \<Rightarrow> json \<Rightarrow> bool"
  gw_fingerprint :: "execution_context \<Rightarrow> json list \<Rightarrow> bool \<Rightarrow> string store"
  gw_path :: "execution_context \<Rightarrow> json \<Rightarrow> bool \<Rightarrow> string store"
  gw_lock :: "string \<Rightarrow> unit store"
  gw_artifact :: "string \<Rightarrow> string \<Rightarrow> unit store"
  gw_preview :: "execution_context \<Rightarrow> string \<Rightarrow> json \<Rightarrow> json store"
  gw_str :: "json \<Rightarrow> string"

section \<open>Reading a call\<close>

text \<open>The first \<open>n\<close> characters of a text held as UTF-8 bytes.\<close>

definition continuation_byte :: "char \<Rightarrow> bool" where
  "continuation_byte c \<longleftrightarrow> 128 \<le> (of_char c :: nat) \<and> (of_char c :: nat) < 192"

fun take_chars :: "nat \<Rightarrow> string \<Rightarrow> string" where
  "take_chars n [] = []"
| "take_chars n (c # cs) =
     (if continuation_byte c then c # take_chars n cs
      else if n = 0 then [] else c # take_chars (n - 1) cs)"

definition input_summary :: "gateway \<Rightarrow> string \<Rightarrow> json \<Rightarrow> string" where
  "input_summary gw name args =
     take_chars 300 (name @ '': '' @ gw_str gw
       (jget_or ''path'' (jget_or ''url'' (jget_or ''prompt'' (jget_or ''argv'' (JStr '''') args) args) args) args))"

definition tool_version :: "json \<Rightarrow> string \<Rightarrow> err + string" where
  "tool_version snapshot name =
     (case map_of (rev (map (\<lambda>x. (jstr (jget ''id'' x), jstr (jget ''version'' x)))
             (jitems (jget ''tools'' snapshot)))) name of
        None \<Rightarrow> Inl (HErr ''TOOL_NOT_IN_SNAPSHOT'' 403)
      | Some v \<Rightarrow> Inr v)"

definition resources :: "gateway \<Rightarrow> execution_context \<Rightarrow> tool_spec \<Rightarrow> json \<Rightarrow> string store" where
  "resources gw ctx spec args =
     (let plain = ret (gw_digest gw (JObj [(''tool'', JStr (ts_id spec)), (''args'', args)]));
          paths = (case jlookup ''path'' args of Some p \<Rightarrow> [p]
                   | None \<Rightarrow> (case jlookup ''cwd'' args of Some p \<Rightarrow> [p] | None \<Rightarrow> []))
      in if is_mcp spec \<or> paths = [] then plain
         else gw_fingerprint gw ctx paths (ts_effect spec = ef_workspace_write))"

definition continuation_of :: "operation_row \<Rightarrow> json" where
  "continuation_of o' = jget ''protocol_continuation'' (op_metadata o')"

definition awaiting_input :: "operation_row \<Rightarrow> bool" where
  "awaiting_input o' \<longleftrightarrow> op_state o' = op_running \<and>
     jget ''kind'' (continuation_of o') = JStr ''modern_mrtr'' \<and>
     jget ''status'' (continuation_of o') = JStr ''awaiting_input''"

definition valid_protocol_wait :: "string \<Rightarrow> tool_wait \<Rightarrow> bool store" where
  "valid_protocol_wait operation_id wt =
     bnd (store_operation operation_id) (\<lambda>o'.
     ret (awaiting_input o' \<and> jtruthy (jget ''request_state_ref'' (continuation_of o')) \<and>
          jget ''interaction_id'' (continuation_of o') = jopt JStr (tw_interaction wt) \<and>
          tw_operation wt = Some operation_id))"

section \<open>Finishing\<close>

definition finish :: "gateway \<Rightarrow> execution_context \<Rightarrow> operation_row \<Rightarrow> tool_result \<Rightarrow> tool_result store" where
  "finish gw ctx o' result =
     bnd utc_now (\<lambda>now.
     bnd (ret (result\<lparr>tr_completed := Some now, tr_started := Some (op_created o')\<rparr>)) (\<lambda>r.
     andthen (transaction
       (bnd (store_operation (op_id o')) (\<lambda>current.
        bnd (update_operation (op_id o') (op_revision current)
          [O_state (state_of_result (tr_status r)), O_result (Some r)] (Some ctx)) (\<lambda>_.
        emit (c_run ctx) (if tr_status r = tr_failed then ''tool.failed'' else ''tool.completed'') (JObj
          [(''operation_id'', JStr (op_id o')), (''tool_id'', JStr (op_tool o')),
           (''tool_revision'', JStr (op_tool_revision o')),
           (''input_summary'', JStr (input_summary gw (op_tool o') (op_args o'))),
           (''result_status'', JStr (case tr_status r of tr_succeeded \<Rightarrow> ''succeeded''
              | tr_failed \<Rightarrow> ''failed'' | tr_cancelled \<Rightarrow> ''cancelled'' | tr_unknown \<Rightarrow> ''unknown'')),
           (''result_summary'', JStr (take_chars 2000 (tr_summary r))),
           (''artifact_refs'', JList (map artifact_json (tr_artifacts r)))])))))
     (ret r)))"

definition refuse :: "gateway \<Rightarrow> execution_context \<Rightarrow> operation_row \<Rightarrow> string \<Rightarrow> tool_reply store" where
  "refuse gw ctx o' code =
     bnd (finish gw ctx o' (plain_result (op_id o') tr_failed ''refused'' (Some code))) (\<lambda>r.
     ret (Done r))"

definition unknown_review :: "operation_row \<Rightarrow> tool_reply" where
  "unknown_review o' =
     Wait \<lparr>tw_kind = wk_review, tw_interaction = None, tw_wait = None, tw_operation = Some (op_id o')\<rparr>"

text \<open>The recorded result decides the reply, and what was reserved for the call is settled.\<close>

definition conclude :: "gateway \<Rightarrow> execution_context \<Rightarrow> operation_row \<Rightarrow> tool_result \<Rightarrow> tool_reply store" where
  "conclude gw ctx o' result =
     bnd (finish gw ctx o' result) (\<lambda>r.
     bnd (settle (''tool:'' @ op_id o')
       (if tr_status r = tr_unknown then None else Some [(''tool_calls'', 1)])) (\<lambda>_.
     ret (if tr_status r = tr_unknown then unknown_review o' else Done r)))"

section \<open>Executing\<close>

definition run_executor :: "exec_call \<Rightarrow> execution_context \<Rightarrow> operation_row \<Rightarrow> json \<Rightarrow> exec_outcome store" where
  "run_executor call ctx o' args w = (case call ctx o' args w of (out, v) \<Rightarrow> (Inr out, v))"

definition failed_result :: "operation_row \<Rightarrow> result_status \<Rightarrow> string \<Rightarrow> tool_result" where
  "failed_result o' status code = plain_result (op_id o') status ''see code'' (Some code)"

text \<open>What an executor's outcome means for an effect that has started.\<close>

definition outcome_result :: "gateway \<Rightarrow> tool_spec \<Rightarrow> operation_row \<Rightarrow> exec_outcome \<Rightarrow> tool_result" where
  "outcome_result gw spec o' out =
     (case out of
        Ex_wait _ \<Rightarrow> failed_result o' tr_failed ''INVALID_WAIT''
      | Ex_result r \<Rightarrow>
          if gw_valid gw (tr_data r) (ts_output spec) then r
          else failed_result o' (if ts_effect spec \<noteq> ef_read then tr_unknown else tr_failed)
            ''TOOL_EXECUTION_ERROR''
      | Ex_error code \<Rightarrow>
          failed_result o' (if code = ''PROCESS_EXIT_UNKNOWN'' then tr_unknown else tr_failed) code
      | Ex_cancelled \<Rightarrow>
          failed_result o' (if ts_effect spec \<in> {ef_external_write, ef_process} then tr_unknown
            else tr_cancelled) ''EXECUTION_INTERRUPTED''
      | Ex_exception \<Rightarrow>
          failed_result o' (if ts_effect spec \<noteq> ef_read then tr_unknown else tr_failed)
            ''TOOL_EXECUTION_ERROR'')"

definition start_operation ::
  "gateway \<Rightarrow> execution_context \<Rightarrow> string \<Rightarrow> tool_spec \<Rightarrow> json \<Rightarrow> operation_row \<Rightarrow>
   approval_binding \<Rightarrow> int \<Rightarrow> operation_row store" where
  "start_operation gw ctx name spec args o' binding policy_revision =
     bnd new_id (\<lambda>grant_id.
     transaction
       (andthen (add_grant grant_id (op_id o') (c_owner ctx) (c_run ctx) binding 1)
       (bnd (update_operation (op_id o') (op_revision o') [O_state op_authorized] (Some ctx)) (\<lambda>authorized.
        bnd (consume_grant ctx grant_id binding policy_revision) (\<lambda>started.
        andthen (bnd (reserve (c_root ctx) (''tool:'' @ op_id authorized) [(''tool_calls'', 1)]) (\<lambda>_. ret ()))
        (andthen (emit (c_run ctx) ''tool.started'' (JObj
          [(''operation_id'', JStr (op_id started)), (''tool_id'', JStr name),
           (''tool_revision'', JStr (ts_version spec)),
           (''input_summary'', JStr (input_summary gw name args)), (''artifact_refs'', JList [])]))
        (ret started)))))))"

text \<open>A wait is accepted when the operation records it; anything else is an outcome to record.\<close>

definition settle_wait :: "operation_row \<Rightarrow> tool_wait \<Rightarrow> (tool_wait + exec_outcome) store" where
  "settle_wait o' wt =
     catch_all
       (bnd (valid_protocol_wait (op_id o') wt) (\<lambda>ok.
        ret (if ok then Inl wt else Inr (Ex_error ''INVALID_WAIT''))))
       (\<lambda>e. case e of HErr code status \<Rightarrow> ret (Inr (Ex_error code)) | _ \<Rightarrow> ret (Inr Ex_exception))"

definition execute_started ::
  "gateway \<Rightarrow> execution_context \<Rightarrow> tool_spec \<Rightarrow> executor \<Rightarrow> json \<Rightarrow> operation_row \<Rightarrow> tool_reply store" where
  "execute_started gw ctx spec ex args o' =
     bnd (run_executor (ex_call ex) ctx o' args) (\<lambda>out.
     bnd (case out of Ex_wait wt \<Rightarrow> settle_wait o' wt | _ \<Rightarrow> ret (Inr out)) (\<lambda>settled.
     case settled of
       Inl wt \<Rightarrow> ret (Wait wt)
     | Inr out' \<Rightarrow> conclude gw ctx o' (outcome_result gw spec o' out')))"

definition execute_guarded ::
  "gateway \<Rightarrow> execution_context \<Rightarrow> string \<Rightarrow> tool_spec \<Rightarrow> executor \<Rightarrow> json \<Rightarrow> operation_row \<Rightarrow>
   string \<Rightarrow> approval_binding \<Rightarrow> tool_reply store" where
  "execute_guarded gw ctx name spec ex args o' fingerprint binding =
     bnd (case jlookup ''path'' args of
            Some p \<Rightarrow> (if is_mcp spec then ret (op_id o')
              else gw_path gw ctx p (ts_effect spec = ef_workspace_write))
          | None \<Rightarrow> ret (op_id o')) (\<lambda>resource_key.
     andthen (gw_lock gw resource_key)
     (bnd (policy_decide (gw_revision gw) (Execution ctx) spec) (\<lambda>current.
      bnd (if dc_kind current = deny \<or> dc_revision current \<noteq> ab_policy_revision binding then ret True
           else bnd (resources gw ctx spec args) (\<lambda>now_fp. ret (now_fp \<noteq> fingerprint))) (\<lambda>changed.
      if changed then refuse gw ctx o' ''BINDING_CHANGED''
      else
        bnd (start_operation gw ctx name spec args o' binding (dc_revision current)) (\<lambda>started.
        execute_started gw ctx spec ex args started)))))"

definition execute_special ::
  "gateway \<Rightarrow> execution_context \<Rightarrow> executor \<Rightarrow> json \<Rightarrow> operation_row \<Rightarrow> tool_reply store" where
  "execute_special gw ctx ex args o' =
     andthen (bnd (reserve (c_root ctx) (''tool:'' @ op_id o') [(''tool_calls'', 1)]) (\<lambda>_. ret ()))
     (bnd (run_executor (ex_call ex) ctx o' args) (\<lambda>out.
      case out of
        Ex_wait wt \<Rightarrow> ret (Wait wt)
      | Ex_result r \<Rightarrow>
          bnd (finish gw ctx o' (r\<lparr>tr_operation := op_id o', tr_status := tr_succeeded\<rparr>)) (\<lambda>result.
          bnd (settle (''tool:'' @ op_id o') (Some [(''tool_calls'', 1)])) (\<lambda>_.
          ret (Done result)))
      | Ex_error code \<Rightarrow> raise (HErr code 409)
      | _ \<Rightarrow> raise PyValueError))"

section \<open>Approval\<close>

definition approval_ttl :: nat where
  "approval_ttl = 900 * 1000"

definition approval_schema :: json where
  "approval_schema = JObj
     [(''type'', JStr ''object''),
      (''properties'', JObj [(''decision'', JObj [(''enum'', JList
         [JStr ''approve_once'', JStr ''approve_scoped'', JStr ''deny''])])]),
      (''required'', JList [JStr ''decision'']), (''additionalProperties'', JBool False)]"

definition approved :: "interaction_row \<Rightarrow> bool" where
  "approved i \<longleftrightarrow> (case i_resolution i of
       None \<Rightarrow> False
     | Some r \<Rightarrow> rs_outcome r = answered \<and>
         (case rs_response r of None \<Rightarrow> False
          | Some a \<Rightarrow> jget ''decision'' a \<in> {JStr ''approve_once'', JStr ''approve_scoped''}))"

datatype gate = Reply tool_reply | Proceed approval_binding

definition approval_gate ::
  "gateway \<Rightarrow> execution_context \<Rightarrow> string \<Rightarrow> tool_spec \<Rightarrow> json \<Rightarrow> operation_row \<Rightarrow>
   interaction_row option \<Rightarrow> approval_binding \<Rightarrow> gate store" where
  "approval_gate gw ctx name spec args o' interaction binding =
     bnd (case interaction of
            Some i \<Rightarrow> ret i
          | None \<Rightarrow>
              bnd (gw_preview gw ctx name args) (\<lambda>diff.
              prepare_interaction ctx (''approval:'' @ op_id o') ''approval''
                \<lparr>ip_prompt = ''approve '' @ name, ip_schema = approval_schema,
                 ip_binding = Some binding, ip_operation = None,
                 ip_extra = JObj [(''operation_preview'', JObj
                   [(''tool'', JStr name), (''args'', args),
                    (''effect'', JStr (effect_name (ts_effect spec))), (''diff'', diff)])]\<rparr>
                (Some (ab_expires binding)))) (\<lambda>i.
     bnd (need PyKeyError (ip_binding (i_payload i))) (\<lambda>bound.
     if unanswered i
     then ret (Reply (Wait \<lparr>tw_kind = wk_user, tw_interaction = Some (i_id i), tw_wait = None,
            tw_operation = Some (op_id o')\<rparr>))
     else if approved i then ret (Proceed bound)
     else bnd (refuse gw ctx o' ''APPROVAL_DENIED'') (\<lambda>r. ret (Reply r))))"

text \<open>The binding an effect may run under, or the reply to give instead.\<close>

definition bind_approval ::
  "gateway \<Rightarrow> execution_context \<Rightarrow> string \<Rightarrow> tool_spec \<Rightarrow> json \<Rightarrow> operation_row \<Rightarrow> string \<Rightarrow>
   decision \<Rightarrow> gate store" where
  "bind_approval gw ctx name spec args o' fingerprint decision =
     bnd (store_interactions (c_run ctx)) (\<lambda>is.
     bnd (ret (find (\<lambda>i. i_key i = ''approval:'' @ op_id o') is)) (\<lambda>interaction.
     bnd (after_ms approval_ttl) (\<lambda>expires.
     bnd (ret \<lparr>ab_operation = op_id o', ab_tool_revision = ts_version spec,
               ab_args_hash = gw_digest gw args, ab_fingerprint = fingerprint,
               ab_policy_revision = dc_revision decision, ab_expires = expires\<rparr>) (\<lambda>binding.
     if dc_kind decision = approval
     then approval_gate gw ctx name spec args o' interaction binding
     else ret (Proceed binding)))))"

section \<open>The call\<close>

definition execute_prepared ::
  "gateway \<Rightarrow> execution_context \<Rightarrow> operation_key \<Rightarrow> string \<Rightarrow> json \<Rightarrow> tool_spec \<Rightarrow> executor \<Rightarrow>
   tool_reply store" where
  "execute_prepared gw ctx key name args spec ex =
     bnd (resources gw ctx spec args) (\<lambda>fingerprint.
     bnd (prepare_operation ctx
        \<lparr>oq_message = ok_message key, oq_call = ok_call key, oq_tool = name,
         oq_tool_revision = ts_version spec, oq_args_hash = gw_digest gw args, oq_args = args,
         oq_fingerprint = fingerprint, oq_metadata = JObj [],
         oq_summary = input_summary gw name args\<rparr>) (\<lambda>o'.
     bnd (policy_decide (gw_revision gw) (Execution ctx) spec) (\<lambda>decision.
     if dc_kind decision = deny then refuse gw ctx o' ''POLICY_DENIED''
     else if fingerprint \<noteq> op_fingerprint o' then refuse gw ctx o' ''RESOURCE_CHANGED''
     else
       bnd (bind_approval gw ctx name spec args o' fingerprint decision) (\<lambda>g.
       case g of
         Reply r \<Rightarrow> ret r
       | Proceed bound \<Rightarrow>
           (if name \<in> {''request_input'', ''wait_children''} then execute_special gw ctx ex args o'
            else execute_guarded gw ctx name spec ex args o' fingerprint bound)))))"

definition resume_protocol ::
  "gateway \<Rightarrow> execution_context \<Rightarrow> operation_row \<Rightarrow> tool_spec \<Rightarrow> exec_call \<Rightarrow> json \<Rightarrow> tool_reply store" where
  "resume_protocol gw ctx o' spec resume args =
     bnd (catch_all
       (bnd (policy_decide (gw_revision gw) (Execution ctx) spec) (\<lambda>decision.
        bnd (resources gw ctx spec args) (\<lambda>fp.
        andthen (raise_if (dc_kind decision = deny \<or> fp \<noteq> op_fingerprint o')
          (HErr ''CONTINUATION_POLICY'' 403))
        (bnd (verify_consumed_grant ctx (op_id o') (dc_revision decision)) (\<lambda>_.
         bnd (run_executor resume ctx o' args) (\<lambda>out.
         (case out of
            Ex_wait wt \<Rightarrow>
              bnd (valid_protocol_wait (op_id o') wt) (\<lambda>ok.
              if ok then ret (Wait wt) else raise (HErr ''INVALID_WAIT'' 409))
          | Ex_result r \<Rightarrow>
              if gw_valid gw (tr_data r) (ts_output spec) then ret (Done r)
              else raise PyValueError
          | Ex_error code \<Rightarrow> raise (HErr code 409)
          | Ex_cancelled \<Rightarrow>
              ret (Done (failed_result o' tr_unknown ''CONTINUATION_INTERRUPTED''))
          | Ex_exception \<Rightarrow> raise PyValueError)))))))
       (\<lambda>_. ret (Done (failed_result o' tr_unknown ''CONTINUATION_UNCERTAIN'')))) (\<lambda>reply.
     case reply of
       Done r \<Rightarrow> conclude gw ctx o' r
     | Wait wt \<Rightarrow> ret (Wait wt))"

definition execute_known ::
  "gateway \<Rightarrow> execution_context \<Rightarrow> operation_key \<Rightarrow> string \<Rightarrow> json \<Rightarrow> tool_spec \<Rightarrow> executor \<Rightarrow>
   operation_row \<Rightarrow> tool_reply store" where
  "execute_known gw ctx key name args spec ex o' =
     (if op_args_hash o' \<noteq> gw_digest gw args \<or> op_tool o' \<noteq> name \<or> op_tool_revision o' \<noteq> ts_version spec
      then raise (HErr ''OPERATION_CONFLICT'' 409)
      else
        (case (op_result o', op_state o' \<in> {op_succeeded, op_failed, op_cancelled}) of
           (Some r, True) \<Rightarrow> ret (Done r)
         | _ \<Rightarrow>
             if op_state o' \<in> {op_running, op_unknown}
             then (case (awaiting_input o', ex_resume ex) of
                     (True, Some resume) \<Rightarrow> resume_protocol gw ctx o' spec resume args
                   | _ \<Rightarrow> ret (unknown_review o'))
             else execute_prepared gw ctx key name args spec ex))"

definition execute_entry ::
  "gateway \<Rightarrow> execution_context \<Rightarrow> operation_key \<Rightarrow> string \<Rightarrow> json \<Rightarrow> json \<Rightarrow>
   tool_spec \<times> executor \<Rightarrow> tool_reply store" where
  "execute_entry gw ctx key name args snapshot entry =
     andthen (lift (enforce snapshot (fst entry)))
     (if \<not> gw_valid gw args (ts_input (fst entry))
      then ret (Done (plain_result '''' tr_failed ''arguments'' (Some ''TOOL_ARGUMENTS'')))
      else
        bnd (operation_by_key (c_run ctx) (ok_message key) (ok_call key)) (\<lambda>existing.
        case existing of
          Some o' \<Rightarrow> execute_known gw ctx key name args (fst entry) (snd entry) o'
        | None \<Rightarrow> execute_prepared gw ctx key name args (fst entry) (snd entry)))"

definition execute ::
  "gateway \<Rightarrow> execution_context \<Rightarrow> operation_key \<Rightarrow> string \<Rightarrow> json \<Rightarrow> tool_reply store" where
  "execute gw ctx key name args =
     andthen (raise_if (ok_run key \<noteq> c_run ctx) (HErr ''TOOL_IDENTITY'' 403))
     (andthen (assert_fence ctx False)
     (bnd (snapshot_of ctx) (\<lambda>snapshot.
      bnd (lift (tool_version snapshot name)) (\<lambda>version.
      bnd (lift (registry_get (gw_registry gw) name version))
        (execute_entry gw ctx key name args snapshot)))))"

section \<open>Reconciling\<close>

definition is_space :: "char \<Rightarrow> bool" where
  "is_space c \<longleftrightarrow> c \<in> {CHR '' '', CHR 0x09, CHR 0x0A, CHR 0x0B, CHR 0x0C, CHR 0x0D}"

definition strip :: "string \<Rightarrow> string" where
  "strip s = rev (dropWhile is_space (rev (dropWhile is_space s)))"

record reconciled =
  rd_id :: string
  rd_operation :: string
  rd_action :: string
  rd_revision :: int

definition reconcile_patch ::
  "gateway \<Rightarrow> string \<Rightarrow> operation_row \<Rightarrow> json \<Rightarrow> (string \<times> op_patch list) store" where
  "reconcile_patch gw actor o' request =
     (let choice = jget ''decision'' request in
      if choice = JStr ''confirm_completed''
      then
        bnd (ret (jget ''result_ref'' request)) (\<lambda>ref.
        andthen (raise_if (\<not> jtruthy ref \<or> \<not> jtruthy (jget ''evidence_refs'' request))
          (HErr ''EVIDENCE_REQUIRED'' 422))
        (andthen (gw_artifact gw (ref_id ref) actor)
        (bnd utc_now (\<lambda>now.
         ret (''resume'', [O_state op_succeeded, O_result (Some
           ((plain_result (op_id o') tr_succeeded (strip (jstr (jget_or ''note'' (JStr '''') request))) None)
            \<lparr>tr_data := JObj [(''reconciled_by'', JStr actor),
                (''evidence_refs'', jget ''evidence_refs'' request)],
             tr_artifacts := [artifact_of_json ref], tr_completed := Some now\<rparr>))])))))
      else if choice = JStr ''confirm_not_executed''
      then
        andthen (raise_if (\<not> jtruthy (jget ''proven_not_started'' (op_metadata o')))
          (HErr ''UNVERIFIABLE_NON_EXECUTION'' 422))
        (ret (''resume'', [O_state op_prepared, O_result None, O_grant None]))
      else if choice = JStr ''accept_unresolved''
      then ret (''end_without_success'',
        [O_metadata (jset ''accepted_by'' (JStr actor)
           (jset ''unresolved_accepted'' (JBool True) (op_metadata o')))])
      else raise (HErr ''INVALID_DECISION'' 422))"

definition gateway_reconcile :: "gateway \<Rightarrow> string \<Rightarrow> string \<Rightarrow> json \<Rightarrow> reconciled store" where
  "gateway_reconcile gw operation_id actor request =
     bnd (store_operation operation_id) (\<lambda>o'.
     bnd (store_run (op_run o') (Some actor)) (\<lambda>_.
     andthen (raise_if (JInt (op_revision o') \<noteq> jget ''expected_revision'' request \<or>
         op_state o' \<noteq> op_unknown) (HErr ''REVISION_CONFLICT'' 409))
     (andthen (raise_if (strip (jstr (jget_or ''note'' (JStr '''') request)) = '''')
       (HErr ''EVIDENCE_REQUIRED'' 422))
     (andthen (foreach (jitems (jget ''evidence_refs'' request)) (\<lambda>ref. gw_artifact gw (ref_id ref) actor))
     (bnd (reconcile_patch gw actor o' request) (\<lambda>decided.
      transaction
        (bnd (add_reconciliation operation_id (op_revision o') actor
           (jstr (jget ''decision'' request)) request) (\<lambda>record_id.
         bnd (update_operation operation_id (op_revision o') (snd decided) None) (\<lambda>updated.
         andthen (revoke_grants (op_run o') [])
         (ret \<lparr>rd_id = record_id, rd_operation = operation_id, rd_action = fst decided,
               rd_revision = op_revision updated\<rparr>))))))))))"

end
