(* ===== verification/Gateway_Steps.thy ===== *)
theory Gateway_Steps
  imports Tool_Gateway
begin

text \<open>
  What a call of the tool gateway guarantees: it keeps to the specification of runs when the
  executors do; the executor of an effect runs only after every check has passed; a known operation
  is answered from its record and never run again.
\<close>

section \<open>Keeping to the specification\<close>

text \<open>
  The host's parts of a gateway leave runs, branches and events to the scheduler, and executors
  change them only the way the specification allows.
\<close>

definition quiet_executor :: "executor \<Rightarrow> bool" where
  "quiet_executor ex \<longleftrightarrow>
     (\<forall>ctx o' args. keeps run_path (run_executor (ex_call ex) ctx o' args)) \<and>
     (\<forall>call ctx o' args. ex_resume ex = Some call \<longrightarrow> keeps run_path (run_executor call ctx o' args))"

definition quiet_gateway :: "gateway \<Rightarrow> bool" where
  "quiet_gateway gw \<longleftrightarrow>
     (\<forall>e\<in>set (gw_registry gw). quiet_executor (snd (snd e))) \<and>
     (\<forall>ctx ps b. keeps (same_view core) (gw_fingerprint gw ctx ps b)) \<and>
     (\<forall>ctx p b. keeps (same_view core) (gw_path gw ctx p b)) \<and>
     (\<forall>k. keeps (same_view core) (gw_lock gw k)) \<and>
     (\<forall>i own. keeps (same_view core) (gw_artifact gw i own)) \<and>
     (\<forall>ctx n a. keeps (same_view core) (gw_preview gw ctx n a))"

lemma gateway_rules:
  assumes "quiet_gateway gw"
  shows "keeps run_path (gw_fingerprint gw ctx ps b)" "keeps run_path (gw_path gw ctx p b)"
    "keeps run_path (gw_lock gw k)" "keeps run_path (gw_artifact gw i own)"
    "keeps run_path (gw_preview gw ctx n a)"
  using assms by (auto simp: quiet_gateway_def intro: keeps_path_of_core)

lemma registry_quiet:
  assumes "quiet_gateway gw" and "registry_get (gw_registry gw) i v = Inr e"
  shows "quiet_executor (snd e)"
  using assms
  by (fastforce simp: quiet_gateway_def registry_get_def dest: map_of_SomeD split: option.splits)

lemma keeps_case_outcome:
  "(\<And>x. out = Ex_wait x \<Longrightarrow> keeps R (a x)) \<Longrightarrow> (\<And>x. out = Ex_result x \<Longrightarrow> keeps R (b x)) \<Longrightarrow>
   (\<And>x. out = Ex_error x \<Longrightarrow> keeps R (c x)) \<Longrightarrow> (out = Ex_cancelled \<Longrightarrow> keeps R d) \<Longrightarrow>
   (out = Ex_exception \<Longrightarrow> keeps R e) \<Longrightarrow>
   keeps R (case out of Ex_wait x \<Rightarrow> a x | Ex_result x \<Rightarrow> b x | Ex_error x \<Rightarrow> c x | Ex_cancelled \<Rightarrow> d | Ex_exception \<Rightarrow> e)"
  by (cases out) simp_all

lemma keeps_case_reply:
  "(\<And>x. g = Done x \<Longrightarrow> keeps R (a x)) \<Longrightarrow> (\<And>x. g = Wait x \<Longrightarrow> keeps R (b x)) \<Longrightarrow>
   keeps R (case g of Done x \<Rightarrow> a x | Wait x \<Rightarrow> b x)"
  by (cases g) simp_all

lemma keeps_case_gate:
  "(\<And>x. g = Reply x \<Longrightarrow> keeps R (a x)) \<Longrightarrow> (\<And>x. g = Proceed x \<Longrightarrow> keeps R (b x)) \<Longrightarrow>
   keeps R (case g of Reply x \<Rightarrow> a x | Proceed x \<Rightarrow> b x)"
  by (cases g) simp_all

lemmas case_rules = keeps_case_outcome keeps_case_reply keeps_case_gate

lemma keeps_gateway_parts:
  "keeps run_path (finish gw ctx o' r)" "keeps run_path (refuse gw ctx o' code)"
  "keeps run_path (conclude gw ctx o' r)" "keeps run_path (valid_protocol_wait i wt)"
  "keeps run_path (start_operation gw ctx name spec args o' b n)" "keeps run_path (settle_wait o' wt)"
proof -
  show fin: "keeps run_path (finish gw ctx o' r)" for r
    unfolding finish_def by (intro path_rules path_keeps)
  show "keeps run_path (refuse gw ctx o' code)"
    unfolding refuse_def by (intro path_rules fin)
  show "keeps run_path (conclude gw ctx o' r)"
    unfolding conclude_def by (intro path_rules fin)
  show valid: "keeps run_path (valid_protocol_wait i wt)" for i
    unfolding valid_protocol_wait_def by (intro path_rules)
  show "keeps run_path (settle_wait o' wt)"
    unfolding settle_wait_def by (intro path_rules valid)
  show "keeps run_path (start_operation gw ctx name spec args o' b n)"
    unfolding start_operation_def by (intro path_rules path_keeps)
qed

lemma keeps_resources: "quiet_gateway gw \<Longrightarrow> keeps run_path (resources gw ctx spec args)"
  unfolding resources_def Let_def by (intro path_rules gateway_rules)

lemma keeps_executions:
  assumes gw: "quiet_gateway gw" and ex: "quiet_executor ex"
  shows "keeps run_path (execute_guarded gw ctx name spec ex args o' fp b)"
    "keeps run_path (execute_special gw ctx ex args o')"
    "ex_resume ex = Some call \<Longrightarrow> keeps run_path (resume_protocol gw ctx o' spec call args)"
proof -
  have run: "keeps run_path (run_executor (ex_call ex) ctx o' args)" for o'
    using ex by (simp add: quiet_executor_def)
  have started: "keeps run_path (execute_started gw ctx spec ex args o')" for o'
    unfolding execute_started_def
    by (intro path_rules case_rules run keeps_gateway_parts)
  show "keeps run_path (execute_guarded gw ctx name spec ex args o' fp b)"
    unfolding execute_guarded_def
    by (intro path_rules gateway_rules [OF gw] keeps_resources [OF gw] keeps_gateway_parts started)
  show "keeps run_path (execute_special gw ctx ex args o')"
    unfolding execute_special_def by (intro path_rules case_rules run keeps_gateway_parts)
  show "keeps run_path (resume_protocol gw ctx o' spec call args)" if "ex_resume ex = Some call"
  proof -
    have "keeps run_path (run_executor call ctx o' args)"
      using ex that by (simp add: quiet_executor_def)
    then show ?thesis
      unfolding resume_protocol_def
      by (intro path_rules case_rules keeps_resources [OF gw] keeps_gateway_parts)
  qed
qed

lemma keeps_execute:
  assumes gw: "quiet_gateway gw"
  shows "keeps run_path (execute gw ctx key name args)"
proof -
  have gate: "keeps run_path (approval_gate gw ctx name spec args o' i b)" for spec o' i b
    unfolding approval_gate_def by (intro path_rules gateway_rules [OF gw] keeps_gateway_parts)
  have prepared: "keeps run_path (execute_prepared gw ctx key name args spec ex)"
    if "quiet_executor ex" for spec ex
    unfolding execute_prepared_def bind_approval_def
    by (intro path_rules path_keeps case_rules keeps_resources [OF gw] keeps_gateway_parts gate
        keeps_executions [OF gw that])
  have known: "keeps run_path (execute_known gw ctx key name args spec ex o')"
    if ex: "quiet_executor ex" for spec ex o'
    unfolding execute_known_def
    by (cases "ex_resume ex"; cases "awaiting_input o'"; cases "op_result o'")
      (auto intro!: path_rules prepared [OF ex] keeps_executions [OF gw ex] split: bool.splits)
  have entry: "keeps run_path (bnd (lift (registry_get (gw_registry gw) name v))
      (execute_entry gw ctx key name args snapshot))" for v snapshot
  proof (rule path.tri_bnd)
    show "tri run_path (\<lambda>_. True) (lift (registry_get (gw_registry gw) name v))
        (\<lambda>e _. quiet_executor (snd e))"
      using registry_quiet [OF gw] by (intro tri_pre [OF path.tri_lift]) blast
    show "tri run_path (\<lambda>_. quiet_executor (snd entry)) (execute_entry gw ctx key name args snapshot entry)
        (\<lambda>_ _. True)" for entry
    proof (cases "quiet_executor (snd entry)")
      case True
      show ?thesis
        unfolding execute_entry_def
        by (rule tri_pre [where P = "\<lambda>_. True"], intro path_rules known [OF True] prepared [OF True]) simp
    qed (simp add: tri_def)
  qed
  show ?thesis
    unfolding execute_def
    by (rule path.keeps_andthen, rule path.keeps_raise_if, rule path.keeps_andthen, rule path.keeps_reads,
        rule path.keeps_bnd, rule path.keeps_policy, rule path.keeps_bnd, rule path.keeps_lift, rule entry)
qed

lemma keeps_gateway_reconcile:
  assumes gw: "quiet_gateway gw"
  shows "keeps run_path (gateway_reconcile gw i actor rq)"
  unfolding gateway_reconcile_def reconcile_patch_def Let_def
  by (intro path_rules gateway_rules [OF gw])

section \<open>A concrete gateway\<close>

definition sample_gateway :: gateway where
  "sample_gateway =
     \<lparr>gw_registry = [], gw_digest = canonical_json (\<lambda>_. []), gw_revision = (\<lambda>_. 0),
      gw_valid = (\<lambda>_ _. True), gw_fingerprint = (\<lambda>_ _ _. ret ''print''),
      gw_path = (\<lambda>_ _ _. ret ''path''), gw_lock = (\<lambda>_. ret ()), gw_artifact = (\<lambda>_ _. ret ()),
      gw_preview = (\<lambda>_ _ _. ret JNull), gw_str = canonical_json (\<lambda>_. [])\<rparr>"

end
