(* ===== verification/Recovery.thy ===== *)
theory Recovery
  imports Gateway_Steps
begin

text \<open>
  Recovery of runs whose worker was lost, and the reconciliation of operations with an unknown
  outcome (\<^verbatim>\<open>recover\<close> and \<^verbatim>\<open>reconcile\<close> of \<^verbatim>\<open>harness/scheduler/service.py\<close>). What the host knows is a
  parameter: whether the worker's process still lives, what stopping its processes does, and the
  digest of a file.
\<close>

section \<open>Recovering\<close>

record 'x host =
  ho_alive :: "attempt_row \<Rightarrow> bool"
  ho_stop :: "string \<Rightarrow> unit store"
  ho_digest :: "string \<Rightarrow> string option"
  ho_registry :: "'x registry"

text \<open>An exchange that is saved in full and still has its interaction can be resumed.\<close>

definition resumable :: "run_row \<Rightarrow> operation_row \<Rightarrow> bool store" where
  "resumable run o' =
     (if awaiting_input o' \<and>
        list_all (\<lambda>k. jtruthy (jget k (continuation_of o')))
          [''request_state_ref'', ''interaction_id'', ''schema_hash'', ''request_hash'']
      then catch_harness
        (bnd (store_interaction (jstr (jget ''interaction_id'' (continuation_of o')))) (\<lambda>i.
         ret (i_run i = r_id run \<and> ip_operation (i_payload i) = Some (op_id o'))))
        (ret False)
      else ret False)"

definition continuations_of :: "run_row \<Rightarrow> string list store" where
  "continuations_of run =
     bnd (store_operations (r_id run)) (\<lambda>ops.
     bnd (collect ops (\<lambda>o'. bnd (resumable run o') (\<lambda>b. ret (b, op_id o')))) (\<lambda>marked.
     ret (map snd (filter fst marked))))"

definition retained_grants :: "string list \<Rightarrow> operation_row list \<Rightarrow> string list" where
  "retained_grants conts ops =
     concat (map (\<lambda>o'. case op_grant o' of None \<Rightarrow> [] | Some g \<Rightarrow> [g])
       (filter (\<lambda>o'. op_id o' \<in> set conts \<and> op_grant o' \<noteq> None \<and> op_grant o' \<noteq> Some '''') ops))"

definition mark_unknown :: "operation_row \<Rightarrow> bool store" where
  "mark_unknown o' =
     bnd (update_operation (op_id o') (op_revision o') [O_state op_unknown] None) (\<lambda>_. ret True)"

text \<open>The digest of the target of a file operation, when the operation recorded one.\<close>

definition written_digest :: "'x host \<Rightarrow> operation_row \<Rightarrow> string option" where
  "written_digest h o' =
     (if op_tool o' \<in> {''write_file'', ''apply_patch''} \<and> jtruthy (jget ''path'' (op_metadata o'))
      then ho_digest h (jstr (jget ''path'' (op_metadata o'))) else None)"

definition verified_result :: "operation_row \<Rightarrow> json \<Rightarrow> string \<Rightarrow> timestamp \<Rightarrow> tool_result" where
  "verified_result o' p digest now =
     (plain_result (op_id o') tr_succeeded ''verified'' None)
       \<lparr>tr_data := JObj [(''path'', p), (''sha256'', JStr digest)], tr_completed := Some now\<rparr>"

text \<open>What becomes of an operation of a lost worker; the value says whether its outcome is unknown.\<close>

definition recover_operation :: "'x host \<Rightarrow> string list \<Rightarrow> operation_row \<Rightarrow> bool store" where
  "recover_operation h conts o' =
     (if op_state o' \<noteq> op_running then ret (op_state o' = op_unknown)
      else if op_id o' \<in> set conts then ret False
      else if jtruthy (continuation_of o') then mark_unknown o'
      else if written_digest h o' \<noteq> None \<and>
        map_option JStr (written_digest h o') = Some (jget ''after_hash'' (op_metadata o'))
      then
        bnd (lift (jfield ''path'' (op_args o'))) (\<lambda>p.
        bnd utc_now (\<lambda>now.
        bnd (update_operation (op_id o') (op_revision o') [O_state op_succeeded, O_result (Some
          (verified_result o' p (the (written_digest h o')) now))] None) (\<lambda>_.
        ret False)))
      else
        bnd (lift (registry_get (ho_registry h) (op_tool o') (op_tool_revision o'))) (\<lambda>entry.
        if ts_effect (fst entry) = ef_read
        then bnd (update_operation (op_id o') (op_revision o') [O_state op_prepared, O_grant None] None)
          (\<lambda>_. ret False)
        else mark_unknown o'))"

text \<open>One run whose lease has run out, inside the transaction; \<open>None\<close> when another attempt took over.\<close>

definition recover_run ::
  "scheduler \<Rightarrow> 'x host \<Rightarrow> attempt_row \<Rightarrow> bool \<Rightarrow> string \<Rightarrow> (string \<times> string) option store" where
  "recover_run s h attempt alive run_id =
     transaction
       (bnd (store_run run_id None) (\<lambda>run0.
        if r_attempt run0 \<noteq> Some (a_id attempt) then ret None
        else
          bnd (if r_status run0 = running
               then transition s run0 recovering None (Some ''lease lost'') [] else ret run0) (\<lambda>run.
          bnd (continuations_of run) (\<lambda>conts.
          bnd (store_operations run_id) (\<lambda>ops.
          andthen (revoke_grants run_id (retained_grants conts ops))
          (if alive then ret (Some (run_id, ''waiting_old_worker_exit''))
           else
             andthen (end_attempt (a_id attempt) ''worker_lost'')
             (bnd (collect ops (recover_operation h conts)) (\<lambda>marks.
              andthen (if r_status run = recovering
                then bnd (transition s run (if list_ex id marks then needs_review else queued) None
                    (Some ''recovered'') []) (\<lambda>_. ret ())
                else ret ())
              (bnd (store_run run_id None) (\<lambda>after.
               ret (Some (run_id, status_name (r_status after)))))))))))))"

definition recover_one :: "scheduler \<Rightarrow> 'x host \<Rightarrow> run_row \<Rightarrow> (string \<times> string) option store" where
  "recover_one s h run =
     bnd (case r_attempt run of
            None \<Rightarrow> ret None
          | Some a \<Rightarrow> if a = '''' then ret None else store_attempt a) (\<lambda>attempt.
     bnd utc_now (\<lambda>now.
     case attempt of
       None \<Rightarrow> ret None
     | Some a \<Rightarrow>
         if now < a_lease a then ret None
         else
           andthen (whenever (\<not> ho_alive h a) (ho_stop h (r_id run)))
           (recover_run s h a (ho_alive h a) (r_id run))))"

definition recover :: "scheduler \<Rightarrow> 'x host \<Rightarrow> (string \<times> string) list store" where
  "recover s h =
     bnd (store_runs None [running, recovering, cancelling] None) (\<lambda>runs.
     bnd (collect runs (recover_one s h)) (\<lambda>reports.
     andthen (finish_idle_cancellations s)
     (ret (concat (map (\<lambda>r. case r of None \<Rightarrow> [] | Some x \<Rightarrow> [x]) reports)))))"

section \<open>Reconciling\<close>

definition reviewed_values :: "string list \<Rightarrow> json" where
  "reviewed_values required = JObj [(''values'', JObj (map (\<lambda>x.
     (x, JObj [(''interrupt_id'', JStr x), (''outcome'', JStr ''answered''),
        (''reason'', JStr ''operation_reconciled'')])) (remdups required)))]"

definition sched_reconcile ::
  "scheduler \<Rightarrow> gateway \<Rightarrow> string \<Rightarrow> string \<Rightarrow> json \<Rightarrow> (reconciled \<times> run_status) store" where
  "sched_reconcile s gw owner operation_id request =
     bnd (transaction
       (bnd (store_operation operation_id) (\<lambda>o'.
        bnd (store_run (op_run o') (Some owner)) (\<lambda>run.
        andthen (raise_if (r_status run \<notin> {needs_review, cancelling}) (HErr ''RUN_NOT_REVIEWING'' 409))
        (bnd (gateway_reconcile gw operation_id owner request) (\<lambda>result.
         bnd (store_operations (r_id run)) (\<lambda>ops.
         bnd (ret (filter (\<lambda>o'. op_state o' = op_unknown \<and> \<not> accepted_unresolved o') ops)) (\<lambda>unknown.
         andthen
           (if unknown = [] \<and> rd_action result = ''resume'' \<and> r_status run = needs_review
            then
              andthen (store_put ''review_resolutions'' (r_id run) (reviewed_values (r_required run)))
              (bnd (transition s run queued None (Some ''reconciled'') []) (\<lambda>_. ret ()))
            else if rd_action result = ''end_without_success'' \<and> r_status run = needs_review
            then bnd (transition s run cancelling None (Some ''accepted'') [P_cancel True]) (\<lambda>_. ret ())
            else ret ())
         (ret (result, r_id run)))))))))) (\<lambda>out.
     andthen (finish_idle_cancellations s)
     (bnd (store_run (snd out) None) (\<lambda>after.
      ret (fst out, r_status after))))"

section \<open>Keeping to the specification\<close>

lemma keeps_recovery_parts:
  "keeps run_path (resumable run o')" "keeps run_path (continuations_of run)"
  "keeps run_path (mark_unknown o')" "keeps run_path (recover_operation h conts o')"
proof -
  show res: "keeps run_path (resumable run o')" for o'
    unfolding resumable_def by (intro path_rules)
  show "keeps run_path (continuations_of run)"
    unfolding continuations_of_def by (intro path_rules res)
  show mark: "keeps run_path (mark_unknown o')"
    unfolding mark_unknown_def by (intro path_rules)
  show "keeps run_path (recover_operation h conts o')"
    unfolding recover_operation_def by (intro path_rules mark)
qed

lemma keeps_recover_run:
  assumes hooks: "quiet_hooks s"
  shows "keeps run_path (recover_run s h attempt alive i)"
proof -
  have mid: "tri run_path (coherent run0) (if r_status run0 = running
      then transition s run0 recovering None (Some ''lease lost'') [] else ret run0) coherent" for run0
    by (intro tri_if tri_post [OF tri_transition [OF hooks]] tri_ret_any) simp_all
  have collects: "keeps run_path (collect ops (recover_operation h conts))" for ops conts
    by (intro path.keeps_collect keeps_recovery_parts)
  have move: "tri run_path (coherent run) (bnd (transition s run st None re []) (\<lambda>_. ret ())) (\<lambda>_ _. True)"
    if "st \<noteq> running" for run st re
    by (rule tri_ignore [OF tri_transition [OF hooks that]]) simp
  have last: "tri run_path (coherent run) (andthen (if r_status run = recovering
      then bnd (transition s run (if b then needs_review else queued) None (Some ''recovered'') [])
        (\<lambda>_. ret ()) else ret ()) k) (\<lambda>_ _. True)" if "keeps run_path k" for b run k
    by (rule path.tri_andthen [where Q = "\<lambda>_. True"]) (auto intro: that tri_done move)
  have tail: "tri run_path (coherent run) (if alive then ret (Some (i, ''waiting_old_worker_exit''))
      else andthen (end_attempt (a_id attempt) ''worker_lost'')
        (bnd (collect ops (recover_operation h conts)) (\<lambda>marks.
         andthen (if r_status run = recovering
           then bnd (transition s run (if list_ex id marks then needs_review else queued) None
             (Some ''recovered'') []) (\<lambda>_. ret ()) else ret ())
         (bnd (store_run i None) (\<lambda>after. ret (Some (i, status_name (r_status after)))))))) (\<lambda>_ _. True)"
    for run ops conts
  proof (rule tri_if, rule tri_done, rule tri_then [OF _ stable_coherent], intro path_rules)
    show "tri run_path (coherent run) (bnd (collect ops (recover_operation h conts)) (\<lambda>marks.
         andthen (if r_status run = recovering
           then bnd (transition s run (if list_ex id marks then needs_review else queued) None
             (Some ''recovered'') []) (\<lambda>_. ret ()) else ret ())
         (bnd (store_run i None) (\<lambda>after. ret (Some (i, status_name (r_status after))))))) (\<lambda>_ _. True)"
      by (rule tri_step [OF collects stable_coherent], rule last, intro path_rules)
  qed
  have revoke: "keeps run_path (revoke_grants j gs)" and ops: "keeps run_path (store_operations j)" for j gs
    by (intro path_rules)+
  show ?thesis
    unfolding recover_run_def
  proof (rule path.keeps_transaction, rule tri_store_run, rule tri_if, rule tri_done,
      rule path.tri_bnd [OF tri_pre [OF mid]])
    fix run
    show "tri run_path (coherent run) (bnd (continuations_of run) (\<lambda>conts.
          bnd (store_operations i) (\<lambda>ops.
          andthen (revoke_grants i (retained_grants conts ops))
          (if alive then ret (Some (i, ''waiting_old_worker_exit''))
           else
             andthen (end_attempt (a_id attempt) ''worker_lost'')
             (bnd (collect ops (recover_operation h conts)) (\<lambda>marks.
              andthen (if r_status run = recovering
                then bnd (transition s run (if list_ex id marks then needs_review else queued) None
                    (Some ''recovered'') []) (\<lambda>_. ret ())
                else ret ())
              (bnd (store_run i None) (\<lambda>after.
               ret (Some (i, status_name (r_status after)))))))))))
        (\<lambda>_ _. True)"
      by (rule tri_step [OF keeps_recovery_parts(2) stable_coherent],
          rule tri_step [OF ops stable_coherent], rule tri_then [OF revoke stable_coherent], rule tail)
  qed simp
qed

lemma keeps_recover:
  assumes hooks: "quiet_hooks s" and stop: "\<And>i. keeps run_path (ho_stop h i)"
  shows "tri run_path distinct_runs (recover s h) (\<lambda>_ _. True)"
proof -
  have one: "keeps run_path (recover_one s h run)" for run
    unfolding recover_one_def by (intro path_rules stop keeps_recover_run [OF hooks])
  have rest: "tri run_path distinct_runs (andthen (finish_idle_cancellations s) (ret x)) (\<lambda>_ _. True)" for x
    by (rule path.tri_andthen [OF keeps_finish_idle [OF hooks]]) (rule tri_done)
  have runs: "keeps run_path (store_runs so sts ro)" for so sts ro
    by (intro path_rules)
  show ?thesis
    unfolding recover_def
    by (rule tri_step [OF runs stable_distinct], rule tri_step [OF path.keeps_collect stable_distinct])
      (rule one, rule rest)
qed

lemma keeps_sched_reconcile:
  assumes hooks: "quiet_hooks s" and gw: "quiet_gateway gw"
  shows "tri run_path distinct_runs (sched_reconcile s gw own i rq) (\<lambda>_ _. True)"
proof -
  have move: "tri run_path (coherent run) (bnd (transition s run st None re ps) (\<lambda>_. ret ())) (\<lambda>_ _. True)"
    if "st \<noteq> running" "list_all quiet_patch ps" for run st re ps
    by (rule tri_ignore [OF tri_transition [OF hooks that]])
  have put: "keeps run_path (store_put ns k v)" and op: "keeps run_path (store_operation j)"
    and ops: "keeps run_path (store_operations j)" for ns k v j
    by (intro path_rules)+
  have tail: "tri run_path (coherent run) (andthen
           (if unknown = [] \<and> rd_action result = ''resume'' \<and> r_status run = needs_review
            then
              andthen (store_put ''review_resolutions'' (r_id run) (reviewed_values (r_required run)))
              (bnd (transition s run queued None (Some ''reconciled'') []) (\<lambda>_. ret ()))
            else if rd_action result = ''end_without_success'' \<and> r_status run = needs_review
            then bnd (transition s run cancelling None (Some ''accepted'') [P_cancel True]) (\<lambda>_. ret ())
            else ret ())
         (ret (result, r_id run))) (\<lambda>_ _. True)" for run unknown result
    by (rule path.tri_andthen [where Q = "\<lambda>_. True"], intro tri_if tri_then [OF put stable_coherent] move tri_done)
      (auto intro: tri_done)
  have body: "keeps run_path (transaction
       (bnd (store_operation i) (\<lambda>o'.
        bnd (store_run (op_run o') (Some own)) (\<lambda>run.
        andthen (raise_if (r_status run \<notin> {needs_review, cancelling}) (HErr ''RUN_NOT_REVIEWING'' 409))
        (bnd (gateway_reconcile gw i own rq) (\<lambda>result.
         bnd (store_operations (r_id run)) (\<lambda>ops.
         bnd (ret (filter (\<lambda>o'. op_state o' = op_unknown \<and> \<not> accepted_unresolved o') ops)) (\<lambda>unknown.
         andthen
           (if unknown = [] \<and> rd_action result = ''resume'' \<and> r_status run = needs_review
            then
              andthen (store_put ''review_resolutions'' (r_id run) (reviewed_values (r_required run)))
              (bnd (transition s run queued None (Some ''reconciled'') []) (\<lambda>_. ret ()))
            else if rd_action result = ''end_without_success'' \<and> r_status run = needs_review
            then bnd (transition s run cancelling None (Some ''accepted'') [P_cancel True]) (\<lambda>_. ret ())
            else ret ())
         (ret (result, r_id run))))))))))"
    by (rule path.keeps_transaction, rule path.keeps_bnd [OF op], rule tri_store_run,
        rule tri_pre [where P = "coherent _"], rule tri_guard,
        rule tri_step [OF keeps_gateway_reconcile [OF gw] stable_coherent],
        rule tri_step [OF ops stable_coherent], rule tri_step [OF path.keeps_ret stable_coherent], rule tail) simp
  show ?thesis
    unfolding sched_reconcile_def
  proof (rule tri_step [OF body stable_distinct], rule path.tri_andthen [OF keeps_finish_idle [OF hooks]])
    show "keeps run_path (bnd (store_run (snd out) None) (\<lambda>after. ret (fst out, r_status after)))" for out
      by (intro path_rules)
  qed
qed

section \<open>A concrete host\<close>

definition sample_scheduler :: scheduler where
  "sample_scheduler =
     \<lparr>sch_slots = 2, sch_child_slots = 1, sch_max_depth = 2, sch_lease = 1000,
      sch_digest = canonical_json (\<lambda>_. []), sch_revision = (\<lambda>_. 0), sch_snapshot = None,
      sch_created = (\<lambda>_ _. ret ()), sch_terminal = (\<lambda>_. ret ()), sch_artifact = (\<lambda>_ _. ret ()),
      sch_image = (\<lambda>_ _. ret ()), sch_schema = (\<lambda>_ _. True)\<rparr>"

definition sample_host :: "'x host" where
  "sample_host =
     \<lparr>ho_alive = (\<lambda>_. False), ho_stop = (\<lambda>_. ret ()), ho_digest = (\<lambda>_. None), ho_registry = []\<rparr>"

end
