(* ===== verification/Worker.thy ===== *)
theory Worker
  imports Recovery
begin

text \<open>
  The worker (\<^verbatim>\<open>harness/scheduler/worker.py\<close>): one pass of its loop, the task that executes a claimed
  run, and what it plugs into the runtime. The agent runtime, the preparation of a run, the processes
  and the MCP connections are parameters: the services the worker was built with.
\<close>

section \<open>Services\<close>

record start_message =
  sm_id :: string
  sm_content :: json

record 'x services =
  sv_scheduler :: scheduler
  sv_host :: "'x host"
  sv_heartbeat :: nat
  sv_prepare :: "execution_context \<Rightarrow> json store"
  sv_checkpoint :: "execution_context \<Rightarrow> checkpoint_ref store"
  sv_resume :: "execution_context \<Rightarrow> checkpoint_ref \<Rightarrow> (string \<times> answer) list \<Rightarrow> runtime_outcome store"
  sv_start :: "execution_context \<Rightarrow> json \<Rightarrow> start_message \<Rightarrow> runtime_outcome store"
  sv_continue :: "execution_context \<Rightarrow> runtime_outcome store"
  sv_request_cancel :: "execution_context \<Rightarrow> unit store"
  sv_release :: "string \<Rightarrow> unit store"
  sv_cancel_processes :: "string \<Rightarrow> unit store"
  sv_close_scope :: "string \<Rightarrow> unit store"

record worker =
  wk_instance :: string
  wk_id :: string
  wk_pid :: int
  wk_started :: rat
  wk_active :: "string list"
  wk_contexts :: "(string \<times> execution_context) list"
  wk_stopping :: bool
  wk_heartbeat :: nat

section \<open>Executing a run\<close>

text \<open>The message a new run starts with: the committed user message, or the run's own input.\<close>

definition input_parts :: "run_row \<Rightarrow> json" where
  "input_parts run =
     (let parts = jget ''content_parts'' (r_input run)
      in if jtruthy parts then parts
         else JList [JObj [(''type'', JStr ''text''),
           (''text'', jget_or ''text'' (JStr '''') (r_input run))]])"

definition input_content :: "json \<Rightarrow> err + json" where
  "input_content parts =
     (case parts of
        JList [p] \<Rightarrow> if jget ''type'' p = JStr ''text'' then jfield ''text'' p else Inr parts
      | _ \<Rightarrow> Inr parts)"

definition first_message :: "execution_context \<Rightarrow> run_row \<Rightarrow> start_message store" where
  "first_message ctx run =
     bnd (store_messages (c_branch ctx) (Some (c_run ctx))) (\<lambda>ms.
     bnd (case filter (\<lambda>m. jget ''role'' m = JStr ''user'') ms of
            m # _ \<Rightarrow> ret (jstr (jget ''message_id'' m))
          | [] \<Rightarrow> new_id) (\<lambda>identity.
     bnd (lift (input_content (input_parts run))) (\<lambda>content.
     ret \<lparr>sm_id = identity, sm_content = content\<rparr>)))"

text \<open>
  The checkpoint to go on from: the run's own, or one the saver has although the worker died before
  the run pointed to it.
\<close>

definition saved_checkpoint :: "'x services \<Rightarrow> execution_context \<Rightarrow> run_row \<Rightarrow> checkpoint_ref option store" where
  "saved_checkpoint sv ctx run =
     (case r_checkpoint run of
        Some c \<Rightarrow> ret (Some c)
      | None \<Rightarrow>
          catch_all (bnd (sv_checkpoint sv ctx) (\<lambda>c. ret (Some c)))
            (\<lambda>e. case e of
                   HErr code status \<Rightarrow>
                     if code \<in> {''checkpoint_not_found'', ''checkpoint_mismatch''} then ret None else raise e
                 | _ \<Rightarrow> raise e))"

definition begin_turn :: "'x services \<Rightarrow> execution_context \<Rightarrow> runtime_outcome store" where
  "begin_turn sv ctx =
     bnd (sv_prepare sv ctx) (\<lambda>snapshot.
     bnd (store_run (c_run ctx) None) (\<lambda>run.
     bnd (saved_checkpoint sv ctx run) (\<lambda>checkpoint.
     case checkpoint of
       Some c \<Rightarrow>
         bnd (resolutions (c_run ctx)) (\<lambda>all.
         sv_resume sv ctx c (filter (\<lambda>x. fst x \<in> set (r_required run)) all))
     | None \<Rightarrow> bnd (first_message ctx run) (\<lambda>m. sv_start sv ctx snapshot m))))"

text \<open>
  The end of a turn, in one transaction: a final outcome with input still pending is not settled, the
  run goes on with that input; any other outcome is settled.
\<close>

definition end_turn ::
  "'x services \<Rightarrow> execution_context \<Rightarrow> runtime_outcome \<Rightarrow> execution_context option store" where
  "end_turn sv ctx outcome =
     transaction
       (bnd (store_run (c_run ctx) None) (\<lambda>current.
        bnd (sched_context current) (\<lambda>ctx'.
        bnd (if ro_kind outcome = final_outcome
             then bnd (pending_input_commands (c_run ctx')) (\<lambda>cs. ret (cs \<noteq> []))
             else ret False) (\<lambda>continue_pending.
        if continue_pending then ret (Some ctx')
        else bnd (sched_settle (sv_scheduler sv) ctx' outcome) (\<lambda>_. ret None)))))"

fun turns :: "nat \<Rightarrow> 'x services \<Rightarrow> execution_context \<Rightarrow> runtime_outcome \<Rightarrow> unit store" where
  "turns 0 sv ctx outcome = raise Diverges"
| "turns (Suc n) sv ctx outcome =
     bnd (end_turn sv ctx outcome) (\<lambda>again.
     case again of
       None \<Rightarrow> ret ()
     | Some ctx' \<Rightarrow> bnd (sv_continue sv ctx') (\<lambda>outcome'. turns n sv ctx' outcome'))"

definition error_of :: "err \<Rightarrow> error_envelope" where
  "error_of e =
     \<lparr>ee_code = (case e of HErr code status \<Rightarrow> code | GwErr code retryable \<Rightarrow> code
       | _ \<Rightarrow> ''WORKER_ERROR''), ee_retryable = False\<rparr>"

text \<open>An exception of the turn fails the run, unless the run has been taken over meanwhile.\<close>

definition settle_error :: "'x services \<Rightarrow> execution_context \<Rightarrow> err \<Rightarrow> unit store" where
  "settle_error sv ctx e =
     catch_harness
       (bnd (store_run (c_run ctx) None) (\<lambda>current.
        bnd (sched_context current) (\<lambda>ctx'.
        bnd (sched_settle (sv_scheduler sv) ctx'
          \<lparr>ro_kind = error_outcome, ro_run = c_run ctx, ro_input_revision = c_input_revision ctx',
           ro_checkpoint = None, ro_result = None, ro_interrupts = [],
           ro_error = Some (error_of e)\<rparr>) (\<lambda>_. ret ()))))
       (ret ())"

definition leave_run :: "'x services \<Rightarrow> execution_context \<Rightarrow> unit store" where
  "leave_run sv ctx =
     andthen (sv_release sv (c_run ctx))
     (bnd (store_run (c_run ctx) None) (\<lambda>run.
      whenever (terminal (r_status run)) (catch_all (sv_close_scope sv (c_run ctx)) (\<lambda>_. ret ()))))"

text \<open>The whole task. The fuel bounds how often input arrives just before the run would end.\<close>

definition execute_run :: "nat \<Rightarrow> 'x services \<Rightarrow> execution_context \<Rightarrow> unit store" where
  "execute_run fuel sv ctx =
     finally_act
       (catch_all
         (bnd (begin_turn sv ctx) (\<lambda>outcome. turns fuel sv ctx outcome))
         (\<lambda>e. if e = Diverges then raise e else settle_error sv ctx e))
       (leave_run sv ctx)"

section \<open>One pass of the loop\<close>

definition acknowledge :: "worker \<Rightarrow> unit store" where
  "acknowledge wk =
     bnd (store_get ''system'' ''maintenance'') (\<lambda>m.
     bnd utc_now (\<lambda>now.
     store_put ''system'' ''worker_state'' (JObj
       [(''instance_id'', JStr (wk_instance wk)), (''worker_id'', JStr (wk_id wk)),
        (''pid'', JInt (wk_pid wk)),
        (''status'', JStr (if wk_active wk \<noteq> [] then ''running''
           else if jtruthy (jget ''enabled'' (or_empty m)) \<or> wk_stopping wk then ''drained''
           else ''ready'')),
        (''active_run_ids'', JList (map JStr (sort_key (\<lambda>s. s) (wk_active wk)))),
        (''heartbeat_at'', JInt (int now))])))"

text \<open>
  The tasks that are over leave the worker; a task that raised raises again when it is awaited. A task
  is given as the exception it ended with, if any.
\<close>

definition reap :: "(string \<Rightarrow> err option option) \<Rightarrow> worker \<Rightarrow> worker store" where
  "reap over wk =
     andthen (foreach (wk_active wk) (\<lambda>r. case over r of Some (Some e) \<Rightarrow> raise e | _ \<Rightarrow> ret ()))
     (ret (wk\<lparr>wk_active := filter (\<lambda>r. over r = None) (wk_active wk),
             wk_contexts := filter (\<lambda>c. over (fst c) = None) (wk_contexts wk)\<rparr>))"

definition stop_cancelled :: "'x services \<Rightarrow> worker \<Rightarrow> unit store" where
  "stop_cancelled sv wk =
     foreach (wk_contexts wk) (\<lambda>c.
       bnd (store_run (fst c) None) (\<lambda>run.
       whenever (r_cancel run)
         (andthen (sv_cancel_processes sv (fst c)) (sv_request_cancel sv (snd c)))))"

definition beat :: "'x services \<Rightarrow> nat \<Rightarrow> worker \<Rightarrow> worker store" where
  "beat sv now wk =
     (if now < wk_heartbeat wk + sv_heartbeat sv then ret wk
      else
        andthen (foreach (wk_contexts wk) (\<lambda>c.
          catch_harness (sched_heartbeat (sv_scheduler sv) (snd c)) (sv_request_cancel sv (snd c))))
        (ret (wk\<lparr>wk_heartbeat := now\<rparr>)))"

definition take_on :: "execution_context \<Rightarrow> worker \<Rightarrow> worker" where
  "take_on ctx wk =
     wk\<lparr>wk_active := (if c_run ctx \<in> set (wk_active wk) then wk_active wk else wk_active wk @ [c_run ctx]),
       wk_contexts := (if c_run ctx \<in> fst ` set (wk_contexts wk)
         then map (\<lambda>c. if fst c = c_run ctx then (c_run ctx, ctx) else c) (wk_contexts wk)
         else wk_contexts wk @ [(c_run ctx, ctx)])\<rparr>"

fun claim_more :: "nat \<Rightarrow> 'x services \<Rightarrow> bool \<Rightarrow> worker \<Rightarrow> worker store" where
  "claim_more 0 sv paused wk = raise Diverges"
| "claim_more (Suc n) sv paused wk =
     (if wk_stopping wk \<or> paused \<or> sch_slots (sv_scheduler sv) \<le> length (wk_active wk) then ret wk
      else
        bnd (claim (sv_scheduler sv) (wk_id wk) (wk_pid wk) (wk_started wk)) (\<lambda>got.
        case got of
          None \<Rightarrow> ret wk
        | Some ctx \<Rightarrow> claim_more n sv paused (take_on ctx wk)))"

definition tick ::
  "nat \<Rightarrow> 'x services \<Rightarrow> (string \<Rightarrow> err option option) \<Rightarrow> nat \<Rightarrow> worker \<Rightarrow> worker store" where
  "tick fuel sv over now wk0 =
     andthen publish_event_outbox
     (andthen (expire_interactions (sv_scheduler sv))
     (andthen (refresh_waits (sv_scheduler sv))
     (andthen (bnd (recover (sv_scheduler sv) (sv_host sv)) (\<lambda>_. ret ()))
     (andthen (finish_idle_cancellations (sv_scheduler sv))
     (bnd (reap over wk0) (\<lambda>wk1.
      andthen (stop_cancelled sv wk1)
      (bnd (beat sv now wk1) (\<lambda>wk2.
       bnd in_maintenance (\<lambda>paused.
       bnd (claim_more fuel sv paused wk2) (\<lambda>wk3.
       andthen (acknowledge wk3)
       (ret wk3)))))))))))"

section \<open>What the worker plugs into the runtime\<close>

text \<open>A message of the graph becomes a message of the run, once.\<close>

definition commit_role :: "string \<Rightarrow> string" where
  "commit_role role =
     (if role = ''human'' then ''user'' else if role = ''ai'' then ''assistant'' else role)"

definition message_commit :: "execution_context \<Rightarrow> string \<Rightarrow> string \<Rightarrow> json \<Rightarrow> unit store" where
  "message_commit ctx identity role payload =
     (let content = jget_or ''content'' (JStr '''') payload;
          parts = (case content of
             JStr s \<Rightarrow> JList (if s = '''' then []
               else [JObj [(''type'', JStr ''text''), (''text'', JStr s)]])
           | _ \<Rightarrow> content)
      in add_message (c_run ctx) identity (commit_role role)
           (jmerge (JObj [(''message_id'', JStr identity), (''role'', JStr (commit_role role)),
                          (''content_parts'', parts)])
             (jget_or ''model_binding'' (JObj []) payload)))"

definition event_sink :: "execution_context \<Rightarrow> string \<Rightarrow> json \<Rightarrow> unit store" where
  "event_sink ctx kind data =
     whenever (kind \<in> {''runtime.error'', ''runtime.exited''})
       (bnd utc_now (\<lambda>now. store_put ''runtime_diagnostics'' (c_run ctx)
         (JObj [(''type'', JStr kind), (''data'', data), (''timestamp'', JInt (int now))])))"

text \<open>
  The tools offered to the model: those of the run's snapshot that its mode permits, at the version
  locked in the snapshot and with an unchanged schema.
\<close>

definition item_name :: "json \<Rightarrow> string" where
  "item_name item = jstr (jget_or ''id'' (jget ''name'' item) item)"

definition permitted_item :: "string \<Rightarrow> json \<Rightarrow> json \<Rightarrow> bool" where
  "permitted_item mode item snapshot =
     (if mode \<noteq> ''plan'' then True
      else if starts_with ''mcp:'' (jstr (jget_or ''origin'' (JStr ''builtin'') item))
        then jget ''effect'' item = JStr ''read'' \<and>
          jget ''id'' item \<in> JStr ` set (jstrings (jget ''plan_readonly_tools'' snapshot))
      else jget_or ''origin'' (JStr ''builtin'') item = JStr ''builtin'' \<and>
        jget_or ''effect'' (JStr ''read'') item = JStr ''read'' \<and>
        jget ''id'' item \<in> JStr ` set plan_tools)"

definition frozen_items :: "json \<Rightarrow> (string \<times> json) list" where
  "frozen_items snapshot =
     (case fold (\<lambda>item acc. jset (item_name item) item acc) (jitems (jget ''tools'' snapshot)) (JObj []) of
        JObj kvs \<Rightarrow> kvs
      | _ \<Rightarrow> [])"

definition frozen_tool :: "'x registry \<Rightarrow> string \<Rightarrow> json \<Rightarrow> err + tool_spec" where
  "frozen_tool items name item =
     (if \<not> jtruthy item then (case registry_get items name ''1'' of Inl e \<Rightarrow> Inl e | Inr x \<Rightarrow> Inr (fst x))
      else
        (case registry_get items name (jstr (jget_or ''version'' (JStr ''1'') item)) of
           Inl e \<Rightarrow> Inl e
         | Inr x \<Rightarrow>
             if canon (ts_input (fst x)) \<noteq> canon (jget_or ''input_schema'' (ts_input (fst x)) item)
             then Inl (HErr ''TOOL_SCHEMA_DRIFT'' 409) else Inr (fst x)))"

definition tools_factory :: "'x registry \<Rightarrow> execution_context \<Rightarrow> tool_spec list store" where
  "tools_factory items ctx =
     bnd (store_get ''snapshots'' (c_snapshot ctx)) (\<lambda>found.
     bnd (ret (or_empty found)) (\<lambda>snapshot.
     collect (filter (\<lambda>e. permitted_item (mode_of snapshot) (snd e) snapshot) (frozen_items snapshot))
       (\<lambda>e. lift (frozen_tool items (fst e) (snd e)))))"

section \<open>Keeping to the specification\<close>

definition quiet_services :: "'x services \<Rightarrow> bool" where
  "quiet_services sv \<longleftrightarrow> quiet_hooks (sv_scheduler sv) \<and>
     (\<forall>i. keeps run_path (ho_stop (sv_host sv) i)) \<and> (\<forall>ctx. keeps run_path (sv_prepare sv ctx)) \<and>
     (\<forall>ctx. keeps run_path (sv_checkpoint sv ctx)) \<and>
     (\<forall>ctx c rs. keeps run_path (sv_resume sv ctx c rs)) \<and>
     (\<forall>ctx j m. keeps run_path (sv_start sv ctx j m)) \<and> (\<forall>ctx. keeps run_path (sv_continue sv ctx)) \<and>
     (\<forall>ctx. keeps run_path (sv_request_cancel sv ctx)) \<and> (\<forall>i. keeps run_path (sv_release sv i)) \<and>
     (\<forall>i. keeps run_path (sv_cancel_processes sv i)) \<and> (\<forall>i. keeps run_path (sv_close_scope sv i))"

lemma service_rules:
  assumes "quiet_services sv"
  shows "quiet_hooks (sv_scheduler sv)" "keeps run_path (ho_stop (sv_host sv) i)"
    "keeps run_path (sv_prepare sv ctx)" "keeps run_path (sv_checkpoint sv ctx)"
    "keeps run_path (sv_resume sv ctx c rs)" "keeps run_path (sv_start sv ctx j m)"
    "keeps run_path (sv_continue sv ctx)" "keeps run_path (sv_request_cancel sv ctx)"
    "keeps run_path (sv_release sv i)" "keeps run_path (sv_cancel_processes sv i)"
    "keeps run_path (sv_close_scope sv i)"
  using assms by (simp_all add: quiet_services_def)

lemma keeps_execute_run:
  assumes sv: "quiet_services sv"
  shows "keeps run_path (execute_run fuel sv ctx)"
proof -
  note quiet = service_rules [OF sv] keeps_sched_settle [OF service_rules(1) [OF sv]]
  have turn: "keeps run_path (end_turn sv ctx outcome)" for ctx outcome
    unfolding end_turn_def pending_input_commands_def by (intro path_rules path_keeps quiet)
  have turns: "keeps run_path (turns n sv ctx outcome)" for n ctx outcome
    by (induction n arbitrary: ctx outcome) (simp_all, (intro path_rules turn quiet; assumption?)+)
  have first: "keeps run_path (begin_turn sv ctx)"
    unfolding begin_turn_def saved_checkpoint_def first_message_def
    by (intro path_rules path_keeps quiet)
  have settle: "keeps run_path (settle_error sv ctx e)" for e
    unfolding settle_error_def by (intro path_rules path_keeps quiet)
  have leave: "keeps run_path (leave_run sv ctx)"
    unfolding leave_run_def by (intro path_rules quiet)
  show ?thesis
    unfolding execute_run_def by (intro path_rules turns first settle leave)
qed

lemma tri_carry: "tri run_path K m Q \<Longrightarrow> stable K \<Longrightarrow> tri run_path K m (\<lambda>_. K)"
  unfolding tri_def stable_def by blast

lemma keeps_tick:
  assumes sv: "quiet_services sv"
  shows "tri run_path distinct_runs (tick fuel sv over now wk) (\<lambda>_ _. True)"
proof -
  note hooks = service_rules(1) [OF sv]
  note quiet = service_rules [OF sv]
  note carry = tri_carry [OF _ stable_distinct]
  have claims: "tri run_path distinct_runs (claim_more n sv paused wk) (\<lambda>_. distinct_runs)" for n paused wk
  proof (induction n arbitrary: wk)
    case 0
    show ?case unfolding claim_more.simps by (rule path.tri_raise)
  next
    case (Suc n)
    show ?case
      unfolding claim_more.simps
    proof (rule tri_if, rule path.tri_ret, rule path.tri_bnd, rule carry [OF keeps_claim [OF hooks]])
      show "tri run_path distinct_runs (case got of None \<Rightarrow> ret wk
          | Some ctx \<Rightarrow> claim_more n sv paused (take_on ctx wk)) (\<lambda>_. distinct_runs)" for got
      proof (cases got)
        case None
        show ?thesis unfolding None option.case by (rule path.tri_ret)
      qed (simp only: option.case Suc)
    qed
  qed
  have reap: "keeps run_path (reap over wk)" for wk
    unfolding reap_def by (intro path_rules)
  have stop: "keeps run_path (stop_cancelled sv wk)" for wk
    unfolding stop_cancelled_def by (intro path_rules quiet)
  have beats: "keeps run_path (beat sv now wk)" for wk
    unfolding beat_def sched_heartbeat_def by (intro path_rules path_keeps quiet)
  have ack: "keeps run_path (acknowledge wk)" for wk
    unfolding acknowledge_def by (intro path_rules path_keeps)
  have publish: "keeps run_path publish_event_outbox" by (intro path_rules path_keeps)
  have recovered: "tri run_path distinct_runs (bnd (recover (sv_scheduler sv) (sv_host sv)) (\<lambda>_. ret ()))
      (\<lambda>_. distinct_runs)"
    by (rule path.tri_bnd [OF carry [OF keeps_recover [OF hooks quiet(2)]]]) (rule path.tri_ret)
  show ?thesis
    unfolding tick_def
    by (rule tri_then [OF publish stable_distinct],
        rule path.tri_andthen [OF carry [OF keeps_expire [OF hooks]]],
        rule tri_then [OF keeps_refresh(3) [OF hooks] stable_distinct],
        rule path.tri_andthen [OF recovered], rule path.tri_andthen [OF carry [OF keeps_finish_idle [OF hooks]]],
        rule tri_step [OF reap stable_distinct], rule tri_then [OF stop stable_distinct],
        rule tri_step [OF beats stable_distinct], rule tri_step [OF keeps_maintenance stable_distinct],
        rule path.tri_bnd [OF claims], rule tri_then [OF ack stable_distinct], rule tri_done)
qed

section \<open>Slots\<close>

lemma take_on_active: "length (wk_active (take_on ctx wk)) \<le> Suc (length (wk_active wk))"
  "set (wk_active (take_on ctx wk)) = insert (c_run ctx) (set (wk_active wk))"
  by (auto simp: take_on_def)

lemma claim_more_active:
  "claim_more n sv paused wk w = (Inr wk', v) \<Longrightarrow>
   length (wk_active wk') \<le> max (length (wk_active wk)) (sch_slots (sv_scheduler sv)) \<and>
   (wk_stopping wk \<or> paused \<longrightarrow> wk' = wk \<and> v = w) \<and> set (wk_active wk) \<subseteq> set (wk_active wk')"
proof (induction n arbitrary: wk w)
  case (Suc n)
  show ?case
  proof (cases "wk_stopping wk \<or> paused \<or> sch_slots (sv_scheduler sv) \<le> length (wk_active wk)")
    case True
    with Suc.prems show ?thesis by (auto split: if_splits)
  next
    case False
    with Suc.prems obtain got u where claim: "claim (sv_scheduler sv) (wk_id wk) (wk_pid wk) (wk_started wk) w = (Inr got, u)"
      and rest: "(case got of None \<Rightarrow> ret wk | Some ctx \<Rightarrow> claim_more n sv paused (take_on ctx wk)) u = (Inr wk', v)"
      by (auto simp: act_iffs)
    show ?thesis
    proof (cases got)
      case None
      with rest False show ?thesis by simp
    next
      case (Some ctx)
      with rest have "claim_more n sv paused (take_on ctx wk) u = (Inr wk', v)" by simp
      from Suc.IH [OF this] take_on_active [of ctx wk] False show ?thesis by auto
    qed
  qed
qed simp

text \<open>
  A pass of the worker keeps the number of runs it executes within its slots, drops only the
  tasks that are over, and a worker that is stopping takes on no run.
\<close>

theorem worker_slots:
  assumes run: "tick fuel sv over now wk w = (Inr wk', v)"
    and fits: "length (wk_active wk) \<le> sch_slots (sv_scheduler sv)"
  shows "length (wk_active wk') \<le> sch_slots (sv_scheduler sv) \<and>
    {r \<in> set (wk_active wk). over r = None} \<subseteq> set (wk_active wk') \<and>
    (wk_stopping wk \<longrightarrow> wk_active wk' = filter (\<lambda>r. over r = None) (wk_active wk))"
proof -
  from run obtain wk1 wk2 paused u0 u1 u2 u3 u4 u5 u6 where
    reap: "reap over wk u0 = (Inr wk1, u1)" and beat: "beat sv now wk1 u2 = (Inr wk2, u3)" and
    claims: "claim_more fuel sv paused wk2 u4 = (Inr wk', u5)"
    unfolding tick_def act_iffs by auto
  from reap have "wk1 = wk\<lparr>wk_active := filter (\<lambda>r. over r = None) (wk_active wk),
      wk_contexts := filter (\<lambda>c. over (fst c) = None) (wk_contexts wk)\<rparr>"
    unfolding reap_def act_iffs by auto
  moreover from beat have "wk_active wk2 = wk_active wk1" "wk_stopping wk2 = wk_stopping wk1"
    unfolding beat_def act_iffs by (auto simp: act_iffs split: if_splits)
  ultimately have active: "wk_active wk2 = filter (\<lambda>r. over r = None) (wk_active wk)"
    "wk_stopping wk2 = wk_stopping wk"
    by simp_all
  moreover have "length (filter (\<lambda>r. over r = None) (wk_active wk)) \<le> sch_slots (sv_scheduler sv)"
    using fits length_filter_le [of _ "wk_active wk"] by (meson le_trans)
  ultimately show ?thesis using claim_more_active [OF claims] by auto
qed


section \<open>Concrete services\<close>

text \<open>A runtime whose every turn ends in an error, on the concrete scheduler and host.\<close>

definition sample_outcome :: "execution_context \<Rightarrow> runtime_outcome" where
  "sample_outcome ctx =
     \<lparr>ro_kind = error_outcome, ro_run = c_run ctx, ro_input_revision = c_input_revision ctx,
      ro_checkpoint = None, ro_result = None, ro_interrupts = [], ro_error = None\<rparr>"

definition sample_services :: "'x services" where
  "sample_services =
     \<lparr>sv_scheduler = sample_scheduler, sv_host = sample_host, sv_heartbeat = 10000,
      sv_prepare = (\<lambda>_. ret (JObj [])),
      sv_checkpoint = (\<lambda>_. raise (HErr ''checkpoint_not_found'' 404)),
      sv_resume = (\<lambda>ctx _ _. ret (sample_outcome ctx)), sv_start = (\<lambda>ctx _ _. ret (sample_outcome ctx)),
      sv_continue = (\<lambda>ctx. ret (sample_outcome ctx)), sv_request_cancel = (\<lambda>_. ret ()),
      sv_release = (\<lambda>_. ret ()), sv_cancel_processes = (\<lambda>_. ret ()), sv_close_scope = (\<lambda>_. ret ())\<rparr>"

definition sample_worker :: worker where
  "sample_worker =
     \<lparr>wk_instance = ''local'', wk_id = ''local:1'', wk_pid = 1, wk_started = 0, wk_active = [],
      wk_contexts = [], wk_stopping = False, wk_heartbeat = 0\<rparr>"

lemma sample_scheduler_quiet: "quiet_hooks sample_scheduler"
  by (auto simp: quiet_hooks_def sample_scheduler_def tri_def same_view_def)

lemma sample_services_quiet: "quiet_services sample_services"
  using sample_scheduler_quiet
  by (auto simp: quiet_services_def sample_services_def sample_host_def
      intro: path.keeps_ret path.keeps_raise)

lemma worker_slots_witness:
  "\<exists>wk v. tick 5 (sample_services :: unit services) (\<lambda>_. None) 0 sample_worker running_world = (Inr wk, v) \<and>
     length (wk_active wk) \<le> 2"
proof -
  have "\<not> isl (fst (tick 5 (sample_services :: unit services) (\<lambda>_. None) 0 sample_worker running_world))"
    by code_simp
  then obtain wk v where run: "tick 5 (sample_services :: unit services) (\<lambda>_. None) 0 sample_worker running_world = (Inr wk, v)"
    by (cases "tick 5 (sample_services :: unit services) (\<lambda>_. None) 0 sample_worker running_world"; cases "fst (tick 5 (sample_services :: unit services) (\<lambda>_. None) 0 sample_worker running_world)") auto
  from worker_slots [OF run] have "length (wk_active wk) \<le> 2"
    by (simp add: sample_services_def sample_scheduler_def sample_worker_def)
  with run show ?thesis by blast
qed

text \<open>A final outcome while a steering message is pending.\<close>

definition steered_world :: world where
  "steered_world = running_world\<lparr>t_input_commands := [\<lparr>ic_id = ''c'', ic_run = ''run'', ic_revision = 2,
     ic_text = ''more'', ic_consumed = False, ic_created = 0\<rparr>]\<rparr>"


end
