(* ===== verification/Model_Budget.thy ===== *)
theory Model_Budget
  imports Scheduler_Steps
begin

text \<open>
  Budgets and permits of model calls (\<^verbatim>\<open>harness/scheduler/budget.py\<close>). Before each network attempt
  a worker reserves the attempt's budget and takes one of a bounded number of permits, which live as
  records shared by all worker processes; a permit ends with its attempt, or with its process. What
  the host knows of processes is a parameter: the creation time of a running process by its number.
\<close>

record budget_adapter =
  ba_scheduled :: bool
  ba_concurrency :: nat
  ba_timeout :: nat
  ba_pid :: int
  ba_start :: rat
  ba_process :: "json \<Rightarrow> rat option"

definition model_boundary :: "budget_adapter \<Rightarrow> access_context \<Rightarrow> unit store" where
  "model_boundary ad actx =
     (case actx of
        Diagnostic d \<Rightarrow>
          bnd utc_now (\<lambda>now. raise_if (d_deadline d \<le> now) (HErr ''DIAGNOSTIC_EXPIRED'' 409))
      | Execution ctx \<Rightarrow> if ba_scheduled ad then boundary ctx else assert_fence ctx False)"

text \<open>A permit counts while it is not released and its own process still runs.\<close>

definition live_permit :: "budget_adapter \<Rightarrow> json \<Rightarrow> bool" where
  "live_permit ad permit \<longleftrightarrow> \<not> jtruthy (jget ''released'' permit) \<and>
     (case ba_process ad (jget ''pid'' permit) of
        None \<Rightarrow> False
      | Some created \<Rightarrow> \<bar>created - jrat 0 (jget ''process_start'' permit)\<bar> < 1 / 100)"

record model_reservation =
  mr_key :: string
  mr_account :: string
  mr_amount :: amount

definition permit_json :: "budget_adapter \<Rightarrow> string \<Rightarrow> string \<Rightarrow> timestamp \<Rightarrow> json" where
  "permit_json ad key account expires = JObj
     [(''key'', JStr key), (''pid'', JInt (ba_pid ad)), (''process_start'', JFloat (ba_start ad)),
      (''account_id'', JStr account), (''expires_at'', JInt (int expires)),
      (''released'', JBool False)]"

definition account_of :: "access_context \<Rightarrow> string" where
  "account_of actx = (case actx of Diagnostic d \<Rightarrow> d_account d | Execution ctx \<Rightarrow> c_root ctx)"

definition snapshot_key :: "access_context \<Rightarrow> string" where
  "snapshot_key actx = (case actx of Diagnostic d \<Rightarrow> d_snapshot d | Execution ctx \<Rightarrow> c_snapshot ctx)"

text \<open>What the attempt may use at most; with a cost limit the model's prices must be known.\<close>

definition model_amount :: "access_context \<Rightarrow> int \<Rightarrow> int option \<Rightarrow> amount store" where
  "model_amount actx input output =
     bnd (ret (case output of None \<Rightarrow> 0 | Some n \<Rightarrow> n)) (\<lambda>out.
     bnd (ret [(''model_calls'', 1), (''total_tokens'', of_int (input + out))]) (\<lambda>base.
     bnd (store_account (account_of actx)) (\<lambda>account.
     case map_of (acc_limits account) ''cost'' of
       Some (Some limit) \<Rightarrow>
         bnd (store_get ''snapshots'' (snapshot_key actx)) (\<lambda>snapshot.
         bnd (ret (jget_or ''model_profile'' (JObj []) (or_empty snapshot))) (\<lambda>profile.
         bnd (ret (jget ''input_price_per_million'' profile, jget ''output_price_per_million'' profile)) (\<lambda>prices.
         if fst prices = JNull \<or> snd prices = JNull then raise (HErr ''UNKNOWN_MODEL_PRICE'' 409)
         else ret (base @ [(''cost'',
           (of_int input * jrat 0 (fst prices) + of_int out * jrat 0 (snd prices)) / 1000000)]))))
     | _ \<Rightarrow> ret base)))"

definition try_reserve ::
  "budget_adapter \<Rightarrow> access_context \<Rightarrow> string \<Rightarrow> timestamp \<Rightarrow> int \<Rightarrow> int option \<Rightarrow>
   model_reservation option store" where
  "try_reserve ad actx key expires input output =
     transaction
       (bnd (store_list ''model_permits'') (\<lambda>permits.
        if ba_concurrency ad \<le> length (filter (live_permit ad) permits) then ret None
        else
          bnd (model_amount actx input output) (\<lambda>amount.
          bnd (reserve (account_of actx) key amount) (\<lambda>_.
          andthen (store_put ''model_permits'' key (permit_json ad key (account_of actx) expires))
          (ret (Some \<lparr>mr_key = key, mr_account = account_of actx, mr_amount = amount\<rparr>))))))"

text \<open>
  The waiting loop, with what happens to the world during each of its sleeps. \<open>None\<close>: still waiting
  when the given sleeps are over.
\<close>

fun reserve_loop ::
  "budget_adapter \<Rightarrow> access_context \<Rightarrow> string \<Rightarrow> timestamp \<Rightarrow> int \<Rightarrow> int option \<Rightarrow>
   (world \<Rightarrow> world) list \<Rightarrow> model_reservation option store" where
  "reserve_loop ad actx key expires input output [] =
     andthen (model_boundary ad actx) (try_reserve ad actx key expires input output)"
| "reserve_loop ad actx key expires input output (s # sleeps) =
     andthen (model_boundary ad actx)
     (bnd (try_reserve ad actx key expires input output) (\<lambda>got.
      case got of
        Some r \<Rightarrow> ret (Some r)
      | None \<Rightarrow> andthen (modify s) (reserve_loop ad actx key expires input output sleeps)))"

definition model_reserve ::
  "budget_adapter \<Rightarrow> access_context \<Rightarrow> string \<Rightarrow> int \<Rightarrow> int option \<Rightarrow> (world \<Rightarrow> world) list \<Rightarrow>
   model_reservation option store" where
  "model_reserve ad actx attempt input output sleeps =
     bnd (after_ms (ba_timeout ad)) (\<lambda>expires.
     reserve_loop ad actx (''model:'' @ attempt) expires input output sleeps)"

record model_usage =
  mu_source :: string
  mu_total :: "int option"
  mu_cost :: "rat option"

definition model_actual :: "amount \<Rightarrow> model_usage \<Rightarrow> amount option" where
  "model_actual reserved usage =
     (case (mu_source usage = ''provider'', mu_total usage) of
        (True, Some n) \<Rightarrow>
          (let base = [(''model_calls'', 1), (''total_tokens'', of_int n)]
           in if ''cost'' \<notin> fst ` set reserved then Some base
              else (case mu_cost usage of None \<Rightarrow> None | Some c \<Rightarrow> Some (base @ [(''cost'', c)])))
      | _ \<Rightarrow> None)"

definition model_settle :: "model_reservation option \<Rightarrow> model_usage \<Rightarrow> unit store" where
  "model_settle reservation usage =
     (case reservation of
        None \<Rightarrow> ret ()
      | Some r \<Rightarrow>
          finally_act (bnd (settle (mr_key r) (model_actual (mr_amount r) usage)) (\<lambda>_. ret ()))
            (store_delete ''model_permits'' (mr_key r)))"

section \<open>At most as many permits as allowed\<close>

definition permit_count :: "(json \<Rightarrow> rat option) \<Rightarrow> world \<Rightarrow> nat" where
  "permit_count alive w = length (filter (\<lambda>r. rec_namespace r = ''model_permits'' \<and>
     live_permit \<lparr>ba_scheduled = False, ba_concurrency = 0, ba_timeout = 0, ba_pid = 0, ba_start = 0,
       ba_process = alive\<rparr> (rec_payload r)) (t_records w))"

definition permits_ok :: "(json \<Rightarrow> rat option) \<Rightarrow> nat \<Rightarrow> world \<Rightarrow> bool" where
  "permits_ok alive n w \<longleftrightarrow> distinct (map rec_id (t_records w)) \<and> permit_count alive w \<le> n"

interpretation permits: db_history "inv_kept (permits_ok alive n)" for alive n
  by unfold_locales (auto simp: inv_kept_def permits_ok_def permit_count_def)

interpretation same_records: db_history "same_view t_records"
  by unfold_locales (auto simp: same_view_def)

lemma live_permit_process:
  "live_permit ad p \<longleftrightarrow> live_permit \<lparr>ba_scheduled = False, ba_concurrency = 0, ba_timeout = 0,
     ba_pid = 0, ba_start = 0, ba_process = ba_process ad\<rparr> p"
  by (simp add: live_permit_def)

lemma listed_permits:
  "length (filter (live_permit ad) (map rec_payload (sort_key rec_key
     (filter (\<lambda>r. rec_namespace r = ''model_permits'') (t_records w))))) =
   permit_count (ba_process ad) w"
proof -
  have "length (filter P (sort_key rec_key rs)) = length (filter P rs)" for P and rs :: "record_row list"
    by (simp add: filter_sort)
  then show ?thesis
    by (simp add: permit_count_def filter_map o_def filter_filter conj_commute
        live_permit_process [of ad, symmetric])
qed

lemma update_key_count:
  "distinct (map key rows) \<Longrightarrow>
   length (filter P (update_rows (\<lambda>r. key r = k) (\<lambda>_. row) rows)) \<le> Suc (length (filter P rows))"
proof (induction rows)
  case (Cons x xs)
  show ?case
  proof (cases "key x = k")
    case True
    with Cons.prems have "update_rows (\<lambda>r. key r = k) (\<lambda>_. row) xs = xs"
      by (auto simp: update_rows_def image_iff intro!: map_idI)
    with True show ?thesis by (simp add: update_rows_def)
  next
    case False
    with Cons show ?thesis by (simp add: update_rows_def)
  qed
qed (simp add: update_rows_def)

lemma count_upsert:
  "distinct (map rec_id (t_records w)) \<Longrightarrow>
   permit_count alive (upsert_record row w) \<le> Suc (permit_count alive w)"
  using update_key_count [of rec_id] by (simp add: permit_count_def upsert_record_def)

lemma put_permit:
  "tri (inv_kept (permits_ok alive n)) (\<lambda>w. permits_ok alive n w \<and> permit_count alive w < n)
     (store_put ns k v) (\<lambda>_ _. True)"
proof -
  let ?R = "inv_kept (permits_ok alive n)" and ?P = "\<lambda>w. permits_ok alive n w \<and> permit_count alive w < n"
  have upsert: "tri ?R ?P (modify (upsert_record row)) (\<lambda>_ _. True)" for row
    by (auto simp: tri_def inv_kept_def permits_ok_def
        intro!: distinct_upsert order.trans [OF count_upsert])
  have version: "keeps ?R (insert_version row)" for row
    unfolding insert_version_def
    by (intro permits.keeps_db keeps_modify) (simp add: inv_kept_def permits_ok_def permit_count_def)
  have rest: "keeps ?R (andthen (whenever b (insert_version row)) (ret x))" for b row and x :: 'c
    by (intro permits.keeps_db version)
  have free: "?P w \<Longrightarrow> ?P (w\<lparr>w_active := b\<rparr>)" for w b
    by (simp add: permits_ok_def permit_count_def)
  have cas: "tri ?R ?P (compare_and_set ns k e v) (\<lambda>_ _. True)" for e
    unfolding compare_and_set_def Let_def
    by (rule permits.tri_transaction, rule inv.tri_bnd [where Q = "\<lambda>_. ?P"], simp add: tri_def inv_kept_def,
        rule inv.tri_andthen [where Q = ?P], simp add: tri_def raise_if_def inv_kept_def,
        rule inv.tri_andthen, rule upsert, rule rest) (simp_all add: free)
  show ?thesis
    unfolding store_put_def
    by (rule permits.tri_transaction, rule inv.tri_bnd [where Q = "\<lambda>_. ?P"], simp add: tri_def inv_kept_def,
        rule inv.tri_andthen, rule cas, rule inv.keeps_ret) (simp_all add: free)
qed

lemma records_tri: "keeps (same_view t_records) m \<Longrightarrow>
    tri (inv_kept (permits_ok alive n)) (\<lambda>w. permits_ok alive n w \<and> permit_count alive w < n) m
      (\<lambda>_ w. permits_ok alive n w \<and> permit_count alive w < n)"
  by (auto simp: tri_def same_view_def inv_kept_def permits_ok_def permit_count_def)

lemma records_keeps:
  "keeps (same_view t_records) (model_amount actx i out)" "keeps (same_view t_records) (reserve a k m)"
  "keeps (same_view t_records) (settle k x)" "keeps (same_view t_records) (model_boundary ad actx)"
proof -
  have get: "keeps (same_view t_records) (store_get ns k)" for ns k
    unfolding store_get_def by (rule view.keeps_gets)
  show "keeps (same_view t_records) (model_amount actx i out)"
    unfolding model_amount_def
    by (cases out; intro same_records.keeps_db same_records.keeps_ledger_reads get) 
  show "keeps (same_view t_records) (reserve a k m)" "keeps (same_view t_records) (settle k x)"
    unfolding reserve_def settle_def insert_unique_def update_where_def
    by (intro same_records.keeps_db same_records.keeps_ledger_reads keeps_modify;
        simp add: same_view_def)+
  show "keeps (same_view t_records) (model_boundary ad actx)"
    unfolding model_boundary_def boundary_def
    by (cases actx) (simp_all only: access_context.case, (intro same_records.keeps_db same_records.keeps_reads)+)
qed

lemma keeps_records: "keeps (same_view t_records) m \<Longrightarrow> keeps (inv_kept (permits_ok alive n)) m"
  by (auto simp: tri_def same_view_def inv_kept_def permits_ok_def permit_count_def)

lemma keeps_try_reserve:
  "keeps (inv_kept (permits_ok (ba_process ad) (ba_concurrency ad)))
     (try_reserve ad actx key expires input output)"
proof (rule triI)
  let ?J = "permits_ok (ba_process ad) (ba_concurrency ad)"
  let ?P = "\<lambda>w. ?J w \<and> permit_count (ba_process ad) w < ba_concurrency ad"
  let ?k = "bnd (model_amount actx input output) (\<lambda>amount.
          bnd (reserve (account_of actx) key amount) (\<lambda>_.
          andthen (store_put ''model_permits'' key (permit_json ad key (account_of actx) expires))
          (ret (Some \<lparr>mr_key = key, mr_account = account_of actx, mr_amount = amount\<rparr>))))"
  have body: "tri (inv_kept ?J) ?P ?k (\<lambda>_ _. True)"
    by (rule inv.tri_bnd [OF records_tri [OF records_keeps(1)]],
        rule inv.tri_bnd [OF records_tri [OF records_keeps(2)]],
        rule inv.tri_andthen [OF put_permit inv.keeps_ret])
  have "tri (inv_kept ?J) ?J (bnd (store_list ''model_permits'') (\<lambda>permits.
      if ba_concurrency ad \<le> length (filter (live_permit ad) permits) then ret None else ?k)) (\<lambda>_ _. True)"
  proof (rule triI)
    fix w r v
    assume J: "?J w" and run: "bnd (store_list ''model_permits'') (\<lambda>permits.
      if ba_concurrency ad \<le> length (filter (live_permit ad) permits) then ret None else ?k) w = (r, v)"
    show "inv_kept ?J w v \<and> (\<forall>x. r = Inr x \<longrightarrow> True)"
    proof (cases "ba_concurrency ad \<le> permit_count (ba_process ad) w")
      case True
      with run show ?thesis by (simp add: store_list_def listed_permits inv_kept_def
          del: length_filter_map)
    next
      case False
      with run have "?k w = (r, v)" by (simp add: store_list_def listed_permits del: length_filter_map)
      with body J False show ?thesis by (auto dest: triD(1))
    qed
  qed
  then have "tri (inv_kept ?J) ?J (try_reserve ad actx key expires input output) (\<lambda>_ _. True)"
    unfolding try_reserve_def
    by (rule permits.tri_transaction) (simp_all add: permits_ok_def permit_count_def)
  moreover fix w r v assume "try_reserve ad actx key expires input output w = (r, v)"
  ultimately show "inv_kept ?J w v \<and> (\<forall>x. r = Inr x \<longrightarrow> True)"
    by (cases "?J w") (auto dest: triD(1) simp: inv_kept_def)
qed

lemma keeps_model_reserve:
  assumes "\<And>s w. s \<in> set sleeps \<Longrightarrow> inv_kept (permits_ok (ba_process ad) (ba_concurrency ad)) w (s w)"
  shows "keeps (inv_kept (permits_ok (ba_process ad) (ba_concurrency ad)))
    (model_reserve ad actx attempt input output sleeps)"
proof -
  have "keeps (inv_kept (permits_ok (ba_process ad) (ba_concurrency ad)))
    (reserve_loop ad actx key expires input output sleeps)" for key expires
    using assms
  proof (induction sleeps)
    case Nil
    then show ?case
      unfolding reserve_loop.simps
      by (intro permits.keeps_db keeps_try_reserve keeps_records records_keeps)
  next
    case (Cons s sleeps)
    from Cons.prems have "keeps (inv_kept (permits_ok (ba_process ad) (ba_concurrency ad))) (modify s)"
      by (intro keeps_modify) simp
    with Cons show ?case
      unfolding reserve_loop.simps
      by (intro permits.keeps_db keeps_try_reserve keeps_records [OF records_keeps(4)]) simp_all
  qed
  then show ?thesis unfolding model_reserve_def by (intro permits.keeps_db)
qed

lemma delete_permit:
  "keeps (inv_kept (permits_ok alive n)) (store_delete ns k)"
proof -
  have "length (filter P (filter Q xs)) \<le> length (filter P xs)" for P Q and xs :: "record_row list"
    by (induction xs) auto
  then have "permit_count alive (w\<lparr>t_records := filter Q (t_records w)\<rparr>) \<le> permit_count alive w" for w Q
    by (simp add: permit_count_def)
  then show ?thesis
    unfolding store_delete_def
    by (intro keeps_modify) (auto simp: inv_kept_def permits_ok_def distinct_map_filter intro: le_trans)
qed

lemma keeps_model_settle: "keeps (inv_kept (permits_ok alive n)) (model_settle r u)"
  unfolding model_settle_def
  by (intro permits.keeps_db delete_permit keeps_records records_keeps)

section \<open>Histories of attempts\<close>

datatype permit_call =
    Take access_context string int "int option"
  | Give "model_reservation option" model_usage

fun permit_step :: "budget_adapter \<Rightarrow> permit_call \<Rightarrow> world \<Rightarrow> world" where
  "permit_step ad (Take actx attempt input output) w = snd (model_reserve ad actx attempt input output [] w)"
| "permit_step ad (Give r usage) w = snd (model_settle r usage w)"

definition permit_calls :: "(budget_adapter \<times> permit_call) list \<Rightarrow> world \<Rightarrow> world" where
  "permit_calls cs w = fold (\<lambda>c. permit_step (fst c) (snd c)) cs w"

text \<open>
  C17: any number of worker processes sharing the database, reserving and settling model attempts in
  any order, never hold more live permits together than the configured concurrency.
\<close>

theorem permits_bounded:
  assumes "\<forall>c\<in>set cs. ba_process (fst c) = alive \<and> ba_concurrency (fst c) = n"
    and "permits_ok alive n w"
  shows "permit_count alive (permit_calls cs w) \<le> n"
proof -
  have step: "permits_ok alive n (permit_step ad c v)"
    if "ba_process ad = alive" "ba_concurrency ad = n" "permits_ok alive n v" for ad c v
    using that keeps_model_reserve [of "[]" ad] keeps_model_settle [of alive n]
    by (cases c) (auto simp: tri_def inv_kept_def)
  from assms have "permits_ok alive n (permit_calls cs w)"
    unfolding permit_calls_def
  proof (induction cs arbitrary: w)
    case (Cons c cs)
    then show ?case using step [of "fst c" w "snd c"] by simp
  qed simp
  then show ?thesis by (simp add: permits_ok_def)
qed

definition sample_adapter :: budget_adapter where
  "sample_adapter =
     \<lparr>ba_scheduled = False, ba_concurrency = 1, ba_timeout = 120000, ba_pid = 7, ba_start = 1,
      ba_process = (\<lambda>p. if p = JInt 7 then Some 1 else None)\<rparr>"

definition sample_diagnostic :: diagnostic_context where
  "sample_diagnostic =
     \<lparr>d_id = ''d'', d_owner = ''u'', d_workspace = None, d_snapshot = ''s'', d_account = ''acc'',
      d_deadline = 100, d_trace = ''t''\<rparr>"

definition model_world :: world where
  "model_world = fresh_store\<lparr>t_accounts :=
     [sample_account\<lparr>acc_limits := [(''model_calls'', Some 5), (''total_tokens'', Some 100)]\<rparr>]\<rparr>"

abbreviation two_takes :: "(budget_adapter \<times> permit_call) list" where
  "two_takes \<equiv> [(sample_adapter, Take (Diagnostic sample_diagnostic) ''a'' 10 (Some 20)),
     (sample_adapter, Take (Diagnostic sample_diagnostic) ''b'' 10 (Some 20))]"

lemma permits_bounded_witness:
  "permit_count (ba_process sample_adapter) (permit_calls two_takes model_world) \<le> 1"
  by (rule permits_bounded)
    (simp_all add: sample_adapter_def permits_ok_def permit_count_def model_world_def fresh_store_def
      empty_world_def)

text \<open>
  When a model attempt is over its permit is gone, whatever becomes of the settlement; and an
  attempt whose usage the provider did not confirm keeps what it had reserved held in the ledger,
  with its reservation marked unknown.
\<close>

theorem model_settle_frees_permit:
  assumes "model_settle (Some r) usage w = (x, v)"
  shows "fst (store_get ''model_permits'' (mr_key r) v) = Inr None \<and>
    (model_actual (mr_amount r) usage = None \<longrightarrow>
       (\<forall>s. reservation_at w (mr_key r) = Some s \<longrightarrow> rv_state s \<noteq> rv_settled \<longrightarrow>
          reservation_at v (mr_key r) = Some (s\<lparr>rv_state := rv_unknown\<rparr>) \<and>
          t_accounts v = t_accounts w))"
proof (intro conjI impI allI)
  let ?del = "\<lambda>u. u\<lparr>t_records := filter (\<lambda>a. rec_id a \<noteq> (''model_permits'', mr_key r)) (t_records u)\<rparr>"
  obtain y u where step: "settle (mr_key r) (model_actual (mr_amount r) usage) w = (y, u)"
    by (cases "settle (mr_key r) (model_actual (mr_amount r) usage) w")
  with assms have v: "v = ?del u"
    by (auto simp: model_settle_def bnd_def finally_act_def store_delete_def split: sum.splits)
  show "fst (store_get ''model_permits'' (mr_key r) v) = Inr None"
    by (simp add: v store_get_def record_value_def record_at_def row_of_filter_out)
  fix s
  assume "model_actual (mr_amount r) usage = None" and "reservation_at w (mr_key r) = Some s"
    and "rv_state s \<noteq> rv_settled"
  with step have "u = mark_reservation (mr_key r) (\<lambda>r. r\<lparr>rv_state := rv_unknown\<rparr>) w"
    by (auto simp: settle_eval settle_result_def)
  with \<open>reservation_at w (mr_key r) = Some s\<close>
  show "reservation_at v (mr_key r) = Some (s\<lparr>rv_state := rv_unknown\<rparr>)" "t_accounts v = t_accounts w"
    by (simp_all add: v mark_reservation_def reservation_at_def row_of_update_key)
qed


lemma model_settle_frees_permit_witness:
  "\<exists>v. fst (store_get ''model_permits'' ''model:a'' v) = Inr None"
  using model_settle_frees_permit [OF prod.collapse [symmetric], of "\<lparr>mr_key = ''model:a'', mr_account = ''acc'',
    mr_amount = [(''model_calls'', 1)]\<rparr>" "\<lparr>mu_source = ''unknown'', mu_total = None, mu_cost = None\<rparr>" model_world]
  by auto

end
