(* ===== verification/System.thy ===== *)
theory System
  imports Worker Model_Budget
begin

text \<open>
  The program as a whole: the calls that clients, workers and running tools make, performed one
  after the other on one database, with time passing in between. The safety properties are stated
  over arbitrary histories of calls, successful or refused; they follow from the invariants of
  \<open>Run_Steps\<close>, because every call keeps to that specification.
\<close>

section \<open>Calls\<close>

record environment =
  en_scheduler :: scheduler
  en_gateway :: gateway
  en_host :: "executor host"
  en_stop :: "string \<Rightarrow> unit store"
  en_services :: "executor services"
  en_fuel :: nat

datatype command =
    Submit string string json "json option"
  | Claim string int rat
  | Heartbeat execution_context
  | Settle_run execution_context runtime_outcome
  | Respond string string answer_request
  | Expire
  | Cancel string string string
  | Finish_idle
  | Delegate execution_context operation_key json
  | Await_children execution_context string "string list" string
  | Refresh_waits
  | Recover
  | Reconcile string string json
  | Steer string string string int
  | Create_branch string string checkpoint_ref int string "string option" "checkpoint_ref option"
  | Execute_tool execution_context operation_key string json
  | Create_workspace string string string json
  | Save_project string string "string list" json "string option" "int option"
  | Remove_project string string int
  | Create_session string string string
  | Patch_session string int "string option" "bool option"
  | Put_record string string json
  | Set_record string string "int option" json
  | Delete_record string string
  | Commit_message string string string json
  | Acknowledge execution_context "string list"
  | Publish_events
  | Publish_frame string json
  | Add_artifact artifact_row
  | Reserve_budget string string amount
  | Settle_budget string "amount option"
  | Tick_worker "string \<Rightarrow> err option option" nat worker
  | Run_task execution_context
  | Take_permit budget_adapter access_context string int "int option"
  | Give_permit "model_reservation option" model_usage
  | Wait_until timestamp

fun perform :: "environment \<Rightarrow> command \<Rightarrow> world \<Rightarrow> world" where
  "perform E (Submit own se rq given) w = snd (submit (en_scheduler E) own se rq given w)"
| "perform E (Claim worker pid started) w = snd (claim (en_scheduler E) worker pid started w)"
| "perform E (Heartbeat ctx) w = snd (sched_heartbeat (en_scheduler E) ctx w)"
| "perform E (Settle_run ctx oc) w = snd (sched_settle (en_scheduler E) ctx oc w)"
| "perform E (Respond own i rq) w = snd (respond (en_scheduler E) own i rq w)"
| "perform E Expire w = snd (expire_interactions (en_scheduler E) w)"
| "perform E (Cancel own i reason) w =
     snd (cancel (en_scheduler E) (en_fuel E) (en_stop E) own i reason w)"
| "perform E Finish_idle w = snd (finish_idle_cancellations (en_scheduler E) w)"
| "perform E (Delegate ctx key rq) w = snd (delegate (en_scheduler E) ctx key rq w)"
| "perform E (Await_children ctx key cs md) w = snd (prepare_wait ctx key cs md w)"
| "perform E Refresh_waits w = snd (refresh_waits (en_scheduler E) w)"
| "perform E Recover w = snd (recover (en_scheduler E) (en_host E) w)"
| "perform E (Reconcile own i rq) w = snd (sched_reconcile (en_scheduler E) (en_gateway E) own i rq w)"
| "perform E (Steer own i txt n) w = snd (steer own i txt n w)"
| "perform E (Create_branch own se ck n pol key cp) w = snd (create_branch own se ck n pol key cp w)"
| "perform E (Execute_tool ctx key name args) w = snd (execute (en_gateway E) ctx key name args w)"
| "perform E (Create_workspace own n rt pol) w = snd (create_workspace own n rt pol w)"
| "perform E (Save_project own n rs pol i e) w = snd (save_project own n rs pol i e w)"
| "perform E (Remove_project own i n) w = snd (remove_project own i n w)"
| "perform E (Create_session ws t a) w = snd (create_session ws t a w)"
| "perform E (Patch_session i n t a) w = snd (patch_session i n t a w)"
| "perform E (Put_record ns k v) w = snd (store_put ns k v w)"
| "perform E (Set_record ns k n v) w = snd (compare_and_set ns k n v w)"
| "perform E (Delete_record ns k) w = snd (store_delete ns k w)"
| "perform E (Commit_message i m r p) w = snd (add_message i m r p w)"
| "perform E (Acknowledge ctx ids) w = snd (ack_input_commands ctx ids w)"
| "perform E Publish_events w = snd (publish_event_outbox w)"
| "perform E (Publish_frame i d) w = snd (publish_ephemeral i d w)"
| "perform E (Add_artifact a) w = snd (add_artifact a w)"
| "perform E (Reserve_budget i k m) w = snd (reserve i k m w)"
| "perform E (Settle_budget k m) w = snd (settle k m w)"
| "perform E (Tick_worker over now wk) w = snd (tick (en_fuel E) (en_services E) over now wk w)"
| "perform E (Run_task ctx) w = snd (execute_run (en_fuel E) (en_services E) ctx w)"
| "perform E (Take_permit ad actx attempt input output) w =
     snd (model_reserve ad actx attempt input output [] w)"
| "perform E (Give_permit r usage) w = snd (model_settle r usage w)"
| "perform E (Wait_until t) w = w\<lparr>w_now := max (w_now w) t\<rparr>"

definition perform_all :: "environment \<Rightarrow> command list \<Rightarrow> world \<Rightarrow> world" where
  "perform_all E cs w = fold (perform E) cs w"

text \<open>
  The parts of the environment that are not in the model leave runs, branches and events to the
  calls above: the hooks and checks of the scheduler, the gateway's host functions, and what stops
  processes; an executor may itself make any of the changes the specification allows.
\<close>

definition quiet_environment :: "environment \<Rightarrow> bool" where
  "quiet_environment E \<longleftrightarrow>
     quiet_hooks (en_scheduler E) \<and> quiet_gateway (en_gateway E) \<and> quiet_services (en_services E) \<and>
     (\<forall>i. keeps run_path (ho_stop (en_host E) i)) \<and> (\<forall>i. keeps run_path (en_stop E i))"

section \<open>Every call keeps to the specification\<close>

lemma keeps_snd: "tri R P m Q \<Longrightarrow> P w \<Longrightarrow> R w (snd (m w))"
  by (simp add: tri_def)

lemma keeps_plain_calls:
  "keeps run_path (sched_heartbeat s ctx)" "keeps run_path (prepare_wait ctx key cs md)"
  "keeps run_path (create_workspace own n rt pol)" "keeps run_path (save_project own n rs pol oi e)"
  "keeps run_path (remove_project own k n')" "keeps run_path (patch_session k n' t b)"
  "keeps run_path (store_put ns k v)" "keeps run_path (compare_and_set ns k e' v)"
  "keeps run_path (store_delete ns k)" "keeps run_path publish_event_outbox"
  "keeps run_path (publish_ephemeral k v)" "keeps run_path (add_artifact a)"
  "keeps run_path (reserve k m am)" "keeps run_path (settle k am')"
  unfolding sched_heartbeat_def by (intro path_rules path_keeps)+

lemma keeps_permits:
  "keeps run_path (model_reserve ad actx attempt input output [])" "keeps run_path (model_settle r u)"
proof -
  have bound: "keeps run_path (model_boundary ad actx)"
    unfolding model_boundary_def boundary_def
    by (cases actx) (simp_all only: access_context.case, (intro path_rules path_keeps)+)
  have amount: "keeps run_path (model_amount actx inp out)" for inp out
    unfolding model_amount_def by (cases out; intro path_rules path_keeps)
  show "keeps run_path (model_reserve ad actx attempt input output [])"
    unfolding model_reserve_def reserve_loop.simps try_reserve_def by (intro path_rules path_keeps bound amount)
  show "keeps run_path (model_settle r u)"
    unfolding model_settle_def by (intro path_rules path_keeps)
qed

lemma perform_path:
  assumes E: "quiet_environment E" and w: "distinct_runs w"
  shows "run_path w (perform E c w)"
proof -
  have hooks: "quiet_hooks (en_scheduler E)" and gw: "quiet_gateway (en_gateway E)"
    and sv: "quiet_services (en_services E)"
    and stop: "\<And>i. keeps run_path (ho_stop (en_host E) i)" "\<And>i. keeps run_path (en_stop E i)"
    using E by (simp_all add: quiet_environment_def)
  note scheduler_calls = keeps_submit [OF hooks] keeps_claim [OF hooks] keeps_sched_settle [OF hooks]
    keeps_respond [OF hooks] keeps_expire [OF hooks] keeps_cancel [OF hooks stop(2)]
    keeps_finish_idle [OF hooks] keeps_delegate [OF hooks] keeps_refresh [OF hooks]
    keeps_recover [OF hooks stop(1)] keeps_sched_reconcile [OF hooks gw] keeps_execute [OF gw]
    keeps_branching path_misc keeps_add_message keeps_plain_calls keeps_permits
    keeps_tick [OF sv] keeps_execute_run [OF sv]
  show ?thesis
    by (cases c) (auto simp: w core_def
        intro: scheduler_calls [THEN keeps_snd] run_path_core)
qed

lemma perform_all_path:
  assumes E: "quiet_environment E" and w: "distinct_runs w"
  shows "run_path w (perform_all E cs w)"
  using w unfolding perform_all_def
proof (induction cs arbitrary: w)
  case Nil
  then show ?case by simp
next
  case (Cons c cs)
  from perform_path [OF E Cons.prems] have step: "run_path w (perform E c w)" .
  with stable_distinct Cons.prems have "distinct_runs (perform E c w)"
    unfolding stable_def by blast
  from path.trans_history [OF step Cons.IH [OF this]] show ?case by simp
qed

section \<open>Sound worlds\<close>

text \<open>
  What holds of every world the program can be in: an engaged run owns its branch, the event log of
  every run is numbered without gaps, and no two rows share a run's identity. The empty database is
  sound, and every history of calls keeps a sound world sound.
\<close>

definition sound :: "world \<Rightarrow> bool" where
  "sound w \<longleftrightarrow> owner_inv w \<and> log_inv w \<and> distinct_runs w"

lemma empty_sound: "sound (empty_world uuid now)"
  by (simp add: sound_def empty_invs) (simp add: distinct_runs_def empty_world_def)

lemma stable_sound: "stable sound"
  unfolding stable_def sound_def using path_invs stable_distinct [unfolded stable_def] by blast

lemma perform_all_sound:
  assumes "quiet_environment E" and "sound w"
  shows "run_path w (perform_all E cs w) \<and> sound (perform_all E cs w)"
proof -
  from assms have "run_path w (perform_all E cs w)"
    by (intro perform_all_path) (simp_all add: sound_def)
  with assms stable_sound show ?thesis unfolding stable_def by blast
qed

lemma perform_all_append: "perform_all E (cs @ ds) w = perform_all E ds (perform_all E cs w)"
  by (simp add: perform_all_def)

section \<open>Fences\<close>

text \<open>A step never gives an old fence back: a context behind the run's fence stays behind it.\<close>

definition behind :: "execution_context \<Rightarrow> world \<Rightarrow> bool" where
  "behind ctx w \<longleftrightarrow> (\<exists>r. run_at w (c_run ctx) = Some r \<and> c_fence ctx < r_fence r)"

lemma stable_behind: "stable (behind ctx)"
  unfolding stable_def
proof (intro allI impI)
  fix w v
  assume path: "run_path w v" and "behind ctx w"
  then obtain r where r: "run_at w (c_run ctx) = Some r" "c_fence ctx < r_fence r"
    by (auto simp: behind_def)
  from path_progress [OF path r(1)] obtain r' where "run_at v (c_run ctx) = Some r'" "row_progress r r'"
    by blast
  with r(2) show "behind ctx v" by (auto simp: behind_def row_progress_def)
qed

lemma behind_shut: "behind ctx w \<Longrightarrow> \<not> fence_open w ctx b"
  by (auto simp: behind_def fence_open_def)

text \<open>An action refused before it did anything.\<close>

definition refused :: "'a store \<Rightarrow> world \<Rightarrow> bool" where
  "refused m w \<longleftrightarrow> (\<exists>e. m w = (Inl e, w))"

lemma refused_assert: "\<not> fence_open w ctx b \<Longrightarrow> refused (assert_fence ctx b) w"
  by (cases "fence_result ctx b w")
    (auto simp: refused_def assert_fence_eval fence_result_Inr)

lemma refused_andthen: "refused m w \<Longrightarrow> refused (andthen m k) w"
  by (auto simp: refused_def)

lemma refused_bnd: "refused m w \<Longrightarrow> refused (bnd m f) w"
  by (auto simp: refused_def)

lemma refused_raise_if: "refused k w \<Longrightarrow> refused (andthen (raise_if b e) k) w"
  by (cases b) (auto simp: refused_def andthen_def bnd_def)

lemma refused_transaction:
  assumes "refused m (w\<lparr>w_active := True\<rparr>)"
  shows "refused (transaction m) w"
proof (cases "w_active w")
  case True
  then have "w\<lparr>w_active := True\<rparr> = w" by simp
  with assms True show ?thesis by (simp add: refused_def)
next
  case False
  with assms show ?thesis by (auto simp: refused_def transaction_def)
qed

lemmas refused_rules = refused_andthen refused_bnd refused_transaction refused_assert refused_raise_if

lemma fenced_writes_refused:
  assumes "\<And>b. \<not> fence_open w ctx b"
  shows "refused (update_run i n ps (Some ctx)) w" "refused (update_operation j n ops (Some ctx)) w"
    "refused (prepare_operation ctx oq) w" "refused (consume_grant ctx g bd pn) w"
    "refused (prepare_interaction ctx key kind pl ex) w" "refused (store_heartbeat ctx t) w"
    "refused (ack_input_commands ctx ids) w" "refused (boundary ctx) w"
    "refused (sched_settle s ctx oc) w" "refused (delegate s ctx dk rq) w"
    "refused (execute gw ctx dk name args) w"
proof -
  have shut: "\<not> fence_open (w\<lparr>w_active := True\<rparr>) ctx b" for b using assms by simp
  show "refused (update_run i n ps (Some ctx)) w" "refused (update_operation j n ops (Some ctx)) w"
    unfolding update_run_def update_operation_def by (simp, intro refused_rules shut)+
  show "refused (prepare_operation ctx oq) w" "refused (consume_grant ctx g bd pn) w"
    "refused (prepare_interaction ctx key kind pl ex) w" "refused (store_heartbeat ctx t) w"
    "refused (ack_input_commands ctx ids) w" "refused (boundary ctx) w"
    unfolding prepare_operation_def consume_grant_def prepare_interaction_def store_heartbeat_def
      ack_input_commands_def boundary_def
    by (intro refused_rules shut assms)+
  show "refused (sched_settle s ctx oc) w" "refused (delegate s ctx dk rq) w"
    "refused (execute gw ctx dk name args) w"
    unfolding sched_settle_def delegate_def execute_def boundary_def Let_def
    by (rule refused_raise_if, rule refused_transaction, rule refused_andthen, rule refused_assert, rule shut)
      (rule refused_transaction refused_andthen refused_raise_if refused_assert shut assms)+
qed

section \<open>The event log\<close>

lemma step_events: "run_step w v \<Longrightarrow> \<exists>es. t_events v = t_events w @ es"
  by (erule run_step.cases) (auto simp: core_def put_run_def put_branch_def)

lemma path_events:
  assumes "run_path w v"
  shows "\<exists>es. t_events v = t_events w @ es"
  using assms unfolding run_path_def
proof (induction rule: rtranclp_induct)
  case base
  then show ?case by simp
next
  case (step u v)
  then show ?case using step_events [OF step(2)] by auto
qed

lemma filter_upto:
  "map f xs = [k..n] \<Longrightarrow> k \<le> a + 1 \<Longrightarrow> filter (\<lambda>x. a < f x) xs = drop (nat (a - k + 1)) xs"
proof (induction xs arbitrary: k)
  case Nil
  then show ?case by simp
next
  case (Cons x xs)
  have k: "k \<le> n" using Cons.prems(1) by (cases "k \<le> n") auto
  with Cons.prems(1) have x: "f x = k" and rest: "map f xs = [k + 1..n]"
    by (simp_all add: upto_rec1)
  show ?case
  proof (cases "k \<le> a")
    case True
    have "nat (a - k + 1) = Suc (nat (a - (k + 1) + 1))" using True by simp
    with Cons.IH [OF rest] True x show ?thesis by simp
  next
    case False
    with Cons.prems(2) have a: "a = k - 1" by simp
    have "filter (\<lambda>y. a < f y) xs = xs"
    proof (rule filter_True, rule ballI)
      fix y assume "y \<in> set xs"
      then have "f y \<in> set (map f xs)" by simp
      with rest a show "a < f y" by simp
    qed
    with a x show ?thesis by simp
  qed
qed

lemma store_events_log:
  assumes "log_inv w" and "run_at w i = Some r" and "0 \<le> a"
  shows "store_events i a l w = (Inr (take l (drop (nat a) (run_log w i))), w)"
proof -
  from assms have log: "map e_seq (run_log w i) = [1..r_next_seq r - 1]"
    unfolding log_inv_def by (auto split: option.splits dest: spec [of _ i])
  have "filter (\<lambda>e. e_run e = i \<and> a < e_seq e) (t_events w) =
      filter (\<lambda>e. a < e_seq e) (run_log w i)"
    unfolding run_log_def filter_filter by (rule filter_cong) auto
  also have "\<dots> = drop (nat a) (run_log w i)"
    using filter_upto [OF log, of a] assms(3) by simp
  finally have eq: "filter (\<lambda>e. e_run e = i \<and> a < e_seq e) (t_events w) = drop (nat a) (run_log w i)" .
  have "sorted (map e_seq (drop (nat a) (run_log w i)))"
    using log by (simp add: drop_map [symmetric] sorted_wrt_drop)
  then have "sort_key e_seq (drop (nat a) (run_log w i)) = drop (nat a) (run_log w i)"
    by (rule sort_key_id_if_sorted)
  with eq show ?thesis by (simp add: store_events_def)
qed

end
