(* ===== verification/Gateway_Guards.thy ===== *)
theory Gateway_Guards
  imports Gateway_Steps
begin

text \<open>
  When the tool gateway runs an executor. Executors are watched: a watched executor refuses to run
  in a world where the call is not authorised. The gateway with watched executors behaves exactly
  like the gateway without, so no executor ever runs unauthorised.
\<close>

section \<open>What the writes leave alone\<close>

definition config :: "world \<Rightarrow> record_row list \<times> workspace_row list \<times> attempt_row list \<times>
    interaction_row list \<times> timestamp" where
  "config w = (t_records w, t_workspaces w, t_attempts w, t_interactions w, w_now w)"

definition op_tables :: "world \<Rightarrow> operation_row list \<times> grant_row list \<times> reservation_row list" where
  "op_tables w = (t_operations w, t_grants w, t_reservations w)"

interpretation same_config: db_history "same_view config"
  by unfold_locales (auto simp: same_view_def config_def)

interpretation same_ops: db_history "same_view op_tables"
  by unfold_locales (auto simp: same_view_def op_tables_def)

lemma view_update_where:
  "(\<And>w. f (upd (update_rows p g) w) = f w) \<Longrightarrow> keeps (same_view f) (update_where upd p g)"
  by (simp add: tri_def same_view_def update_where_def)

lemma view_insert_unique:
  "(\<And>w. f (upd (\<lambda>rs. rs @ [row]) w) = f w) \<Longrightarrow> keeps (same_view f) (insert_unique tbl upd key row)"
  by (simp add: tri_def same_view_def insert_unique_def bnd_def andthen_def raise_if_def)

lemma config_keeps:
  "keeps (same_view config) (add_grant i o' own run b k)"
  "keeps (same_view config) (update_operation i n ps ctx)"
  "keeps (same_view config) (consume_grant cx g b n)"
  "keeps (same_view config) (reserve a k' m)"
  "keeps (same_view config) (store_event i ty d)"
  "keeps (same_view config) (prepare_operation cx oq)"
proof -
  show upd: "keeps (same_view config) (update_operation i n ps ctx)" for i n ps ctx
    unfolding update_operation_def
    by (intro same_config.keeps_db same_config.keeps_reads same_config.keeps_op_reads view_update_where)
      (simp add: config_def)
  show "keeps (same_view config) (add_grant i o' own run b k)"
    unfolding add_grant_def by (intro same_config.keeps_db view_insert_unique) (simp add: config_def)
  show "keeps (same_view config) (consume_grant cx g b n)"
    unfolding consume_grant_def
    by (intro same_config.keeps_db same_config.keeps_reads same_config.keeps_op_reads view_update_where upd)
      (simp add: config_def)
  show "keeps (same_view config) (reserve a k' m)"
    unfolding reserve_def
    by (intro same_config.keeps_db same_config.keeps_ledger_reads view_update_where view_insert_unique;
        simp add: config_def)
  show ev: "keeps (same_view config) (store_event i ty d)" for i ty d
    unfolding store_event_def store_outbox_def
    by (intro same_config.keeps_db same_config.keeps_reads view_update_where same_view_modify;
        simp add: config_def)
  show "keeps (same_view config) (prepare_operation cx oq)"
    unfolding prepare_operation_def insert_operation_def
    by (intro same_config.keeps_db same_config.keeps_reads same_config.keeps_op_reads ev view_insert_unique)
      (simp add: config_def)
qed

lemma ops_keeps:
  "keeps (same_view (\<lambda>w. (t_operations w, t_grants w))) (reserve a k' m)"
  "keeps (same_view op_tables) (store_event i ty d)"
proof -
  show "keeps (same_view op_tables) (store_event i ty d)"
    unfolding store_event_def store_outbox_def
    by (intro same_ops.keeps_db same_ops.keeps_reads view_update_where same_view_modify;
        simp add: op_tables_def)
  show "keeps (same_view (\<lambda>w. (t_operations w, t_grants w))) (reserve a k' m)"
    by (simp add: tri_def same_view_def reserve_eval reserve_result_def Let_def after_reserve_def
        split: option.split sum.split)
qed

text \<open>Fences depend on the runs' status, fence, attempt and cancellation, not on the event counter.\<close>

definition same_fences :: "world \<Rightarrow> world \<Rightarrow> bool" where
  "same_fences w v \<longleftrightarrow> (\<forall>ctx b. fence_open v ctx b = fence_open w ctx b)"

interpretation fences: db_history same_fences
  by unfold_locales (auto simp: same_fences_def fence_open_def run_at_def)

lemma fences_core: "core v = core w \<Longrightarrow> config v = config w \<Longrightarrow> same_fences w v"
  by (auto simp: same_fences_def fence_open_def config_def dest: core_eqD)

lemma fences_counter:
  assumes "core v = core ((put_run i (\<lambda>r. r\<lparr>r_next_seq := r_next_seq r + 1\<rparr>) w)\<lparr>t_events := es\<rparr>)"
    and "config v = config w"
  shows "same_fences w v"
proof -
  have "run_at v j = (if j = i then map_option (\<lambda>r. r\<lparr>r_next_seq := r_next_seq r + 1\<rparr>) (run_at w j)
      else run_at w j)" for j
    using core_eqD [OF assms(1)] by (simp add: at_simps)
  then show ?thesis
    using assms(2) by (auto simp: same_fences_def fence_open_def config_def split: if_splits)
qed

lemma fences_event: "keeps same_fences (store_event i ty d)"
  unfolding store_event_alt
proof (rule fences.keeps_transaction, rule triI, intro conjI)
  fix w r v
  assume run: "event_body i ty d w = (r, v)"
  have "keeps (same_view config) (event_body i ty d)"
    unfolding event_body_def store_outbox_def
    by (intro same_config.keeps_db same_config.keeps_reads view_update_where same_view_modify;
        simp add: config_def)
  then have cfg: "config v = config w"
    using run by (auto simp: same_view_def dest: triD(1))
  show "same_fences w v"
  proof (cases "run_at w i")
    case None
    with run event_body_missing [OF None, of ty d] show ?thesis by (simp add: fences.refl_history)
  next
    case (Some row)
    from event_body_there [OF Some, where ty = ty and d = d] run cfg show ?thesis
      by (auto intro: fences_core fences_counter)
  qed
qed simp

lemma keeps_both:
  "keeps (same_view core) m \<Longrightarrow> keeps (same_view config) m \<Longrightarrow> keeps same_fences m"
  by (auto simp: tri_def same_view_def intro: fences_core)

lemma fences_keeps:
  "keeps same_fences (add_grant i o' own run b k)" "keeps same_fences (update_operation i n ps ctx)"
  "keeps same_fences (consume_grant cx g b n)" "keeps same_fences (reserve a k' m)"
  "keeps same_fences (emit i ty d)"
  unfolding emit_def
  by (intro keeps_both core_keeps config_keeps fences.keeps_db fences_event)+

section \<open>The policy reads\<close>

text \<open>An action that only reads, and what it reads.\<close>

definition reads :: "(world \<Rightarrow> 'v) \<Rightarrow> 'a store \<Rightarrow> bool" where
  "reads f m \<longleftrightarrow> (\<forall>w. snd (m w) = w) \<and> (\<forall>w v. f w = f v \<longrightarrow> fst (m w) = fst (m v))"

lemma reads_ret: "reads f (ret x)" and reads_raise: "reads f (raise e)"
  by (simp_all add: reads_def)

lemma reads_gets:
  assumes "\<And>w v. f w = f v \<Longrightarrow> g w = g v"
  shows "reads f (gets g)"
  unfolding reads_def
proof (intro conjI allI impI)
  show "snd (gets g w) = w" for w by simp
  show "fst (gets g w) = fst (gets g v)" if "f w = f v" for w v
    using assms [OF that] by simp
qed

lemma reads_world: "reads f m \<Longrightarrow> snd (m w) = w"
  and reads_same: "reads f m \<Longrightarrow> f w = f v \<Longrightarrow> fst (m w) = fst (m v)"
  unfolding reads_def by blast+

lemma reads_eq: "reads f m \<Longrightarrow> m w = (r, u) \<Longrightarrow> f v = f w \<Longrightarrow> u = w \<and> m v = (r, v)"
  using reads_world [of f m w] reads_world [of f m v] reads_same [of f m w v]
  by (cases "m v") simp

lemma reads_bnd:
  assumes m: "reads f m" and k: "\<And>x. reads f (k x)"
  shows "reads f (bnd m k)"
proof -
  have run: "bnd m k w = (case fst (m w) of Inl e \<Rightarrow> (Inl e, w) | Inr x \<Rightarrow> k x w)" for w
    using reads_world [OF m, of w] by (cases "m w") (simp add: bnd_def split: sum.split)
  show ?thesis
    unfolding reads_def run
  proof (intro conjI allI impI)
    show "snd (case fst (m w) of Inl e \<Rightarrow> (Inl e, w) | Inr x \<Rightarrow> k x w) = w" for w
      using reads_world [OF k] by (cases "fst (m w)") auto
    fix w v assume "f w = f v"
    then show "fst (case fst (m w) of Inl e \<Rightarrow> (Inl e, w) | Inr x \<Rightarrow> k x w) =
        fst (case fst (m v) of Inl e \<Rightarrow> (Inl e, v) | Inr x \<Rightarrow> k x v)"
      using reads_same [OF m, of w v] reads_same [OF k, of w v] by (cases "fst (m v)") auto
  qed
qed

lemma reads_andthen: "reads f m \<Longrightarrow> reads f k \<Longrightarrow> reads f (andthen m k)"
  unfolding andthen_def by (rule reads_bnd)

lemma reads_raise_if: "reads f (raise_if b e)"
  by (simp add: reads_def raise_if_def)

lemma reads_need: "reads f (need e x)"
  by (cases x) (simp_all add: reads_def)

lemma reads_if: "reads f m \<Longrightarrow> reads f k \<Longrightarrow> reads f (if b then m else k)"
  by simp

lemma reads_case_option:
  "reads f m \<Longrightarrow> (\<And>y. reads f (g y)) \<Longrightarrow> reads f (case x of None \<Rightarrow> m | Some y \<Rightarrow> g y)"
  by (cases x) simp_all

lemma reads_get: "(\<And>w v. f w = f v \<Longrightarrow> t_records w = t_records v) \<Longrightarrow> reads f (store_get ns k)"
  unfolding store_get_def record_value_def record_at_def by (rule reads_gets) metis

lemmas reads_rules = reads_ret reads_raise reads_bnd reads_andthen reads_raise_if reads_need reads_if
  reads_case_option

lemma policy_reads: "reads config (policy_effective rvn ctx)" "reads config (snapshot_of ctx)"
proof -
  have get: "reads config (store_get ns k)" for ns k
    by (rule reads_get) (simp add: config_def)
  have row: "reads config (gets (\<lambda>w. row_of ws_id i (t_workspaces w)))" for i
    by (rule reads_gets) (simp add: config_def)
  have cap: "reads config (environment_cap p)" for p
    unfolding environment_cap_def by (intro reads_rules get)
  have ws: "reads config (store_workspace i own)" for i own
    unfolding store_workspace_def by (intro reads_rules get row)
  have cur: "reads config (policy_current actx)" for actx
    unfolding policy_current_def by (intro reads_rules get cap ws)
  have agent: "reads config (policy_for_agent rvn actx ref)" for actx ref
    unfolding policy_for_agent_def
    by (intro reads_rules get cur) (cases ref; simp add: reads_raise reads_ret; intro reads_rules get)
  show snap: "reads config (snapshot_of ctx)"
    unfolding snapshot_of_def by (intro reads_rules get)
  show "reads config (policy_effective rvn ctx)"
    unfolding policy_effective_def by (intro reads_rules agent snap)
qed

text \<open>A decision is the same in two worlds with the same configuration and the same fences.\<close>

lemma decide_Inr:
  "policy_decide rvn (Execution ctx) spec w = (Inr d, v) \<Longrightarrow> v = w \<and> fence_open w ctx False"
  using reads_world [OF policy_reads(1), of rvn ctx w] reads_world [OF policy_reads(2), of ctx w]
  by (auto simp: policy_decide_def act_iffs assert_fence_Inr)

lemma transaction_quiet: "\<not> w_active w \<Longrightarrow> transaction m w = (r, v) \<Longrightarrow> \<not> w_active v"
  by (auto simp: transaction_def split: prod.splits sum.splits)

lemma decide_same:
  assumes run: "policy_decide rvn (Execution ctx) spec w = (Inr d, w)"
    and cfg: "config v = config w" and fence: "fence_open v ctx False"
  shows "policy_decide rvn (Execution ctx) spec v = (Inr d, v)"
proof -
  let ?k = "bnd (policy_effective rvn ctx) (\<lambda>p. bnd (snapshot_of ctx) (\<lambda>s. ret (decide_on s p spec)))"
  have k: "reads config ?k" by (intro reads_rules policy_reads)
  from run have "?k w = (Inr d, w)"
    by (auto simp: policy_decide_def act_iffs assert_fence_Inr)
  with k cfg have "?k v = (Inr d, v)" using reads_eq by blast
  moreover have "assert_fence ctx False v = (Inr (), v)" using fence by (simp add: assert_fence_Inr)
  ultimately show ?thesis by (simp add: policy_decide_def andthen_apply(2))
qed

section \<open>Starting an operation\<close>

lemma consume_grant_any:
  assumes run: "consume_grant ctx i binding policy w = (Inr x, v)"
  obtains g o' where "fence_open w ctx False" "grant_at w i = Some g" "grant_usable w ctx binding policy g"
    "op_at w (g_operation g) = Some o'"
    "x = op_patched [O_state op_running, O_grant (Some i), O_attempt (c_attempt ctx),
       O_fence (c_fence ctx)] (w_now w) o'"
    "v = put_op (g_operation g) (op_patched [O_state op_running, O_grant (Some i),
       O_attempt (c_attempt ctx), O_fence (c_fence ctx)] (w_now w)) (use_grant i w)"
proof (cases "w_active w")
  case True
  with run have "consume_body ctx i binding policy w = (Inr x, v)" by (simp add: consume_grant_alt)
  then show ?thesis by (rule consume_body_Inr) (rule that)
next
  case False
  from consume_grant_Inr [OF this run] show ?thesis by (metis that)
qed

lemma reserve_Inr: "reserve i k m w = (Inr row, v) \<Longrightarrow> reservation_at v k \<noteq> None"
  by (auto simp: reserve_eval reserve_result_def Let_def reservation_at_def after_reserve_def
      row_of_append new_reservation_def split: option.splits sum.splits if_splits)

lemma view_run: "keeps (same_view f) m \<Longrightarrow> m w = (r, v) \<Longrightarrow> f v = f w"
  by (auto simp: same_view_def dest: triD(1))

lemma fence_run: "keeps same_fences m \<Longrightarrow> m w = (r, v) \<Longrightarrow> fence_open v ctx b = fence_open w ctx b"
  by (auto simp: same_fences_def dest: triD(1))

lemma op_at_tables: "(t_operations v, t_grants v) = (t_operations w, t_grants w) \<Longrightarrow>
    op_at v = op_at w \<and> grant_at v = grant_at w"
  by (simp add: op_at_def grant_at_def fun_eq_iff)

text \<open>The binding of the grant an operation has used up, when that grant is still good.\<close>

definition spent_grant :: "execution_context \<Rightarrow> operation_row \<Rightarrow> world \<Rightarrow> approval_binding option" where
  "spent_grant ctx o' w =
     (case op_grant o' of
        None \<Rightarrow> None
      | Some i \<Rightarrow>
          (case grant_at w i of
             None \<Rightarrow> None
           | Some g \<Rightarrow>
               if g_operation g = op_id o' \<and> g_owner g = c_owner ctx \<and> g_run g = c_run ctx \<and>
                  \<not> g_revoked g \<and> g_remaining g = 0 \<and> g_consumed g = Some (w_now w) \<and>
                  w_now w < ab_expires (g_binding g)
               then Some (g_binding g) else None))"

lemma start_operation_Inr:
  assumes "\<not> w_active u"
    and run: "start_operation gw ctx name spec args o0 binding policy u = (Inr o', w)"
  shows "config w = config u \<and> fence_open w ctx False \<and> \<not> w_active w \<and> op_id o' = op_id o0 \<and>
    op_at w (op_id o') = Some o' \<and> op_state o' = op_running \<and> op_attempt o' = c_attempt ctx \<and>
    op_fence o' = c_fence ctx \<and> spent_grant ctx o' w = Some binding \<and>
    ab_policy_revision binding = policy \<and> reservation_at w (''tool:'' @ op_id o') \<noteq> None"
proof -
  let ?u = "u\<lparr>w_seed := Suc (w_seed u)\<rparr>" and ?i = "w_uuid u (w_seed u)"
  let ?row = "\<lparr>g_id = ?i, g_operation = op_id o0, g_owner = c_owner ctx, g_run = c_run ctx,
    g_binding = binding, g_remaining = 1, g_revoked = False, g_consumed = None, g_created = w_now u\<rparr>"
  from run have tr: "transaction
       (andthen (add_grant ?i (op_id o0) (c_owner ctx) (c_run ctx) binding 1)
       (bnd (update_operation (op_id o0) (op_revision o0) [O_state op_authorized] (Some ctx)) (\<lambda>authorized.
        bnd (consume_grant ctx ?i binding policy) (\<lambda>started.
        andthen (bnd (reserve (c_root ctx) (''tool:'' @ op_id authorized) [(''tool_calls'', 1)]) (\<lambda>_. ret ()))
        (andthen (emit (c_run ctx) ''tool.started'' (JObj
          [(''operation_id'', JStr (op_id started)), (''tool_id'', JStr name),
           (''tool_revision'', JStr (ts_version spec)),
           (''input_summary'', JStr (input_summary gw name args)), (''artifact_refs'', JList [])]))
        (ret started)))))) ?u = (Inr o', w)"
    by (simp add: start_operation_def)
  have "\<not> w_active ?u" using assms(1) by simp
  from transaction_InrD [OF this tr] obtain u1 u2 u3 u4 u5 auth rrow ev where
    s1: "add_grant ?i (op_id o0) (c_owner ctx) (c_run ctx) binding 1 (?u\<lparr>w_active := True\<rparr>) = (Inr (), u1)"
    and s2: "update_operation (op_id o0) (op_revision o0) [O_state op_authorized] (Some ctx) u1 = (Inr auth, u2)"
    and s3: "consume_grant ctx ?i binding policy u2 = (Inr o', u3)"
    and s4: "reserve (c_root ctx) (''tool:'' @ op_id auth) [(''tool_calls'', 1)] u3 = (Inr rrow, u4)"
    and s5: "emit (c_run ctx) ''tool.started'' ev u4 = (Inr (), u5)" and w: "w = u5\<lparr>w_active := False\<rparr>"
    by (auto simp: act_iffs)
  have emit_keeps: "keeps (same_view config) (emit i ty d)" "keeps (same_view op_tables) (emit i ty d)" for i ty d
    unfolding emit_def
    by (intro same_config.keeps_db config_keeps, intro same_ops.keeps_db ops_keeps)
  have c1: "config u1 = config ?u" using view_run [OF config_keeps(1) s1] by (simp add: config_def)
  have c: "config u2 = config u" "config u3 = config u" "config u4 = config u" "config u5 = config u"
    using view_run [OF config_keeps(2) s2] view_run [OF config_keeps(3) s3]
      view_run [OF config_keeps(4) s4] view_run [OF emit_keeps(1) s5] c1
    by (simp_all add: config_def)
  have now: "w_now u2 = w_now u" using c(1) by (simp add: config_def)
  have "row_of g_id ?i (t_grants u) = None"
    using s1 by (auto simp: add_grant_def insert_unique_def act_iffs row_of_None_iff)
  then have g1: "grant_at u1 ?i = Some ?row"
    using s1 by (auto simp: add_grant_def insert_unique_def act_iffs grant_at_def row_of_append)
  then have g2: "grant_at u2 ?i = Some ?row" and id2: "op_id auth = op_id o0"
    using s2 by (auto simp: update_operation_eval op_at_def split: sum.splits option.splits if_splits
        dest: row_of_SomeD)
  from s3 show ?thesis
  proof (rule consume_grant_any)
    fix g o1
    let ?ps = "[O_state op_running, O_grant (Some ?i), O_attempt (c_attempt ctx), O_fence (c_fence ctx)]"
    assume fence: "fence_open u2 ctx False" and g: "grant_at u2 ?i = Some g"
      and usable: "grant_usable u2 ctx binding policy g" and o1: "op_at u2 (g_operation g) = Some o1"
      and o': "o' = op_patched ?ps (w_now u2) o1"
      and u3: "u3 = put_op (g_operation g) (op_patched ?ps (w_now u2)) (use_grant ?i u2)"
    from g g2 have row: "g = ?row" by simp
    have oid: "op_id o1 = op_id o0" using o1 by (auto simp: row op_at_def dest: row_of_SomeD)
    have ops: "op_at u5 = op_at u3" "grant_at u5 = grant_at u3"
      using op_at_tables [OF view_run [OF ops_keeps(1) s4]] view_run [OF emit_keeps(2) s5]
      by (auto simp: w op_tables_def op_at_def grant_at_def fun_eq_iff)
    have "op_at u3 (op_id o') = Some o'"
      using o1 oid by (simp add: u3 op_at_put_op row o')
    moreover have "grant_at u3 ?i = Some (?row\<lparr>g_remaining := 0, g_consumed := Some (w_now u2)\<rparr>)"
      using g2 by (simp add: u3 grant_at_use_grant)
    moreover have "reservation_at w (''tool:'' @ op_id o0) \<noteq> None"
      using reserve_Inr [OF s4] view_run [OF emit_keeps(2) s5] id2
      by (simp add: w reservation_at_def op_tables_def)
    moreover have "fence_open w ctx False"
      using fence fence_run [OF fences_keeps(3) s3] fence_run [OF fences_keeps(4) s4]
        fence_run [OF fences_keeps(5) s5]
      by (simp add: w)
    moreover have "w_now w = w_now u" "config w = config u" using c(4) by (simp_all add: w config_def)
    ultimately show ?thesis
      using usable now oid by (auto simp: w o' ops spent_grant_def grant_usable_def op_patched_def)
  qed
qed

end
