(* ===== verification/Gateway_Watch.thy ===== *)
theory Gateway_Watch
  imports Gateway_Guards
begin

text \<open>
  Watched executors: a watched executor refuses to run in a world where the call is not authorised.
  The gateway behaves the same with watched executors as with plain ones, from any world between
  transactions, so no executor of an effect ever runs unauthorised. The two tools the gateway runs
  itself (\<^verbatim>\<open>request_input\<close> and \<^verbatim>\<open>wait_children\<close>) are not watched: they have no effect
  outside the store.
\<close>

section \<open>Authorisation\<close>

definition consent :: "execution_context \<Rightarrow> operation_row \<Rightarrow> approval_binding \<Rightarrow> world \<Rightarrow> bool" where
  "consent ctx o' binding w \<longleftrightarrow>
     (\<exists>i\<in>set (t_interactions w). i_run i = c_run ctx \<and> i_key i = ''approval:'' @ op_id o' \<and>
        approved i \<and> ip_binding (i_payload i) = Some binding)"

text \<open>
  An effect may run: the fence is open, the operation is recorded as running for this attempt and
  fence, its call is reserved in the budget, the policy in force allows the tool, the operation has
  just used up a grant issued under that policy, and where the policy asks for approval the user
  has approved exactly the grant's binding.
\<close>

definition authorised :: "gateway \<Rightarrow> tool_spec \<Rightarrow> execution_context \<Rightarrow> operation_row \<Rightarrow> world \<Rightarrow> bool" where
  "authorised gw spec ctx o' w \<longleftrightarrow>
     fence_open w ctx False \<and> op_at w (op_id o') = Some o' \<and> op_state o' = op_running \<and>
     op_attempt o' = c_attempt ctx \<and> op_fence o' = c_fence ctx \<and>
     reservation_at w (''tool:'' @ op_id o') \<noteq> None \<and>
     (case (fst (policy_decide (gw_revision gw) (Execution ctx) spec w), spent_grant ctx o' w) of
        (Inr d, Some binding) \<Rightarrow>
          dc_kind d \<noteq> deny \<and> ab_policy_revision binding = dc_revision d \<and>
          (dc_kind d = approval \<longrightarrow> consent ctx o' binding w)
      | _ \<Rightarrow> False)"

text \<open>A waiting effect may be continued: the grant it has used up is still good.\<close>

definition continued :: "gateway \<Rightarrow> tool_spec \<Rightarrow> execution_context \<Rightarrow> operation_row \<Rightarrow> world \<Rightarrow> bool" where
  "continued gw spec ctx o' w \<longleftrightarrow>
     awaiting_input o' \<and>
     (case fst (policy_decide (gw_revision gw) (Execution ctx) spec w) of
        Inr d \<Rightarrow> dc_kind d \<noteq> deny \<and>
          fst (verify_consumed_grant ctx (op_id o') (dc_revision d) w) = Inr True
      | _ \<Rightarrow> False)"

definition watch_call ::
  "(execution_context \<Rightarrow> operation_row \<Rightarrow> world \<Rightarrow> bool) \<Rightarrow> exec_call \<Rightarrow> exec_call" where
  "watch_call may call ctx o' args w = (if may ctx o' w then call ctx o' args w else (Ex_exception, w))"

definition watch :: "gateway \<Rightarrow> tool_spec \<Rightarrow> executor \<Rightarrow> executor" where
  "watch gw spec ex =
     \<lparr>ex_call = watch_call (authorised gw spec) (ex_call ex),
      ex_resume = map_option (watch_call (continued gw spec)) (ex_resume ex)\<rparr>"

definition own_tools :: "string set" where
  "own_tools = {''request_input'', ''wait_children''}"

definition watched :: "gateway \<Rightarrow> gateway" where
  "watched gw = gw\<lparr>gw_registry := map (\<lambda>e. (fst e, fst (snd e),
     if fst (fst e) \<in> own_tools then snd (snd e) else watch gw (fst (snd e)) (snd (snd e))))
     (gw_registry gw)\<rparr>"

text \<open>The host's parts of a gateway only look: they read files, take locks and compare.\<close>

definition host_reads :: "gateway \<Rightarrow> bool" where
  "host_reads gw \<longleftrightarrow>
     (\<forall>ctx ps b w. snd (gw_fingerprint gw ctx ps b w) = w) \<and>
     (\<forall>ctx p b w. snd (gw_path gw ctx p b w) = w) \<and>
     (\<forall>k w. snd (gw_lock gw k w) = w) \<and>
     (\<forall>ctx n a w. snd (gw_preview gw ctx n a w) = w)"

section \<open>Only the registry differs\<close>

lemma bnd_cong: "(\<And>x v. m w = (Inr x, v) \<Longrightarrow> k x v = k' x v) \<Longrightarrow> bnd m k w = bnd m k' w"
  by (auto simp: bnd_def split: prod.splits sum.splits)

lemma bnd_first: "m w = m' w \<Longrightarrow> bnd m k w = bnd m' k w"
  by (simp add: bnd_def)

lemma andthen_cong: "(\<And>x v. m w = (Inr x, v) \<Longrightarrow> k v = k' v) \<Longrightarrow> andthen m k w = andthen m k' w"
  unfolding andthen_def by (rule bnd_cong)

lemma watched_simps [simp]:
  "gw_digest (watched gw) = gw_digest gw" "gw_revision (watched gw) = gw_revision gw"
  "gw_valid (watched gw) = gw_valid gw" "gw_fingerprint (watched gw) = gw_fingerprint gw"
  "gw_path (watched gw) = gw_path gw" "gw_lock (watched gw) = gw_lock gw"
  "gw_artifact (watched gw) = gw_artifact gw" "gw_preview (watched gw) = gw_preview gw"
  "gw_str (watched gw) = gw_str gw"
  by (simp_all add: watched_def)

lemma watched_parts [simp]:
  "input_summary (watched gw) = input_summary gw"
  "resources (watched gw) = resources gw" "finish (watched gw) = finish gw"
  "refuse (watched gw) = refuse gw" "conclude (watched gw) = conclude gw"
  "outcome_result (watched gw) = outcome_result gw" "start_operation (watched gw) = start_operation gw"
  "bind_approval (watched gw) = bind_approval gw"
proof -
  show summary: "input_summary (watched gw) = input_summary gw"
    by (intro ext) (unfold input_summary_def watched_simps, rule refl)
  show "resources (watched gw) = resources gw"
    by (intro ext) (unfold resources_def watched_simps, rule refl)
  show fin: "finish (watched gw) = finish gw"
    by (intro ext) (unfold finish_def watched_simps summary, rule refl)
  show ref: "refuse (watched gw) = refuse gw"
    by (intro ext) (unfold refuse_def watched_simps fin, rule refl)
  show "conclude (watched gw) = conclude gw"
    by (intro ext) (unfold conclude_def watched_simps fin, rule refl)
  show "outcome_result (watched gw) = outcome_result gw"
    by (intro ext) (unfold outcome_result_def watched_simps, rule refl)
  show "start_operation (watched gw) = start_operation gw"
    by (intro ext) (unfold start_operation_def watched_simps summary, rule refl)
  have gate: "approval_gate (watched gw) = approval_gate gw"
    by (intro ext) (unfold approval_gate_def watched_simps ref, rule refl)
  show "bind_approval (watched gw) = bind_approval gw"
    by (intro ext) (unfold bind_approval_def watched_simps gate, rule refl)
qed

lemma watched_entry [simp]: "execute_entry (watched gw) = execute_entry gw"
proof -
  have started: "execute_started (watched gw) = execute_started gw"
    by (intro ext) (unfold execute_started_def watched_parts, rule refl)
  have guarded: "execute_guarded (watched gw) = execute_guarded gw"
    by (intro ext) (unfold execute_guarded_def watched_parts watched_simps started, rule refl)
  have special: "execute_special (watched gw) = execute_special gw"
    by (intro ext) (unfold execute_special_def watched_parts, rule refl)
  have resume: "resume_protocol (watched gw) = resume_protocol gw"
    by (intro ext) (unfold resume_protocol_def watched_parts watched_simps, rule refl)
  have prepared: "execute_prepared (watched gw) = execute_prepared gw"
    by (intro ext) (unfold execute_prepared_def watched_parts watched_simps guarded special, rule refl)
  have known: "execute_known (watched gw) = execute_known gw"
    by (intro ext) (unfold execute_known_def watched_simps resume prepared, rule refl)
  show ?thesis
    by (intro ext) (unfold execute_entry_def watched_simps prepared known, rule refl)
qed

lemma registry_get_watched:
  "registry_get (gw_registry (watched gw)) name v =
     (case registry_get (gw_registry gw) name v of
        Inl e \<Rightarrow> Inl e
      | Inr x \<Rightarrow> Inr (fst x, if name \<in> own_tools then snd x else watch gw (fst x) (snd x)))"
proof -
  have "map_of (map (\<lambda>e. (fst e, fst (snd e),
      if fst (fst e) \<in> own_tools then snd (snd e) else watch gw (fst (snd e)) (snd (snd e)))) xs) (name, v) =
    map_option (\<lambda>x. (fst x, if name \<in> own_tools then snd x else watch gw (fst x) (snd x)))
      (map_of xs (name, v))" for xs
    by (induction xs) auto
  then show ?thesis
    by (simp add: registry_get_def watched_def split: option.split)
qed

section \<open>The checks before the executor\<close>

lemma host_Inr:
  assumes "host_reads gw"
  shows "gw_fingerprint gw ctx ps b w = (r, v) \<Longrightarrow> v = w" "gw_path gw ctx p b w = (s, v) \<Longrightarrow> v = w"
    "gw_lock gw k w = (t, v) \<Longrightarrow> v = w" "gw_preview gw ctx n a w = (j, v) \<Longrightarrow> v = w"
    "resources gw ctx spec args w = (s', v) \<Longrightarrow> v = w"
proof -
  have all: "snd (gw_fingerprint gw ctx ps b w) = w" "snd (gw_path gw ctx p b w) = w"
    "snd (gw_lock gw k w) = w" "snd (gw_preview gw ctx n a w) = w" for ps b
    using assms unfolding host_reads_def by blast+
  show "gw_fingerprint gw ctx ps b w = (r, v) \<Longrightarrow> v = w" "gw_path gw ctx p b w = (s, v) \<Longrightarrow> v = w"
    "gw_lock gw k w = (t, v) \<Longrightarrow> v = w" "gw_preview gw ctx n a w = (j, v) \<Longrightarrow> v = w"
    using all by (metis snd_conv)+
  show "resources gw ctx spec args w = (s', v) \<Longrightarrow> v = w"
    using all(1) by (auto simp: resources_def Let_def split: if_splits) (metis snd_conv)+
qed

lemma verify_Inr:
  assumes "\<not> w_active w" and "verify_consumed_grant ctx i n w = (Inr x, v)"
  shows "v = w \<and> x"
  using transaction_InrD [OF assms(1) assms(2) [unfolded verify_consumed_grant_def]] assms(1)
  by (auto simp: act_iffs assert_fence_Inr store_operation_def utc_now_def split: option.splits if_splits)

lemma watched_call:
  "may ctx o' w \<Longrightarrow> run_executor (watch_call may call) ctx o' args w = run_executor call ctx o' args w"
  by (simp add: run_executor_def watch_call_def)

lemma started_watched:
  assumes "authorised gw spec ctx o' w"
  shows "execute_started gw ctx spec (watch gw spec ex) args o' w =
    execute_started gw ctx spec ex args o' w"
  unfolding execute_started_def watch_def executor.simps
  by (rule bnd_first) (rule watched_call [of "authorised gw spec", OF assms])

text \<open>What the approval gate lets through was approved, and the gate changed nothing.\<close>

lemma collect_reads:
  assumes "\<And>x w r v. f x w = (r, v) \<Longrightarrow> v = w"
  shows "collect xs f w = (Inr ys, v) \<Longrightarrow> v = w \<and> (\<forall>y\<in>set ys. \<exists>x\<in>set xs. f x w = (Inr y, w))"
proof (induction xs arbitrary: ys)
  case (Cons x xs)
  then show ?case by (fastforce simp: act_iffs dest: assms)
qed simp

lemma store_interaction_run:
  "store_interaction i w = (r, v) \<Longrightarrow> v = w"
  "store_interaction i w = (Inr x, v) \<Longrightarrow> row_of i_id i (t_interactions w) = Some x"
  by (auto simp: store_interaction_def need_def split: option.splits)

lemma listed_interaction:
  assumes ids: "distinct (map i_id (t_interactions w))"
    and run: "store_interactions r w = (Inr is, v)"
  shows "v = w" "i \<in> set is \<Longrightarrow> i \<in> set (t_interactions w) \<and> i_run i = r"
proof -
  let ?rows = "sort_key i_created (filter (\<lambda>i. i_run i = r) (t_interactions w))"
  from run have c: "collect ?rows (\<lambda>i. store_interaction (i_id i)) w = (Inr is, v)"
    by (auto simp: store_interactions_def act_iffs)
  from collect_reads [OF _ c] store_interaction_run(1)
  have res: "v = w" "\<forall>y\<in>set is. \<exists>x\<in>set ?rows. store_interaction (i_id x) w = (Inr y, w)" by blast+
  then show "v = w" by simp
  assume "i \<in> set is"
  with res obtain x where x: "x \<in> set ?rows" "store_interaction (i_id x) w = (Inr i, w)" by blast
  then have "x \<in> set (t_interactions w)" "i_run x = r" "row_of i_id (i_id x) (t_interactions w) = Some i"
    by (auto dest: store_interaction_run)
  with row_of_unique [OF ids, of x] show "i \<in> set (t_interactions w) \<and> i_run i = r" by simp
qed

lemma prepare_interaction_answered:
  assumes quiet: "\<not> w_active w" and ids: "distinct (map i_id (t_interactions w))"
    and run: "prepare_interaction ctx key kind payload ttl w = (Inr i, v)" and "\<not> unanswered i"
  shows "v = w \<and> i \<in> set (t_interactions w) \<and> i_run i = c_run ctx \<and> i_key i = key"
proof -
  let ?w = "w\<lparr>w_active := True\<rparr>"
  from transaction_InrD [OF quiet run [unfolded prepare_interaction_def]] obtain u where
    v: "v = u\<lparr>w_active := False\<rparr>" and
    body: "(case row_of request_id (c_run ctx, key) (t_interactions w) of
        Some i \<Rightarrow> store_interaction (i_id i)
      | None \<Rightarrow>
          bnd new_id (\<lambda>identity.
          bnd utc_now (\<lambda>now.
          andthen (insert_unique t_interactions t_interactions_update i_id
            \<lparr>i_id = identity, i_run = c_run ctx, i_key = key, i_interrupt = None,
             i_checkpoint = None, i_input_revision = c_input_revision ctx, i_kind = kind,
             i_status = pending_binding, i_revision = 1, i_payload = payload,
             i_resolution = None, i_expires = ttl, i_created = now\<rparr>)
          (store_interaction identity)))) ?w = (Inr i, u)"
    by (auto simp: act_iffs assert_fence_Inr)
  show ?thesis
  proof (cases "row_of request_id (c_run ctx, key) (t_interactions w)")
    case None
    with body have "i_status i = pending_binding"
      by (auto simp: act_iffs new_id_def utc_now_def insert_unique_def row_of_append row_of_None_iff
          dest!: store_interaction_run(2) split: option.splits)
        (metis image_eqI row_of_SomeD)
    then show ?thesis using assms(4) by (simp add: unanswered_def)
  next
    case (Some i0)
    then have i0: "i0 \<in> set (t_interactions w)" "request_id i0 = (c_run ctx, key)"
      by (auto dest: row_of_SomeD)
    from body Some have "store_interaction (i_id i0) ?w = (Inr i, u)" by simp
    then have "u = ?w" "row_of i_id (i_id i0) (t_interactions w) = Some i"
      by (auto dest: store_interaction_run)
    with row_of_unique [OF ids i0(1)] i0 quiet show ?thesis by (simp add: v request_id_def)
  qed
qed

lemma gate_Proceed:
  assumes quiet: "\<not> w_active w" and ids: "distinct (map i_id (t_interactions w))"
    and host: "host_reads gw"
    and known: "\<And>i. found = Some i \<Longrightarrow> i \<in> set (t_interactions w) \<and> i_run i = c_run ctx \<and>
      i_key i = ''approval:'' @ op_id o'"
    and run: "approval_gate gw ctx name spec args o' found binding w = (Inr (Proceed bound), v)"
  shows "v = w \<and> consent ctx o' bound w"
proof -
  from run obtain i u where
    i: "(case found of Some i \<Rightarrow> ret i | None \<Rightarrow>
        bnd (gw_preview gw ctx name args) (\<lambda>diff.
        prepare_interaction ctx (''approval:'' @ op_id o') ''approval''
          \<lparr>ip_prompt = ''approve '' @ name, ip_schema = approval_schema,
           ip_binding = Some binding, ip_operation = None,
           ip_extra = JObj [(''operation_preview'', JObj
             [(''tool'', JStr name), (''args'', args),
              (''effect'', JStr (effect_name (ts_effect spec))), (''diff'', diff)])]\<rparr>
          (Some (ab_expires binding)))) w = (Inr i, u)"
    and ans: "\<not> unanswered i" "approved i" "ip_binding (i_payload i) = Some bound" and v: "v = u"
    by (auto simp: approval_gate_def act_iffs split: if_splits option.splits)
  have "u = w \<and> i \<in> set (t_interactions w) \<and> i_run i = c_run ctx \<and> i_key i = ''approval:'' @ op_id o'"
  proof (cases found)
    case None
    with i obtain diff u1 payload where diff: "gw_preview gw ctx name args w = (Inr diff, u1)"
      and p: "prepare_interaction ctx (''approval:'' @ op_id o') ''approval'' payload
        (Some (ab_expires binding)) u1 = (Inr i, u)"
      by (auto simp only: option.case bnd_Inr_iff)
    from host_Inr(4) [OF host diff] have "u1 = w" .
    from prepare_interaction_answered [OF quiet ids p [unfolded this] ans(1)] show ?thesis .
  next
    case (Some i0)
    with i known [of i0] show ?thesis by simp
  qed
  with ans v show ?thesis by (auto simp: consent_def)
qed

section \<open>The executor runs only when authorised\<close>

lemma guarded_watched:
  assumes quiet: "\<not> w_active w" and host: "host_reads gw"
    and may: "\<And>d. policy_decide (gw_revision gw) (Execution ctx) spec w = (Inr d, w) \<Longrightarrow>
      dc_kind d = approval \<Longrightarrow> consent ctx o' binding w"
  shows "execute_guarded gw ctx name spec (watch gw spec ex) args o' fp binding w =
    execute_guarded gw ctx name spec ex args o' fp binding w"
  unfolding execute_guarded_def
proof (rule bnd_cong, rule andthen_cong, rule bnd_cong, rule bnd_cong)
  fix k w1 x w2 d w3 changed w4
  assume "(case jlookup ''path'' args of
      Some p \<Rightarrow> if is_mcp spec then ret (op_id o') else gw_path gw ctx p (ts_effect spec = ef_workspace_write)
    | None \<Rightarrow> ret (op_id o')) w = (Inr k, w1)"
  then have 1: "w1 = w" by (auto split: option.splits if_splits dest: host_Inr(2) [OF host])
  assume "gw_lock gw k w1 = (Inr x, w2)"
  with 1 have 2: "w2 = w" by (simp add: host_Inr(3) [OF host])
  assume "policy_decide (gw_revision gw) (Execution ctx) spec w2 = (Inr d, w3)"
  with 2 have d: "policy_decide (gw_revision gw) (Execution ctx) spec w = (Inr d, w)" and 3: "w3 = w"
    using decide_Inr by auto
  assume ch: "(if dc_kind d = deny \<or> dc_revision d \<noteq> ab_policy_revision binding then ret True
      else bnd (resources gw ctx spec args) (\<lambda>now_fp. ret (now_fp \<noteq> fp))) w3 = (Inr changed, w4)"
  with 3 have 4: "w4 = w" by (auto simp: act_iffs split: if_splits dest: host_Inr(5) [OF host])
  have "bnd (start_operation gw ctx name spec args o' binding (dc_revision d))
        (\<lambda>started. execute_started gw ctx spec (watch gw spec ex) args started) w =
      bnd (start_operation gw ctx name spec args o' binding (dc_revision d))
        (\<lambda>started. execute_started gw ctx spec ex args started) w" if "\<not> changed"
  proof (rule bnd_cong, rule started_watched)
    fix s v
    assume start: "start_operation gw ctx name spec args o' binding (dc_revision d) w = (Inr s, v)"
    from start_operation_Inr [OF quiet start]
    have st: "config v = config w" "fence_open v ctx False" "op_id s = op_id o'"
      "op_at v (op_id s) = Some s" "op_state s = op_running" "op_attempt s = c_attempt ctx"
      "op_fence s = c_fence ctx" "spent_grant ctx s v = Some binding"
      "ab_policy_revision binding = dc_revision d" "reservation_at v (''tool:'' @ op_id s) \<noteq> None"
      by blast+
    from decide_same [OF d st(1,2)]
    have d': "policy_decide (gw_revision gw) (Execution ctx) spec v = (Inr d, v)" .
    have "t_interactions v = t_interactions w" using st(1) by (simp add: config_def)
    then have "dc_kind d = approval \<Longrightarrow> consent ctx s binding v"
      using may [OF d] st(3) by (simp add: consent_def)
    moreover have "dc_kind d \<noteq> deny" using ch that by (auto split: if_splits)
    ultimately show "authorised gw spec ctx s v"
      using st by (simp add: authorised_def d')
  qed
  then show "(if changed then refuse gw ctx o' ''BINDING_CHANGED''
      else bnd (start_operation gw ctx name spec args o' binding (dc_revision d))
        (\<lambda>started. execute_started gw ctx spec (watch gw spec ex) args started)) w4 =
    (if changed then refuse gw ctx o' ''BINDING_CHANGED''
      else bnd (start_operation gw ctx name spec args o' binding (dc_revision d))
        (\<lambda>started. execute_started gw ctx spec ex args started)) w4"
    by (simp add: 4)
qed

lemma bind_Proceed:
  assumes quiet: "\<not> w_active w" and ids: "distinct (map i_id (t_interactions w))"
    and host: "host_reads gw"
    and run: "bind_approval gw ctx name spec args o' fp d w = (Inr (Proceed bound), v)"
  shows "v = w \<and> (dc_kind d = approval \<longrightarrow> consent ctx o' bound w)"
proof -
  from run obtain "is" u binding where
    listed: "store_interactions (c_run ctx) w = (Inr is, u)" and
    gate: "(if dc_kind d = approval
      then approval_gate gw ctx name spec args o' (find (\<lambda>i. i_key i = ''approval:'' @ op_id o') is) binding
      else ret (Proceed binding)) u = (Inr (Proceed bound), v)"
    by (auto simp: bind_approval_def act_iffs after_ms_def simp del: append.simps)
  note there = listed_interaction [OF ids listed]
  show ?thesis
  proof (cases "dc_kind d = approval")
    case True
    with gate there(1) have "approval_gate gw ctx name spec args o'
        (find (\<lambda>i. i_key i = ''approval:'' @ op_id o') is) binding w = (Inr (Proceed bound), v)"
      by simp
    moreover have "i \<in> set (t_interactions w) \<and> i_run i = c_run ctx \<and> i_key i = ''approval:'' @ op_id o'"
      if "find (\<lambda>i. i_key i = ''approval:'' @ op_id o') is = Some i" for i
      using that there(2) [of i] by (auto simp: find_Some_iff)
    ultimately show ?thesis using gate_Proceed [OF quiet ids host] by blast
  next
    case False
    with gate there(1) show ?thesis by simp
  qed
qed

lemma prepared_watched:
  assumes quiet: "\<not> w_active w" and ids: "distinct (map i_id (t_interactions w))"
    and host: "host_reads gw" and name: "name \<notin> own_tools"
  shows "execute_prepared gw ctx key name args spec (watch gw spec ex) w =
    execute_prepared gw ctx key name args spec ex w"
  unfolding execute_prepared_def if_not_P [OF name [unfolded own_tools_def]]
proof (rule bnd_cong, rule bnd_cong, rule bnd_cong)
  fix fp w1 o' w2 d w3
  assume "resources gw ctx spec args w = (Inr fp, w1)"
  then have 1: "w1 = w" by (rule host_Inr(5) [OF host])
  assume prep: "prepare_operation ctx \<lparr>oq_message = ok_message key, oq_call = ok_call key, oq_tool = name,
     oq_tool_revision = ts_version spec, oq_args_hash = gw_digest gw args, oq_args = args,
     oq_fingerprint = fp, oq_metadata = JObj [], oq_summary = input_summary gw name args\<rparr> w1 = (Inr o', w2)"
  from prep 1 quiet have q2: "\<not> w_active w2"
    by (auto simp: prepare_operation_def dest: transaction_quiet)
  have ids2: "distinct (map i_id (t_interactions w2))"
    using view_run [OF config_keeps(6) prep] ids by (simp add: 1 config_def)
  assume "policy_decide (gw_revision gw) (Execution ctx) spec w2 = (Inr d, w3)"
  with decide_Inr have d: "policy_decide (gw_revision gw) (Execution ctx) spec w2 = (Inr d, w2)"
    and 3: "w3 = w2" by auto
  have "bnd (bind_approval gw ctx name spec args o' fp d) (\<lambda>g. case g of Reply r \<Rightarrow> ret r
      | Proceed bound \<Rightarrow> execute_guarded gw ctx name spec (watch gw spec ex) args o' fp bound) w2 =
    bnd (bind_approval gw ctx name spec args o' fp d) (\<lambda>g. case g of Reply r \<Rightarrow> ret r
      | Proceed bound \<Rightarrow> execute_guarded gw ctx name spec ex args o' fp bound) w2"
  proof (rule bnd_cong)
    fix g v assume g: "bind_approval gw ctx name spec args o' fp d w2 = (Inr g, v)"
    have "execute_guarded gw ctx name spec (watch gw spec ex) args o' fp bound v =
      execute_guarded gw ctx name spec ex args o' fp bound v" if "g = Proceed bound" for bound
      using bind_Proceed [OF q2 ids2 host g [unfolded that]] d q2
      by (intro guarded_watched [OF _ host]) auto
    then show "(case g of Reply r \<Rightarrow> ret r
      | Proceed bound \<Rightarrow> execute_guarded gw ctx name spec (watch gw spec ex) args o' fp bound) v =
      (case g of Reply r \<Rightarrow> ret r | Proceed bound \<Rightarrow> execute_guarded gw ctx name spec ex args o' fp bound) v"
      by (cases g) simp_all
  qed
  then show "(if dc_kind d = deny then refuse gw ctx o' ''POLICY_DENIED''
     else if fp \<noteq> op_fingerprint o' then refuse gw ctx o' ''RESOURCE_CHANGED''
     else bnd (bind_approval gw ctx name spec args o' fp d) (\<lambda>g. case g of Reply r \<Rightarrow> ret r
       | Proceed bound \<Rightarrow> execute_guarded gw ctx name spec (watch gw spec ex) args o' fp bound)) w3 =
    (if dc_kind d = deny then refuse gw ctx o' ''POLICY_DENIED''
     else if fp \<noteq> op_fingerprint o' then refuse gw ctx o' ''RESOURCE_CHANGED''
     else bnd (bind_approval gw ctx name spec args o' fp d) (\<lambda>g. case g of Reply r \<Rightarrow> ret r
       | Proceed bound \<Rightarrow> execute_guarded gw ctx name spec ex args o' fp bound)) w3"
    unfolding 3 by (auto simp del: append.simps)
qed

text \<open>A continuation runs only under the grant the operation has used up.\<close>

lemma resume_watched:
  assumes quiet: "\<not> w_active w" and host: "host_reads gw" and waiting: "awaiting_input o'"
  shows "resume_protocol gw ctx o' spec (watch_call (continued gw spec) call) args w =
    resume_protocol gw ctx o' spec call args w"
  unfolding resume_protocol_def
proof (rule bnd_first, unfold catch_all_def, rule arg_cong [where f = "case_prod _"],
    rule bnd_cong, rule bnd_cong, rule andthen_cong, rule bnd_cong, rule bnd_first)
  fix d w1 fp w2 x w3 b w4
  assume "policy_decide (gw_revision gw) (Execution ctx) spec w = (Inr d, w1)"
  with decide_Inr have d: "policy_decide (gw_revision gw) (Execution ctx) spec w = (Inr d, w)"
    and 1: "w1 = w" by auto
  assume "resources gw ctx spec args w1 = (Inr fp, w2)"
  then have 2: "w2 = w" using host_Inr(5) [OF host] 1 by simp
  assume "raise_if (dc_kind d = deny \<or> fp \<noteq> op_fingerprint o') (HErr ''CONTINUATION_POLICY'' 403) w2 = (Inr x, w3)"
  then have 3: "w3 = w" "dc_kind d \<noteq> deny" using 2 by (simp_all add: act_iffs)
  assume v: "verify_consumed_grant ctx (op_id o') (dc_revision d) w3 = (Inr b, w4)"
  from verify_Inr [OF quiet v [unfolded 3(1)]] have 4: "w4 = w" "b" by simp_all
  with v 3 d waiting have "continued gw spec ctx o' w" by (simp add: continued_def)
  then show "run_executor (watch_call (continued gw spec) call) ctx o' args w4 = run_executor call ctx o' args w4"
    unfolding 4 by (rule watched_call)
qed

lemma known_watched:
  assumes quiet: "\<not> w_active w" and ids: "distinct (map i_id (t_interactions w))"
    and host: "host_reads gw" and name: "name \<notin> own_tools"
  shows "execute_known gw ctx key name args spec (watch gw spec ex) o' w =
    execute_known gw ctx key name args spec ex o' w"
proof -
  have resume: "(case (awaiting_input o', ex_resume (watch gw spec ex)) of
       (True, Some resume) \<Rightarrow> resume_protocol gw ctx o' spec resume args
     | _ \<Rightarrow> ret (unknown_review o')) w =
    (case (awaiting_input o', ex_resume ex) of
       (True, Some resume) \<Rightarrow> resume_protocol gw ctx o' spec resume args
     | _ \<Rightarrow> ret (unknown_review o')) w"
    using resume_watched [OF quiet host]
    by (cases "ex_resume ex"; cases "awaiting_input o'") (simp_all add: watch_def)
  show ?thesis
    unfolding execute_known_def
    using resume by (cases "op_result o'"; cases "op_state o'") (simp_all add: prepared_watched [OF assms])
qed

lemma reads_operation_key: "operation_by_key r m c w = (x, v) \<Longrightarrow> v = w"
  by (auto simp: operation_by_key_def store_operation_def bnd_def need_def
      split: prod.splits sum.splits option.splits)

lemma entry_watched:
  assumes quiet: "\<not> w_active w" and ids: "distinct (map i_id (t_interactions w))"
    and host: "host_reads gw" and name: "name \<notin> own_tools"
  shows "execute_entry gw ctx key name args snapshot (spec, watch gw spec ex) w =
    execute_entry gw ctx key name args snapshot (spec, ex) w"
  unfolding execute_entry_def fst_conv snd_conv
proof (rule andthen_cong)
  fix x v assume "lift (enforce snapshot spec) w = (Inr x, v)"
  then have v: "v = w" by (simp add: lift_def split: sum.splits)
  note same = known_watched [OF assms, of ctx key args spec ex]
    prepared_watched [OF assms, of ctx key args spec ex]
  have "bnd (operation_by_key (c_run ctx) (ok_message key) (ok_call key)) (\<lambda>existing. case existing of
        Some o' \<Rightarrow> execute_known gw ctx key name args spec (watch gw spec ex) o'
      | None \<Rightarrow> execute_prepared gw ctx key name args spec (watch gw spec ex)) w =
    bnd (operation_by_key (c_run ctx) (ok_message key) (ok_call key)) (\<lambda>existing. case existing of
        Some o' \<Rightarrow> execute_known gw ctx key name args spec ex o'
      | None \<Rightarrow> execute_prepared gw ctx key name args spec ex) w"
    by (rule bnd_cong) (auto dest!: reads_operation_key split: option.split simp: same)
  then show "(if \<not> gw_valid gw args (ts_input spec)
      then ret (Done (plain_result '''' tr_failed ''arguments'' (Some ''TOOL_ARGUMENTS'')))
      else bnd (operation_by_key (c_run ctx) (ok_message key) (ok_call key)) (\<lambda>existing. case existing of
          Some o' \<Rightarrow> execute_known gw ctx key name args spec (watch gw spec ex) o'
        | None \<Rightarrow> execute_prepared gw ctx key name args spec (watch gw spec ex))) v =
    (if \<not> gw_valid gw args (ts_input spec)
      then ret (Done (plain_result '''' tr_failed ''arguments'' (Some ''TOOL_ARGUMENTS'')))
      else bnd (operation_by_key (c_run ctx) (ok_message key) (ok_call key)) (\<lambda>existing. case existing of
          Some o' \<Rightarrow> execute_known gw ctx key name args spec ex o'
        | None \<Rightarrow> execute_prepared gw ctx key name args spec ex)) v"
    by (simp add: v)
qed

text \<open>
  C5: the gateway with watched executors is the gateway: from any world between transactions, whenever
  it calls the executor of an effect the call is authorised in the world the executor starts from
  (the fence is open, the operation recorded as running, its budget reserved, the tool allowed by the
  policy in force, a grant just used up and, where asked for, the user's approval of that grant's
  binding), and whenever it continues a waiting effect the used grant is still good.
\<close>

theorem executors_authorised:
  assumes quiet: "\<not> w_active w" and ids: "distinct (map i_id (t_interactions w))"
    and host: "host_reads gw"
  shows "execute (watched gw) ctx key name args w = execute gw ctx key name args w"
  unfolding execute_def watched_entry
proof (rule andthen_cong, rule andthen_cong, rule bnd_cong, rule bnd_cong)
  fix x w1 y w2 snapshot w3 v w4
  assume "raise_if (ok_run key \<noteq> c_run ctx) (HErr ''TOOL_IDENTITY'' 403) w = (Inr x, w1)"
    and "assert_fence ctx False w1 = (Inr y, w2)" and "snapshot_of ctx w2 = (Inr snapshot, w3)"
    and "lift (tool_version snapshot name) w3 = (Inr v, w4)"
  moreover have "snapshot_of ctx w' = (r, v') \<Longrightarrow> v' = w'" for w' r v'
    using reads_world [OF policy_reads(2), of ctx w'] by simp
  ultimately have w4: "w4 = w"
    by (auto simp: act_iffs assert_fence_Inr lift_def split: sum.splits)
  have "execute_entry gw ctx key name args snapshot
      (fst e, if name \<in> own_tools then snd e else watch gw (fst e) (snd e)) w =
    execute_entry gw ctx key name args snapshot e w" for e
    by (cases e) (simp add: entry_watched [OF quiet ids host])
  then show "bnd (lift (registry_get (gw_registry (watched gw)) name v))
      (execute_entry gw ctx key name args snapshot) w4 =
    bnd (lift (registry_get (gw_registry gw) name v)) (execute_entry gw ctx key name args snapshot) w4"
    by (cases "registry_get (gw_registry gw) name v")
      (simp_all add: registry_get_watched w4 lift_def bnd_def)
qed


section \<open>Concrete calls\<close>

text \<open>A run with one tool in its snapshot, whose operation has an unknown outcome.\<close>

definition sample_key :: operation_key where
  "sample_key = \<lparr>ok_run = ''run'', ok_message = ''msg'', ok_call = ''call''\<rparr>"

definition lookup_gateway :: gateway where
  "lookup_gateway = sample_gateway\<lparr>gw_digest := (\<lambda>_. ''hash''),
     gw_registry := [((''lookup'', ''1''), (sample_tool ef_process,
       \<lparr>ex_call = (\<lambda>_ _ _ w. (Ex_exception, w)), ex_resume = None\<rparr>))]\<rparr>"

definition uncertain_world :: world where
  "uncertain_world = running_world
     \<lparr>t_operations := [sample_operation\<lparr>op_tool := ''lookup'', op_state := op_unknown\<rparr>],
      t_records := [\<lparr>rec_namespace = ''snapshots'', rec_key = ''snap'', rec_revision = 1,
        rec_payload = JObj [(''tools'', JList [JObj [(''id'', JStr ''lookup''), (''version'', JStr ''1'')]])]\<rparr>]\<rparr>"

lemma executors_authorised_witness:
  "execute (watched lookup_gateway) sample_context sample_key ''lookup'' (JObj []) uncertain_world =
     execute lookup_gateway sample_context sample_key ''lookup'' (JObj []) uncertain_world"
  by (rule executors_authorised)
    (simp_all add: uncertain_world_def running_world_def fresh_store_def empty_world_def host_reads_def
      lookup_gateway_def sample_gateway_def)


end
