(* ===== verification/Recovery_Steps.thy ===== *)
theory Recovery_Steps
  imports Worker Gateway_Watch
begin

text \<open>
  What recovery makes of the operations of a run whose worker was lost: an effect whose outcome is
  not certain is never made runnable again, and a run with such an effect waits for review. Recovery
  itself fails when a running operation names a tool that is not registered.
\<close>

section \<open>What a move of a run leaves alone\<close>

definition status_at :: "string \<Rightarrow> world \<Rightarrow> run_status option" where
  "status_at i w = map_option r_status (run_at w i)"

definition ops_status :: "string \<Rightarrow> world \<Rightarrow> operation_row list \<times> run_status option" where
  "ops_status i w = (t_operations w, status_at i w)"

interpretation kept_ops: db_history "same_view t_operations"
  by unfold_locales (auto simp: same_view_def)

interpretation kept_status: db_history "same_view (status_at i)" for i
  by unfold_locales (auto simp: same_view_def status_at_def run_at_def)

interpretation kept_both: db_history "same_view (ops_status i)" for i
  by unfold_locales (auto simp: same_view_def ops_status_def status_at_def run_at_def)

lemma keeps_status_core: "keeps (same_view core) m \<Longrightarrow> keeps (same_view (status_at i)) m"
  unfolding tri_def same_view_def status_at_def using core_eqD(1) by metis

lemma keeps_ops_both:
  "keeps (same_view t_operations) m \<Longrightarrow> keeps (same_view (status_at i)) m \<Longrightarrow> keeps (same_view (ops_status i)) m"
  by (auto simp: tri_def same_view_def ops_status_def)

lemma ops_events: "keeps (same_view t_operations) (store_event i ty d)"
  unfolding store_event_def store_outbox_def
  by (intro kept_ops.keeps_db kept_ops.keeps_reads view_update_where same_view_modify; simp)

lemma status_events: "keeps (same_view (status_at j)) (store_event i ty d)"
  unfolding store_event_alt
proof (rule kept_status.keeps_transaction, rule triI, intro conjI)
  fix w r v
  assume run: "event_body i ty d w = (r, v)"
  show "same_view (status_at j) w v"
  proof (cases "run_at w i")
    case None
    with run event_body_missing [OF None, of ty d] show ?thesis by (simp add: same_view_def)
  next
    case (Some row)
    have eq: "status_at j v = status_at j u" if "core v = core u" for u
      using core_eqD(1) [OF that] by (simp add: status_at_def)
    have put: "status_at j ((put_run i (\<lambda>r. r\<lparr>r_next_seq := r_next_seq r + 1\<rparr>) w)\<lparr>t_events := es\<rparr>) = status_at j w" for es
      by (cases "j = i"; cases "run_at w j") (auto simp: status_at_def at_simps)
    from event_body_there [OF Some, where ty = ty and d = d] run
    have "core v = core w \<or> (\<exists>es. core v = core ((put_run i (\<lambda>r. r\<lparr>r_next_seq := r_next_seq r + 1\<rparr>) w)\<lparr>t_events := es\<rparr>))"
      by (elim disjE exE conjE) auto
    then show ?thesis unfolding same_view_def using eq put by metis
  qed
qed simp

lemma both_events: "keeps (same_view (ops_status j)) (store_event i ty d)"
  "keeps (same_view (ops_status j)) (emit i ty d)"
  unfolding emit_def by (intro kept_both.keeps_db keeps_ops_both ops_events status_events)+

lemma both_recovery:
  "keeps (same_view (ops_status j)) (revoke_grants i gs)"
  "keeps (same_view (ops_status j)) (end_attempt a re)"
  unfolding revoke_grants_def end_attempt_def
  by (intro kept_both.keeps_db view_update_where; simp add: ops_status_def status_at_def run_at_def)+

lemma transaction_run:
  assumes "transaction m w = (Inr x, v)"
  obtains u b c where "m (w\<lparr>w_active := b\<rparr>) = (Inr x, u)" "v = u\<lparr>w_active := c\<rparr>"
proof (cases "w_active w")
  case True
  then have "w\<lparr>w_active := True\<rparr> = w" by simp
  with assms True that [of True v "w_active v"] show ?thesis by simp
next
  case False
  from transaction_InrD [OF False assms] show ?thesis using that by blast
qed

lemma transition_open:
  assumes run: "transition s run st ctx reason ps w = (Inr u, v)"
    and st: "\<not> terminal st" and ps: "list_all (\<lambda>p. \<forall>x. p \<noteq> P_status x) ps"
  shows "t_operations v = t_operations w \<and> r_status u = st \<and> status_at (r_id run) v = Some st \<and>
    r_id u = r_id run"
proof -
  have patch: "r_status (fold patch_run ps r) = r_status r \<and> r_id (fold patch_run ps r) = r_id r" for r
    using ps
  proof (induction ps arbitrary: r)
    case (Cons p ps)
    then show ?case by (cases p) simp_all
  qed simp
  from run obtain u0 b c u1 u2 where
    upd: "update_run (r_id run) (r_revision run) (P_status st # ps) ctx (w\<lparr>w_active := b\<rparr>) = (Inr u, u1)" and
    ev: "event_state u (state_event st) reason u1 = (Inr (), u2)" and v: "v = u2\<lparr>w_active := c\<rparr>"
    using st unfolding transition_def
    by (auto simp: act_iffs whenever_def elim!: transaction_run)
  from upd obtain r where r: "run_at w (r_id run) = Some r" "u = patched (P_status st # ps) (w_now w) r"
    "u1 = put_run (r_id run) (patched (P_status st # ps) (w_now w)) (w\<lparr>w_active := b\<rparr>)" "run_at u1 (r_id run) = Some u"
    by (auto elim!: update_run_Inr)
  have u: "r_status u = st" "r_id u = r_id run"
    using r(1) by (auto simp: r(2) patched_def patch run_at_def dest: row_of_SomeD)
  have "ops_status (r_id run) u2 = ops_status (r_id run) u1"
    using ev triD(1) [OF both_events(2) _ ev [unfolded event_state_def]] by (simp add: same_view_def)
  moreover have "t_operations u1 = t_operations w" by (simp add: r(3) put_run_def)
  ultimately show ?thesis using u r(4) by (simp add: v ops_status_def status_at_def run_at_def)
qed

section \<open>What becomes of an operation\<close>

text \<open>
  The row after recovery, from the row before: settled and prepared operations stay as they are, and
  so does a saved exchange that can be resumed; a file operation is recorded as done when the file
  has the content it was to have; a tool that only reads may run again; anything else is unknown.
\<close>

definition recovered :: "'x host \<Rightarrow> operation_row \<Rightarrow> operation_row \<Rightarrow> bool" where
  "recovered h before after \<longleftrightarrow> op_id after = op_id before \<and>
     (if op_state before \<noteq> op_running then after = before
      else (awaiting_input before \<and> after = before) \<or> op_state after = op_unknown \<or>
        (op_state after = op_succeeded \<and> written_digest h before \<noteq> None \<and>
          map_option JStr (written_digest h before) = Some (jget ''after_hash'' (op_metadata before))) \<or>
        (op_state after = op_prepared \<and> op_grant after = None \<and>
          (case registry_get (ho_registry h) (op_tool before) (op_tool_revision before) of
             Inl e \<Rightarrow> False | Inr entry \<Rightarrow> ts_effect (fst entry) = ef_read)))"

lemma status_put_op: "status_at i (put_op j f w) = status_at i w"
  by (simp add: status_at_def run_at_def put_op_def)

lemma update_plain:
  assumes "op_at w (op_id o') = Some o'"
    and "update_operation (op_id o') (op_revision o') ps None w = (Inr x, v)"
  shows "v = put_op (op_id o') (op_patched ps (w_now w)) w"
  using assms by (auto simp: update_operation_eval ctx_result_def)

lemma recover_operation_effect:
  assumes at: "op_at w (op_id o') = Some o'" and wait: "op_id o' \<in> set conts \<Longrightarrow> awaiting_input o'"
    and run: "recover_operation h conts o' w = (Inr b, v)"
  shows "(\<exists>after. op_at v (op_id o') = Some after \<and> recovered h o' after \<and> (op_state after = op_unknown \<longleftrightarrow> b)) \<and>
    (\<forall>j. j \<noteq> op_id o' \<longrightarrow> op_at v j = op_at w j) \<and> status_at i v = status_at i w"
proof -
  note upd = update_plain [OF at]
  consider (stays) "v = w" "op_state o' \<noteq> op_running \<or> op_id o' \<in> set conts" "b \<longleftrightarrow> op_state o' = op_unknown"
    | (unknown) "v = put_op (op_id o') (op_patched [O_state op_unknown] (w_now w)) w" "b" "op_state o' = op_running"
    | (written) x where "v = put_op (op_id o') (op_patched [O_state op_succeeded, O_result (Some x)] (w_now w)) w"
        "\<not> b" "op_state o' = op_running" "written_digest h o' \<noteq> None"
        "map_option JStr (written_digest h o') = Some (jget ''after_hash'' (op_metadata o'))"
    | (again) entry where "v = put_op (op_id o') (op_patched [O_state op_prepared, O_grant None] (w_now w)) w"
        "\<not> b" "op_state o' = op_running" "ts_effect (fst entry) = ef_read"
        "registry_get (ho_registry h) (op_tool o') (op_tool_revision o') = Inr entry"
    using run unfolding recover_operation_def mark_unknown_def
    by (auto simp: act_iffs lift_def dest!: upd split: if_splits sum.splits)
  then show ?thesis
  proof cases
    case stays
    with at wait show ?thesis by (auto simp: recovered_def awaiting_input_def)
  qed (auto simp: recovered_def op_at_put_op at status_put_op op_patched_def)
qed

lemma recover_operations_effect:
  assumes "distinct (map op_id ops)" and "\<And>o'. o' \<in> set ops \<Longrightarrow> op_at w (op_id o') = Some o'"
    and "\<And>o'. o' \<in> set ops \<Longrightarrow> op_id o' \<in> set conts \<Longrightarrow> awaiting_input o'"
    and "collect ops (recover_operation h conts) w = (Inr marks, v)"
  shows "(\<forall>o'\<in>set ops. \<exists>after. op_at v (op_id o') = Some after \<and> recovered h o' after \<and>
      (op_state after = op_unknown \<longrightarrow> True \<in> set marks)) \<and>
    (\<forall>j. j \<notin> op_id ` set ops \<longrightarrow> op_at v j = op_at w j) \<and> status_at i v = status_at i w"
  using assms
proof (induction ops arbitrary: w marks)
  case (Cons o' ops)
  from Cons.prems(4) obtain b u rest where first: "recover_operation h conts o' w = (Inr b, u)"
    and more: "collect ops (recover_operation h conts) u = (Inr rest, v)" and marks: "marks = b # rest"
    by (auto simp: act_iffs)
  have at: "op_at w (op_id o') = Some o'" using Cons.prems(2) by simp
  from recover_operation_effect [OF at _ first, of i] Cons.prems(3) obtain after where
    o1: "op_at u (op_id o') = Some after" "recovered h o' after" "op_state after = op_unknown \<longleftrightarrow> b"
    and frame: "\<And>j. j \<noteq> op_id o' \<Longrightarrow> op_at u j = op_at w j" "status_at i u = status_at i w"
    by auto
  have fresh: "op_id o' \<notin> op_id ` set ops" using Cons.prems(1) by auto
  then have rest: "op_at u (op_id x) = Some x" if "x \<in> set ops" for x
  proof -
    from that fresh have "op_id x \<noteq> op_id o'" by (metis imageI)
    with that Cons.prems(2) [of x] frame(1) [of "op_id x"] show ?thesis by simp
  qed
  have "(\<forall>x\<in>set ops. \<exists>after. op_at v (op_id x) = Some after \<and> recovered h x after \<and>
      (op_state after = op_unknown \<longrightarrow> True \<in> set rest)) \<and>
    (\<forall>j. j \<notin> op_id ` set ops \<longrightarrow> op_at v j = op_at u j) \<and> status_at i v = status_at i u"
    by (rule Cons.IH) (use Cons.prems(1,3) rest more in auto)
  with o1 frame fresh marks show ?case by auto
qed simp

lemma store_operations_Inr:
  assumes "distinct (map op_id (t_operations w))" and "store_operations i w = (Inr ops, v)"
  shows "v = w \<and> set ops = {o' \<in> set (t_operations w). op_run o' = i} \<and> distinct (map op_id ops)"
proof -
  let ?rows = "sort_key op_created (filter (\<lambda>o'. op_run o' = i) (t_operations w))"
  have same: "store_operation (op_id x) w = (Inr x, w)" if "x \<in> set ?rows" for x
    using that row_of_unique [OF assms(1), of x] by (simp add: store_operation_def)
  have "collect xs (\<lambda>o'. store_operation (op_id o')) w = (Inr xs, w)" if "set xs \<subseteq> set ?rows" for xs
    using that by (induction xs) (simp_all add: same)
  from this [of ?rows] assms(2) have "ops = ?rows" "v = w" by (auto simp: store_operations_def)
  moreover have "distinct (map op_id ?rows)"
    using assms(1) distinct_map_filter [of op_id "t_operations w"]
    by (simp add: distinct_map inj_on_def)
  ultimately show ?thesis by auto
qed

lemma continuations_waiting:
  assumes "distinct (map op_id (t_operations w))" and "continuations_of run w = (Inr conts, v)"
  shows "v = w \<and> (\<forall>o'\<in>set (t_operations w). op_id o' \<in> set conts \<longrightarrow> awaiting_input o')"
proof -
  from assms(2) obtain ops u marked where ops: "store_operations (r_id run) w = (Inr ops, u)"
    and marked: "collect ops (\<lambda>o'. bnd (resumable run o') (\<lambda>b. ret (b, op_id o'))) u = (Inr marked, v)"
    and conts: "conts = map snd (filter fst marked)"
    by (auto simp: continuations_of_def act_iffs)
  note listed = store_operations_Inr [OF assms(1) ops]
  have reads: "resumable run x u = (r, u') \<Longrightarrow> u' = u" for x u u' r
    by (auto simp: resumable_def catch_harness_def bnd_def store_interaction_def need_def
        split: if_splits prod.splits sum.splits option.splits err.splits)
  have "u' = w'" if "bnd (resumable run x) (\<lambda>b. ret (b, op_id x)) w' = (r, u')" for x w' u' r
    using that by (auto simp: bnd_def dest: reads split: prod.splits sum.splits)
  from collect_reads [where f = "\<lambda>x. bnd (resumable run x) (\<lambda>b. ret (b, op_id x))", OF this marked]
  have v: "v = u"
    and each: "\<And>y. y \<in> set marked \<Longrightarrow> \<exists>x\<in>set ops. bnd (resumable run x) (\<lambda>b. ret (b, op_id x)) u = (Inr y, u)"
    by simp_all
  have "awaiting_input o'" if o': "o' \<in> set (t_operations w)" "op_id o' \<in> set conts" for o'
  proof -
    from o'(2) have "(True, op_id o') \<in> set marked" by (auto simp: conts)
    from each [OF this] obtain x where x: "x \<in> set ops" "resumable run x u = (Inr True, u)" "op_id x = op_id o'"
      by (auto simp: act_iffs)
    with listed have "x \<in> set (t_operations w)" by blast
    with x(3) o'(1) assms(1) have "x = o'" by (auto simp: distinct_map dest: inj_onD)
    with x(2) show ?thesis by (auto simp: resumable_def split: if_splits)
  qed
  with v listed show ?thesis by simp
qed

text \<open>
  C6: the recovery of a run whose worker is gone. Every operation of the run ends as \<open>recovered\<close>
  says: an effect that was under way is never made runnable again, it is recorded as done only when
  the written file proves it, and otherwise unknown. The run is queued again only when no operation
  of it is unknown; else it waits for review.
\<close>

theorem recovery_outcome:
  assumes quiet: "\<not> w_active w" and ids: "distinct (map op_id (t_operations w))"
    and row: "run_at w i = Some r" and st: "r_status r \<in> {running, recovering}"
    and run: "recover_run s h a False i w = (Inr (Some report), v)"
  shows "(\<forall>o'\<in>set (t_operations w). op_run o' = i \<longrightarrow>
      (\<exists>after. op_at v (op_id o') = Some after \<and> recovered h o' after \<and>
        (op_state after = op_unknown \<longrightarrow> status_at i v = Some needs_review))) \<and>
    status_at i v \<in> {Some queued, Some needs_review}"
proof -
  let ?w = "w\<lparr>w_active := True\<rparr>"
  from transaction_InrD [OF quiet run [unfolded recover_run_def]] row
  obtain rn u1 conts u2 ops u3 u4 u5 marks u6 u7 u8 where
    move: "(if r_status r = running then transition s r recovering None (Some ''lease lost'') []
      else ret r) ?w = (Inr rn, u1)" and
    conts: "continuations_of rn u1 = (Inr conts, u2)" and ops: "store_operations i u2 = (Inr ops, u3)" and
    revoke: "revoke_grants i (retained_grants conts ops) u3 = (Inr (), u4)" and
    ends: "end_attempt (a_id a) ''worker_lost'' u4 = (Inr (), u5)" and
    marks: "collect ops (recover_operation h conts) u5 = (Inr marks, u6)" and
    last: "(if r_status rn = recovering
      then bnd (transition s rn (if list_ex id marks then needs_review else queued) None
        (Some ''recovered'') []) (\<lambda>_. ret ()) else ret ()) u6 = (Inr (), u7)" and
    v: "v = u7\<lparr>w_active := False\<rparr>"
    by (auto simp: act_iffs store_run_Inr split: if_splits)
  have i: "r_id r = i" using row by (auto simp: run_at_def dest: row_of_SomeD)
  have rn: "t_operations u1 = t_operations w" "r_status rn = recovering" "r_id rn = i"
  proof -
    have "t_operations u1 = t_operations w \<and> r_status rn = recovering \<and> r_id rn = i"
    proof (cases "r_status r = running")
      case True
      with move have "transition s r recovering None (Some ''lease lost'') [] ?w = (Inr rn, u1)" by simp
      from transition_open [OF this] i show ?thesis by (simp add: terminal_def)
    next
      case False
      with move st i show ?thesis by auto
    qed
    then show "t_operations u1 = t_operations w" "r_status rn = recovering" "r_id rn = i" by auto
  qed
  from ids rn(1) have ids1: "distinct (map op_id (t_operations u1))" by simp
  from continuations_waiting [OF ids1 conts] have u2: "u2 = u1"
    and waits: "\<And>o'. o' \<in> set (t_operations w) \<Longrightarrow> op_id o' \<in> set conts \<Longrightarrow> awaiting_input o'"
    by (simp_all add: rn(1))
  from store_operations_Inr [OF ids1 ops [unfolded u2]] rn(1) have u3: "u3 = u1"
    and listed: "set ops = {o' \<in> set (t_operations w). op_run o' = i}" and "distinct (map op_id ops)"
    by simp_all
  have "t_operations u5 = t_operations w"
    using view_run [OF both_recovery(1) revoke] view_run [OF both_recovery(2) ends] rn(1)
    by (simp add: ops_status_def u3)
  with row_of_unique [OF ids] listed have at: "op_at u5 (op_id o') = Some o'" if "o' \<in> set ops" for o'
    using that by (auto simp: op_at_def)
  from recover_operations_effect [OF \<open>distinct (map op_id ops)\<close> at _ marks] waits listed
  have effect: "\<forall>o'\<in>set ops. \<exists>after. op_at u6 (op_id o') = Some after \<and> recovered h o' after \<and>
      (op_state after = op_unknown \<longrightarrow> True \<in> set marks)"
    by auto
  let ?st = "if list_ex id marks then needs_review else queued"
  from last rn obtain rn' where "transition s rn ?st None (Some ''recovered'') [] u6 = (Inr rn', u7)"
    by (auto simp: act_iffs)
  from transition_open [OF this] rn have u7: "t_operations u7 = t_operations u6" "status_at i u7 = Some ?st"
    by (simp_all add: terminal_def)
  have "op_at v = op_at u6" "status_at i v = Some ?st"
    using u7 by (simp_all add: v op_at_def status_at_def run_at_def fun_eq_iff)
  moreover have "list_ex id marks \<longleftrightarrow> True \<in> set marks" by (auto simp: list_ex_iff)
  ultimately show ?thesis using effect listed by auto
qed

section \<open>A tool that is gone\<close>

text \<open>An action that raises whatever it would return.\<close>

definition fails :: "'a store \<Rightarrow> world \<Rightarrow> bool" where
  "fails m w \<longleftrightarrow> (\<exists>e v. m w = (Inl e, v))"

lemma fails_bnd: "(\<And>x v. m w = (Inr x, v) \<Longrightarrow> fails (f x) v) \<Longrightarrow> fails (bnd m f) w"
  by (cases "m w"; cases "fst (m w)") (auto simp: fails_def bnd_def)

lemma fails_andthen: "(\<And>x v. m w = (Inr x, v) \<Longrightarrow> fails k v) \<Longrightarrow> fails (andthen m k) w"
  unfolding andthen_def by (rule fails_bnd)

lemma fails_first: "fails m w \<Longrightarrow> fails (bnd m f) w"
  by (auto simp: fails_def)

lemma fails_transaction: "\<not> w_active w \<Longrightarrow> fails m (w\<lparr>w_active := True\<rparr>) \<Longrightarrow> \<exists>e. transaction m w = (Inl e, w)"
  by (auto simp: fails_def transaction_def)

lemma fails_collect: "z \<in> set xs \<Longrightarrow> (\<And>u. fails (f z) u) \<Longrightarrow> fails (collect xs f) w"
proof (induction xs arbitrary: w)
  case (Cons y ys)
  show ?case
  proof (cases "z = y")
    case True
    with Cons.prems(2) show ?thesis by (simp add: fails_first)
  next
    case False
    with Cons.prems have "fails (collect ys f) u" for u by (intro Cons.IH) auto
    then show ?thesis by (simp add: fails_bnd fails_first)
  qed
qed simp

definition tool_gone :: "'x host \<Rightarrow> operation_row \<Rightarrow> bool" where
  "tool_gone h o' \<longleftrightarrow> op_state o' = op_running \<and> \<not> awaiting_input o' \<and> \<not> jtruthy (continuation_of o') \<and>
     written_digest h o' = None \<and>
     registry_get (ho_registry h) (op_tool o') (op_tool_revision o') = Inl (HErr ''TOOL_UNAVAILABLE'' 422)"


section \<open>Concrete recoveries\<close>

definition orphaned_world :: world where
  "orphaned_world = running_world
     \<lparr>t_operations := [sample_operation\<lparr>op_tool := ''lookup'', op_state := op_running\<rparr>], w_now := 2000\<rparr>"

definition lookup_host :: "unit host" where
  "lookup_host = sample_host\<lparr>ho_registry := [((''lookup'', ''1''), (sample_tool ef_process, ()))]\<rparr>"

abbreviation orphan_recovery :: "unit host \<Rightarrow> (err + (string \<times> string) option) \<times> world" where
  "orphan_recovery h \<equiv> recover_run sample_scheduler h sample_attempt False ''run'' orphaned_world"

lemma orphaned_facts: "\<not> w_active orphaned_world" "distinct (map op_id (t_operations orphaned_world))"
  "run_at orphaned_world ''run'' = Some sample_run"
  by (simp_all add: orphaned_world_def running_world_def run_at_def sample_run_def fresh_store_def
      empty_world_def)

lemma recovery_outcome_witness:
  "status_at ''run'' (snd (orphan_recovery lookup_host)) = Some needs_review"
proof -
  have "fst (orphan_recovery lookup_host) = Inr (Some (''run'', ''needs_review''))" by code_simp
  then have run: "orphan_recovery lookup_host = (Inr (Some (''run'', ''needs_review'')), snd (orphan_recovery lookup_host))"
    by (rule run_split)
  let ?o = "sample_operation\<lparr>op_tool := ''lookup'', op_state := op_running\<rparr>"
  have o: "?o \<in> set (t_operations orphaned_world)" "op_run ?o = ''run''"
    by (simp_all add: orphaned_world_def sample_operation_def)
  from recovery_outcome [OF orphaned_facts _ run] o obtain after where
    "recovered lookup_host ?o after" "op_state after = op_unknown \<longrightarrow>
      status_at ''run'' (snd (orphan_recovery lookup_host)) = Some needs_review"
    by (auto simp: sample_run_def)
  moreover have "\<not> awaiting_input ?o" "written_digest lookup_host ?o = None"
    "(case registry_get (ho_registry lookup_host) (op_tool ?o) (op_tool_revision ?o) of
      Inl e \<Rightarrow> False | Inr entry \<Rightarrow> ts_effect (fst entry) = ef_read) = False" "op_state ?o = op_running"
    by code_simp+
  ultimately show ?thesis by (auto simp only: recovered_def if_True if_False simp_thms)
qed


end
