(* ===== verification/Memory.thy ===== *)
theory Memory
  imports Policy
begin

text \<open>
  Reviewable memory (\<^verbatim>\<open>harness/context/memory.py\<close>, \<^verbatim>\<open>MemoryRecord\<close> of
  \<^verbatim>\<open>harness/context/models.py\<close>): proposals, their review, edits by compare-and-set, and retrieval
  that filters by access before it ranks. Records are kept as JSON in the record store and read back
  through the validation of their class. An instant is a number; texts of instants are not modelled.
\<close>

section \<open>Records\<close>

datatype mem_scope = ms_workspace | ms_user

datatype mem_kind = mk_fact | mk_preference | mk_procedure | mk_pinned

datatype review_state = rv_proposed | rv_accepted | rv_rejected | rv_deleted

record memory_record =
  me_id :: string
  me_revision :: int
  me_owner :: string
  me_workspace :: string
  me_scope :: mem_scope
  me_kind :: mem_kind
  me_content :: string
  me_sources :: "json list"
  me_created :: timestamp
  me_expires :: "timestamp option"
  me_confidence :: "rat option"
  me_review :: review_state

fun scope_text :: "mem_scope \<Rightarrow> string" where
  "scope_text ms_workspace = ''workspace''"
| "scope_text ms_user = ''user''"

fun kind_text :: "mem_kind \<Rightarrow> string" where
  "kind_text mk_fact = ''fact''"
| "kind_text mk_preference = ''preference''"
| "kind_text mk_procedure = ''procedure''"
| "kind_text mk_pinned = ''pinned''"

fun review_text :: "review_state \<Rightarrow> string" where
  "review_text rv_proposed = ''proposed''"
| "review_text rv_accepted = ''accepted''"
| "review_text rv_rejected = ''rejected''"
| "review_text rv_deleted = ''deleted''"

text \<open>\<^verbatim>\<open>model_dump(mode="json")\<close>.\<close>

definition memory_json :: "memory_record \<Rightarrow> json" where
  "memory_json r = JObj
     [(''id'', JStr (me_id r)), (''revision'', JInt (me_revision r)), (''owner'', JStr (me_owner r)),
      (''workspace'', JStr (me_workspace r)), (''scope'', JStr (scope_text (me_scope r))),
      (''kind'', JStr (kind_text (me_kind r))), (''content'', JStr (me_content r)),
      (''source_refs'', JList (me_sources r)), (''created_at'', JInt (int (me_created r))),
      (''expires_at'', case me_expires r of None \<Rightarrow> JNull | Some t \<Rightarrow> JInt (int t)),
      (''confidence'', case me_confidence r of None \<Rightarrow> JNull | Some c \<Rightarrow> JFloat c),
      (''review_state'', JStr (review_text (me_review r)))]"

text \<open>
  The validation of the class, field by field: a missing field takes its default, a value outside
  the field's type or bounds is refused, and so is a field the class does not have. The fields
  \<^verbatim>\<open>id\<close> and \<^verbatim>\<open>created_at\<close>, whose defaults are a new identity and the time, are given to it.
\<close>

definition valid_string :: "json \<Rightarrow> err + string" where
  "valid_string j = (case j of JStr s \<Rightarrow> Inr s | _ \<Rightarrow> Inl PyValueError)"

definition valid_int :: "json \<Rightarrow> err + int" where
  "valid_int j = (case j of JInt n \<Rightarrow> Inr n | _ \<Rightarrow> Inl PyValueError)"

definition valid_literal :: "('a \<Rightarrow> string) \<Rightarrow> 'a list \<Rightarrow> json \<Rightarrow> err + 'a" where
  "valid_literal text options j =
     (case find (\<lambda>x. j = JStr (text x)) options of None \<Rightarrow> Inl PyValueError | Some x \<Rightarrow> Inr x)"

definition valid_source :: "json \<Rightarrow> bool" where
  "valid_source j = (case j of JStr s \<Rightarrow> True | JObj kvs \<Rightarrow> True | _ \<Rightarrow> False)"

definition valid_sources :: "json \<Rightarrow> err + json list" where
  "valid_sources j =
     (case j of JList xs \<Rightarrow> if list_all valid_source xs then Inr xs else Inl PyValueError
      | _ \<Rightarrow> Inl PyValueError)"

definition valid_instant :: "json \<Rightarrow> err + timestamp" where
  "valid_instant j = (case j of JInt n \<Rightarrow> if 0 \<le> n then Inr (nat n) else Inl PyValueError
     | _ \<Rightarrow> Inl PyValueError)"

definition valid_optional :: "(json \<Rightarrow> err + 'a) \<Rightarrow> json \<Rightarrow> err + 'a option" where
  "valid_optional f j = (if j = JNull then Inr None else map_sum id Some (f j))"

definition valid_confidence :: "json \<Rightarrow> err + rat" where
  "valid_confidence j =
     (case j of JFloat c \<Rightarrow> if 0 \<le> c \<and> c \<le> 1 then Inr c else Inl PyValueError
      | JInt n \<Rightarrow> if 0 \<le> n \<and> n \<le> 1 then Inr (of_int n) else Inl PyValueError
      | _ \<Rightarrow> Inl PyValueError)"

definition sum_bind :: "err + 'a \<Rightarrow> ('a \<Rightarrow> err + 'b) \<Rightarrow> err + 'b" where
  "sum_bind r f = (case r of Inl e \<Rightarrow> Inl e | Inr x \<Rightarrow> f x)"

definition memory_fields :: "string list" where
  "memory_fields =
     [''id'', ''revision'', ''owner'', ''workspace'', ''scope'', ''kind'', ''content'', ''source_refs'',
      ''created_at'', ''expires_at'', ''confidence'', ''review_state'']"

fun jkeys :: "json \<Rightarrow> string list" where
  "jkeys (JObj kvs) = map fst kvs"
| "jkeys _ = []"

definition memory_validate :: "json \<Rightarrow> err + memory_record" where
  "memory_validate j =
     (if \<not> set (jkeys j) \<subseteq> set memory_fields then Inl PyValueError else
      sum_bind (valid_string (jget ''id'' j)) (\<lambda>i.
      sum_bind (valid_int (jget_or ''revision'' (JInt 1) j)) (\<lambda>revision.
      sum_bind (valid_string (jget ''owner'' j)) (\<lambda>owner.
      sum_bind (valid_string (jget ''workspace'' j)) (\<lambda>workspace.
      sum_bind (valid_literal scope_text [ms_workspace, ms_user]
        (jget_or ''scope'' (JStr ''workspace'') j)) (\<lambda>scope.
      sum_bind (valid_literal kind_text [mk_fact, mk_preference, mk_procedure, mk_pinned]
        (jget_or ''kind'' (JStr ''fact'') j)) (\<lambda>kind.
      sum_bind (valid_string (jget ''content'' j)) (\<lambda>content.
      if content = '''' then Inl PyValueError else
      sum_bind (valid_sources (jget_or ''source_refs'' (JList []) j)) (\<lambda>sources.
      sum_bind (valid_instant (jget ''created_at'' j)) (\<lambda>created.
      sum_bind (valid_optional valid_instant (jget ''expires_at'' j)) (\<lambda>expires.
      sum_bind (valid_optional valid_confidence (jget ''confidence'' j)) (\<lambda>confidence.
      sum_bind (valid_literal review_text [rv_proposed, rv_accepted, rv_rejected, rv_deleted]
        (jget_or ''review_state'' (JStr ''proposed'') j)) (\<lambda>review.
      Inr \<lparr>me_id = i, me_revision = revision, me_owner = owner, me_workspace = workspace,
           me_scope = scope, me_kind = kind, me_content = content, me_sources = sources,
           me_created = created, me_expires = expires, me_confidence = confidence,
           me_review = review\<rparr>)))))))))))))"

section \<open>The service\<close>

text \<open>The caller: the owner's name, or an object that also names the workspace it works in.\<close>

datatype identity = Owner string | Scoped string "string option"

fun owner_of :: "identity \<Rightarrow> string" where
  "owner_of (Owner o') = o'"
| "owner_of (Scoped o' ws) = o'"

fun caller_workspace :: "identity \<Rightarrow> string" where
  "caller_workspace (Owner o') = ''''"
| "caller_workspace (Scoped o' ws) = (case ws of None \<Rightarrow> '''' | Some w \<Rightarrow> w)"

definition memory_expired :: "timestamp \<Rightarrow> memory_record \<Rightarrow> bool" where
  "memory_expired now r = (case me_expires r of None \<Rightarrow> False | Some t \<Rightarrow> t \<le> now)"

text \<open>The access check the server gives the service: the workspace must be the caller's.\<close>

definition access_check :: "identity \<Rightarrow> string \<Rightarrow> unit store" where
  "access_check who workspace_id =
     bnd (store_workspace workspace_id (Some (owner_of who))) (\<lambda>_. ret ())"

definition memory_check :: "identity \<Rightarrow> memory_record \<Rightarrow> unit store" where
  "memory_check who r =
     andthen (raise_if (owner_of who \<noteq> me_owner r) (HErr ''memory_not_found'' 404))
     (andthen (raise_if (caller_workspace who \<noteq> '''' \<and> me_scope r = ms_workspace \<and>
        caller_workspace who \<noteq> me_workspace r) (HErr ''memory_not_found'' 404))
     (access_check who (me_workspace r)))"

definition memory_propose ::
  "identity \<Rightarrow> string \<Rightarrow> string \<Rightarrow> json list \<Rightarrow> (string \<times> json) list \<Rightarrow> memory_record store" where
  "memory_propose who workspace_id content source_refs extra =
     andthen (access_check who workspace_id)
     (andthen (raise_if (\<not> fst ` set extra \<subseteq> {''scope'', ''kind'', ''expires_at'', ''confidence''})
        (HErr ''invalid_memory_field'' 422))
     (bnd new_id (\<lambda>identity.
      bnd utc_now (\<lambda>now.
      bnd (lift (memory_validate (jmerge (JObj
        [(''id'', JStr identity), (''owner'', JStr (owner_of who)), (''workspace'', JStr workspace_id),
         (''content'', JStr content), (''source_refs'', JList source_refs),
         (''created_at'', JInt (int now))]) (JObj extra)))) (\<lambda>r.
      andthen (store_put ''memory'' (me_id r) (memory_json r))
      (ret r))))))"

definition memory_get :: "identity \<Rightarrow> string \<Rightarrow> memory_record store" where
  "memory_get who memory_id =
     bnd (store_get ''memory'' memory_id) (\<lambda>data.
     andthen (raise_if (\<not> jtruthy (or_empty data)) (HErr ''memory_not_found'' 404))
     (bnd (lift (memory_validate (or_empty data))) (\<lambda>r.
      andthen (memory_check who r)
      (andthen (raise_if (me_review r = rv_deleted) (HErr ''memory_not_found'' 404))
      (ret r)))))"

text \<open>Python's \<^verbatim>\<open>int(text)\<close> for ASCII texts: blanks around, a sign, digits with single underscores.\<close>

definition is_digit :: "char \<Rightarrow> bool" where
  "is_digit c \<longleftrightarrow> (48 :: nat) \<le> of_char c \<and> of_char c \<le> (57 :: nat)"

definition is_blank :: "char \<Rightarrow> bool" where
  "is_blank c \<longleftrightarrow> of_char c \<in> {9 :: nat, 10, 11, 12, 13, 28, 29, 30, 31, 32}"

fun read_digits :: "int \<Rightarrow> string \<Rightarrow> int option" where
  "read_digits acc [] = Some acc"
| "read_digits acc (c # cs) =
     (if is_digit c then read_digits (10 * acc + int (of_char c - 48)) cs
      else if c = CHR ''_'' \<and> cs \<noteq> [] \<and> is_digit (hd cs) then read_digits acc cs
      else None)"

definition read_nat :: "string \<Rightarrow> int option" where
  "read_nat s = (if s \<noteq> [] \<and> is_digit (hd s) then read_digits 0 s else None)"

definition strip_text :: "string \<Rightarrow> string" where
  "strip_text s = rev (dropWhile is_blank (rev (dropWhile is_blank s)))"

definition read_int :: "string \<Rightarrow> int option" where
  "read_int s =
     (case strip_text s of
        [] \<Rightarrow> None
      | c # cs \<Rightarrow>
          (if c = CHR ''-'' then map_option uminus (read_nat cs)
           else if c = CHR ''+'' then read_nat cs else read_nat (c # cs)))"

record memory_page =
  pg_items :: "memory_record list"
  pg_next :: "string option"

definition listed_memory :: "identity \<Rightarrow> string \<Rightarrow> (string \<times> json) list \<Rightarrow> memory_record \<Rightarrow> bool" where
  "listed_memory who workspace_id filters r \<longleftrightarrow>
     me_owner r = owner_of who \<and> me_review r \<noteq> rv_deleted \<and>
     \<not> (me_scope r = ms_workspace \<and> me_workspace r \<noteq> workspace_id) \<and>
     list_all (\<lambda>f. jget (fst f) (memory_json r) = snd f) filters"

definition page_of :: "memory_record list \<Rightarrow> string option \<Rightarrow> int \<Rightarrow> err + memory_page" where
  "page_of records cursor many =
     (case (case cursor of None \<Rightarrow> Some 0 | Some s \<Rightarrow> if s = '''' then Some 0 else read_int s) of
        None \<Rightarrow> Inl (HErr ''invalid_cursor'' 422)
      | Some offset \<Rightarrow>
          if offset < 0 \<or> \<not> (1 \<le> many \<and> many \<le> 100) then Inl (HErr ''invalid_cursor'' 422)
          else Inr \<lparr>pg_items = take (nat many) (drop (nat offset) records),
            pg_next = (if offset + many < int (length records) then Some (int_text (offset + many))
              else None)\<rparr>)"

definition memory_list ::
  "identity \<Rightarrow> string \<Rightarrow> (string \<times> json) list \<Rightarrow> string option \<Rightarrow> int \<Rightarrow> memory_page store" where
  "memory_list who workspace_id filters cursor many =
     andthen (access_check who workspace_id)
     (bnd (store_list ''memory'') (\<lambda>datas.
      bnd (collect datas (\<lambda>data. lift (memory_validate data))) (\<lambda>all.
      bnd (ret (sort_key (\<lambda>r. (me_created r, me_id r)) (filter (listed_memory who workspace_id filters) all)))
        (\<lambda>records.
      lift (page_of records cursor many)))))"

definition memory_replace :: "memory_record \<Rightarrow> json \<Rightarrow> int \<Rightarrow> memory_record store" where
  "memory_replace old patch expected_revision =
     andthen (raise_if (me_revision old \<noteq> expected_revision) (HErr ''revision_conflict'' 409))
     (bnd (lift (memory_validate (jset ''revision'' (JInt (me_revision old + 1))
        (jmerge (memory_json old) patch)))) (\<lambda>new.
      bnd (compare_and_set ''memory'' (me_id old) (Some expected_revision) (memory_json new)) (\<lambda>_.
      ret new)))"

definition memory_review :: "identity \<Rightarrow> string \<Rightarrow> string \<Rightarrow> int \<Rightarrow> memory_record store" where
  "memory_review who memory_id decision expected_revision =
     andthen (raise_if (decision \<notin> {''accepted'', ''rejected'', ''accept'', ''reject''})
       (HErr ''invalid_decision'' 422))
     (bnd (memory_get who memory_id) (\<lambda>r.
      andthen (raise_if (me_review r \<noteq> rv_proposed) (HErr ''invalid_memory_state'' 409))
      (memory_replace r
        (JObj [(''review_state'', JStr (if decision = ''accept'' then ''accepted''
           else if decision = ''reject'' then ''rejected'' else decision))]) expected_revision)))"

definition memory_update :: "identity \<Rightarrow> string \<Rightarrow> (string \<times> json) list \<Rightarrow> int \<Rightarrow> memory_record store" where
  "memory_update who memory_id patch expected_revision =
     andthen (raise_if (\<not> fst ` set patch \<subseteq> {''content'', ''source_refs'', ''expires_at''})
       (HErr ''immutable_memory_field'' 422))
     (bnd (memory_get who memory_id) (\<lambda>r. memory_replace r (JObj patch) expected_revision))"

definition memory_delete :: "identity \<Rightarrow> string \<Rightarrow> int \<Rightarrow> json store" where
  "memory_delete who memory_id expected_revision =
     bnd (memory_get who memory_id) (\<lambda>r.
     bnd (memory_replace r (JObj [(''review_state'', JStr ''deleted'')]) expected_revision) (\<lambda>new.
     ret (JObj [(''memory_id'', JStr (me_id new)), (''revision'', JInt (me_revision new)),
                (''deleted'', JBool True)])))"

section \<open>Retrieval\<close>

text \<open>
  Unicode case folding and the splitting of the query into words and pairs of Han characters belong
  to the language's text library; they are given. A term occurs in a text when it is a part of it.
\<close>

record text_library =
  tx_lower :: "string \<Rightarrow> string"
  tx_terms :: "string \<Rightarrow> string list"

fun occurs_in :: "string \<Rightarrow> string \<Rightarrow> bool" where
  "occurs_in term [] = (term = [])"
| "occurs_in term (c # cs) = (take (length term) (c # cs) = term \<or> occurs_in term cs)"

definition memory_score :: "text_library \<Rightarrow> string \<Rightarrow> memory_record \<Rightarrow> nat" where
  "memory_score tx query r =
     length (filter (\<lambda>t. occurs_in t (tx_lower tx (me_content r))) (remdups (tx_terms tx query)))"

text \<open>The pages of accepted records one after the other; the fuel bounds their number.\<close>

fun accepted_pages :: "nat \<Rightarrow> identity \<Rightarrow> string \<Rightarrow> string option \<Rightarrow> memory_record list store" where
  "accepted_pages 0 who workspace_id cursor = raise Diverges"
| "accepted_pages (Suc n) who workspace_id cursor =
     bnd (memory_list who workspace_id [(''review_state'', JStr ''accepted'')] cursor 100) (\<lambda>page.
     case pg_next page of
       None \<Rightarrow> ret (pg_items page)
     | Some next \<Rightarrow> bnd (accepted_pages n who workspace_id (Some next)) (\<lambda>rest. ret (pg_items page @ rest)))"

definition ranked :: "text_library \<Rightarrow> string \<Rightarrow> timestamp \<Rightarrow> memory_record list \<Rightarrow> memory_record list" where
  "ranked tx query now records =
     filter (\<lambda>r. memory_score tx query r \<noteq> 0 \<or> me_kind r = mk_pinned)
       (rev (sort_key (\<lambda>r. (me_kind r = mk_pinned, memory_score tx query r, me_created r))
         (rev (filter (\<lambda>r. \<not> memory_expired now r) records))))"

definition memory_retrieve ::
  "nat \<Rightarrow> text_library \<Rightarrow> identity \<Rightarrow> string \<Rightarrow> string \<Rightarrow> int \<Rightarrow> memory_record list store" where
  "memory_retrieve fuel tx who workspace_id query many =
     bnd (accepted_pages fuel who workspace_id None) (\<lambda>candidates.
     bnd utc_now (\<lambda>now.
     ret (take (nat (max 1 (min many 100))) (ranked tx query now candidates))))"

definition valid_memory :: "memory_record \<Rightarrow> bool" where
  "valid_memory r \<longleftrightarrow> me_content r \<noteq> '''' \<and> list_all valid_source (me_sources r) \<and>
     (case me_confidence r of None \<Rightarrow> True | Some c \<Rightarrow> 0 \<le> c \<and> c \<le> 1)"

lemma sum_bind_simps [simp]: "sum_bind (Inl e) f = Inl e" "sum_bind (Inr x) f = f x"
  by (simp_all add: sum_bind_def)

lemma sum_bind_Inr_iff: "sum_bind m f = Inr y \<longleftrightarrow> (\<exists>x. m = Inr x \<and> f x = Inr y)"
  by (cases m) simp_all

lemma literal_text:
  "valid_literal scope_text [ms_workspace, ms_user] (JStr (scope_text s)) = Inr s"
  "valid_literal kind_text [mk_fact, mk_preference, mk_procedure, mk_pinned] (JStr (kind_text k)) = Inr k"
  "valid_literal review_text [rv_proposed, rv_accepted, rv_rejected, rv_deleted] (JStr (review_text v)) = Inr v"
  by (cases s, simp_all add: valid_literal_def) (cases k, simp_all, cases v, simp_all)

lemma memory_get_fields:
  "jget ''id'' (memory_json r) = JStr (me_id r)"
  "jget_or ''revision'' d (memory_json r) = JInt (me_revision r)"
  "jget ''owner'' (memory_json r) = JStr (me_owner r)"
  "jget ''workspace'' (memory_json r) = JStr (me_workspace r)"
  "jget_or ''scope'' d (memory_json r) = JStr (scope_text (me_scope r))"
  "jget_or ''kind'' d (memory_json r) = JStr (kind_text (me_kind r))"
  "jget ''content'' (memory_json r) = JStr (me_content r)"
  "jget_or ''source_refs'' d (memory_json r) = JList (me_sources r)"
  "jget ''created_at'' (memory_json r) = JInt (int (me_created r))"
  "jget ''expires_at'' (memory_json r) = (case me_expires r of None \<Rightarrow> JNull | Some t \<Rightarrow> JInt (int t))"
  "jget ''confidence'' (memory_json r) = (case me_confidence r of None \<Rightarrow> JNull | Some c \<Rightarrow> JFloat c)"
  "jget ''review_state'' (memory_json r) = JStr (review_text (me_review r))"
  "jget_or ''review_state'' d (memory_json r) = JStr (review_text (me_review r))"
  by (simp_all add: memory_json_def jget_def jget_or_def)

lemma memory_validate_json:
  assumes "valid_memory r" shows "memory_validate (memory_json r) = Inr r"
proof -
  have keys: "set (jkeys (memory_json r)) \<subseteq> set memory_fields"
    by (simp add: memory_json_def memory_fields_def)
  have "valid_optional valid_instant (jget ''expires_at'' (memory_json r)) = Inr (me_expires r)"
    by (cases "me_expires r") (simp_all add: memory_get_fields valid_optional_def valid_instant_def)
  moreover have "valid_optional valid_confidence (jget ''confidence'' (memory_json r)) = Inr (me_confidence r)"
    using assms by (cases "me_confidence r")
      (simp_all add: memory_get_fields valid_optional_def valid_confidence_def valid_memory_def)
  ultimately show ?thesis
    using assms keys unfolding memory_validate_def
    by (simp add: memory_get_fields literal_text valid_string_def valid_int_def valid_sources_def
        valid_instant_def valid_memory_def)
qed

lemma memory_validate_valid:
  assumes "memory_validate j = Inr r" shows "valid_memory r"
proof -
  have conf: "valid_optional valid_confidence c = Inr x \<Longrightarrow>
      (case x of None \<Rightarrow> True | Some c \<Rightarrow> 0 \<le> c \<and> c \<le> 1)" for c x
    by (cases c) (auto simp: valid_optional_def valid_confidence_def split: if_splits)
  have srcs: "valid_sources s = Inr xs \<Longrightarrow> list_all valid_source xs" for s xs
    by (cases s) (auto simp: valid_sources_def split: if_splits)
  show ?thesis
    using assms unfolding memory_validate_def
    by (auto simp: sum_bind_Inr_iff valid_memory_def dest: conf srcs split: if_splits)
qed

lemma digit_back:
  "d < 10 \<Longrightarrow> is_digit (digit_char d) \<and> int (of_char (digit_char d) - 48) = int d"
  by (simp add: is_digit_def digit_char_def)

lemma read_digits_append:
  "\<forall>c\<in>set ds. is_digit c \<Longrightarrow> read_digits acc (ds @ cs) = read_digits (the (read_digits acc ds)) cs"
  by (induction ds arbitrary: acc) auto

lemma nat_text_digits: "nat_text n \<noteq> [] \<and> (\<forall>c\<in>set (nat_text n). is_digit c)"
proof (induction n rule: nat_text.induct)
  case (1 n)
  then show ?case
    by (subst (1 2) nat_text.simps) (simp add: digit_back)
qed

lemma read_nat_text: "read_digits 0 (nat_text n) = Some (int n)"
proof (induction n rule: nat_text.induct)
  case (1 n)
  show ?case
  proof (cases "n < 10")
    case True
    then show ?thesis by (subst nat_text.simps) (simp add: digit_back)
  next
    case False
    have "read_digits 0 (nat_text n) = read_digits (int (n div 10)) [digit_char (n mod 10)]"
      using 1 False nat_text_digits by (subst nat_text.simps) (simp add: read_digits_append)
    also have "\<dots> = Some (int n)" by (simp add: digit_back) presburger
    finally show ?thesis .
  qed
qed

lemma dropWhile_no: "(\<And>c. c \<in> set s \<Longrightarrow> \<not> is_blank c) \<Longrightarrow> dropWhile is_blank s = s"
  by (cases s) auto

lemma read_int_text: "read_int (int_text n) = Some n"
proof -
  let ?s = "nat_text (nat (if n < 0 then - n else n))"
  have ds: "?s \<noteq> []" "\<And>c. c \<in> set ?s \<Longrightarrow> is_digit c" using nat_text_digits by auto
  have nb: "is_digit c \<or> c = CHR ''-'' \<Longrightarrow> \<not> is_blank c" for c by (auto simp: is_digit_def is_blank_def)
  have "\<not> is_blank c" if "c \<in> set (int_text n)" for c
    using that ds nb by (auto simp: int_text_def split: if_splits)
  then have "strip_text (int_text n) = int_text n" unfolding strip_text_def by (subst dropWhile_no, simp, subst dropWhile_no, simp_all)
  moreover have "hd ?s \<noteq> CHR ''-''" "hd ?s \<noteq> CHR ''+''" "is_digit (hd ?s)"
    using ds(2) [OF hd_in_set [OF ds(1)]] by (auto simp: is_digit_def)
  ultimately show ?thesis
    using ds(1) read_nat_text [of "nat n"] read_nat_text [of "nat (- n)"]
    by (auto simp: read_int_def read_nat_def int_text_def split: if_splits list.splits)
qed

section \<open>What the operations do to the records\<close>

lemma jlookup_jmerge:
  "k \<notin> fst ` set kvs \<Longrightarrow> jlookup k (jmerge a (JObj kvs)) = jlookup k a"
proof -
  have "k \<notin> fst ` set kvs \<Longrightarrow> jlookup k (fold (\<lambda>(k, v) acc. jset k v acc) kvs a) = jlookup k a"
    by (induction kvs arbitrary: a) auto
  then show "k \<notin> fst ` set kvs \<Longrightarrow> ?thesis" by simp
qed

text \<open>The fields of a record are the values they were validated from.\<close>

lemma memory_validate_fields:
  assumes "memory_validate j = Inr r"
  shows "jget ''id'' j = JStr (me_id r)" "jget_or ''revision'' (JInt 1) j = JInt (me_revision r)"
    "jget ''owner'' j = JStr (me_owner r)" "jget ''workspace'' j = JStr (me_workspace r)"
    "valid_literal scope_text [ms_workspace, ms_user] (jget_or ''scope'' (JStr ''workspace'') j) = Inr (me_scope r)"
    "valid_literal kind_text [mk_fact, mk_preference, mk_procedure, mk_pinned]
       (jget_or ''kind'' (JStr ''fact'') j) = Inr (me_kind r)"
    "jget ''content'' j = JStr (me_content r)" "jget_or ''source_refs'' (JList []) j = JList (me_sources r)"
    "jget ''created_at'' j = JInt (int (me_created r))"
    "valid_optional valid_confidence (jget ''confidence'' j) = Inr (me_confidence r)"
    "valid_literal review_text [rv_proposed, rv_accepted, rv_rejected, rv_deleted]
       (jget_or ''review_state'' (JStr ''proposed'') j) = Inr (me_review r)"
proof -
  have str: "valid_string x = Inr s \<Longrightarrow> x = JStr s" for x s by (cases x) (simp_all add: valid_string_def)
  have int: "valid_int x = Inr n \<Longrightarrow> x = JInt n" for x n by (cases x) (simp_all add: valid_int_def)
  have inst: "valid_instant x = Inr n \<Longrightarrow> x = JInt (int n)" for x n
    by (cases x) (auto simp: valid_instant_def split: if_splits)
  have src: "valid_sources x = Inr xs \<Longrightarrow> x = JList xs" for x xs
    by (cases x) (auto simp: valid_sources_def split: if_splits)
  from assms show
    "jget ''id'' j = JStr (me_id r)" "jget_or ''revision'' (JInt 1) j = JInt (me_revision r)"
    "jget ''owner'' j = JStr (me_owner r)" "jget ''workspace'' j = JStr (me_workspace r)"
    "valid_literal scope_text [ms_workspace, ms_user] (jget_or ''scope'' (JStr ''workspace'') j) = Inr (me_scope r)"
    "valid_literal kind_text [mk_fact, mk_preference, mk_procedure, mk_pinned]
       (jget_or ''kind'' (JStr ''fact'') j) = Inr (me_kind r)"
    "jget ''content'' j = JStr (me_content r)" "jget_or ''source_refs'' (JList []) j = JList (me_sources r)"
    "jget ''created_at'' j = JInt (int (me_created r))"
    "valid_optional valid_confidence (jget ''confidence'' j) = Inr (me_confidence r)"
    "valid_literal review_text [rv_proposed, rv_accepted, rv_rejected, rv_deleted]
       (jget_or ''review_state'' (JStr ''proposed'') j) = Inr (me_review r)"
    unfolding memory_validate_def
    by (auto simp: sum_bind_Inr_iff dest!: str int inst src split: if_splits)
qed

definition memory_at :: "world \<Rightarrow> string \<Rightarrow> memory_record option" where
  "memory_at w i =
     (case record_at w ''memory'' i of None \<Rightarrow> None
      | Some row \<Rightarrow> (case memory_validate (rec_payload row) of Inl e \<Rightarrow> None | Inr r \<Rightarrow> Some r))"

definition memory_row :: "record_row \<Rightarrow> memory_record \<Rightarrow> bool" where
  "memory_row row r \<longleftrightarrow> valid_memory r \<and> rec_payload row = memory_json r \<and> rec_key row = me_id r \<and>
     rec_revision row = me_revision r"

definition memory_ok :: "world \<Rightarrow> bool" where
  "memory_ok w \<longleftrightarrow> \<not> w_active w \<and> inj (w_uuid w) \<and>
     (\<forall>row\<in>set (t_records w). rec_namespace row = ''memory'' \<longrightarrow>
        (\<exists>r. memory_row row r) \<and> rec_key row \<in> w_uuid w ` {..<w_seed w})"

text \<open>How a record may change: who and what it is stays, its review moves on, and deletion is final.\<close>

fun review_moves :: "review_state \<Rightarrow> review_state set" where
  "review_moves rv_proposed = {rv_accepted, rv_rejected, rv_deleted}"
| "review_moves rv_accepted = {rv_deleted}"
| "review_moves rv_rejected = {rv_deleted}"
| "review_moves rv_deleted = {}"

definition evolves :: "memory_record \<Rightarrow> memory_record \<Rightarrow> bool" where
  "evolves r s \<longleftrightarrow>
     me_id s = me_id r \<and> me_owner s = me_owner r \<and> me_workspace s = me_workspace r \<and>
     me_scope s = me_scope r \<and> me_kind s = me_kind r \<and> me_created s = me_created r \<and>
     me_confidence s = me_confidence r \<and> me_revision r \<le> me_revision s \<and>
     (me_revision s = me_revision r \<longrightarrow> s = r) \<and> (me_review r = rv_deleted \<longrightarrow> s = r) \<and>
     (\<lambda>a b. b \<in> review_moves a)\<^sup>*\<^sup>* (me_review r) (me_review s)"

definition memory_steps :: "world \<Rightarrow> world \<Rightarrow> bool" where
  "memory_steps w v \<longleftrightarrow> (memory_ok w \<longrightarrow> memory_ok v \<and>
     (\<forall>i r. memory_at w i = Some r \<longrightarrow> (\<exists>s. memory_at v i = Some s \<and> evolves r s)))"

lemma evolves_refl: "evolves r r" by (simp add: evolves_def)

lemma evolves_trans: "evolves r s \<Longrightarrow> evolves s t \<Longrightarrow> evolves r t"
  unfolding evolves_def by (smt (verit) order_antisym_conv order_trans rtranclp_trans)

interpretation mem: history memory_steps
  by unfold_locales (auto simp: memory_steps_def intro: evolves_refl evolves_trans, meson evolves_trans)

lemma memory_at_row: "record_at w ''memory'' i = Some row \<Longrightarrow> memory_row row r \<Longrightarrow> memory_at w i = Some r"
  by (simp add: memory_at_def memory_row_def memory_validate_json)

lemma memory_ok_row:
  assumes "memory_ok w" "record_at w ''memory'' i = Some row"
  obtains r where "memory_row row r" "me_id r = i" "i \<in> w_uuid w ` {..<w_seed w}"
proof -
  from assms(2) have "row \<in> set (t_records w)" "rec_namespace row = ''memory''" "rec_key row = i"
    unfolding record_at_def by (auto dest!: row_of_SomeD simp: rec_id_def)
  with assms(1) that show ?thesis unfolding memory_ok_def memory_row_def by metis
qed

text \<open>A write of a valid record over one it continues, or under a fresh key, is a step.\<close>

lemma memory_write_step:
  assumes ok: "memory_ok w" and s: "memory_row (new_record ''memory'' (me_id s) n (memory_json s)) s"
    and key: "me_id s \<in> w_uuid w ` {..<w_seed w}"
    and old: "\<And>r. memory_at w (me_id s) = Some r \<Longrightarrow> evolves r s"
  shows "memory_steps w (written (new_record ''memory'' (me_id s) n (memory_json s)) w)"
proof -
  let ?row = "new_record ''memory'' (me_id s) n (memory_json s)"
  let ?v = "written ?row w"
  have set: "set (t_records ?v) \<subseteq> insert ?row (set (t_records w))"
    by (auto simp: written_def upsert_record_def set_update_rows)
  have frame: "w_uuid ?v = w_uuid w" "w_seed ?v = w_seed w" "\<not> w_active ?v"
    using ok by (simp_all add: written_def upsert_record_def memory_ok_def)
  have ok': "memory_ok ?v"
    unfolding memory_ok_def
  proof (intro conjI ballI impI)
    show "\<not> w_active ?v" "inj (w_uuid ?v)" using ok frame by (simp_all add: memory_ok_def)
  next
    fix row assume "row \<in> set (t_records ?v)" and ns: "rec_namespace row = ''memory''"
    with set consider "row = ?row" | "row \<in> set (t_records w)" by blast
    then show "\<exists>r. memory_row row r" "rec_key row \<in> w_uuid ?v ` {..<w_seed ?v}"
      using ok ns s key frame by (cases; auto simp: memory_ok_def)+
  qed
  moreover have "\<exists>s'. memory_at ?v i = Some s' \<and> evolves r s'" if r: "memory_at w i = Some r" for i r
  proof (cases "i = me_id s")
    case True
    have "memory_at ?v i = Some s"
      using s True by (intro memory_at_row [of _ _ ?row]) (simp_all add: record_at_written)
    with old r True show ?thesis by blast
  next
    case False
    then have "memory_at ?v i = memory_at w i" by (simp add: memory_at_def record_at_written)
    with r show ?thesis using evolves_refl by auto
  qed
  ultimately show ?thesis by (simp add: memory_steps_def)
qed

lemma lift_iffs:
  "lift r w = (Inr y, v) \<longleftrightarrow> r = Inr y \<and> v = w" "lift r w = (Inl e, v) \<longleftrightarrow> r = Inl e \<and> v = w"
  by (cases r; auto)+

lemma access_check_same: "snd (access_check who ws w) = w"
  by (auto simp: access_check_def store_workspace_def store_get_def bnd_def split: option.splits sum.splits prod.splits)

lemma access_reads: "access_check who ws w = (r, v) \<Longrightarrow> v = w"
  using access_check_same [of who ws w] by simp

lemma memory_get_iff:
  "memory_get who i w = (Inr r, v) \<longleftrightarrow>
     v = w \<and> memory_at w i = Some r \<and> me_review r \<noteq> rv_deleted \<and> me_owner r = owner_of who \<and>
     (caller_workspace who = '''' \<or> me_scope r \<noteq> ms_workspace \<or> caller_workspace who = me_workspace r) \<and>
     access_check who (me_workspace r) w = (Inr (), w)"
proof -
  have none: "memory_validate (JObj []) = Inl PyValueError"
    by (simp add: memory_validate_def valid_string_def jget_def)
  have falsy: "\<not> jtruthy j \<Longrightarrow> memory_validate j \<noteq> Inr r" for j
    by (cases j) (auto dest!: memory_validate_fields(1) simp: jget_def)
  have data: "memory_at w i = Some r \<longleftrightarrow> jtruthy (or_empty (record_value w ''memory'' i)) \<and>
      memory_validate (or_empty (record_value w ''memory'' i)) = Inr r"
    using falsy none by (auto simp: memory_at_def record_value_def or_empty_def split: option.splits sum.splits)
  show ?thesis
    unfolding memory_get_def store_get_def memory_check_def
    using data by (auto simp: act_iffs lift_iffs dest: access_reads)
qed

text \<open>Actions that only read.\<close>

abbreviation reads_only :: "'a store \<Rightarrow> bool" where
  "reads_only \<equiv> keeps (same_view (\<lambda>w. w))"

lemma reads_onlyD: "reads_only m \<Longrightarrow> m w = (r, v) \<Longrightarrow> v = w"
  using triD(1) [of "same_view (\<lambda>w. w)" "\<lambda>_. True" m _ w r v] by (simp add: same_view_def)

lemma memory_get_reads: "reads_only (memory_get who i)"
proof -
  have "reads_only (access_check who ws)" for ws
    using access_check_same by (auto simp: tri_def same_view_def)
  then show ?thesis
    unfolding memory_get_def memory_check_def store_get_def by (intro view.keeps_rules)
qed

definition patches_review :: "memory_record \<Rightarrow> json \<Rightarrow> bool" where
  "patches_review r patch \<longleftrightarrow> (\<forall>s. memory_validate
      (jset ''revision'' (JInt (me_revision r + 1)) (jmerge (memory_json r) patch)) = Inr s \<longrightarrow>
    me_review s \<in> insert (me_review r) (review_moves (me_review r)))"

lemma replaced_evolves:
  assumes new: "memory_validate (jset ''revision'' (JInt (me_revision r + 1))
      (jmerge (memory_json r) (JObj kvs))) = Inr s"
    and keys: "fst ` set kvs \<subseteq> {''content'', ''source_refs'', ''expires_at'', ''review_state''}"
    and review: "patches_review r (JObj kvs)" and live: "me_review r \<noteq> rv_deleted"
  shows "evolves r s \<and> me_id s = me_id r \<and> me_revision s = me_revision r + 1 \<and> valid_memory s"
proof -
  have lk: "k \<notin> {''content'', ''source_refs'', ''expires_at'', ''review_state''} \<Longrightarrow>
      jlookup k (jmerge (memory_json r) (JObj kvs)) = jlookup k (memory_json r)" for k
    using keys by (intro jlookup_jmerge) auto
  have get: "jget k (jmerge (memory_json r) (JObj kvs)) = jget k (memory_json r)"
      "jget_or k d (jmerge (memory_json r) (JObj kvs)) = jget_or k d (memory_json r)"
    if "k \<notin> {''content'', ''source_refs'', ''expires_at'', ''review_state''}" for k d
    using lk [OF that] by (simp_all add: jget_def jget_or_def del: jmerge.simps)
  have conf: "me_confidence s = me_confidence r"
    if "valid_optional valid_confidence (jget ''confidence'' (memory_json r)) = Inr (me_confidence s)"
    using that by (cases "me_confidence r")
      (auto simp: memory_get_fields valid_optional_def valid_confidence_def split: if_splits)
  have review': "(\<lambda>a b. b \<in> review_moves a)\<^sup>*\<^sup>* (me_review r) (me_review s)"
    using review new unfolding patches_review_def by auto
  from memory_validate_fields [OF new] memory_validate_valid [OF new] show ?thesis
    using conf review' live by (simp add: get memory_get_fields literal_text evolves_def del: jmerge.simps)
qed

lemma memory_replace_cases:
  assumes idle: "\<not> w_active w" and run: "memory_replace r patch n w = (res, v)"
  shows "(v = w \<and> (\<exists>e. res = Inl e)) \<or>
    (\<exists>s. memory_validate (jset ''revision'' (JInt (me_revision r + 1)) (jmerge (memory_json r) patch)) = Inr s \<and>
       me_revision r = n \<and> res = Inr s \<and>
       v = written (new_record ''memory'' (me_id r) (n + 1) (memory_json s)) w)"
proof (cases "me_revision r = n")
  case True
  let ?new = "memory_validate (jset ''revision'' (JInt (me_revision r + 1)) (jmerge (memory_json r) patch))"
  show ?thesis
  proof (cases ?new)
    case (Inl e)
    with True run have "v = w \<and> res = Inl e" by (simp add: memory_replace_def)
    then show ?thesis by blast
  next
    case (Inr s)
    let ?row = "new_record ''memory'' (me_id r) (n + 1) (memory_json s)"
    have "memory_replace r patch n w =
        (if record_revision w ''memory'' (me_id r) \<noteq> n then (Inl (HErr ''REVISION_CONFLICT'' 409), w)
         else if version_taken w ?row then (Inl SqlIntegrityError, w) else (Inr s, written ?row w))"
      using True Inr idle by (simp add: memory_replace_def bnd_def compare_and_set_eval)
    with run Inr True show ?thesis by (auto split: if_splits)
  qed
next
  case False
  with run show ?thesis by (auto simp: memory_replace_def)
qed

lemma memory_replace_steps:
  assumes keys: "fst ` set kvs \<subseteq> {''content'', ''source_refs'', ''expires_at'', ''review_state''}"
    and review: "patches_review r (JObj kvs)" and live: "me_review r \<noteq> rv_deleted"
    and at: "memory_at w i = Some r" and run: "memory_replace r (JObj kvs) n w = (res, v)"
  shows "memory_steps w v \<and> (\<forall>s. res = Inr s \<longrightarrow> memory_ok w \<longrightarrow>
    memory_at v (me_id r) = Some s \<and> evolves r s \<and> n = me_revision r \<and> me_revision s = n + 1)"
proof (cases "memory_ok w")
  case True
  then obtain row where row: "record_at w ''memory'' i = Some row" and "memory_row row r"
    and i: "me_id r = i" "i \<in> w_uuid w ` {..<w_seed w}"
    using at by (auto simp: memory_at_def split: option.splits elim!: memory_ok_row)
      (metis at memory_at_row memory_ok_row option.inject)
  have idle: "\<not> w_active w" using True by (simp add: memory_ok_def)
  show ?thesis
  proof (cases "v = w \<and> (\<exists>e. res = Inl e)")
    case True
    then show ?thesis using mem.refl_history by auto
  next
    case False
    with memory_replace_cases [OF idle run] obtain s where new: "memory_validate (jset ''revision'' (JInt (me_revision r + 1))
        (jmerge (memory_json r) (JObj kvs))) = Inr s" and n: "me_revision r = n" and res: "res = Inr s"
      and v: "v = written (new_record ''memory'' (me_id r) (n + 1) (memory_json s)) w"
      by blast
    from replaced_evolves [OF new keys review live] n have s: "evolves r s" "me_id s = me_id r"
      "me_revision s = n + 1" "valid_memory s" by simp_all
    have row': "memory_row (new_record ''memory'' (me_id s) (n + 1) (memory_json s)) s"
      using s by (simp add: memory_row_def)
    have "memory_steps w v"
      using memory_write_step [OF True row'] s at i v by auto
    moreover have "memory_at v (me_id r) = Some s"
      using s row' v by (intro memory_at_row [of _ _ "new_record ''memory'' (me_id s) (n + 1) (memory_json s)"])
        (simp_all add: record_at_written)
    ultimately show ?thesis using s n res by simp
  qed
qed (simp add: memory_steps_def)

definition memory_free :: "string \<Rightarrow> world \<Rightarrow> bool" where
  "memory_free i w \<longleftrightarrow>
     memory_ok w \<and> i \<in> w_uuid w ` {..<w_seed w} \<and> record_at w ''memory'' i = None"

lemma ok_steps: "tri memory_steps memory_ok m Q \<Longrightarrow> keeps memory_steps m"
  by (auto simp: tri_def memory_steps_def)

lemma new_id_free: "tri memory_steps memory_ok new_id memory_free"
proof (rule triI)
  fix w res v assume ok: "memory_ok w" and run: "new_id w = (res, v)"
  let ?w = "w\<lparr>w_seed := Suc (w_seed w)\<rparr>" and ?i = "w_uuid w (w_seed w)"
  have run': "v = ?w" "res = Inr ?i" using run by (simp_all add: new_id_def)
  have ok': "memory_ok ?w" using ok by (fastforce simp: memory_ok_def less_Suc_eq)
  then have "memory_steps w v"
    unfolding memory_steps_def by (auto simp: run' memory_at_def record_at_def intro: evolves_refl)
  moreover have "record_at w ''memory'' ?i = None"
  proof (rule ccontr)
    assume "record_at w ''memory'' ?i \<noteq> None"
    then obtain row where "record_at w ''memory'' ?i = Some row" by blast
    from memory_ok_row [OF ok this] have "?i \<in> w_uuid w ` {..<w_seed w}" by metis
    then show False using ok by (auto simp: memory_ok_def inj_eq)
  qed
  ultimately show "memory_steps w v \<and> (\<forall>x. res = Inr x \<longrightarrow> memory_free x v)"
    using ok' by (auto simp: run' memory_free_def record_at_def)
qed

lemma free_put_steps:
  assumes r: "valid_memory r" "me_revision r = 1"
  shows "tri memory_steps (memory_free (me_id r)) (store_put ''memory'' (me_id r) (memory_json r)) (\<lambda>_ _. True)"
proof (rule triI)
  fix w res v
  assume free: "memory_free (me_id r) w" and run: "store_put ''memory'' (me_id r) (memory_json r) w = (res, v)"
  show "memory_steps w v \<and> (\<forall>x. res = Inr x \<longrightarrow> True)"
  proof (cases "memory_ok w")
    case True
    let ?row = "new_record ''memory'' (me_id r) 1 (memory_json r)"
    from True free have i: "me_id r \<in> w_uuid w ` {..<w_seed w}" "record_at w ''memory'' (me_id r) = None"
      and idle: "\<not> w_active w" by (simp_all add: memory_free_def memory_ok_def)
    then have "v = w \<or> v = written ?row w"
      using run store_put_eval [OF idle, of "''memory''" "me_id r" "memory_json r"]
      by (auto simp: record_revision_def Let_def split: if_splits)
    moreover have "memory_steps w (written ?row w)"
      using i r by (intro memory_write_step True) (simp_all add: memory_row_def memory_at_def)
    ultimately show ?thesis using mem.refl_history by auto
  qed (simp add: memory_steps_def)
qed

lemma propose_steps: "keeps memory_steps (memory_propose who ws content sources extra)"
proof -
  define given where "given i now = JObj [(''id'', JStr i), (''owner'', JStr (owner_of who)),
    (''workspace'', JStr ws), (''content'', JStr content), (''source_refs'', JList sources),
    (''created_at'', JInt (int now))]" for i and now :: nat
  have r: "valid_memory r \<and> me_revision r = 1 \<and> me_id r = i"
    if "memory_validate (jmerge (given i now) (JObj extra)) = Inr r"
      "fst ` set extra \<subseteq> {''scope'', ''kind'', ''expires_at'', ''confidence''}" for i now r
  proof -
    have "jlookup k (jmerge (given i now) (JObj extra)) = jlookup k (given i now)" if "k \<in> {''id'', ''revision''}" for k
      using that \<open>fst ` set extra \<subseteq> _\<close> by (intro jlookup_jmerge) auto
    with memory_validate_fields(1,2) [OF that(1)] memory_validate_valid [OF that(1)] show ?thesis
      by (simp add: jget_def jget_or_def given_def del: jmerge.simps)
  qed
  have put: "tri memory_steps (\<lambda>w. memory_free i w \<and> fst ` set extra \<subseteq> {''scope'', ''kind'', ''expires_at'', ''confidence''})
      (bnd (lift (memory_validate (jmerge (given i now) (JObj extra)))) (\<lambda>r.
        andthen (store_put ''memory'' (me_id r) (memory_json r)) (ret r))) (\<lambda>_ _. True)" for i now
  proof (cases "memory_validate (jmerge (given i now) (JObj extra))")
    case (Inl e)
    then show ?thesis by (simp add: tri_def bnd_def mem.refl_history)
  next
    case (Inr s)
    show ?thesis
    proof (cases "fst ` set extra \<subseteq> {''scope'', ''kind'', ''expires_at'', ''confidence''}")
      case True
      from r [OF Inr True] have s: "valid_memory s" "me_revision s = 1" "me_id s = i" by simp_all
      have "tri memory_steps (memory_free i) (andthen (store_put ''memory'' (me_id s) (memory_json s)) (ret s)) (\<lambda>_ _. True)"
        using free_put_steps [OF s(1,2)] s(3) by (auto intro!: mem.tri_andthen mem.tri_ret simp: s(3))
      then show ?thesis using Inr by (simp add: tri_def bnd_def)
    qed (simp add: tri_def)
  qed
  have read': "tri memory_steps memory_ok (access_check who ws) (\<lambda>_. memory_ok)"
    using access_check_same mem.refl_history by (auto simp: tri_def)
  show ?thesis
    unfolding memory_propose_def given_def [symmetric]
  proof (rule ok_steps, rule mem.tri_andthen, rule read',
      rule mem.tri_andthen [where Q = "\<lambda>w. memory_ok w \<and> fst ` set extra \<subseteq> {''scope'', ''kind'', ''expires_at'', ''confidence''}"])
    show "tri memory_steps memory_ok (raise_if (\<not> fst ` set extra \<subseteq> {''scope'', ''kind'', ''expires_at'', ''confidence''})
       (HErr ''invalid_memory_field'' 422)) (\<lambda>_ w. memory_ok w \<and> fst ` set extra \<subseteq> {''scope'', ''kind'', ''expires_at'', ''confidence''})"
      by (rule tri_pre [OF mem.tri_raise_if]) simp
    have "tri memory_steps (\<lambda>w. memory_ok w \<and> fst ` set extra \<subseteq> {''scope'', ''kind'', ''expires_at'', ''confidence''}) new_id
      (\<lambda>i w. memory_free i w \<and> fst ` set extra \<subseteq> {''scope'', ''kind'', ''expires_at'', ''confidence''})"
      using new_id_free by (auto simp: tri_def)
    then show "tri memory_steps (\<lambda>w. memory_ok w \<and> fst ` set extra \<subseteq> {''scope'', ''kind'', ''expires_at'', ''confidence''})
      (bnd new_id (\<lambda>i. bnd utc_now (\<lambda>now. bnd (lift (memory_validate (jmerge (given i now) (JObj extra)))) (\<lambda>r.
        andthen (store_put ''memory'' (me_id r) (memory_json r)) (ret r))))) (\<lambda>_ _. True)"
      unfolding utc_now_def
      by (rule mem.tri_bnd) (rule mem.tri_bnd [where Q = "\<lambda>_ w. memory_free _ w \<and> _"], rule mem.tri_gets, rule put)
  qed
qed

lemma review_literal:
  "valid_literal review_text [rv_proposed, rv_accepted, rv_rejected, rv_deleted] (JStr (review_text v)) = Inr v"
  by (rule literal_text)

lemma patched_review:
  assumes "memory_validate (jset ''revision'' (JInt n) (jmerge (memory_json r) (JObj kvs))) = Inr s"
  shows "''review_state'' \<notin> fst ` set kvs \<Longrightarrow> me_review s = me_review r"
    "kvs = [(''review_state'', JStr (review_text v))] \<Longrightarrow> me_review s = v"
proof -
  note review = memory_validate_fields(11) [OF assms]
  {
    assume "''review_state'' \<notin> fst ` set kvs"
    then have "jlookup ''review_state'' (jmerge (memory_json r) (JObj kvs)) = jlookup ''review_state'' (memory_json r)"
      by (rule jlookup_jmerge)
    then have "jget_or ''review_state'' d (jmerge (memory_json r) (JObj kvs)) = JStr (review_text (me_review r))" for d
      by (simp add: jget_or_def memory_json_def del: jmerge.simps)
    with review show "me_review s = me_review r" by (simp add: literal_text del: jmerge.simps)
  }
  assume "kvs = [(''review_state'', JStr (review_text v))]"
  with review show "me_review s = v" by (simp add: literal_text)
qed

lemma replaced_steps:
  assumes get: "memory_get who i w = (Inr r, u)" and run: "memory_replace r (JObj kvs) n w = (res, v)"
    and kvs: "fst ` set kvs \<subseteq> {''content'', ''source_refs'', ''expires_at''} \<or>
      kvs = [(''review_state'', JStr (review_text s))] \<and> s \<in> review_moves (me_review r)"
  shows "memory_steps w v"
proof -
  from get have at: "memory_at w i = Some r" and live: "me_review r \<noteq> rv_deleted"
    by (simp_all add: memory_get_iff)
  have patches: "patches_review r (JObj kvs)"
    unfolding patches_review_def
  proof (intro allI impI)
    fix t assume "memory_validate (jset ''revision'' (JInt (me_revision r + 1))
      (jmerge (memory_json r) (JObj kvs))) = Inr t"
    note cases = patched_review [OF this]
    from kvs show "me_review t \<in> insert (me_review r) (review_moves (me_review r))"
    proof
      assume "fst ` set kvs \<subseteq> {''content'', ''source_refs'', ''expires_at''}"
      then have "''review_state'' \<notin> fst ` set kvs" by auto
      with cases(1) show ?thesis by simp
    next
      assume "kvs = [(''review_state'', JStr (review_text s))] \<and> s \<in> review_moves (me_review r)"
      with cases(2) [of s] show ?thesis by simp
    qed
  qed
  have "fst ` set kvs \<subseteq> {''content'', ''source_refs'', ''expires_at'', ''review_state''}"
    using kvs by auto
  from memory_replace_steps [OF this patches live at run] show ?thesis by (rule conjunct1)
qed

lemma review_steps: "keeps memory_steps (memory_review who i decision n)"
proof (rule triI)
  fix w res v assume run: "memory_review who i decision n w = (res, v)"
  show "memory_steps w v \<and> (\<forall>x. res = Inr x \<longrightarrow> True)"
  proof (cases "decision \<in> {''accepted'', ''rejected'', ''accept'', ''reject''} \<and>
      (\<exists>r. memory_get who i w = (Inr r, w) \<and> me_review r = rv_proposed)")
    case True
    then obtain r where get: "memory_get who i w = (Inr r, w)" and r: "me_review r = rv_proposed" by blast
    let ?s = "if decision \<in> {''accept'', ''accepted''} then rv_accepted else rv_rejected"
    obtain s where s: "(if decision = ''accept'' then ''accepted''
        else if decision = ''reject'' then ''rejected'' else decision) = review_text s" "s \<in> review_moves rv_proposed"
    proof (rule that [of ?s])
      show "?s \<in> review_moves rv_proposed" by simp
      from True have "decision = ''accepted'' \<or> decision = ''rejected'' \<or> decision = ''accept'' \<or> decision = ''reject''"
        by blast
      then show "(if decision = ''accept'' then ''accepted''
          else if decision = ''reject'' then ''rejected'' else decision) = review_text ?s"
        by (elim disjE; hypsubst) simp_all
    qed
    from run get r True have "memory_replace r (JObj [(''review_state'', JStr (review_text s))]) n w = (res, v)"
      unfolding memory_review_def s(1) by (simp add: raise_if_def)
    from replaced_steps [OF get this] s r show ?thesis by simp
  next
    case False
    with run have "v = w"
      using reads_onlyD [OF memory_get_reads]
      by (cases "memory_get who i w"; cases "fst (memory_get who i w)") (auto simp: memory_review_def raise_if_def andthen_def bnd_def split: if_splits)
    then show ?thesis using mem.refl_history by simp
  qed
qed

lemma update_steps: "keeps memory_steps (memory_update who i patch n)"
proof (rule triI)
  fix w res v assume run: "memory_update who i patch n w = (res, v)"
  show "memory_steps w v \<and> (\<forall>x. res = Inr x \<longrightarrow> True)"
  proof (cases "fst ` set patch \<subseteq> {''content'', ''source_refs'', ''expires_at''} \<and>
      (\<exists>r. memory_get who i w = (Inr r, w))")
    case True
    then obtain r where get: "memory_get who i w = (Inr r, w)" by blast
    from run get True have "memory_replace r (JObj patch) n w = (res, v)"
      unfolding memory_update_def by (simp add: raise_if_def)
    from replaced_steps [OF get this] True show ?thesis by simp
  next
    case False
    with run have "v = w"
      using reads_onlyD [OF memory_get_reads]
      by (cases "memory_get who i w"; cases "fst (memory_get who i w)") (auto simp: memory_update_def raise_if_def andthen_def bnd_def split: if_splits)
    then show ?thesis using mem.refl_history by simp
  qed
qed

lemma delete_steps: "keeps memory_steps (memory_delete who i n)"
proof (rule triI)
  fix w res v assume run: "memory_delete who i n w = (res, v)"
  show "memory_steps w v \<and> (\<forall>x. res = Inr x \<longrightarrow> True)"
  proof (cases "\<exists>r. memory_get who i w = (Inr r, w)")
    case True
    then obtain r where get: "memory_get who i w = (Inr r, w)" by blast
    then have "me_review r \<noteq> rv_deleted" by (simp add: memory_get_iff)
    then have "rv_deleted \<in> review_moves (me_review r)" by (cases "me_review r") simp_all
    moreover from run get obtain res' where
      "memory_replace r (JObj [(''review_state'', JStr (review_text rv_deleted))]) n w = (res', v)"
      unfolding memory_delete_def by (auto simp: bnd_def split: prod.splits sum.splits)
    ultimately show ?thesis using replaced_steps [OF get] by blast
  next
    case False
    with run have "v = w"
      using reads_onlyD [OF memory_get_reads]
      by (cases "memory_get who i w"; cases "fst (memory_get who i w)") (auto simp: memory_delete_def bnd_def split: if_splits)
    then show ?thesis using mem.refl_history by simp
  qed
qed

datatype memory_call =
    Propose identity string string "json list" "(string \<times> json) list"
  | Review identity string string int
  | Update identity string "(string \<times> json) list" int
  | Remove identity string int

fun run_call :: "memory_call \<Rightarrow> world \<Rightarrow> world" where
  "run_call (Propose who ws content sources extra) w = snd (memory_propose who ws content sources extra w)"
| "run_call (Review who i decision n) w = snd (memory_review who i decision n w)"
| "run_call (Update who i patch n) w = snd (memory_update who i patch n w)"
| "run_call (Remove who i n) w = snd (memory_delete who i n w)"

lemma memory_calls_steps: "memory_steps w (fold run_call cs w)"
proof (induction cs arbitrary: w)
  case Nil
  show ?case by (simp add: mem.refl_history)
next
  case (Cons c cs)
  have "memory_steps w (run_call c w)"
    using propose_steps review_steps update_steps delete_steps by (cases c) (simp_all add: tri_def)
  from mem.trans_history [OF this Cons.IH] show ?case by simp
qed

text \<open>
  C20: the life of a memory record. Whoever calls what, a record keeps its identity, owner, workspace,
  scope, kind, confidence and time; its revision only grows, and does so with every change; its
  review goes from proposed to accepted or rejected and from anything to deleted, and a deleted
  record never changes again. Every stored record stays valid and under its own key.
\<close>

theorem memory_lifecycle:
  assumes "memory_ok w" and "memory_at w i = Some r"
  shows "memory_ok (fold run_call cs w) \<and>
    (\<exists>s. memory_at (fold run_call cs w) i = Some s \<and> evolves r s)"
  using memory_calls_steps assms by (simp add: memory_steps_def)

section \<open>Retrieval finds everything it may show, and nothing else\<close>

definition memories :: "world \<Rightarrow> memory_record list" where
  "memories w = map (\<lambda>row. projr (memory_validate (rec_payload row)))
     (sort_key rec_key (filter (\<lambda>row. rec_namespace row = ''memory'') (t_records w)))"

definition visible :: "identity \<Rightarrow> string \<Rightarrow> (string \<times> json) list \<Rightarrow> world \<Rightarrow> memory_record list" where
  "visible who ws filters w =
     sort_key (\<lambda>r. (me_created r, me_id r)) (filter (listed_memory who ws filters) (memories w))"

lemma collect_lift:
  "(\<And>x. x \<in> set xs \<Longrightarrow> f x = Inr (g x)) \<Longrightarrow> collect xs (\<lambda>x. lift (f x)) w = (Inr (map g xs), w)"
  by (induction xs) (simp_all add: bnd_def)

lemma memory_list_eval:
  assumes ok: "memory_ok w" and access: "access_check who ws w = (Inr u, w)"
  shows "memory_list who ws filters cursor n w = (page_of (visible who ws filters w) cursor n, w)"
proof -
  let ?rows = "sort_key rec_key (filter (\<lambda>row. rec_namespace row = ''memory'') (t_records w))"
  have "memory_validate (rec_payload row) = Inr (projr (memory_validate (rec_payload row)))"
    if "row \<in> set ?rows" for row
  proof -
    from that ok obtain r where "memory_row row r" by (auto simp: memory_ok_def)
    then show ?thesis by (simp add: memory_row_def memory_validate_json)
  qed
  then have "collect (map rec_payload ?rows) (\<lambda>data. lift (memory_validate data)) w = (Inr (memories w), w)"
    unfolding memories_def by (subst collect_lift [where g = "\<lambda>p. projr (memory_validate p)"]) auto
  then show ?thesis
    using access by (cases "page_of (visible who ws filters w) cursor n")
      (simp_all add: memory_list_def andthen_def bnd_def store_list_def visible_def)
qed

lemma int_text_nonempty: "int_text n \<noteq> ''''"
  using nat_text_digits by (simp add: int_text_def)

lemma page_at:
  "0 \<le> n \<Longrightarrow> page_of rs (if n = 0 then None else Some (int_text n)) 100 =
     Inr \<lparr>pg_items = take 100 (drop (nat n) rs),
       pg_next = (if n + 100 < int (length rs) then Some (int_text (n + 100)) else None)\<rparr>"
  by (simp add: page_of_def read_int_text int_text_nonempty)

lemma accepted_pages_eval:
  assumes ok: "memory_ok w" and access: "access_check who ws w = (Inr u, w)"
  shows "0 \<le> n \<Longrightarrow> 0 < fuel \<Longrightarrow> length (visible who ws [(''review_state'', JStr ''accepted'')] w) \<le> nat n + 100 * fuel \<Longrightarrow>
    accepted_pages fuel who ws (if n = 0 then None else Some (int_text n)) w =
      (Inr (drop (nat n) (visible who ws [(''review_state'', JStr ''accepted'')] w)), w)"
proof (induction fuel arbitrary: n)
  case (Suc fuel)
  let ?v = "visible who ws [(''review_state'', JStr ''accepted'')] w"
  note page = memory_list_eval [OF ok access, of "[(''review_state'', JStr ''accepted'')]"
      "if n = 0 then None else Some (int_text n)" 100, unfolded page_at [OF Suc.prems(1)]]
  show ?case
  proof (cases "n + 100 < int (length ?v)")
    case True
    then have "0 < fuel" using Suc.prems by (cases fuel) auto
    have "accepted_pages fuel who ws (Some (int_text (n + 100))) w = (Inr (drop (nat (n + 100)) ?v), w)"
      using Suc.IH [of "n + 100"] Suc.prems \<open>0 < fuel\<close> by (simp add: nat_add_distrib)
    moreover have "take 100 (drop (nat n) ?v) @ drop (nat (n + 100)) ?v = drop (nat n) ?v"
    proof -
      have "nat (n + 100) = 100 + nat n" using Suc.prems by simp
      then have "drop (nat (n + 100)) ?v = drop 100 (drop (nat n) ?v)" by (simp only: drop_drop)
      then show ?thesis by (simp only: append_take_drop_id)
    qed
    ultimately show ?thesis using page True by (simp add: bnd_def)
  next
    case False
    then have "length (drop (nat n) ?v) \<le> 100" by simp
    then show ?thesis using page False by (simp add: bnd_def)
  qed
qed simp

lemma ranked_set:
  "r \<in> set (ranked tx query now rs) \<longleftrightarrow> r \<in> set rs \<and> \<not> memory_expired now r \<and>
     (memory_score tx query r \<noteq> 0 \<or> me_kind r = mk_pinned)"
  by (auto simp: ranked_def)

lemma memories_at:
  assumes "memory_ok w" "distinct (map rec_id (t_records w))"
  shows "r \<in> set (memories w) \<longleftrightarrow> memory_at w (me_id r) = Some r"
proof
  assume "r \<in> set (memories w)"
  then obtain row where row: "row \<in> set (t_records w)" "rec_namespace row = ''memory''"
    "r = projr (memory_validate (rec_payload row))" by (auto simp: memories_def)
  with assms(1) obtain r' where r': "memory_row row r'" by (auto simp: memory_ok_def)
  with row have "r' = r" by (simp add: memory_row_def memory_validate_json)
  with r' row assms(2) have "record_at w ''memory'' (me_id r) = Some row"
    unfolding record_at_def memory_row_def by (metis row_of_unique rec_id_def)
  with r' \<open>r' = r\<close> show "memory_at w (me_id r) = Some r" by (simp add: memory_at_row)
next
  assume "memory_at w (me_id r) = Some r"
  then obtain row where "record_at w ''memory'' (me_id r) = Some row" "memory_validate (rec_payload row) = Inr r"
    by (auto simp: memory_at_def split: option.splits sum.splits)
  then show "r \<in> set (memories w)"
    by (force simp: memories_def record_at_def rec_id_def dest!: row_of_SomeD)
qed

text \<open>
  C21: retrieval ends, changes nothing, and is exact. With fuel for the pages of the accepted records it
  returns the first of the ranked records, and those are the accepted, unexpired records of the caller
  that the workspace may see and that the query meets or that are pinned: no other record is returned,
  and as long as they fit the limit none of them is missing.
\<close>

theorem retrieve_exact:
  assumes ok: "memory_ok w" "distinct (map rec_id (t_records w))"
    and access: "access_check who ws w = (Inr (), w)"
    and fuel: "length (t_records w) < 100 * fuel"
  shows "\<exists>rs. memory_retrieve fuel tx who ws query n w = (Inr (take (nat (max 1 (min n 100))) rs), w) \<and>
    (\<forall>r. r \<in> set rs \<longleftrightarrow> memory_at w (me_id r) = Some r \<and> me_owner r = owner_of who \<and>
       me_review r = rv_accepted \<and> (me_scope r = ms_workspace \<longrightarrow> me_workspace r = ws) \<and>
       \<not> memory_expired (w_now w) r \<and> (memory_score tx query r \<noteq> 0 \<or> me_kind r = mk_pinned))"
proof -
  let ?f = "[(''review_state'', JStr ''accepted'')]"
  have "length (memories w) \<le> length (t_records w)" by (simp add: memories_def)
  moreover have "length (visible who ws ?f w) \<le> length (memories w)"
    by (simp add: visible_def)
  ultimately have short: "length (visible who ws ?f w) \<le> nat 0 + 100 * fuel" and "0 < fuel"
    using fuel by auto
  from accepted_pages_eval [OF ok(1) access _ this(2,1)]
  have pages: "accepted_pages fuel who ws None w = (Inr (visible who ws ?f w), w)" by simp
  have accepted: "review_text v = ''accepted'' \<longleftrightarrow> v = rv_accepted" for v by (cases v) simp_all
  show ?thesis
    using pages memories_at [OF ok]
    by (intro exI [of _ "ranked tx query (w_now w) (visible who ws ?f w)"])
      (auto simp: memory_retrieve_def bnd_def utc_now_def ranked_set visible_def listed_memory_def
        memory_get_fields accepted)
qed


section \<open>A concrete memory\<close>

definition sample_memory :: memory_record where
  "sample_memory = \<lparr>me_id = ''x'', me_revision = 1, me_owner = ''owner'', me_workspace = ''ws'',
     me_scope = ms_workspace, me_kind = mk_pinned, me_content = ''text'', me_sources = [JStr ''src''],
     me_created = 0, me_expires = None, me_confidence = Some (1 / 2), me_review = rv_accepted\<rparr>"

definition memory_world :: world where
  "memory_world = fresh_store
     \<lparr>t_workspaces := [\<lparr>ws_id = ''ws'', ws_owner = ''owner'', ws_name = '''', ws_root = '''',
        ws_revision = 1, ws_policy = JNull, ws_created = 0\<rparr>],
      t_records := [new_record ''memory'' ''x'' 1 (memory_json sample_memory)], w_seed := 2\<rparr>"

lemma sample_memory_row:
  "memory_row (new_record ''memory'' ''x'' 1 (memory_json sample_memory)) sample_memory"
  by (simp add: memory_row_def valid_memory_def sample_memory_def valid_source_def)

lemma memory_world_ok: "memory_ok memory_world" "distinct (map rec_id (t_records memory_world))"
proof -
  have "inj (\<lambda>n. replicate n CHR ''x'')" by (rule injI) (metis length_replicate)
  moreover have "''x'' \<in> (\<lambda>n. replicate n CHR ''x'') ` {..<2}" by (rule image_eqI [of _ _ 1]) simp_all
  ultimately show "memory_ok memory_world"
    using sample_memory_row by (auto simp: memory_ok_def memory_world_def fresh_store_def empty_world_def)
qed (simp add: memory_world_def)

lemma memory_world_at: "memory_at memory_world ''x'' = Some sample_memory"
  by (rule memory_at_row [OF _ sample_memory_row]) (simp add: record_at_def memory_world_def)

lemma memory_world_access: "access_check (Owner ''owner'') ''ws'' memory_world = (Inr (), memory_world)"
  by (simp add: access_check_def store_workspace_def store_get_def bnd_def memory_world_def record_value_def
      record_at_def)

lemma memory_lifecycle_witness:
  "\<exists>s. memory_at (fold run_call [Update (Owner ''owner'') ''x'' [(''content'', JStr ''new'')] 1,
     Remove (Owner ''owner'') ''x'' 2] memory_world) ''x'' = Some s \<and> me_owner s = ''owner''"
proof -
  from memory_lifecycle [OF memory_world_ok(1) memory_world_at] obtain s where
    "memory_at (fold run_call [Update (Owner ''owner'') ''x'' [(''content'', JStr ''new'')] 1,
       Remove (Owner ''owner'') ''x'' 2] memory_world) ''x'' = Some s" "evolves sample_memory s" by blast
  then show ?thesis by (auto simp: evolves_def sample_memory_def)
qed

lemma retrieve_exact_witness:
  "\<exists>rs. memory_retrieve 1 \<lparr>tx_lower = (\<lambda>s. s), tx_terms = (\<lambda>s. [s])\<rparr> (Owner ''owner'') ''ws'' ''q'' 10 memory_world =
     (Inr (take 10 rs), memory_world) \<and> sample_memory \<in> set rs"
proof -
  have "length (t_records memory_world) < 100 * 1" by (simp add: memory_world_def)
  from retrieve_exact [OF memory_world_ok memory_world_access this,
      of "\<lparr>tx_lower = (\<lambda>s. s), tx_terms = (\<lambda>s. [s])\<rparr>" "''q''" 10] memory_world_at
  show ?thesis by (auto simp: memory_expired_def sample_memory_def)
qed


end
