(* ===== verification/Model_Profiles.thy ===== *)
theory Model_Profiles
  imports Memory
begin

text \<open>
  Model profiles (\<^verbatim>\<open>harness/model_gateway/profiles.py\<close>) and the input budget a profile leaves to the
  context (\<^verbatim>\<open>harness/context/budget.py\<close>): capabilities that count only with evidence, limits, prices,
  and the JSON form profiles are stored in.
\<close>

section \<open>Profiles\<close>

datatype capability_state = cs_verified | cs_unverified | cs_unsupported

fun capability_text :: "capability_state \<Rightarrow> string" where
  "capability_text cs_verified = ''verified''"
| "capability_text cs_unverified = ''unverified''"
| "capability_text cs_unsupported = ''unsupported''"

record capability =
  cap_status :: capability_state
  cap_evidence :: "string option"

definition text_given :: "string option \<Rightarrow> bool" where
  "text_given t \<longleftrightarrow> (case t of None \<Rightarrow> False | Some s \<Rightarrow> s \<noteq> '''')"

text \<open>The class's own check: a verified capability names its evidence.\<close>

definition evidence_required :: "capability \<Rightarrow> bool" where
  "evidence_required c \<longleftrightarrow> \<not> (cap_status c = cs_verified \<and> \<not> text_given (cap_evidence c))"

datatype reasoning_tokens = rt_output | rt_input | rt_separate | rt_unknown

fun reasoning_text :: "reasoning_tokens \<Rightarrow> string" where
  "reasoning_text rt_output = ''output''"
| "reasoning_text rt_input = ''input''"
| "reasoning_text rt_separate = ''separate''"
| "reasoning_text rt_unknown = ''unknown''"

record model_limits =
  ml_window :: "int option"
  ml_input :: "int option"
  ml_output :: "int option"
  ml_reasoning :: reasoning_tokens
  ml_source :: "string option"

definition default_context_window :: int where "default_context_window = 300000"

definition extended_context_window :: int where "extended_context_window = 1000000"

definition default_output_limit :: int where "default_output_limit = 8192"

definition default_request_timeout :: nat where "default_request_timeout = 180 * 1000"

definition configurable_windows :: "int list" where
  "configurable_windows = [default_context_window, extended_context_window]"

definition given_int :: "int option \<Rightarrow> bool" where
  "given_int n \<longleftrightarrow> (case n of None \<Rightarrow> False | Some k \<Rightarrow> k \<noteq> 0)"

definition positive :: "int option \<Rightarrow> bool" where
  "positive n \<longleftrightarrow> (case n of None \<Rightarrow> True | Some k \<Rightarrow> 0 < k)"

definition valid_limits :: "model_limits \<Rightarrow> bool" where
  "valid_limits l \<longleftrightarrow> positive (ml_window l) \<and> positive (ml_input l) \<and> positive (ml_output l)"

definition model_limits_of ::
  "int option \<Rightarrow> int option \<Rightarrow> int option \<Rightarrow> reasoning_tokens \<Rightarrow> string option \<Rightarrow> err + model_limits" where
  "model_limits_of window input out reasoning source =
     (let l = \<lparr>ml_window = window, ml_input = input, ml_output = out, ml_reasoning = reasoning,
               ml_source = source\<rparr>
      in if valid_limits l then Inr l else Inl PyValueError)"

definition configured_model_limits ::
  "int \<Rightarrow> model_limits option \<Rightarrow> int option \<Rightarrow> err + model_limits" where
  "configured_model_limits window previous out =
     (if window \<notin> set configurable_windows then Inl PyValueError
      else model_limits_of (Some window) None
        (case previous of Some p \<Rightarrow> if given_int (ml_output p) then ml_output p else out | None \<Rightarrow> out)
        (case previous of Some p \<Rightarrow> ml_reasoning p | None \<Rightarrow> rt_unknown)
        (Some (if window = extended_context_window then ''user-configured:model-context-window-1m-v2''
               else ''app:default-model-context-window-300k-v2'')))"

record token_estimator =
  te_algorithm :: string
  te_margin :: rat
  te_exact :: bool

datatype adapter = ad_openai | ad_anthropic | ad_ollama | ad_demo

fun adapter_text :: "adapter \<Rightarrow> string" where
  "adapter_text ad_openai = ''openai''"
| "adapter_text ad_anthropic = ''anthropic''"
| "adapter_text ad_ollama = ''ollama''"
| "adapter_text ad_demo = ''demo''"

record model_profile =
  mp_id :: string
  mp_revision :: int
  mp_provider :: string
  mp_adapter :: adapter
  mp_adapter_version :: string
  mp_endpoint :: string
  mp_credential :: "string option"
  mp_model :: string
  mp_api_mode :: string
  mp_capabilities :: "(string \<times> capability) list"
  mp_limits :: model_limits
  mp_estimator :: token_estimator
  mp_verification :: "string option"
  mp_continuation :: json
  mp_input_price :: "rat option"
  mp_output_price :: "rat option"

definition profile_ref :: "model_profile \<Rightarrow> string" where
  "profile_ref p = mp_id p @ ''@'' @ int_text (mp_revision p)"

definition supports :: "model_profile \<Rightarrow> string \<Rightarrow> bool" where
  "supports p name \<longleftrightarrow>
     (case map_of (mp_capabilities p) name of
        None \<Rightarrow> False | Some c \<Rightarrow> cap_status c = cs_verified)"

definition valid_profile :: "model_profile \<Rightarrow> bool" where
  "valid_profile p \<longleftrightarrow> 1 \<le> mp_revision p \<and>
     list_all (\<lambda>c. evidence_required (snd c)) (mp_capabilities p) \<and> valid_limits (mp_limits p) \<and>
     0 \<le> te_margin (mp_estimator p) \<and> te_margin (mp_estimator p) \<le> 1 \<and>
     (case mp_continuation p of JObj kvs \<Rightarrow> True | _ \<Rightarrow> False) \<and>
     (case mp_input_price p of None \<Rightarrow> True | Some c \<Rightarrow> 0 \<le> c) \<and>
     (case mp_output_price p of None \<Rightarrow> True | Some c \<Rightarrow> 0 \<le> c)"

definition demo_evidence :: string where
  "demo_evidence = ''fixture:deterministic-demo-v1;not-a-provider-verification''"

definition default_estimator :: token_estimator where
  "default_estimator = \<lparr>te_algorithm = ''utf8-conservative-v1'', te_margin = 1 / 5, te_exact = False\<rparr>"

definition demo_profile :: model_profile where
  "demo_profile =
     \<lparr>mp_id = ''demo'', mp_revision = 1, mp_provider = ''local-demo'', mp_adapter = ad_demo,
      mp_adapter_version = ''1'', mp_endpoint = ''demo://local'', mp_credential = None,
      mp_model = ''deterministic-demo-v1'', mp_api_mode = ''fixture'',
      mp_capabilities = map (\<lambda>n. (n, \<lparr>cap_status = cs_verified, cap_evidence = Some demo_evidence\<rparr>))
        [''text'', ''tool_calling'', ''parallel_tools'', ''usage''],
      mp_limits = projr (configured_model_limits default_context_window None (Some default_output_limit)),
      mp_estimator = default_estimator, mp_verification = Some demo_evidence,
      mp_continuation = JObj [], mp_input_price = None, mp_output_price = None\<rparr>"

section \<open>The stored form\<close>

definition optional_json :: "('a \<Rightarrow> json) \<Rightarrow> 'a option \<Rightarrow> json" where
  "optional_json f x = (case x of None \<Rightarrow> JNull | Some y \<Rightarrow> f y)"

definition capability_json :: "capability \<Rightarrow> json" where
  "capability_json c = JObj
     [(''status'', JStr (capability_text (cap_status c))),
      (''evidence_ref'', optional_json JStr (cap_evidence c))]"

definition limits_json :: "model_limits \<Rightarrow> json" where
  "limits_json l = JObj
     [(''context_window'', optional_json JInt (ml_window l)), (''input_limit'', optional_json JInt (ml_input l)),
      (''output_limit'', optional_json JInt (ml_output l)),
      (''reasoning_tokens'', JStr (reasoning_text (ml_reasoning l))),
      (''source_ref'', optional_json JStr (ml_source l))]"

definition estimator_json :: "token_estimator \<Rightarrow> json" where
  "estimator_json t = JObj
     [(''algorithm'', JStr (te_algorithm t)), (''safety_margin'', JFloat (te_margin t)),
      (''exact'', JBool (te_exact t))]"

definition profile_json :: "model_profile \<Rightarrow> json" where
  "profile_json p = JObj
     [(''profile_id'', JStr (mp_id p)), (''revision'', JInt (mp_revision p)),
      (''provider_id'', JStr (mp_provider p)), (''adapter_id'', JStr (adapter_text (mp_adapter p))),
      (''adapter_version'', JStr (mp_adapter_version p)), (''endpoint_ref'', JStr (mp_endpoint p)),
      (''credential_ref'', optional_json JStr (mp_credential p)), (''model_id'', JStr (mp_model p)),
      (''api_mode'', JStr (mp_api_mode p)),
      (''capabilities'', JObj (map (map_prod id capability_json) (mp_capabilities p))),
      (''limits'', limits_json (mp_limits p)), (''token_estimator'', estimator_json (mp_estimator p)),
      (''verification_ref'', optional_json JStr (mp_verification p)),
      (''continuation_requirements'', mp_continuation p),
      (''input_price_per_million'', optional_json JFloat (mp_input_price p)),
      (''output_price_per_million'', optional_json JFloat (mp_output_price p))]"

definition valid_bool :: "json \<Rightarrow> err + bool" where
  "valid_bool j = (case j of JBool b \<Rightarrow> Inr b | _ \<Rightarrow> Inl PyValueError)"

definition valid_float :: "(rat \<Rightarrow> bool) \<Rightarrow> json \<Rightarrow> err + rat" where
  "valid_float ok j =
     (case j of JFloat c \<Rightarrow> if ok c then Inr c else Inl PyValueError
      | JInt n \<Rightarrow> if ok (of_int n) then Inr (of_int n) else Inl PyValueError
      | _ \<Rightarrow> Inl PyValueError)"

definition known_keys :: "string list \<Rightarrow> json \<Rightarrow> bool" where
  "known_keys ks j \<longleftrightarrow> (case j of JObj kvs \<Rightarrow> fst ` set kvs \<subseteq> set ks | _ \<Rightarrow> False)"

definition capability_validate :: "json \<Rightarrow> err + capability" where
  "capability_validate j =
     (if \<not> known_keys [''status'', ''evidence_ref''] j then Inl PyValueError else
      sum_bind (valid_literal capability_text [cs_verified, cs_unverified, cs_unsupported]
        (jget_or ''status'' (JStr ''unverified'') j)) (\<lambda>status.
      sum_bind (valid_optional valid_string (jget ''evidence_ref'' j)) (\<lambda>evidence.
      if evidence_required \<lparr>cap_status = status, cap_evidence = evidence\<rparr>
      then Inr \<lparr>cap_status = status, cap_evidence = evidence\<rparr> else Inl PyValueError)))"

definition limits_validate :: "json \<Rightarrow> err + model_limits" where
  "limits_validate j =
     (if \<not> known_keys [''context_window'', ''input_limit'', ''output_limit'', ''reasoning_tokens'', ''source_ref''] j
      then Inl PyValueError else
      sum_bind (valid_optional valid_int (jget_or ''context_window'' (JInt default_context_window) j)) (\<lambda>window.
      sum_bind (valid_optional valid_int (jget ''input_limit'' j)) (\<lambda>input.
      sum_bind (valid_optional valid_int (jget ''output_limit'' j)) (\<lambda>out.
      sum_bind (valid_literal reasoning_text [rt_output, rt_input, rt_separate, rt_unknown]
        (jget_or ''reasoning_tokens'' (JStr ''unknown'') j)) (\<lambda>reasoning.
      sum_bind (valid_optional valid_string (jget ''source_ref'' j)) (\<lambda>source.
      model_limits_of window input out reasoning source))))))"

text \<open>This class does not forbid further keys: they are dropped.\<close>

definition estimator_validate :: "json \<Rightarrow> err + token_estimator" where
  "estimator_validate j =
     (case j of JObj kvs \<Rightarrow>
      sum_bind (valid_string (jget_or ''algorithm'' (JStr ''utf8-conservative-v1'') j)) (\<lambda>algorithm.
      sum_bind (valid_float (\<lambda>c. 0 \<le> c \<and> c \<le> 1) (jget_or ''safety_margin'' (JFloat (1 / 5)) j)) (\<lambda>margin.
      sum_bind (valid_bool (jget_or ''exact'' (JBool False) j)) (\<lambda>exact.
      Inr \<lparr>te_algorithm = algorithm, te_margin = margin, te_exact = exact\<rparr>)))
     | _ \<Rightarrow> Inl PyValueError)"

fun sum_all :: "(err + 'a) list \<Rightarrow> err + 'a list" where
  "sum_all [] = Inr []"
| "sum_all (x # xs) = sum_bind x (\<lambda>y. sum_bind (sum_all xs) (\<lambda>ys. Inr (y # ys)))"

definition capabilities_validate :: "json \<Rightarrow> err + (string \<times> capability) list" where
  "capabilities_validate j =
     (case j of JObj kvs \<Rightarrow> sum_all (map (\<lambda>e. map_sum id (Pair (fst e)) (capability_validate (snd e))) kvs)
      | _ \<Rightarrow> Inl PyValueError)"

definition valid_object :: "json \<Rightarrow> err + json" where
  "valid_object j = (case j of JObj kvs \<Rightarrow> Inr j | _ \<Rightarrow> Inl PyValueError)"

definition profile_fields :: "string list" where
  "profile_fields =
     [''profile_id'', ''revision'', ''provider_id'', ''adapter_id'', ''adapter_version'', ''endpoint_ref'',
      ''credential_ref'', ''model_id'', ''api_mode'', ''capabilities'', ''limits'', ''token_estimator'',
      ''verification_ref'', ''continuation_requirements'', ''input_price_per_million'',
      ''output_price_per_million'']"

definition profile_validate :: "json \<Rightarrow> err + model_profile" where
  "profile_validate j =
     (if \<not> known_keys profile_fields j then Inl PyValueError else
      sum_bind (valid_string (jget ''profile_id'' j)) (\<lambda>i.
      sum_bind (valid_int (jget_or ''revision'' (JInt 1) j)) (\<lambda>revision.
      if revision < 1 then Inl PyValueError else
      sum_bind (valid_string (jget ''provider_id'' j)) (\<lambda>provider.
      sum_bind (valid_literal adapter_text [ad_openai, ad_anthropic, ad_ollama, ad_demo]
        (jget ''adapter_id'' j)) (\<lambda>adapter.
      sum_bind (valid_string (jget_or ''adapter_version'' (JStr ''1'') j)) (\<lambda>version.
      sum_bind (valid_string (jget ''endpoint_ref'' j)) (\<lambda>endpoint.
      sum_bind (valid_optional valid_string (jget ''credential_ref'' j)) (\<lambda>credential.
      sum_bind (valid_string (jget ''model_id'' j)) (\<lambda>model.
      sum_bind (valid_string (jget ''api_mode'' j)) (\<lambda>mode.
      sum_bind (capabilities_validate (jget_or ''capabilities'' (JObj []) j)) (\<lambda>capabilities.
      sum_bind (limits_validate (jget_or ''limits'' (JObj []) j)) (\<lambda>limits.
      sum_bind (estimator_validate (jget_or ''token_estimator'' (JObj []) j)) (\<lambda>estimator.
      sum_bind (valid_optional valid_string (jget ''verification_ref'' j)) (\<lambda>verification.
      sum_bind (valid_object (jget_or ''continuation_requirements'' (JObj []) j)) (\<lambda>continuation.
      sum_bind (valid_optional (valid_float (\<lambda>c. 0 \<le> c)) (jget ''input_price_per_million'' j)) (\<lambda>input_price.
      sum_bind (valid_optional (valid_float (\<lambda>c. 0 \<le> c)) (jget ''output_price_per_million'' j)) (\<lambda>output_price.
      Inr \<lparr>mp_id = i, mp_revision = revision, mp_provider = provider, mp_adapter = adapter,
           mp_adapter_version = version, mp_endpoint = endpoint, mp_credential = credential,
           mp_model = model, mp_api_mode = mode, mp_capabilities = capabilities, mp_limits = limits,
           mp_estimator = estimator, mp_verification = verification, mp_continuation = continuation,
           mp_input_price = input_price, mp_output_price = output_price\<rparr>)))))))))))))))))"

section \<open>The input budget\<close>

record context_policy =
  cp_revision :: int
  cp_output :: int
  cp_safety :: int
  cp_soft :: rat
  cp_target :: rat
  cp_offload :: int
  cp_recent :: int

definition valid_policy :: "context_policy \<Rightarrow> bool" where
  "valid_policy c \<longleftrightarrow> 0 < cp_output c \<and> 0 \<le> cp_safety c \<and> 0 < cp_soft c \<and> cp_soft c < 1 \<and>
     0 < cp_target c \<and> cp_target c < 1 \<and> 256 \<le> cp_offload c \<and> 1 \<le> cp_recent c"

record budget_view =
  bv_input :: int
  bv_output :: int
  bv_safety :: int
  bv_window :: "int option"
  bv_limit :: "int option"
  bv_soft :: int
  bv_target :: int

text \<open>\<^verbatim>\<open>int(x)\<close> of a float drops its fraction.\<close>

definition truncated :: "rat \<Rightarrow> int" where
  "truncated x = (if 0 \<le> x then \<lfloor>x\<rfloor> else \<lceil>x\<rceil>)"

definition output_reserve :: "model_profile \<Rightarrow> context_policy \<Rightarrow> int" where
  "output_reserve p c =
     (case ml_output (mp_limits p) of None \<Rightarrow> cp_output c
      | Some n \<Rightarrow> if n \<noteq> 0 then min (cp_output c) n else cp_output c)"

definition input_budget :: "model_profile \<Rightarrow> context_policy \<Rightarrow> err + budget_view" where
  "input_budget p c =
     (let l = mp_limits p;
          candidates = (case ml_window l of None \<Rightarrow> [] | Some n \<Rightarrow> [n - output_reserve p c]) @
             (case ml_input l of None \<Rightarrow> [] | Some n \<Rightarrow> [n])
      in if candidates = [] then Inl (HErr ''unknown_context_limit'' 409)
         else let upper = Min (set candidates) - cp_safety c
              in if upper \<le> 0 then Inl (HErr ''context_budget_invalid'' 409)
                 else Inr \<lparr>bv_input = upper, bv_output = output_reserve p c, bv_safety = cp_safety c,
                   bv_window = ml_window l, bv_limit = ml_input l,
                   bv_soft = truncated (of_int upper * cp_soft c),
                   bv_target = truncated (of_int upper * cp_target c)\<rparr>)"

section \<open>Correctness\<close>

lemma profile_literals:
  "valid_literal capability_text [cs_verified, cs_unverified, cs_unsupported] (JStr (capability_text c)) = Inr c"
  "valid_literal reasoning_text [rt_output, rt_input, rt_separate, rt_unknown] (JStr (reasoning_text r)) = Inr r"
  "valid_literal adapter_text [ad_openai, ad_anthropic, ad_ollama, ad_demo] (JStr (adapter_text a)) = Inr a"
  by (cases c, simp_all add: valid_literal_def) (cases r, simp_all, cases a, simp_all)

lemma optional_values:
  "valid_optional valid_string (optional_json JStr s) = Inr s"
  "valid_optional valid_int (optional_json JInt n) = Inr n"
  "(case c of None \<Rightarrow> True | Some x \<Rightarrow> ok x) \<Longrightarrow> valid_optional (valid_float ok) (optional_json JFloat c) = Inr c"
proof -
  show "valid_optional valid_string (optional_json JStr s) = Inr s"
    by (cases s) (simp_all add: valid_optional_def optional_json_def valid_string_def)
  show "valid_optional valid_int (optional_json JInt n) = Inr n"
    by (cases n) (simp_all add: valid_optional_def optional_json_def valid_int_def)
  show "(case c of None \<Rightarrow> True | Some x \<Rightarrow> ok x) \<Longrightarrow> valid_optional (valid_float ok) (optional_json JFloat c) = Inr c"
    by (cases c) (simp_all add: valid_optional_def optional_json_def valid_float_def)
qed

lemma capability_validate_json:
  "evidence_required c \<Longrightarrow> capability_validate (capability_json c) = Inr c"
  by (cases c) (simp add: capability_validate_def capability_json_def known_keys_def jget_def jget_or_def
      profile_literals optional_values)

lemma capabilities_validate_json:
  "list_all (\<lambda>c. evidence_required (snd c)) cs \<Longrightarrow>
     capabilities_validate (JObj (map (map_prod id capability_json) cs)) = Inr cs"
  by (induction cs) (auto simp: capabilities_validate_def capability_validate_json sum_bind_def split: sum.splits)

lemma limits_validate_json: "valid_limits l \<Longrightarrow> limits_validate (limits_json l) = Inr l"
  by (cases l) (simp add: limits_validate_def limits_json_def known_keys_def jget_def jget_or_def
      profile_literals optional_values model_limits_of_def)

lemma estimator_validate_json:
  "0 \<le> te_margin t \<Longrightarrow> te_margin t \<le> 1 \<Longrightarrow> estimator_validate (estimator_json t) = Inr t"
  by (simp add: estimator_validate_def estimator_json_def jget_or_def valid_string_def valid_bool_def valid_float_def)

lemma profile_get_fields:
  "jget ''profile_id'' (profile_json p) = JStr (mp_id p)"
  "jget_or ''revision'' d (profile_json p) = JInt (mp_revision p)"
  "jget ''provider_id'' (profile_json p) = JStr (mp_provider p)"
  "jget ''adapter_id'' (profile_json p) = JStr (adapter_text (mp_adapter p))"
  "jget_or ''adapter_version'' d (profile_json p) = JStr (mp_adapter_version p)"
  "jget ''endpoint_ref'' (profile_json p) = JStr (mp_endpoint p)"
  "jget ''credential_ref'' (profile_json p) = optional_json JStr (mp_credential p)"
  "jget ''model_id'' (profile_json p) = JStr (mp_model p)"
  "jget ''api_mode'' (profile_json p) = JStr (mp_api_mode p)"
  "jget_or ''capabilities'' d (profile_json p) = JObj (map (map_prod id capability_json) (mp_capabilities p))"
  "jget_or ''limits'' d (profile_json p) = limits_json (mp_limits p)"
  "jget_or ''token_estimator'' d (profile_json p) = estimator_json (mp_estimator p)"
  "jget ''verification_ref'' (profile_json p) = optional_json JStr (mp_verification p)"
  "jget_or ''continuation_requirements'' d (profile_json p) = mp_continuation p"
  "jget ''input_price_per_million'' (profile_json p) = optional_json JFloat (mp_input_price p)"
  "jget ''output_price_per_million'' (profile_json p) = optional_json JFloat (mp_output_price p)"
  by (simp_all add: profile_json_def jget_def jget_or_def)

lemma profile_validate_json:
  assumes "valid_profile p" shows "profile_validate (profile_json p) = Inr p"
proof -
  have keys: "known_keys profile_fields (profile_json p)"
    by (simp add: profile_json_def known_keys_def profile_fields_def)
  have obj: "valid_object (mp_continuation p) = Inr (mp_continuation p)"
    using assms by (auto simp: valid_profile_def valid_object_def split: json.splits)
  show ?thesis
    using assms keys unfolding profile_validate_def
    by (simp add: profile_get_fields profile_literals optional_values valid_string_def valid_int_def
        capabilities_validate_json limits_validate_json estimator_validate_json obj valid_profile_def)
qed

lemma profile_validate_valid:
  assumes "profile_validate j = Inr p" shows "valid_profile p"
proof -
  have cap: "evidence_required c" if "capability_validate x = Inr c" for x c
    using that by (auto simp: capability_validate_def sum_bind_Inr_iff split: if_splits)
  have "list_all (\<lambda>c. evidence_required (snd c)) cs"
    if "sum_all (map (\<lambda>e. map_sum id (Pair (fst e)) (capability_validate (snd e))) kvs) = Inr cs" for kvs cs
    using that
    by (induction kvs arbitrary: cs) (auto simp: sum_bind_Inr_iff map_sum_def dest: cap split: sum.splits)
  then have caps: "list_all (\<lambda>c. evidence_required (snd c)) cs" if "capabilities_validate x = Inr cs" for x cs
    using that by (cases x) (auto simp: capabilities_validate_def)
  have lims: "valid_limits l" if "limits_validate x = Inr l" for x l
    using that by (auto simp: limits_validate_def sum_bind_Inr_iff model_limits_of_def Let_def split: if_splits)
  have flt: "ok c" if "valid_float ok x = Inr c" for ok x c
    using that by (cases x) (auto simp: valid_float_def split: if_splits)
  have opt: "case c of None \<Rightarrow> True | Some y \<Rightarrow> 0 \<le> y"
    if "valid_optional (valid_float (\<lambda>c. 0 \<le> c)) x = Inr c" for x c
    using that by (auto simp: valid_optional_def map_sum_def dest: flt split: if_splits sum.splits)
  have est: "0 \<le> te_margin t \<and> te_margin t \<le> 1" if "estimator_validate x = Inr t" for x t
    using that by (cases x) (auto simp: estimator_validate_def sum_bind_Inr_iff dest!: flt)
  have obj: "case c of JObj kvs \<Rightarrow> True | _ \<Rightarrow> False" if "valid_object x = Inr c" for x c
    using that by (cases x) (auto simp: valid_object_def)
  show ?thesis
    using assms unfolding profile_validate_def
    by (auto simp: sum_bind_Inr_iff valid_profile_def dest: caps lims opt est obj split: if_splits)
qed

text \<open>
  C23: a profile means the same before and after it is stored. The stored form of a well-formed profile
  validates to that profile; whatever validates is well formed: a capability counts as verified only
  with evidence, limits are positive, prices are not negative.
\<close>

theorem profile_roundtrip:
  assumes "valid_profile p" and "profile_validate j = Inr q"
  shows "profile_validate (profile_json p) = Inr p \<and> valid_profile q \<and>
    (supports q name \<longrightarrow> (\<exists>c. map_of (mp_capabilities q) name = Some c \<and> text_given (cap_evidence c)))"
proof -
  have "valid_profile q" using assms(2) by (rule profile_validate_valid)
  moreover from this have "text_given (cap_evidence c)"
    if "map_of (mp_capabilities q) name = Some c" "cap_status c = cs_verified" for c
    using that by (auto simp: valid_profile_def list_all_iff evidence_required_def dest!: map_of_SomeD)
  ultimately show ?thesis
    using profile_validate_json [OF assms(1)] by (auto simp: supports_def split: option.splits)
qed

text \<open>
  C24: the input budget. With a well-formed policy and limits a budget is given exactly when some limit
  is known and leaves room, and then the input together with the output reserve and the safety margin
  fits the context window, the input fits the input limit, the reserve fits the output limit, and both
  thresholds lie below the budget.
\<close>

theorem input_budget_fits:
  assumes "valid_policy c" and "valid_limits (mp_limits p)"
  shows "case input_budget p c of
      Inl e \<Rightarrow> (ml_window (mp_limits p) = None \<and> ml_input (mp_limits p) = None \<and>
           e = HErr ''unknown_context_limit'' 409) \<or>
         (e = HErr ''context_budget_invalid'' 409 \<and>
           (\<forall>n>0. (\<exists>k. ml_window (mp_limits p) = Some k \<and> k < n + output_reserve p c + cp_safety c) \<or>
              (\<exists>k. ml_input (mp_limits p) = Some k \<and> k < n + cp_safety c)))
    | Inr b \<Rightarrow> 0 < bv_input b \<and> 0 \<le> bv_soft b \<and> bv_soft b < bv_input b \<and> 0 \<le> bv_target b \<and>
        bv_target b < bv_input b \<and> bv_output b = output_reserve p c \<and> 0 < bv_output b \<and>
        bv_output b \<le> cp_output c \<and>
        (\<forall>n. ml_window (mp_limits p) = Some n \<longrightarrow> bv_input b + bv_output b + cp_safety c \<le> n) \<and>
        (\<forall>n. ml_input (mp_limits p) = Some n \<longrightarrow> bv_input b + cp_safety c \<le> n) \<and>
        (\<forall>n. ml_output (mp_limits p) = Some n \<longrightarrow> bv_output b \<le> n)"
proof -
  have share: "0 \<le> truncated (of_int u * x) \<and> truncated (of_int u * x) < u" if "0 < u" "0 < x" "x < 1" for u x
  proof -
    have "of_int u * x < of_int u * (1 :: rat)" using that by (intro mult_strict_left_mono) simp_all
    moreover have "0 \<le> of_int u * x" using that by simp
    ultimately show ?thesis by (simp add: truncated_def floor_less_iff)
  qed
  have out: "0 < output_reserve p c" "output_reserve p c \<le> cp_output c"
    "\<forall>n. ml_output (mp_limits p) = Some n \<longrightarrow> output_reserve p c \<le> n"
    using assms by (auto simp: output_reserve_def valid_policy_def valid_limits_def positive_def split: option.splits)
  define cs where "cs = (case ml_window (mp_limits p) of None \<Rightarrow> [] | Some n \<Rightarrow> [n - output_reserve p c]) @
    (case ml_input (mp_limits p) of None \<Rightarrow> [] | Some n \<Rightarrow> [n])"
  define upper where "upper = Min (set cs) - cp_safety c"
  have none: "cs = [] \<longleftrightarrow> ml_window (mp_limits p) = None \<and> ml_input (mp_limits p) = None"
    by (auto simp: cs_def split: option.splits)
  have budget: "input_budget p c =
     (if cs = [] then Inl (HErr ''unknown_context_limit'' 409)
      else if upper \<le> 0 then Inl (HErr ''context_budget_invalid'' 409)
      else Inr \<lparr>bv_input = upper, bv_output = output_reserve p c, bv_safety = cp_safety c,
        bv_window = ml_window (mp_limits p), bv_limit = ml_input (mp_limits p),
        bv_soft = truncated (of_int upper * cp_soft c), bv_target = truncated (of_int upper * cp_target c)\<rparr>)"
    by (simp only: input_budget_def Let_def cs_def upper_def)
  have low: "\<forall>n. ml_window (mp_limits p) = Some n \<longrightarrow> upper + output_reserve p c + cp_safety c \<le> n"
    "\<forall>n. ml_input (mp_limits p) = Some n \<longrightarrow> upper + cp_safety c \<le> n"
    by (cases "ml_window (mp_limits p)"; cases "ml_input (mp_limits p)"; simp add: upper_def cs_def)+
  have met: "(\<exists>k. ml_window (mp_limits p) = Some k \<and> upper = k - output_reserve p c - cp_safety c) \<or>
      (\<exists>k. ml_input (mp_limits p) = Some k \<and> upper = k - cp_safety c)" if "cs \<noteq> []"
    using that by (cases "ml_window (mp_limits p)"; cases "ml_input (mp_limits p)"; simp add: upper_def cs_def min_def)
  show ?thesis
  proof (cases "cs = []")
    case True
    then show ?thesis using none by (simp add: budget)
  next
    case False
    show ?thesis
    proof (cases "upper \<le> 0")
      case True
      then show ?thesis using False met by (auto simp: budget)
    next
      case pos: False
      have "0 \<le> truncated (of_int upper * cp_soft c) \<and> truncated (of_int upper * cp_soft c) < upper"
        "0 \<le> truncated (of_int upper * cp_target c) \<and> truncated (of_int upper * cp_target c) < upper"
        using pos assms(1) by (intro share; simp add: valid_policy_def)+
      then show ?thesis using False pos out low by (simp add: budget)
    qed
  qed
qed

section \<open>Concrete profiles\<close>

lemma demo_profile_valid: "valid_profile demo_profile"
  by (simp add: valid_profile_def demo_profile_def evidence_required_def text_given_def demo_evidence_def
      valid_limits_def configured_model_limits_def configurable_windows_def default_context_window_def
      extended_context_window_def default_output_limit_def model_limits_of_def Let_def positive_def default_estimator_def)

lemma profile_roundtrip_witness:
  "profile_validate (profile_json demo_profile) = Inr demo_profile \<and> supports demo_profile ''text''"
  using profile_roundtrip [OF demo_profile_valid profile_validate_json [OF demo_profile_valid], of "''text''"]
  by (simp add: supports_def demo_profile_def)

definition sample_policy :: context_policy where
  "sample_policy = \<lparr>cp_revision = 3, cp_output = 8192, cp_safety = 256, cp_soft = 3 / 4, cp_target = 11 / 20,
     cp_offload = 16384, cp_recent = 3\<rparr>"

lemma input_budget_fits_witness:
  "\<exists>b. input_budget demo_profile sample_policy = Inr b \<and> bv_input b + bv_output b + 256 \<le> 300000"
proof -
  have p: "valid_policy sample_policy" by (simp add: valid_policy_def sample_policy_def)
  have l: "valid_limits (mp_limits demo_profile)" using demo_profile_valid by (simp add: valid_profile_def)
  have w: "ml_window (mp_limits demo_profile) = Some 300000" "cp_safety sample_policy = 256"
    by (simp_all add: demo_profile_def configured_model_limits_def configurable_windows_def default_context_window_def
        extended_context_window_def model_limits_of_def Let_def valid_limits_def positive_def default_output_limit_def
        sample_policy_def)
  obtain b where "input_budget demo_profile sample_policy = Inr b"
    by (simp add: input_budget_def demo_profile_def configured_model_limits_def configurable_windows_def
        default_context_window_def extended_context_window_def model_limits_of_def Let_def valid_limits_def
        positive_def default_output_limit_def sample_policy_def output_reserve_def)
  with input_budget_fits [OF p l] w show ?thesis by simp
qed

end
