(* ===== verification/Model_Protocol.thy ===== *)
theory Model_Protocol
  imports Model_Profiles
begin

text \<open>
  The protocol with a model (\<^verbatim>\<open>harness/model_gateway/protocol.py\<close>): tool calls and their results stay
  paired, a response is accepted only when it is complete and its calls fit the bound catalog, and a
  stream shows nothing before it has ended. Messages and the joining of stream chunks come from a
  third-party library; what the code reads of a message is a record, what it calls is a parameter.
\<close>

section \<open>Messages\<close>

datatype message_class = mc_human | mc_system | mc_assistant | mc_chunk | mc_tool

record tool_call =
  tc_id :: "string option"
  tc_name :: string
  tc_args :: json

text \<open>
  \<open>cm_call\<close> is the call a tool message answers, \<open>cm_raw_args\<close> the argument texts a chunk has gathered
  so far, \<open>cm_invalid\<close> tells that the library could not read some call of the provider.
\<close>

record chat_message =
  cm_class :: message_class
  cm_id :: "string option"
  cm_content :: json
  cm_calls :: "tool_call list"
  cm_invalid :: bool
  cm_call :: string
  cm_raw_args :: "string option list"
  cm_metadata :: json
  cm_usage :: json
  cm_extra :: json

definition is_assistant :: "chat_message \<Rightarrow> bool" where
  "is_assistant m \<longleftrightarrow> cm_class m \<in> {mc_assistant, mc_chunk}"

text \<open>\<^verbatim>\<open>isinstance\<close> of the message library, schema validation and the parser of JSON texts.\<close>

record chat_library =
  cl_join :: "chat_message \<Rightarrow> chat_message \<Rightarrow> chat_message"
  cl_chunk :: "chat_message \<Rightarrow> chat_message"
  cl_whole :: "chat_message \<Rightarrow> chat_message"
  cl_loads :: "string \<Rightarrow> json option"
  cl_valid :: "json \<Rightarrow> json \<Rightarrow> bool"

section \<open>Histories\<close>

fun register_calls ::
  "tool_call list \<Rightarrow> string set \<Rightarrow> string set \<Rightarrow> err + string set \<times> string set" where
  "register_calls [] pending seen = Inr (pending, seen)"
| "register_calls (c # cs) pending seen =
     (case tc_id c of
        None \<Rightarrow> Inl (GwErr ''invalid_history'' False)
      | Some i \<Rightarrow>
          if i = '''' \<or> i \<in> seen then Inl (GwErr ''invalid_history'' False)
          else register_calls cs (insert i pending) (insert i seen))"

fun walk_history :: "chat_message list \<Rightarrow> string set \<Rightarrow> string set \<Rightarrow> err + string set" where
  "walk_history [] pending seen = Inr pending"
| "walk_history (m # ms) pending seen =
     (if cm_class m = mc_tool then
        (if cm_call m \<notin> pending then Inl (GwErr ''invalid_history'' False)
         else walk_history ms (pending - {cm_call m}) seen)
      else if pending \<noteq> {} then Inl (GwErr ''invalid_history'' False)
      else if is_assistant m then
        sum_bind (register_calls (cm_calls m) pending seen) (\<lambda>ps. walk_history ms (fst ps) (snd ps))
      else walk_history ms pending seen)"

definition validate_history :: "chat_message list \<Rightarrow> bool \<Rightarrow> err + string set" where
  "validate_history messages allow_pending =
     sum_bind (walk_history messages {} {}) (\<lambda>pending.
     if pending \<noteq> {} \<and> \<not> allow_pending then Inl (GwErr ''invalid_history'' False) else Inr pending)"

section \<open>Responses\<close>

record usage =
  us_input :: "int option"
  us_output :: "int option"
  us_total :: "int option"
  us_source :: string
  us_cost :: "rat option"

definition no_usage :: usage where
  "no_usage = \<lparr>us_input = None, us_output = None, us_total = None, us_source = ''unknown'', us_cost = None\<rparr>"

record turn =
  tu_message :: chat_message
  tu_usage :: usage
  tu_metadata :: json

definition finish_reason :: "json \<Rightarrow> json" where
  "finish_reason metadata = jor (jget ''finish_reason'' metadata) (jget ''stop_reason'' metadata)"

definition truncation :: "json \<Rightarrow> bool" where
  "truncation metadata \<longleftrightarrow>
     finish_reason metadata \<in> {JStr ''length'', JStr ''max_tokens'', JStr ''content_filter''}"

fun check_calls ::
  "chat_library \<Rightarrow> (string \<times> json) list option \<Rightarrow> tool_call list \<Rightarrow> string set \<Rightarrow> err + unit" where
  "check_calls lib schemas [] seen = Inr ()"
| "check_calls lib schemas (c # cs) seen =
     (case tc_id c of
        None \<Rightarrow> Inl (GwErr ''invalid_tool_id'' False)
      | Some i \<Rightarrow>
          if i = '''' \<or> i \<in> seen then Inl (GwErr ''invalid_tool_id'' False)
          else if \<not> (case tc_args c of JObj kvs \<Rightarrow> True | _ \<Rightarrow> False)
          then Inl (GwErr ''invalid_tool_arguments'' False)
          else
            sum_bind
              (case schemas of
                 None \<Rightarrow> Inr ()
               | Some known \<Rightarrow>
                   (case map_of known (tc_name c) of
                      None \<Rightarrow> Inl (GwErr ''unknown_tool'' False)
                    | Some schema \<Rightarrow>
                        if cl_valid lib schema (tc_args c) then Inr ()
                        else Inl (GwErr ''invalid_tool_arguments'' False)))
              (\<lambda>_. check_calls lib schemas cs (insert i seen)))"

definition usage_of :: "json \<Rightarrow> err + usage" where
  "usage_of metadata =
     (if jtruthy metadata then
        sum_bind (valid_optional valid_int (jget ''input_tokens'' metadata)) (\<lambda>input.
        sum_bind (valid_optional valid_int (jget ''output_tokens'' metadata)) (\<lambda>out.
        sum_bind (valid_optional valid_int (jget ''total_tokens'' metadata)) (\<lambda>total.
        Inr \<lparr>us_input = input, us_output = out, us_total = total, us_source = ''provider'', us_cost = None\<rparr>)))
      else Inr no_usage)"

text \<open>A message without an identity gets a new one.\<close>

definition with_id :: "chat_message \<Rightarrow> chat_message store" where
  "with_id m =
     (if text_given (cm_id m) then ret m else bnd new_id (\<lambda>i. ret (m\<lparr>cm_id := Some i\<rparr>)))"

definition validate_response ::
  "chat_library \<Rightarrow> chat_message \<Rightarrow> (string \<times> json) list option \<Rightarrow> turn store" where
  "validate_response lib m schemas =
     andthen (raise_if (cm_class m \<noteq> mc_assistant) (GwErr ''invalid_response'' False))
     (andthen (raise_if (truncation (cm_metadata m)) (GwErr ''truncated_response'' False))
     (andthen (raise_if (cm_invalid m) (GwErr ''invalid_tool_arguments'' False))
     (bnd (lift (check_calls lib schemas (cm_calls m) {})) (\<lambda>_.
      bnd (with_id m) (\<lambda>m'.
      bnd (lift (usage_of (cm_usage m'))) (\<lambda>u.
      ret \<lparr>tu_message = m', tu_usage = u, tu_metadata = cm_metadata m'\<rparr>))))))"

section \<open>Streams\<close>

record assembler =
  sa_attempt :: string
  sa_chunk :: "chat_message option"
  sa_finished :: bool

definition new_assembler :: "string \<Rightarrow> assembler" where
  "new_assembler attempt = \<lparr>sa_attempt = attempt, sa_chunk = None, sa_finished = False\<rparr>"

definition as_chunk :: "chat_library \<Rightarrow> chat_message \<Rightarrow> chat_message" where
  "as_chunk lib m = (if cm_class m = mc_assistant then cl_chunk lib m else m)"

definition joined :: "chat_library \<Rightarrow> chat_message \<Rightarrow> chat_message option \<Rightarrow> chat_message option" where
  "joined lib m got = Some (case got of None \<Rightarrow> as_chunk lib m | Some p \<Rightarrow> cl_join lib p (as_chunk lib m))"

definition assembler_push :: "chat_library \<Rightarrow> assembler \<Rightarrow> string \<Rightarrow> chat_message \<Rightarrow> err + assembler" where
  "assembler_push lib sa attempt m =
     (if attempt \<noteq> sa_attempt sa \<or> sa_finished sa then Inl (GwErr ''stream_state'' False)
      else Inr (sa\<lparr>sa_chunk := joined lib m (sa_chunk sa)\<rparr>))"

text \<open>The gathered argument texts must be whole JSON objects as they are, without any repair.\<close>

definition check_raw_args :: "chat_library \<Rightarrow> string option \<Rightarrow> err + unit" where
  "check_raw_args lib raw =
     (case cl_loads lib (case raw of None \<Rightarrow> '''' | Some s \<Rightarrow> s) of
        Some (JObj kvs) \<Rightarrow> Inr ()
      | _ \<Rightarrow> Inl (GwErr ''invalid_tool_arguments'' False))"

text \<open>Finishing marks the assembler, also when it raises: the assembler it leaves, and what it does.\<close>

definition assembler_finish ::
  "chat_library \<Rightarrow> assembler \<Rightarrow> bool \<Rightarrow> (string \<times> json) list option \<Rightarrow> assembler \<times> turn store" where
  "assembler_finish lib sa over schemas =
     (sa\<lparr>sa_finished := True\<rparr>,
      case (over, sa_chunk sa) of
        (True, Some c) \<Rightarrow>
          andthen (raise_if (truncation (cm_metadata c)) (GwErr ''truncated_response'' False))
          (andthen (foreach (cm_raw_args c) (\<lambda>raw. lift (check_raw_args lib raw)))
          (validate_response lib (cl_whole lib c) schemas))
      | _ \<Rightarrow> raise (GwErr ''incomplete_stream'' False))"

section \<open>Switching models\<close>

definition opaque_keys :: "string list" where
  "opaque_keys = [''signature'', ''thinking'', ''reasoning_content'', ''encrypted_content'', ''reasoning'']"

definition opaque_part :: "json \<Rightarrow> bool" where
  "opaque_part part =
     (case part of
        JObj kvs \<Rightarrow>
          jget ''type'' part \<in> {JStr ''thinking'', JStr ''redacted_thinking'', JStr ''reasoning''} \<or>
          set opaque_keys \<inter> fst ` set kvs \<noteq> {}
      | _ \<Rightarrow> False)"

definition opaque_message :: "chat_message \<Rightarrow> bool" where
  "opaque_message m \<longleftrightarrow>
     set opaque_keys \<inter> set (jkeys (cm_extra m)) \<noteq> {} \<or>
     (case cm_content m of JList parts \<Rightarrow> list_ex opaque_part parts | _ \<Rightarrow> False)"

definition check_model_switch :: "chat_message list \<Rightarrow> model_profile \<Rightarrow> model_profile \<Rightarrow> err + unit" where
  "check_model_switch messages previous target =
     sum_bind (validate_history messages False) (\<lambda>_.
     if profile_ref previous \<noteq> profile_ref target \<and>
        jget ''portable'' (mp_continuation previous) = JBool False
     then Inl (GwErr ''nonportable_history'' False)
     else if profile_ref previous \<noteq> profile_ref target \<and> list_ex opaque_message messages
     then Inl (GwErr ''nonportable_history'' False)
     else Inr ())"

section \<open>Well-paired histories\<close>

definition call_ids :: "chat_message \<Rightarrow> string set" where
  "call_ids m = {i. \<exists>c\<in>set (cm_calls m). tc_id c = Some i}"

definition fresh_calls :: "string set \<Rightarrow> tool_call list \<Rightarrow> bool" where
  "fresh_calls seen cs \<longleftrightarrow> distinct (map tc_id cs) \<and>
     (\<forall>c\<in>set cs. \<exists>i. tc_id c = Some i \<and> i \<noteq> '''' \<and> i \<notin> seen)"

text \<open>
  The reference: a history is a sequence of plain messages and of assistant messages, each followed by
  exactly one result for each of its calls, in some order; call identities are never used twice.
\<close>

inductive paired :: "string set \<Rightarrow> chat_message list \<Rightarrow> bool" where
  paired_end: "paired seen []"
| paired_plain: "cm_class m \<noteq> mc_tool \<Longrightarrow> \<not> is_assistant m \<Longrightarrow> paired seen ms \<Longrightarrow> paired seen (m # ms)"
| paired_calls: "is_assistant m \<Longrightarrow> fresh_calls seen (cm_calls m) \<Longrightarrow>
    (\<forall>r\<in>set rs. cm_class r = mc_tool) \<Longrightarrow> distinct (map cm_call rs) \<Longrightarrow> set (map cm_call rs) = call_ids m \<Longrightarrow>
    paired (seen \<union> call_ids m) ms \<Longrightarrow> paired seen (m # rs @ ms)"

lemma assistant_not_tool: "is_assistant m \<Longrightarrow> cm_class m \<noteq> mc_tool"
  by (auto simp: is_assistant_def)

lemma register_calls_iff:
  "register_calls cs pending seen = Inr (p, s) \<longleftrightarrow>
     fresh_calls seen cs \<and> p = pending \<union> {i. \<exists>c\<in>set cs. tc_id c = Some i} \<and>
     s = seen \<union> {i. \<exists>c\<in>set cs. tc_id c = Some i}"
proof (induction cs arbitrary: pending seen)
  case Nil
  then show ?case by (auto simp: fresh_calls_def)
next
  case (Cons c cs)
  show ?case
  proof (cases "tc_id c")
    case None
    then show ?thesis by (simp add: fresh_calls_def)
  next
    case (Some i)
    have "fresh_calls seen (c # cs) \<longleftrightarrow> i \<noteq> '''' \<and> i \<notin> seen \<and> fresh_calls (insert i seen) cs"
      using Some by (auto simp: fresh_calls_def image_iff)
        (metis option.inject)+
    with Some Cons.IH show ?thesis by auto
  qed
qed

lemma walk_paired:
  assumes "walk_history ms pending seen = Inr {}"
  shows "\<exists>rs rest. ms = rs @ rest \<and> (\<forall>r\<in>set rs. cm_class r = mc_tool) \<and> distinct (map cm_call rs) \<and>
    set (map cm_call rs) = pending \<and> paired seen rest"
  using assms
proof (induction ms pending seen rule: walk_history.induct)
  case (1 pending seen)
  then show ?case using paired_end by auto
next
  case (2 m ms pending seen)
  show ?case
  proof (cases "cm_class m = mc_tool")
    case True
    with 2 obtain rs rest where rs: "ms = rs @ rest" "\<forall>r\<in>set rs. cm_class r = mc_tool" "distinct (map cm_call rs)"
      "set (map cm_call rs) = pending - {cm_call m}" "paired seen rest" and m: "cm_call m \<in> pending"
      by (auto split: if_splits)
    then have "set (map cm_call (m # rs)) = pending" "distinct (map cm_call (m # rs))" by auto
    with rs True show ?thesis by (intro exI [of _ "m # rs"] exI [of _ rest]) auto
  next
    case no: False
    with 2(4) have pend: "pending = {}" by (auto split: if_splits)
    show ?thesis
    proof (cases "is_assistant m")
      case True
      with no 2(4) pend obtain p s where reg: "register_calls (cm_calls m) {} seen = Inr (p, s)"
        and walk: "walk_history ms p s = Inr {}" by (auto simp: sum_bind_Inr_iff split: if_splits)
      have "\<not> pending \<noteq> {}" using pend by simp
      from 2(2) [OF no this True, of "(p, s)"] walk obtain rs rest where
        rs: "ms = rs @ rest" "\<forall>r\<in>set rs. cm_class r = mc_tool" "distinct (map cm_call rs)"
          "set (map cm_call rs) = p" "paired s rest" by auto
      from reg have "fresh_calls seen (cm_calls m)" "p = call_ids m" "s = seen \<union> call_ids m"
        by (simp_all add: register_calls_iff call_ids_def)
      with rs paired_calls [OF True, of seen rs rest] have "paired seen (m # ms)" by simp
      with pend show ?thesis by (intro exI [of _ "[]"] exI [of _ "m # ms"]) simp
    next
      case False
      have "\<not> pending \<noteq> {}" and "walk_history ms pending seen = Inr {}" using 2(4) no False pend by simp_all
      from 2(3) [OF no this(1) False this(2)] pend have "paired seen ms" by auto
      with paired_plain no False pend show ?thesis by (intro exI [of _ "[]"] exI [of _ "m # ms"]) simp
    qed
  qed
qed

lemma walk_results:
  "(\<forall>r\<in>set rs. cm_class r = mc_tool) \<Longrightarrow> distinct (map cm_call rs) \<Longrightarrow> set (map cm_call rs) \<subseteq> pending \<Longrightarrow>
   walk_history (rs @ ms) pending seen = walk_history ms (pending - set (map cm_call rs)) seen"
proof (induction rs arbitrary: pending)
  case (Cons r rs)
  then have sub: "set (map cm_call rs) \<subseteq> pending - {cm_call r}" by (auto simp: image_iff)
  have "pending - {cm_call r} - set (map cm_call rs) = pending - set (map cm_call (r # rs))" by auto
  with Cons.IH [OF _ _ sub] Cons.prems show ?case by simp
qed simp

definition used_ids :: "chat_message list \<Rightarrow> string set" where
  "used_ids ms = {i. \<exists>m\<in>set ms. is_assistant m \<and> i \<in> call_ids m}"

lemma paired_walk:
  "paired seen ms \<Longrightarrow> walk_history (ms @ post) {} seen = walk_history post {} (seen \<union> used_ids ms)"
proof (induction rule: paired.induct)
  case (paired_end seen)
  then show ?case by (simp add: used_ids_def)
next
  case (paired_plain m seen ms)
  then have "used_ids (m # ms) = used_ids ms" by (auto simp: used_ids_def)
  with paired_plain show ?case by simp
next
  case (paired_calls m seen rs ms)
  from \<open>fresh_calls seen (cm_calls m)\<close> have "register_calls (cm_calls m) {} seen = Inr (call_ids m, seen \<union> call_ids m)"
    by (simp add: register_calls_iff call_ids_def)
  then have "walk_history ((m # rs @ ms) @ post) {} seen = walk_history (ms @ post) {} (seen \<union> call_ids m)"
    using paired_calls assistant_not_tool by (simp add: walk_results)
  moreover have "used_ids (m # rs @ ms) = call_ids m \<union> used_ids ms"
    using paired_calls by (auto simp: used_ids_def is_assistant_def)
  ultimately show ?case using paired_calls.IH by (simp add: Un_assoc)
qed

text \<open>
  C25: the gateway accepts a history exactly when it is well paired: every assistant message that calls
  tools is followed by exactly one result per call before anything else, results answer only such
  calls, and no call identity is empty or used twice.
\<close>

theorem history_paired: "validate_history ms False = Inr S \<longleftrightarrow> S = {} \<and> paired {} ms"
proof
  assume "validate_history ms False = Inr S"
  then have S: "S = {}" and walk: "walk_history ms {} {} = Inr {}"
    by (auto simp: validate_history_def sum_bind_Inr_iff split: if_splits)
  from walk_paired [OF walk] obtain rs rest where "ms = rs @ rest" "set (map cm_call rs) = {}" "paired {} rest"
    by blast
  with S show "S = {} \<and> paired {} ms" by simp
next
  assume "S = {} \<and> paired {} ms"
  with paired_walk [of "{}" ms "[]"] show "validate_history ms False = Inr S"
    by (simp add: validate_history_def)
qed

section \<open>Accepted responses\<close>

definition acceptable :: "chat_library \<Rightarrow> (string \<times> json) list option \<Rightarrow> chat_message \<Rightarrow> bool" where
  "acceptable lib schemas m \<longleftrightarrow>
     cm_class m = mc_assistant \<and> \<not> truncation (cm_metadata m) \<and> \<not> cm_invalid m \<and> fresh_calls {} (cm_calls m) \<and>
     (\<forall>c\<in>set (cm_calls m). (\<exists>kvs. tc_args c = JObj kvs) \<and>
        (\<forall>known. schemas = Some known \<longrightarrow>
           (\<exists>schema. map_of known (tc_name c) = Some schema \<and> cl_valid lib schema (tc_args c))))"

lemma check_calls_iff:
  "check_calls lib schemas cs seen = Inr () \<longleftrightarrow> fresh_calls seen cs \<and>
     (\<forall>c\<in>set cs. (\<exists>kvs. tc_args c = JObj kvs) \<and>
        (\<forall>known. schemas = Some known \<longrightarrow>
           (\<exists>schema. map_of known (tc_name c) = Some schema \<and> cl_valid lib schema (tc_args c))))"
proof (induction cs arbitrary: seen)
  case Nil
  then show ?case by (simp add: fresh_calls_def)
next
  case (Cons c cs)
  show ?case
  proof (cases "tc_id c")
    case None
    then show ?thesis by (simp add: fresh_calls_def)
  next
    case (Some i)
    have "fresh_calls seen (c # cs) \<longleftrightarrow> i \<noteq> '''' \<and> i \<notin> seen \<and> fresh_calls (insert i seen) cs"
      using Some by (auto simp: fresh_calls_def image_iff)
        (metis option.inject)+
    with Some Cons.IH show ?thesis
      by (cases "tc_args c"; cases schemas) (auto simp: sum_bind_Inr_iff split: option.splits)
  qed
qed

lemma with_id_Inr:
  "with_id m w = (Inr m', v) \<Longrightarrow> text_given (cm_id m) \<and> m' = m \<or> (\<exists>i. m' = m\<lparr>cm_id := Some i\<rparr>)"
  by (auto simp: with_id_def new_id_def split: if_splits)

lemma validate_response_Inr:
  assumes "validate_response lib m schemas w = (Inr t, v)"
  shows "acceptable lib schemas m \<and> (\<exists>i. tu_message t = m\<lparr>cm_id := i\<rparr>) \<and> usage_of (cm_usage m) = Inr (tu_usage t)"
  using assms
  by (auto simp: validate_response_def act_iffs lift_iffs check_calls_iff acceptable_def dest!: with_id_Inr)
    (metis chat_message.surjective chat_message.update_convs(2))+

lemma validate_response_accepts:
  assumes "acceptable lib schemas m" and "usage_of (cm_usage m) = Inr u"
  shows "\<exists>t. fst (validate_response lib m schemas w) = Inr t"
proof -
  have "check_calls lib schemas (cm_calls m) {} = Inr ()"
    using assms(1) by (simp add: check_calls_iff acceptable_def)
  then show ?thesis
    using assms by (simp add: validate_response_def acceptable_def bnd_def andthen_def with_id_def new_id_def)
qed

text \<open>
  What a model may answer. A response is accepted exactly when it is a whole assistant message that
  was not cut off, whose calls the provider formed well, each with an identity of its own, with an object
  as arguments, and, when a catalog is bound, with a tool of the catalog and arguments its schema allows;
  and its usage report must be readable. The turn is the response itself, up to its identity.
\<close>

theorem response_accepted:
  "(\<exists>t v. validate_response lib m schemas w = (Inr t, v) \<and> (\<exists>i. tu_message t = m\<lparr>cm_id := i\<rparr>)) \<longleftrightarrow>
     acceptable lib schemas m \<and> (\<exists>u. usage_of (cm_usage m) = Inr u)"
proof
  assume "\<exists>t v. validate_response lib m schemas w = (Inr t, v) \<and> (\<exists>i. tu_message t = m\<lparr>cm_id := i\<rparr>)"
  then show "acceptable lib schemas m \<and> (\<exists>u. usage_of (cm_usage m) = Inr u)"
    using validate_response_Inr by blast
next
  assume "acceptable lib schemas m \<and> (\<exists>u. usage_of (cm_usage m) = Inr u)"
  then obtain u where m: "acceptable lib schemas m" "usage_of (cm_usage m) = Inr u" by blast
  from validate_response_accepts [OF this] obtain t v where "validate_response lib m schemas w = (Inr t, v)"
    by (metis prod.collapse)
  with validate_response_Inr [OF this]
  show "\<exists>t v. validate_response lib m schemas w = (Inr t, v) \<and> (\<exists>i. tu_message t = m\<lparr>cm_id := i\<rparr>)" by blast
qed

lemma same_calls: "call_ids (m\<lparr>cm_id := i\<rparr>) = call_ids m"
  by (simp add: call_ids_def)

text \<open>
  C26: an accepted turn and the conversation. After a well-paired history, an accepted turn followed by
  the results of its calls is again a well-paired history exactly when the turn's call identities are
  new to the conversation. If one of them was used before, the gateway still accepts the turn, and every
  later call of a model on that conversation is refused, whatever follows.
\<close>

theorem turn_and_history:
  assumes h: "validate_history h False = Inr {}"
    and turn: "validate_response lib m schemas w = (Inr t, v)"
    and rs: "\<forall>r\<in>set rs. cm_class r = mc_tool" "distinct (map cm_call rs)" "set (map cm_call rs) = call_ids (tu_message t)"
  shows "(call_ids (tu_message t) \<inter> used_ids h = {} \<longrightarrow> validate_history (h @ tu_message t # rs) False = Inr {}) \<and>
    (call_ids (tu_message t) \<inter> used_ids h \<noteq> {} \<longrightarrow>
       (\<forall>rest b. \<exists>e. validate_history (h @ tu_message t # rest) b = Inl e))"
proof -
  let ?m = "tu_message t"
  from validate_response_Inr [OF turn] obtain i where m: "?m = m\<lparr>cm_id := i\<rparr>" and ok: "acceptable lib schemas m" by blast
  from m ok have assistant: "is_assistant ?m" and fresh: "fresh_calls {} (cm_calls ?m)"
    by (simp_all add: acceptable_def is_assistant_def)
  have paired: "paired {} h" using h history_paired by simp
  have walk: "walk_history (h @ ?m # rest) {} {} =
      sum_bind (register_calls (cm_calls ?m) {} (used_ids h)) (\<lambda>ps. walk_history rest (fst ps) (snd ps))" for rest
    using paired_walk [OF paired, of "?m # rest"] assistant assistant_not_tool [OF assistant] by simp
  have fresh_iff: "fresh_calls (used_ids h) (cm_calls ?m) \<longleftrightarrow> call_ids ?m \<inter> used_ids h = {}"
    using fresh by (fastforce simp: fresh_calls_def call_ids_def)
  show ?thesis
  proof (intro conjI impI allI)
    assume "call_ids ?m \<inter> used_ids h = {}"
    then have "register_calls (cm_calls ?m) {} (used_ids h) = Inr (call_ids ?m, used_ids h \<union> call_ids ?m)"
      using fresh_iff by (simp add: register_calls_iff call_ids_def)
    then have "walk_history (h @ ?m # rs) {} {} = Inr {}"
      using walk_results [of rs "call_ids ?m" "[]"] rs by (simp add: walk)
    then show "validate_history (h @ ?m # rs) False = Inr {}" by (simp add: validate_history_def)
  next
    fix rest b
    assume "call_ids ?m \<inter> used_ids h \<noteq> {}"
    then have "\<nexists>ps. register_calls (cm_calls ?m) {} (used_ids h) = Inr ps"
      using fresh_iff by (auto simp: register_calls_iff)
    then obtain e where "register_calls (cm_calls ?m) {} (used_ids h) = Inl e"
      by (cases "register_calls (cm_calls ?m) {} (used_ids h)") auto
    then show "\<exists>e. validate_history (h @ ?m # rest) b = Inl e"
      by (simp add: validate_history_def walk)
  qed
qed

section \<open>Streams\<close>

fun push_all :: "chat_library \<Rightarrow> assembler \<Rightarrow> (string \<times> chat_message) list \<Rightarrow> err + assembler" where
  "push_all lib sa [] = Inr sa"
| "push_all lib sa (c # cs) = sum_bind (assembler_push lib sa (fst c) (snd c)) (\<lambda>sa'. push_all lib sa' cs)"

lemma push_all_state:
  "push_all lib sa cs = Inr sa' \<Longrightarrow>
     sa_attempt sa' = sa_attempt sa \<and> sa_finished sa' = sa_finished sa \<and>
     (\<forall>c\<in>set cs. fst c = sa_attempt sa) \<and>
     sa_chunk sa' = fold (\<lambda>c. joined lib (snd c)) cs (sa_chunk sa)"
  by (induction cs arbitrary: sa) (auto simp: sum_bind_Inr_iff assembler_push_def split: if_splits)

lemma foreach_lift_Inr:
  "foreach xs (\<lambda>x. lift (f x)) w = (Inr (), v) \<longleftrightarrow> v = w \<and> (\<forall>x\<in>set xs. f x = Inr ())"
  by (induction xs) (auto simp: act_iffs lift_iffs)

lemma raw_args_iff: "check_raw_args lib raw = Inr () \<longleftrightarrow>
    (\<exists>kvs. cl_loads lib (case raw of None \<Rightarrow> '''' | Some s \<Rightarrow> s) = Some (JObj kvs))"
  by (auto simp: check_raw_args_def split: option.splits json.splits)

text \<open>
  C27: a stream yields a turn only when it is over. If an attempt's stream gives a turn, the stream had
  ended, nothing can be pushed any more, every chunk taken into it belonged to that attempt, the joined chunks were not cut off, the
  gathered texts of all arguments are whole JSON objects, and the joined message is acceptable.
\<close>

theorem stream_turn:
  assumes "push_all lib (new_assembler attempt) cs = Inr sa"
    and "snd (assembler_finish lib sa over schemas) w = (Inr t, v)"
  shows "over \<and> (\<forall>a m. \<exists>e. assembler_push lib (fst (assembler_finish lib sa over schemas)) a m = Inl e) \<and> (\<forall>c\<in>set cs. fst c = attempt) \<and>
    (\<exists>c. fold (\<lambda>c. joined lib (snd c)) cs None = Some c \<and>
       \<not> truncation (cm_metadata c) \<and>
       (\<forall>raw\<in>set (cm_raw_args c). \<exists>kvs. cl_loads lib (case raw of None \<Rightarrow> '''' | Some s \<Rightarrow> s) = Some (JObj kvs)) \<and>
       acceptable lib schemas (cl_whole lib c) \<and> (\<exists>i. tu_message t = (cl_whole lib c)\<lparr>cm_id := i\<rparr>))"
proof -
  from assms(2) obtain c where over: "over" and c: "sa_chunk sa = Some c"
    and run: "andthen (raise_if (truncation (cm_metadata c)) (GwErr ''truncated_response'' False))
          (andthen (foreach (cm_raw_args c) (\<lambda>raw. lift (check_raw_args lib raw)))
          (validate_response lib (cl_whole lib c) schemas)) w = (Inr t, v)"
    by (auto simp: assembler_finish_def split: bool.splits option.splits)
  from run have "\<not> truncation (cm_metadata c)" "\<forall>raw\<in>set (cm_raw_args c). check_raw_args lib raw = Inr ()"
    and resp: "validate_response lib (cl_whole lib c) schemas w = (Inr t, v)"
    by (auto simp: act_iffs foreach_lift_Inr)
  with validate_response_Inr [OF resp] push_all_state [OF assms(1)] over c show ?thesis
    by (intro conjI exI [of _ c]) (simp_all add: raw_args_iff new_assembler_def assembler_push_def assembler_finish_def)
qed

section \<open>A concrete conversation\<close>

definition sample_library :: chat_library where
  "sample_library = \<lparr>cl_join = (\<lambda>p c. c), cl_chunk = (\<lambda>m. m\<lparr>cm_class := mc_chunk\<rparr>),
     cl_whole = (\<lambda>m. m\<lparr>cm_class := mc_assistant\<rparr>),
     cl_loads = (\<lambda>s. if s = ''{}'' then Some (JObj []) else None), cl_valid = (\<lambda>schema args. True)\<rparr>"

definition sample_message :: "message_class \<Rightarrow> tool_call list \<Rightarrow> chat_message" where
  "sample_message c calls = \<lparr>cm_class = c, cm_id = Some ''m'', cm_content = JStr '''', cm_calls = calls,
     cm_invalid = False, cm_call = ''call'', cm_raw_args = [Some ''{}''],
     cm_metadata = JObj [(''finish_reason'', JStr ''stop'')], cm_usage = JNull, cm_extra = JObj []\<rparr>"

definition sample_call :: tool_call where
  "sample_call = \<lparr>tc_id = Some ''call'', tc_name = ''tool'', tc_args = JObj []\<rparr>"

definition sample_answer :: chat_message where
  "sample_answer = sample_message mc_assistant [sample_call]"

definition sample_catalog :: "(string \<times> json) list" where
  "sample_catalog = [(''tool'', JObj [])]"

lemma sample_acceptable: "acceptable sample_library (Some sample_catalog) sample_answer"
  by (simp add: acceptable_def sample_answer_def sample_message_def sample_call_def sample_library_def
      sample_catalog_def fresh_calls_def truncation_def finish_reason_def jor_def jget_def)

lemma sample_response:
  "validate_response sample_library sample_answer (Some sample_catalog) w =
     (Inr \<lparr>tu_message = sample_answer, tu_usage = no_usage, tu_metadata = cm_metadata sample_answer\<rparr>, w)"
  by (simp add: validate_response_def bnd_def andthen_def with_id_def sample_answer_def sample_message_def
      sample_call_def sample_library_def sample_catalog_def truncation_def finish_reason_def jor_def jget_def
      text_given_def usage_of_def)

lemma turn_and_history_witness:
  "validate_history [sample_message mc_human [], sample_answer, sample_message mc_tool []] False = Inr {} \<and>
   (\<forall>rest b. \<exists>e. validate_history ([sample_message mc_human [], sample_answer, sample_message mc_tool []] @
     sample_answer # rest) b = Inl e)"
proof -
  have ids: "call_ids sample_answer = {''call''}"
    by (simp add: call_ids_def sample_answer_def sample_message_def sample_call_def)
  have rs: "\<forall>r\<in>set [sample_message mc_tool []]. cm_class r = mc_tool"
    "distinct (map cm_call [sample_message mc_tool []])" "set (map cm_call [sample_message mc_tool []]) = call_ids sample_answer"
    by (simp_all add: ids) (simp_all add: sample_message_def)
  have first: "validate_history [sample_message mc_human []] False = Inr {}"
    by (simp add: validate_history_def sample_message_def is_assistant_def)
  have "used_ids [sample_message mc_human []] = {}"
    by (simp add: used_ids_def sample_message_def is_assistant_def)
  with turn_and_history [OF first sample_response, of "[sample_message mc_tool []]"] rs
  have second: "validate_history [sample_message mc_human [], sample_answer, sample_message mc_tool []] False = Inr {}"
    by simp
  have "is_assistant sample_answer" by (simp add: is_assistant_def sample_answer_def sample_message_def)
  then have "''call'' \<in> used_ids [sample_message mc_human [], sample_answer, sample_message mc_tool []]"
    using ids by (auto simp: used_ids_def)
  then have "call_ids sample_answer \<inter> used_ids [sample_message mc_human [], sample_answer, sample_message mc_tool []] \<noteq> {}"
    using ids by auto
  with turn_and_history [OF second sample_response, of "[sample_message mc_tool []]"] rs second show ?thesis
    by simp
qed

lemma stream_turn_witness:
  "\<exists>sa t. push_all sample_library (new_assembler ''a'') [(''a'', sample_message mc_chunk [sample_call])] = Inr sa \<and>
     snd (assembler_finish sample_library sa True (Some sample_catalog)) fresh_store = (Inr t, fresh_store) \<and>
     acceptable sample_library (Some sample_catalog) (cl_whole sample_library (sample_message mc_chunk [sample_call]))"
proof -
  define sa where "sa = (new_assembler ''a'')\<lparr>sa_chunk := Some (sample_message mc_chunk [sample_call])\<rparr>"
  have push: "push_all sample_library (new_assembler ''a'') [(''a'', sample_message mc_chunk [sample_call])] = Inr sa"
    by (simp add: assembler_push_def new_assembler_def joined_def as_chunk_def sa_def sample_message_def)
  have whole: "cl_whole sample_library (sample_message mc_chunk [sample_call]) = sample_answer"
    by (simp add: sample_library_def sample_message_def sample_answer_def)
  obtain t where "snd (assembler_finish sample_library sa True (Some sample_catalog)) fresh_store = (Inr t, fresh_store)"
    using sample_response [of fresh_store]
    by (simp add: assembler_finish_def sa_def whole)
      (simp add: sample_message_def truncation_def finish_reason_def jor_def jget_def check_raw_args_def
        sample_library_def andthen_def bnd_def)
  with stream_turn [OF push this] push show ?thesis by (auto simp: joined_def as_chunk_def sample_message_def)
qed

end
