(* ===== verification/Artifact_Store.thy ===== *)
theory Artifact_Store
  imports Store_Misc
begin

text \<open>
  The content-addressed artifact store (\<^verbatim>\<open>harness/artifacts/store.py\<close>) and the checks on images
  (\<^verbatim>\<open>harness/artifacts/images.py\<close>). The object files are a second part of the state, a list of paths
  below the store's root with their bytes; the temporary file of an upload, which is always removed, is
  left out. The digest, the decoding of images and the resolution of paths are parameters.
\<close>

section \<open>Images\<close>

text \<open>What the image library makes of the bytes: nothing, or format, size, frames and a sound body.\<close>

record decoded_image =
  im_format :: string
  im_width :: int
  im_height :: int
  im_frames :: nat
  im_sound :: bool

definition max_image_bytes :: nat where "max_image_bytes = 10 * 1024 * 1024"

definition max_image_pixels :: int where "max_image_pixels = 16000000"

definition image_mimes :: "(string \<times> string) list" where
  "image_mimes = [(''PNG'', ''image/png''), (''JPEG'', ''image/jpeg''), (''WEBP'', ''image/webp'')]"

definition validate_image ::
  "(string \<Rightarrow> decoded_image option) \<Rightarrow> string \<Rightarrow> string \<Rightarrow> err + int \<times> int" where
  "validate_image decode raw mime =
     (if max_image_bytes < length raw then Inl (HErr ''IMAGE_TOO_LARGE'' 413)
      else if mime \<notin> snd ` set image_mimes then Inl (HErr ''IMAGE_TYPE'' 422)
      else
        (case decode raw of
           None \<Rightarrow> Inl (HErr ''IMAGE_INVALID'' 422)
         | Some im \<Rightarrow>
             if map_of image_mimes (im_format im) \<noteq> Some mime then Inl (HErr ''IMAGE_MIME'' 422)
             else if max_image_pixels < im_width im * im_height im \<or> im_frames im \<noteq> 1
             then Inl (HErr ''IMAGE_DIMENSIONS'' 422)
             else if \<not> im_sound im then Inl (HErr ''IMAGE_INVALID'' 422)
             else Inr (im_width im, im_height im)))"

section \<open>The store of objects\<close>

type_synonym disk = "(string \<times> string) list"

type_synonym 'a disk_act = "(world \<times> disk, 'a) act"

record artifact_host =
  ah_sha :: "string \<Rightarrow> string"
  ah_decode :: "string \<Rightarrow> decoded_image option"
  ah_inside :: "string \<Rightarrow> bool"
  ah_base_name :: "string \<Rightarrow> string"
  ah_max :: nat

text \<open>An action of the database leaves the object files alone.\<close>

definition on_store :: "'a store \<Rightarrow> 'a disk_act" where
  "on_store m s = (case m (fst s) of (r, w) \<Rightarrow> (r, (w, snd s)))"

definition artifact_ref_of :: "artifact_row \<Rightarrow> artifact_ref" where
  "artifact_ref_of row =
     \<lparr>ar_id = af_id row, ar_hash = af_hash row, ar_mime = af_mime row, ar_size = af_size row,
      ar_owner = af_owner row, ar_workspace = af_workspace row, ar_provenance = af_provenance row\<rparr>"

definition image_mime :: "string \<Rightarrow> bool" where
  "image_mime mime \<longleftrightarrow> take 6 mime = ''image/''"

fun take_chunks :: "artifact_host \<Rightarrow> string \<Rightarrow> nat \<Rightarrow> string list \<Rightarrow> err + nat" where
  "take_chunks h mime n [] = Inr n"
| "take_chunks h mime n (c # cs) =
     (if ah_max h < n + length c then Inl (HErr ''ARTIFACT_TOO_LARGE'' 413)
      else if image_mime mime \<and> max_image_bytes < n + length c then Inl (HErr ''IMAGE_TOO_LARGE'' 413)
      else take_chunks h mime (n + length c) cs)"

definition verify_object :: "artifact_host \<Rightarrow> string \<Rightarrow> string \<Rightarrow> int \<Rightarrow> unit disk_act" where
  "verify_object h key digest many =
     bnd (gets (\<lambda>s. map_of (snd s) key)) (\<lambda>found.
     case found of
       None \<Rightarrow> raise (HErr ''ARTIFACT_CORRUPT'' 503)
     | Some bytes \<Rightarrow>
         andthen (raise_if (int (length bytes) \<noteq> many) (HErr ''ARTIFACT_CORRUPT'' 503))
         (raise_if (ah_sha h bytes \<noteq> digest) (HErr ''ARTIFACT_CORRUPT'' 503)))"

definition object_key :: "artifact_host \<Rightarrow> string \<Rightarrow> string \<Rightarrow> string \<Rightarrow> string" where
  "object_key h owner workspace_id hashed =
     ''objects/'' @ ah_sha h (owner @ '':'' @ workspace_id) @ ''/'' @ take 2 hashed @ ''/'' @ hashed"

definition put_stream ::
  "artifact_host \<Rightarrow> string \<Rightarrow> string \<Rightarrow> string list \<Rightarrow> string \<Rightarrow> string \<Rightarrow> string \<Rightarrow> artifact_ref disk_act" where
  "put_stream h owner workspace_id chunks mime provenance display_name =
     bnd (on_store (store_workspace workspace_id (Some owner))) (\<lambda>_.
     bnd (lift (take_chunks h mime 0 chunks)) (\<lambda>many.
     bnd (ret (concat chunks)) (\<lambda>bytes.
     bnd (ret (ah_sha h bytes)) (\<lambda>hashed.
     bnd (if image_mime mime then lift (map_sum id (\<lambda>_. ()) (validate_image (ah_decode h) bytes mime))
          else ret ()) (\<lambda>_.
     bnd (ret (object_key h owner workspace_id hashed)) (\<lambda>key.
     bnd (gets (\<lambda>s. map_of (snd s) key \<noteq> None)) (\<lambda>exists.
     andthen (whenever (\<not> exists) (modify (\<lambda>s. (fst s, snd s @ [(key, bytes)]))))
     (andthen (verify_object h key hashed (int many))
     (bnd (on_store new_id) (\<lambda>identity.
      bnd (on_store utc_now) (\<lambda>now.
      bnd (ret \<lparr>af_id = identity, af_owner = owner, af_workspace = workspace_id, af_hash = hashed,
                af_mime = mime, af_size = int many, af_provenance = provenance, af_storage = key,
                af_name = ah_base_name h display_name, af_created = now\<rparr>) (\<lambda>row.
      andthen (on_store (add_artifact row))
      (ret (artifact_ref_of row))))))))))))))"

definition put_bytes ::
  "artifact_host \<Rightarrow> string \<Rightarrow> string \<Rightarrow> string \<Rightarrow> string \<Rightarrow> string \<Rightarrow> string \<Rightarrow> artifact_ref disk_act" where
  "put_bytes h owner workspace_id bytes = put_stream h owner workspace_id [bytes]"

definition artifact_writer ::
  "artifact_host \<Rightarrow> execution_context \<Rightarrow> string \<Rightarrow> string \<Rightarrow> string \<Rightarrow> artifact_ref disk_act" where
  "artifact_writer h ctx bytes mime provenance =
     bnd (put_bytes h (c_owner ctx) (c_workspace ctx) bytes mime provenance ''artifact'') (\<lambda>ref.
     andthen (on_store (reference_artifact (ar_id ref) ''run'' (c_run ctx))) (ret ref))"

text \<open>The object's path, with its bytes.\<close>

definition artifact_path :: "artifact_host \<Rightarrow> string \<Rightarrow> string \<Rightarrow> string disk_act" where
  "artifact_path h identity owner =
     bnd (on_store (store_artifact identity (Some owner))) (\<lambda>row.
     andthen (raise_if (\<not> ah_inside h (af_storage row)) (HErr ''ARTIFACT_CORRUPT'' 503))
     (andthen (verify_object h (af_storage row) (af_hash row) (af_size row))
     (ret (af_storage row))))"

definition read_range :: "artifact_host \<Rightarrow> string \<Rightarrow> string \<Rightarrow> int \<Rightarrow> int \<Rightarrow> string disk_act" where
  "read_range h identity owner offset count =
     andthen (raise_if (offset < 0 \<or> \<not> (0 \<le> count \<and> count \<le> int (ah_max h))) (HErr ''INVALID_RANGE'' 422))
     (bnd (artifact_path h identity owner) (\<lambda>key.
      bnd (gets (\<lambda>s. case map_of (snd s) key of None \<Rightarrow> '''' | Some b \<Rightarrow> b)) (\<lambda>bytes.
      ret (take (nat count) (drop (nat offset) bytes)))))"

definition failure_of :: "artifact_host \<Rightarrow> artifact_row \<Rightarrow> (string \<times> string) list disk_act" where
  "failure_of h row s =
     (case artifact_path h (af_id row) (af_owner row) s of
        (Inr key, s') \<Rightarrow> (Inr [], s')
      | (Inl (HErr code status), s') \<Rightarrow> (Inr [(af_id row, code)], s')
      | (Inl e, s') \<Rightarrow> (Inl e, s'))"

definition artifact_integrity :: "artifact_host \<Rightarrow> (string \<times> string) list disk_act" where
  "artifact_integrity h =
     bnd (on_store (store_artifacts None)) (\<lambda>rows.
     bnd (collect rows (failure_of h)) (\<lambda>failures. ret (concat failures)))"

definition gc_preview :: "string list disk_act" where
  "gc_preview =
     bnd (on_store (store_artifacts None)) (\<lambda>rows.
     gets (\<lambda>s. filter (\<lambda>p. p \<notin> af_storage ` set rows) (map fst (snd s))))"

section \<open>Objects stay what they were\<close>

definition stored_soundly :: "artifact_host \<Rightarrow> disk \<Rightarrow> artifact_row \<Rightarrow> bool" where
  "stored_soundly h d row \<longleftrightarrow> (\<exists>bytes. map_of d (af_storage row) = Some bytes \<and>
     ah_sha h bytes = af_hash row \<and> int (length bytes) = af_size row)"

definition artifacts_ok :: "artifact_host \<Rightarrow> world \<times> disk \<Rightarrow> bool" where
  "artifacts_ok h s \<longleftrightarrow> distinct (map af_id (t_artifacts (fst s))) \<and>
     (\<forall>row\<in>set (t_artifacts (fst s)). stored_soundly h (snd s) row \<and> ah_inside h (af_storage row))"

lemma verify_object_iff:
  "verify_object h key digest many s = (Inr (), s') \<longleftrightarrow> s' = s \<and>
     (\<exists>bytes. map_of (snd s) key = Some bytes \<and> int (length bytes) = many \<and> ah_sha h bytes = digest)"
  by (auto simp: verify_object_def act_iffs split: option.splits)

lemma verify_object_same: "snd (verify_object h key digest many s) = s"
  by (auto simp: verify_object_def bnd_def andthen_def raise_if_def split: option.splits)

lemma store_workspace_same: "snd (store_workspace i o' w) = w"
  by (auto simp: store_workspace_def store_get_def bnd_def split: option.splits sum.splits prod.splits)

definition disk_grows :: "artifact_host \<Rightarrow> world \<times> disk \<Rightarrow> world \<times> disk \<Rightarrow> bool" where
  "disk_grows h s s' \<longleftrightarrow>
     (\<forall>k bytes. map_of (snd s) k = Some bytes \<longrightarrow> map_of (snd s') k = Some bytes) \<and>
     (\<exists>rows. t_artifacts (fst s') = t_artifacts (fst s) @ rows) \<and>
     (artifacts_ok h s \<longrightarrow> artifacts_ok h s')"

interpretation grow: history "disk_grows h" for h
  by unfold_locales (auto simp: disk_grows_def)

lemma on_store_eval: "on_store m (w, d) = (fst (m w), (snd (m w), d))"
  by (simp add: on_store_def split: prod.splits)

lemma artifacts_ok_frame:
  "t_artifacts w = t_artifacts (fst s) \<Longrightarrow> artifacts_ok h (w, snd s) = artifacts_ok h s"
  by (simp add: artifacts_ok_def)

text \<open>An action on the database that leaves the table of artifacts alone.\<close>

lemma grow_on_store:
  assumes "\<And>w. t_artifacts (snd (m w)) = t_artifacts w"
  shows "tri (disk_grows h) P (on_store m) (\<lambda>_ _. True)"
proof (rule triI)
  fix s r s' assume run: "on_store m s = (r, s')"
  obtain w d where s: "s = (w, d)" by (cases s)
  with run have "s' = (snd (m w), d)" by (simp add: on_store_eval)
  then show "disk_grows h s s' \<and> (\<forall>x. r = Inr x \<longrightarrow> True)"
    by (simp add: s disk_grows_def artifacts_ok_def assms)
qed

definition object_at :: "artifact_host \<Rightarrow> string \<Rightarrow> string \<Rightarrow> nat \<Rightarrow> world \<times> disk \<Rightarrow> bool" where
  "object_at h key digest n s \<longleftrightarrow>
     (\<exists>bytes. map_of (snd s) key = Some bytes \<and> length bytes = n \<and> ah_sha h bytes = digest)"

lemma object_at_grows: "disk_grows h s s' \<Longrightarrow> object_at h key digest n s \<Longrightarrow> object_at h key digest n s'"
  by (auto simp: disk_grows_def object_at_def)

definition readable :: "artifact_host \<Rightarrow> artifact_ref \<Rightarrow> string \<Rightarrow> nat \<Rightarrow> string \<Rightarrow> world \<times> disk \<Rightarrow> bool" where
  "readable h ref digest n owner s \<longleftrightarrow>
     (\<exists>row. row_of af_id (ar_id ref) (t_artifacts (fst s)) = Some row \<and> af_owner row = owner \<and>
        af_hash row = digest \<and> af_size row = int n \<and> ar_hash ref = digest \<and> ar_size ref = int n \<and>
        ah_inside h (af_storage row) \<and> object_at h (af_storage row) digest n s)"

lemma add_artifact_grows:
  assumes row: "af_size row = int n" "ah_inside h (af_storage row)"
  shows "tri (disk_grows h) (object_at h (af_storage row) (af_hash row) n)
     (andthen (on_store (add_artifact row)) (ret (artifact_ref_of row)))
     (\<lambda>ref. readable h ref (af_hash row) n (af_owner row))"
proof (rule triI)
  fix s r s'
  assume obj: "object_at h (af_storage row) (af_hash row) n s"
    and run: "andthen (on_store (add_artifact row)) (ret (artifact_ref_of row)) s = (r, s')"
  obtain w d where s: "s = (w, d)" by (cases s)
  show "disk_grows h s s' \<and> (\<forall>ref. r = Inr ref \<longrightarrow> readable h ref (af_hash row) n (af_owner row) s')"
  proof (cases "af_id row \<in> af_id ` set (t_artifacts w)")
    case True
    with run s have "s' = s" "\<exists>e. r = Inl e"
      by (auto simp: andthen_def bnd_def on_store_eval add_artifact_def insert_unique_def raise_if_def)
    then show ?thesis using grow.refl_history by auto
  next
    case False
    with run s have s': "s' = (w\<lparr>t_artifacts := t_artifacts w @ [row]\<rparr>, d)" and r: "r = Inr (artifact_ref_of row)"
      by (auto simp: andthen_def bnd_def on_store_eval add_artifact_def insert_unique_def raise_if_def)
    have "row_of af_id (af_id row) (t_artifacts w @ [row]) = Some row"
      using False by (simp add: row_of_append row_of_None_iff split: option.splits)
        (metis row_of_SomeD image_eqI)
    moreover have "stored_soundly h d row"
      using obj row by (auto simp: object_at_def stored_soundly_def s)
    ultimately show ?thesis
      using False obj row by (auto simp: s s' r disk_grows_def artifacts_ok_def readable_def artifact_ref_of_def object_at_def)
  qed
qed

lemma put_stream_grows:
  assumes inside: "\<And>hashed. ah_inside h (object_key h owner ws hashed)"
  shows "tri (disk_grows h) (\<lambda>_. True) (put_stream h owner ws chunks mime prov name)
    (\<lambda>ref. readable h ref (ah_sha h (concat chunks)) (length (concat chunks)) owner)"
proof -
  have many: "take_chunks h mime k cs = Inr n \<Longrightarrow> n = k + length (concat cs)" for k n cs
  proof (induction cs arbitrary: k)
    case (Cons c cs)
    from Cons.prems have "take_chunks h mime (k + length c) cs = Inr n" by (auto split: if_splits)
    from Cons.IH [OF this] show ?case by simp
  qed simp
  let ?bytes = "concat chunks" and ?n = "length (concat chunks)"
  let ?hashed = "ah_sha h ?bytes" let ?key = "object_key h owner ws ?hashed"
  have verify: "tri (disk_grows h) (\<lambda>_. True) (verify_object h ?key ?hashed (int ?n)) (\<lambda>_. object_at h ?key ?hashed ?n)"
    using verify_object_same grow.refl_history
    by (auto simp: tri_def) (auto simp: verify_object_iff object_at_def dest!: run_split)
  have keep: "tri (disk_grows h) (object_at h k g n) (on_store m) (\<lambda>_. object_at h k g n)"
    if "\<And>w. t_artifacts (snd (m w)) = t_artifacts w" for m :: "'c store" and k g n
    by (rule tri_conseq [OF tri_frame [OF grow_on_store [OF that] object_at_grows]]) simp_all
  have rest: "tri (disk_grows h) (object_at h ?key ?hashed ?n)
     (bnd (on_store new_id) (\<lambda>identity.
      bnd (on_store utc_now) (\<lambda>now.
      bnd (ret \<lparr>af_id = identity, af_owner = owner, af_workspace = ws, af_hash = ?hashed,
                af_mime = mime, af_size = int ?n, af_provenance = prov, af_storage = ?key,
                af_name = ah_base_name h name, af_created = now\<rparr>) (\<lambda>row.
      andthen (on_store (add_artifact row)) (ret (artifact_ref_of row))))))
     (\<lambda>ref. readable h ref ?hashed ?n owner)"
  proof (rule grow.tri_bnd [OF keep], simp add: new_id_def, rule grow.tri_bnd [OF keep], simp add: utc_now_def)
    fix identity now
    let ?row = "\<lparr>af_id = identity, af_owner = owner, af_workspace = ws, af_hash = ?hashed,
                af_mime = mime, af_size = int ?n, af_provenance = prov, af_storage = ?key,
                af_name = ah_base_name h name, af_created = now\<rparr>"
    from add_artifact_grows [of ?row ?n h] inside
    show "tri (disk_grows h) (object_at h ?key ?hashed ?n) (bnd (ret ?row) (\<lambda>row.
      andthen (on_store (add_artifact row)) (ret (artifact_ref_of row)))) (\<lambda>ref. readable h ref ?hashed ?n owner)"
      by (simp add: tri_def bnd_def)
  qed
  have ret_bnd: "bnd (ret x) (f :: _ \<Rightarrow> artifact_ref disk_act) = f x" for x f by (rule ext) simp
  have added: "tri (disk_grows h) (\<lambda>s. exists \<longleftrightarrow> map_of (snd s) ?key \<noteq> None)
      (whenever (\<not> exists) (modify (\<lambda>s. (fst s, snd s @ [(?key, ?bytes)])))) (\<lambda>_ _. True)" for exists
    by (auto simp: tri_def disk_grows_def whenever_def map_add_def artifacts_ok_def stored_soundly_def split: option.splits)
  have "keeps (disk_grows h) (if image_mime mime
      then lift (map_sum id (\<lambda>_. ()) (validate_image (ah_decode h) ?bytes mime)) else ret ())"
    by (intro grow.keeps_rules)
  then have image: "tri (disk_grows h) P (if image_mime mime
      then lift (map_sum id (\<lambda>_. ()) (validate_image (ah_decode h) ?bytes mime)) else ret ()) (\<lambda>_ _. True)" for P
    by (rule tri_pre) simp
  have look: "tri (disk_grows h) (\<lambda>_. True) (gets (\<lambda>s. map_of (snd s) ?key \<noteq> None))
      (\<lambda>exists s. exists \<longleftrightarrow> map_of (snd s) ?key \<noteq> None)"
    by (rule tri_pre [OF grow.tri_gets]) simp
  have chunks: "tri (disk_grows h) (\<lambda>_. True) (lift (take_chunks h mime 0 chunks)) (\<lambda>n _. n = ?n)"
    by (rule tri_pre [OF grow.tri_lift]) (auto dest: many)
  show ?thesis
    unfolding put_stream_def ret_bnd
  proof (rule grow.tri_bnd [OF grow_on_store], simp add: store_workspace_same, rule grow.tri_bnd [OF chunks])
    fix u and n :: nat
    show "tri (disk_grows h) (\<lambda>_. n = ?n)
      (bnd (if image_mime mime then lift (map_sum id (\<lambda>_. ()) (validate_image (ah_decode h) ?bytes mime)) else ret ())
        (\<lambda>_. bnd (gets (\<lambda>s. map_of (snd s) ?key \<noteq> None)) (\<lambda>exists.
          andthen (whenever (\<not> exists) (modify (\<lambda>s. (fst s, snd s @ [(?key, ?bytes)]))))
          (andthen (verify_object h ?key ?hashed (int n))
          (bnd (on_store new_id) (\<lambda>identity.
           bnd (on_store utc_now) (\<lambda>now.
           andthen (on_store (add_artifact \<lparr>af_id = identity, af_owner = owner, af_workspace = ws, af_hash = ?hashed,
                af_mime = mime, af_size = int n, af_provenance = prov, af_storage = ?key,
                af_name = ah_base_name h name, af_created = now\<rparr>)) (ret (artifact_ref_of \<lparr>af_id = identity, af_owner = owner, af_workspace = ws, af_hash = ?hashed,
                af_mime = mime, af_size = int n, af_provenance = prov, af_storage = ?key,
                af_name = ah_base_name h name, af_created = now\<rparr>)))))))))
      (\<lambda>ref. readable h ref ?hashed ?n owner)"
    proof (cases "n = ?n")
      case True
      show ?thesis
        unfolding True
        by (rule grow.tri_bnd [OF image], rule grow.tri_bnd [OF look], rule grow.tri_andthen [OF added],
            rule grow.tri_andthen [OF verify], rule rest [unfolded ret_bnd])
    qed (simp add: tri_def)
  qed
qed


text \<open>A sequence of uploads by any owners.\<close>

definition upload :: "artifact_host \<Rightarrow> string \<times> string \<times> string list \<times> string \<times> string \<times> string \<Rightarrow>
    world \<times> disk \<Rightarrow> world \<times> disk" where
  "upload h u s = (case u of (owner, ws, chunks, mime, prov, name) \<Rightarrow>
     snd (put_stream h owner ws chunks mime prov name s))"

lemma uploads_grow:
  assumes "\<And>owner ws hashed. ah_inside h (object_key h owner ws hashed)"
  shows "disk_grows h s (fold (upload h) us s)"
proof (induction us arbitrary: s)
  case Nil
  show ?case by (simp add: grow.refl_history)
next
  case (Cons u us)
  obtain owner ws chunks mime prov name where u: "u = (owner, ws, chunks, mime, prov, name)" by (cases u)
  obtain r s' where run: "put_stream h owner ws chunks mime prov name s = (r, s')"
    by (cases "put_stream h owner ws chunks mime prov name s")
  from triD(1) [OF put_stream_grows [OF assms] TrueI run] have "disk_grows h s (upload h u s)"
    by (simp add: upload_def u run)
  from grow.trans_history [OF this Cons.IH] show ?case by simp
qed

lemma integrity_silent:
  assumes "artifacts_ok h s" shows "artifact_integrity h s = (Inr [], s)"
proof -
  have row: "failure_of h row s = (Inr [], s)" if "row \<in> set (t_artifacts (fst s))" for row
  proof -
    have "row_of af_id (af_id row) (t_artifacts (fst s)) = Some row"
      using assms that by (intro row_of_unique) (simp_all add: artifacts_ok_def)
    then have "on_store (store_artifact (af_id row) (Some (af_owner row))) s = (Inr row, s)"
      by (cases s) (simp add: on_store_eval store_artifact_def)
    moreover have "verify_object h (af_storage row) (af_hash row) (af_size row) s = (Inr (), s)"
      using assms that by (auto simp: verify_object_iff artifacts_ok_def stored_soundly_def)
    ultimately show ?thesis
      using assms that by (simp add: failure_of_def artifact_path_def bnd_def andthen_def artifacts_ok_def)
  qed
  have "collect rows (failure_of h) s = (Inr (map (\<lambda>_. []) rows), s)"
    if "set rows \<subseteq> set (t_artifacts (fst s))" for rows
    using that row by (induction rows) (auto simp: bnd_def)
  then show ?thesis
    by (cases s) (simp add: artifact_integrity_def bnd_def on_store_eval store_artifacts_def)
qed

text \<open>
  C29: nothing stored is ever lost or changed by uploads. Over any sequence of uploads, successful or
  failed, every object keeps its bytes and every artifact its row; in a store whose artifacts are sound
  they stay sound, and the integrity check then reports nothing.
\<close>

theorem uploads_keep_objects:
  assumes "\<And>owner ws hashed. ah_inside h (object_key h owner ws hashed)" and "artifacts_ok h s"
  shows "artifact_integrity h (fold (upload h) us s) = (Inr [], fold (upload h) us s) \<and>
    (\<forall>k bytes. map_of (snd s) k = Some bytes \<longrightarrow> map_of (snd (fold (upload h) us s)) k = Some bytes) \<and>
    (\<exists>rows. t_artifacts (fst (fold (upload h) us s)) = t_artifacts (fst s) @ rows)"
  using uploads_grow [OF assms(1), of s us] assms(2) integrity_silent by (simp add: disk_grows_def)

section \<open>A concrete store\<close>

definition sample_artifact_host :: artifact_host where
  "sample_artifact_host = \<lparr>ah_sha = (\<lambda>s. s), ah_decode = (\<lambda>_. None), ah_inside = (\<lambda>_. True),
     ah_base_name = (\<lambda>s. s), ah_max = 100\<rparr>"

definition artifact_world :: "world \<times> disk" where
  "artifact_world = (fresh_store\<lparr>t_workspaces := [\<lparr>ws_id = ''ws'', ws_owner = ''owner'', ws_name = '''',
     ws_root = '''', ws_revision = 1, ws_policy = JNull, ws_created = 0\<rparr>]\<rparr>, [])"


lemma uploads_keep_objects_witness:
  "artifact_integrity sample_artifact_host (fold (upload sample_artifact_host)
     [(''owner'', ''ws'', [''ab''], ''text/plain'', ''up'', ''n'')] artifact_world) =
   (Inr [], fold (upload sample_artifact_host) [(''owner'', ''ws'', [''ab''], ''text/plain'', ''up'', ''n'')] artifact_world)"
proof -
  have "artifacts_ok sample_artifact_host artifact_world"
    by (simp add: artifacts_ok_def artifact_world_def fresh_store_def empty_world_def)
  moreover have "ah_inside sample_artifact_host k" for k by (simp add: sample_artifact_host_def)
  ultimately show ?thesis using uploads_keep_objects [of sample_artifact_host artifact_world] by blast
qed

end
