(* ===== verification/Model_Gateway.thy ===== *)
theory Model_Gateway
  imports Model_Protocol Model_Budget Artifact_Store
begin

text \<open>
  The model gateway (\<^verbatim>\<open>harness/model_gateway/gateway.py\<close>): the conservative size estimate of a request,
  the registry of profiles, and a call of a model, which is the only place that tries again: every
  attempt passes the boundary and policy checks, reserves its budget, and settles it whatever happens.
  The provider's client, the sinks and checks given to the gateway and the message library are
  parameters; durations and random delays are left out of the events.
\<close>

section \<open>The size of a request\<close>

text \<open>The pixels of an image as a count of patches, at least as many as a small image is charged.\<close>

definition rat_of_number :: "json \<Rightarrow> err + rat" where
  "rat_of_number j =
     (case j of JInt n \<Rightarrow> Inr (of_int n) | JFloat r \<Rightarrow> Inr r | JBool b \<Rightarrow> Inr (if b then 1 else 0)
      | _ \<Rightarrow> Inl PyTypeError)"

definition patches :: "rat \<Rightarrow> rat \<Rightarrow> int" where
  "patches width height = max 4096 (\<lceil>width / 28\<rceil> * \<lceil>height / 28\<rceil>)"

text \<open>What reading images needs: base64 decoding, and the image library.\<close>

record image_host =
  ih_decode64 :: "string \<Rightarrow> string option"
  ih_decode :: "string \<Rightarrow> decoded_image option"

definition image_block :: "json \<Rightarrow> bool" where
  "image_block j \<longleftrightarrow> jget ''type'' j \<in> {JStr ''image'', JStr ''image_url'', JStr ''input_image''}"

definition image_size :: "image_host \<Rightarrow> json \<Rightarrow> err + int" where
  "image_size h j =
     (let width = jget_or ''width'' (JInt 0) j; height = jget_or ''height'' (JInt 0) j in
      if \<not> jtruthy width \<and> jtruthy (jget ''base64'' j) then
        (case ih_decode64 h (jstr (jget ''base64'' j)) of
           None \<Rightarrow> Inl PyValueError
         | Some raw \<Rightarrow>
             sum_bind (jfield ''mime_type'' j) (\<lambda>mime.
             sum_bind (validate_image (ih_decode h) raw (jstr mime)) (\<lambda>dims.
             Inr (patches (of_int (fst dims)) (of_int (snd dims))))))
      else
        sum_bind (rat_of_number width) (\<lambda>x.
        sum_bind (rat_of_number height) (\<lambda>y. Inr (patches x y))))"

definition image_note :: json where
  "image_note = JObj [(''type'', JStr ''image''),
     (''estimate_source'', JStr ''app:conservative-28px-patches-v1'')]"

text \<open>
  Every image is replaced by a note and counted in patches, at any depth. The second component is
  the number of image tokens met.
\<close>

fun combine :: "(err + 'a \<times> int) list \<Rightarrow> err + 'a list \<times> int" where
  "combine [] = Inr ([], 0)"
| "combine (x # xs) =
     sum_bind x (\<lambda>y. sum_bind (combine xs) (\<lambda>ys. Inr (fst y # fst ys, snd y + snd ys)))"

primrec sanitize :: "image_host \<Rightarrow> json \<Rightarrow> err + json \<times> int" where
  "sanitize h JNull = Inr (JNull, 0)"
| "sanitize h (JBool b) = Inr (JBool b, 0)"
| "sanitize h (JInt n) = Inr (JInt n, 0)"
| "sanitize h (JFloat r) = Inr (JFloat r, 0)"
| "sanitize h (JStr s) = Inr (JStr s, 0)"
| "sanitize h (JList xs) =
     map_sum id (\<lambda>r. (JList (fst r), snd r)) (combine (map (sanitize h) xs))"
| "sanitize h (JObj kvs) =
     (if image_block (JObj kvs)
      then map_sum id (\<lambda>n. (image_note, n)) (image_size h (JObj kvs))
      else map_sum id (\<lambda>r. (JObj (fst r), snd r))
        (combine (map (\<lambda>e. map_sum id (\<lambda>r. ((fst e, fst r), snd r)) (snd e)) (map (map_prod id (sanitize h)) kvs))))"

record token_estimate =
  tk_total :: int
  tk_categories :: "(string \<times> int) list"
  tk_margin :: rat

definition category_size :: "(rat \<Rightarrow> string) \<Rightarrow> json \<Rightarrow> int" where
  "category_size frepr j = int (length (canonical_json frepr j)) + 8"

definition estimate_tokens ::
  "image_host \<Rightarrow> (rat \<Rightarrow> string) \<Rightarrow> (string \<times> json) list \<Rightarrow> model_profile option \<Rightarrow> err + token_estimate" where
  "estimate_tokens h frepr request profile =
     sum_bind (combine (map (\<lambda>e. map_sum id (\<lambda>r. ((fst e, category_size frepr (fst r)), snd r))
       (sanitize h (snd e))) request)) (\<lambda>r.
     Inr \<lparr>tk_total = sum_list (map snd (fst r)) + snd r,
          tk_categories = fst r @ [(''images'', snd r)],
          tk_margin = (case profile of None \<Rightarrow> 1 / 5 | Some p \<Rightarrow> te_margin (mp_estimator p))\<rparr>)"

section \<open>The gateway\<close>

text \<open>
  A provider's client, bound to a profile: one answer, or a stream whose items arrive one after the
  other. It gets the time it has, the messages and the options.
\<close>

record provider_model =
  pv_invoke :: "nat \<Rightarrow> chat_message list \<Rightarrow> json \<Rightarrow> chat_message store"
  pv_stream :: "nat \<Rightarrow> chat_message list \<Rightarrow> json \<Rightarrow> chat_message store list"

record model_gateway =
  mg_repository :: bool
  mg_endpoint :: "(string \<Rightarrow> access_context \<Rightarrow> string store) option"
  mg_credential :: "(string \<Rightarrow> string \<Rightarrow> access_context \<Rightarrow> string store) option"
  mg_policy :: "(access_context \<Rightarrow> model_profile \<Rightarrow> unit store) option"
  mg_reserve :: "(access_context \<Rightarrow> string \<Rightarrow> int \<Rightarrow> int \<Rightarrow> model_reservation option store) option"
  mg_settle :: "(model_reservation option \<Rightarrow> model_usage \<Rightarrow> unit store) option"
  mg_boundary :: "(access_context \<Rightarrow> unit store) option"
  mg_event :: "(string \<Rightarrow> json \<Rightarrow> unit store) option"
  mg_attempts :: nat
  mg_sleep :: "nat \<Rightarrow> world \<Rightarrow> world"
  mg_bind :: "model_profile \<Rightarrow> provider_model \<Rightarrow> (string \<times> json option) list \<Rightarrow> provider_model"
  mg_factory :: "model_profile \<Rightarrow> string \<Rightarrow> string option \<Rightarrow> provider_model"
  mg_stream_output :: bool
  mg_library :: chat_library
  mg_images :: image_host
  mg_dump :: "chat_message \<Rightarrow> json"
  mg_float :: "rat \<Rightarrow> string"
  mg_sha :: "string \<Rightarrow> string"

record gateway_state =
  gs_profiles :: "(string \<times> model_profile) list"
  gs_cache :: "((string \<times> string \<times> string) \<times> provider_model) list"

definition new_gateway_state :: gateway_state where
  "new_gateway_state = \<lparr>gs_profiles = [(''demo@1'', demo_profile)], gs_cache = []\<rparr>"

text \<open>Equality of documents does not see the order of their keys.\<close>

definition same_json :: "json \<Rightarrow> json \<Rightarrow> bool" where
  "same_json a b \<longleftrightarrow> canon a = canon b"

definition put_assoc :: "'k \<Rightarrow> 'v \<Rightarrow> ('k \<times> 'v) list \<Rightarrow> ('k \<times> 'v) list" where
  "put_assoc k v kvs =
     (if map_of kvs k = None then kvs @ [(k, v)]
      else map (\<lambda>e. if fst e = k then (k, v) else e) kvs)"

definition register_profile ::
  "model_gateway \<Rightarrow> gateway_state \<Rightarrow> model_profile \<Rightarrow> gateway_state store" where
  "register_profile gw gs p =
     andthen (raise_if (case map_of (gs_profiles gs) (profile_ref p) of None \<Rightarrow> False
         | Some q \<Rightarrow> \<not> same_json (profile_json q) (profile_json p)) (GwErr ''immutable_profile'' False))
     (andthen (whenever (mg_repository gw)
        (bnd (store_get ''model_profiles'' (profile_ref p)) (\<lambda>existing.
         andthen (raise_if (jtruthy (or_empty existing) \<and> \<not> same_json (or_empty existing) (profile_json p))
           (GwErr ''immutable_profile'' False))
         (store_put ''model_profiles'' (profile_ref p) (profile_json p)))))
     (ret (gs\<lparr>gs_profiles := put_assoc (profile_ref p) p (gs_profiles gs)\<rparr>)))"

datatype profile_arg = By_profile model_profile | By_parts string int | By_ref string

definition get_profile ::
  "model_gateway \<Rightarrow> gateway_state \<Rightarrow> profile_arg \<Rightarrow> model_profile store" where
  "get_profile gw gs arg =
     (case arg of
        By_profile p \<Rightarrow> ret p
      | _ \<Rightarrow>
          bnd (ret (case arg of By_parts i n \<Rightarrow> i @ ''@'' @ int_text n | By_ref r \<Rightarrow> r | By_profile p \<Rightarrow> ''''))
            (\<lambda>given.
          bnd (ret (if given = ''demo'' then ''demo@1'' else given)) (\<lambda>ref.
          bnd (if mg_repository gw then store_get ''model_profiles'' ref else ret None) (\<lambda>data.
          if jtruthy (or_empty data) then lift (profile_validate (or_empty data))
          else need (GwErr ''unknown_profile'' False) (map_of (gs_profiles gs) ref)))))"

definition optionally :: "'f option \<Rightarrow> ('f \<Rightarrow> unit store) \<Rightarrow> unit store" where
  "optionally f act = (case f of None \<Rightarrow> ret () | Some g \<Rightarrow> act g)"

definition gateway_emit :: "model_gateway \<Rightarrow> string \<Rightarrow> json \<Rightarrow> unit store" where
  "gateway_emit gw kind payload = optionally (mg_event gw) (\<lambda>f. f kind payload)"

record model_handle =
  mh_inner :: provider_model
  mh_profile :: model_profile
  mh_context :: access_context
  mh_schemas :: "(string \<times> json) list"
  mh_probe :: bool
  mh_reserve :: "int option"
  mh_binding :: json

definition resolve_model ::
  "model_gateway \<Rightarrow> gateway_state \<Rightarrow> profile_arg \<Rightarrow> access_context \<Rightarrow> (model_handle \<times> gateway_state) store" where
  "resolve_model gw gs arg actx =
     bnd (get_profile gw gs arg) (\<lambda>p.
     andthen (case mg_policy gw of
         Some check \<Rightarrow> check actx p
       | None \<Rightarrow> raise_if (mp_adapter p \<noteq> ad_demo) (GwErr ''missing_policy'' False))
     (bnd (case mg_endpoint gw of Some f \<Rightarrow> f (mp_endpoint p) actx | None \<Rightarrow> ret (mp_endpoint p)) (\<lambda>endpoint.
      bnd (if text_given (mp_credential p) then
             (case (mg_credential gw, mp_credential p) of
                (Some f, Some c) \<Rightarrow> bnd (f c endpoint actx) (\<lambda>s. ret (Some s))
              | _ \<Rightarrow> raise (GwErr ''missing_credential'' False))
           else ret None) (\<lambda>secret.
      bnd (ret (profile_ref p, endpoint, mg_sha gw (case secret of None \<Rightarrow> '''' | Some s \<Rightarrow> s))) (\<lambda>key.
      bnd (ret (case map_of (gs_cache gs) key of None \<Rightarrow> mg_factory gw p endpoint secret | Some m \<Rightarrow> m)) (\<lambda>model.
      ret (\<lparr>mh_inner = model, mh_profile = p, mh_context = actx, mh_schemas = [], mh_probe = False,
            mh_reserve = None, mh_binding = JObj []\<rparr>,
           gs\<lparr>gs_cache := put_assoc key model (gs_cache gs)\<rparr>)))))))"

text \<open>
  Binding tools, whose third-party conversion to a name and a parameter schema has been done; a tool
  without parameters takes any object.
\<close>

definition bind_tools ::
  "model_gateway \<Rightarrow> model_handle \<Rightarrow> (string \<times> json option) list \<Rightarrow> int option \<Rightarrow> err + model_handle" where
  "bind_tools gw h tools requested =
     (if tools \<noteq> [] \<and> \<not> supports (mh_profile h) ''tool_calling'' \<and> \<not> mh_probe h
      then Inl (GwErr ''capability_unverified'' False)
      else Inr (h\<lparr>mh_inner := (if tools \<noteq> [] then mg_bind gw (mh_profile h) (mh_inner h) tools else mh_inner h),
        mh_schemas := fold (\<lambda>t acc. put_assoc (fst t)
          (case snd t of None \<Rightarrow> JObj [(''type'', JStr ''object'')] | Some s \<Rightarrow> s) acc) tools [],
        mh_reserve := (case requested of None \<Rightarrow> mh_reserve h | Some n \<Rightarrow> Some n)\<rparr>))"

section \<open>One attempt\<close>

definition call_reserve :: "model_handle \<Rightarrow> int option \<Rightarrow> int" where
  "call_reserve h requested =
     (let first = (\<lambda>xs. case filter given_int xs of [] \<Rightarrow> 1024 | x # _ \<Rightarrow> the x);
          wanted = first [requested, mh_reserve h, ml_output (mp_limits (mh_profile h))]
      in case ml_output (mp_limits (mh_profile h)) of
           None \<Rightarrow> wanted | Some n \<Rightarrow> if n \<noteq> 0 then min wanted n else wanted)"

definition call_options :: "model_handle \<Rightarrow> int \<Rightarrow> json \<Rightarrow> json" where
  "call_options h room options =
     (case mp_adapter (mh_profile h) of
        ad_openai \<Rightarrow> jset ''max_tokens'' (JInt room) options
      | ad_anthropic \<Rightarrow> jset ''max_tokens'' (JInt room) options
      | ad_ollama \<Rightarrow> jset ''options'' (jset ''num_predict'' (JInt room) (jget_or ''options'' (JObj []) options)) options
      | ad_demo \<Rightarrow> options)"

definition shows_image :: "chat_message \<Rightarrow> bool" where
  "shows_image m \<longleftrightarrow> (case cm_content m of JList parts \<Rightarrow> list_ex image_block parts | _ \<Rightarrow> False)"

definition context_deadline :: "access_context \<Rightarrow> timestamp option" where
  "context_deadline actx = (case actx of Execution c \<Rightarrow> c_deadline c | Diagnostic d \<Rightarrow> Some (d_deadline d))"

definition context_run :: "access_context \<Rightarrow> string option" where
  "context_run actx = (case actx of Execution c \<Rightarrow> Some (c_run c) | Diagnostic d \<Rightarrow> None)"

definition attempt_identity :: "access_context \<Rightarrow> string \<Rightarrow> (string \<times> json) list" where
  "attempt_identity actx attempt =
     [(''run_id'', optional_json JStr (context_run actx)),
      (''diagnostic_id'', case actx of Execution c \<Rightarrow> JNull | Diagnostic d \<Rightarrow> JStr (d_id d)),
      (''trace_id'', JStr (case actx of Execution c \<Rightarrow> c_trace c | Diagnostic d \<Rightarrow> d_trace d)),
      (''model_attempt_id'', JStr attempt)]"

text \<open>The time an attempt has, in milliseconds; an expired deadline refuses it.\<close>

definition attempt_time :: "access_context \<Rightarrow> nat store" where
  "attempt_time actx =
     bnd utc_now (\<lambda>now.
     case context_deadline actx of
       None \<Rightarrow> ret default_request_timeout
     | Some t \<Rightarrow> if t \<le> now then raise (GwErr ''deadline_exceeded'' False)
         else ret (min default_request_timeout (t - now)))"

text \<open>The text a chunk shows: its content, or the text parts of its content.\<close>

definition chunk_text :: "chat_message \<Rightarrow> string" where
  "chunk_text m =
     (case cm_content m of
        JStr s \<Rightarrow> s
      | JList parts \<Rightarrow> concat (map (\<lambda>p. if jget ''type'' p = JStr ''text'' then jstr (jget_or ''text'' (JStr '''') p) else '''') parts)
      | _ \<Rightarrow> '''')"

text \<open>Taking a stream chunk by chunk, with the boundary check after each.\<close>

fun take_stream ::
  "model_gateway \<Rightarrow> access_context \<Rightarrow> string \<Rightarrow> string \<Rightarrow> chat_message store list \<Rightarrow> assembler \<Rightarrow> nat \<Rightarrow> assembler store" where
  "take_stream gw actx attempt message [] sa index = ret sa"
| "take_stream gw actx attempt message (item # items) sa index =
     bnd item (\<lambda>chunk.
     andthen (optionally (mg_boundary gw) (\<lambda>f. f actx))
     (bnd (lift (assembler_push (mg_library gw) sa attempt chunk)) (\<lambda>sa'.
      bnd (ret (chunk_text chunk)) (\<lambda>text.
      case context_run actx of
        Some run \<Rightarrow>
          (if text = '''' \<or> run = '''' then take_stream gw actx attempt message items sa' index
           else andthen (gateway_emit gw ''message.delta'' (JObj
                  [(''run_id'', JStr run), (''message_id'', JStr message), (''stream_id'', JStr attempt),
                   (''model_attempt_id'', JStr attempt), (''chunk_index'', JInt (int index)),
                   (''text'', JStr text)]))
                (take_stream gw actx attempt message items sa' (index + 1)))
      | None \<Rightarrow> take_stream gw actx attempt message items sa' index))))"

definition completion_marker :: "json \<Rightarrow> bool" where
  "completion_marker metadata \<longleftrightarrow>
     jtruthy (jor (jget ''finish_reason'' metadata) (jor (jget ''stop_reason'' metadata) (jget ''done'' metadata)))"

definition streamed_turn ::
  "model_gateway \<Rightarrow> model_handle \<Rightarrow> string \<Rightarrow> string \<Rightarrow> nat \<Rightarrow> chat_message list \<Rightarrow> json \<Rightarrow> turn store" where
  "streamed_turn gw h attempt message time messages options =
     bnd (take_stream gw (mh_context h) attempt message (pv_stream (mh_inner h) time messages options)
       (new_assembler attempt) 0) (\<lambda>sa.
     andthen (raise_if (\<not> completion_marker (case sa_chunk sa of None \<Rightarrow> JObj [] | Some c \<Rightarrow> cm_metadata c))
       (GwErr ''incomplete_stream'' False))
     (snd (assembler_finish (mg_library gw) sa True (Some (mh_schemas h)))))"

definition obtained_turn ::
  "model_gateway \<Rightarrow> model_handle \<Rightarrow> bool \<Rightarrow> string \<Rightarrow> string \<Rightarrow> nat \<Rightarrow> chat_message list \<Rightarrow> json \<Rightarrow> turn store" where
  "obtained_turn gw h stream attempt message time messages options =
     bnd (if stream then streamed_turn gw h attempt message time messages options
          else bnd (pv_invoke (mh_inner h) time messages options) (\<lambda>m.
               validate_response (mg_library gw) m (Some (mh_schemas h)))) (\<lambda>t.
     andthen (raise_if (cm_calls (tu_message t) \<noteq> [] \<and> \<not> supports (mh_profile h) ''tool_calling'' \<and> \<not> mh_probe h)
       (GwErr ''capability_unverified'' False))
     (ret t))"

definition call_binding_json :: "model_handle \<Rightarrow> string \<Rightarrow> json" where
  "call_binding_json h attempt = jmerge (mh_binding h) (JObj
     [(''profile_ref'', JStr (profile_ref (mh_profile h))), (''model_attempt_id'', JStr attempt),
      (''tool_execution'', JStr (if supports (mh_profile h) ''parallel_tools'' then ''parallel'' else ''serial''))])"

text \<open>The gateway's own identity and notes on the accepted message.\<close>

definition stamped :: "model_handle \<Rightarrow> string \<Rightarrow> string \<Rightarrow> turn \<Rightarrow> turn" where
  "stamped h attempt message t =
     (let metadata = jset ''harness_binding'' (call_binding_json h attempt)
            (jset ''provider_message_id'' (optional_json JStr (cm_id (tu_message t))) (cm_metadata (tu_message t)))
      in t\<lparr>tu_message := (tu_message t)\<lparr>cm_id := Some message, cm_metadata := metadata\<rparr>, tu_metadata := metadata\<rparr>)"

definition priced :: "model_profile \<Rightarrow> usage \<Rightarrow> err + usage" where
  "priced p u =
     (case (us_source u = ''provider'', mp_input_price p, mp_output_price p) of
        (True, Some x, Some y) \<Rightarrow>
          (case (us_input u, us_output u) of
             (Some i, Some out) \<Rightarrow> Inr (u\<lparr>us_cost := Some ((of_int i * x + of_int out * y) / 1000000)\<rparr>)
           | _ \<Rightarrow> Inl PyTypeError)
      | _ \<Rightarrow> Inr u)"

definition usage_json :: "usage \<Rightarrow> json" where
  "usage_json u = JObj
     [(''input_tokens'', optional_json JInt (us_input u)), (''output_tokens'', optional_json JInt (us_output u)),
      (''total_tokens'', optional_json JInt (us_total u)), (''source'', JStr (us_source u)),
      (''cost'', optional_json JFloat (us_cost u))]"

definition settled_usage :: "usage \<Rightarrow> model_usage" where
  "settled_usage u = \<lparr>mu_source = us_source u, mu_total = us_total u, mu_cost = us_cost u\<rparr>"

text \<open>
  The body of the attempt never raises: it gives the usage known so far together with the turn or
  the exception, because the reservation is settled with that usage in either case.
\<close>

definition captured :: "('w, 'a) act \<Rightarrow> ('w, err + 'a) act" where
  "captured m w = (case m w of (r, v) \<Rightarrow> (Inr r, v))"

definition attempt_body ::
  "model_gateway \<Rightarrow> model_handle \<Rightarrow> bool \<Rightarrow> string \<Rightarrow> string \<Rightarrow> nat \<Rightarrow> chat_message list \<Rightarrow> json \<Rightarrow>
   (usage \<times> (err + turn)) store" where
  "attempt_body gw h stream attempt message time messages options =
     bnd (captured (obtained_turn gw h stream attempt message time messages options)) (\<lambda>got.
     case got of
       Inl e \<Rightarrow> ret (no_usage, Inl e)
     | Inr t \<Rightarrow>
         (case priced (mh_profile h) (tu_usage t) of
            Inl e \<Rightarrow> ret (tu_usage t, Inl e)
          | Inr u \<Rightarrow>
              bnd (captured (gateway_emit gw ''model.attempt.completed''
                (JObj (attempt_identity (mh_context h) attempt @ [(''usage'', usage_json u)])))) (\<lambda>told.
              ret (u, case told of Inl e \<Rightarrow> Inl e
                | Inr _ \<Rightarrow> Inr ((stamped h attempt message t)\<lparr>tu_usage := u\<rparr>)))))"

text \<open>Which failures are worth another attempt, and the exception the caller sees.\<close>

definition retryable :: "err \<Rightarrow> bool" where
  "retryable e =
     (case e of
        GwErr code again \<Rightarrow> again
      | ProviderErr status connection \<Rightarrow>
          (case status of None \<Rightarrow> False | Some n \<Rightarrow> n = 429 \<or> 500 \<le> n) \<or> connection
      | _ \<Rightarrow> False)"

definition gateway_error :: "err \<Rightarrow> err" where
  "gateway_error e = (case e of GwErr code again \<Rightarrow> e | _ \<Rightarrow> GwErr ''provider_error'' (retryable e))"

definition error_code :: "err \<Rightarrow> string" where
  "error_code e = (case e of GwErr code again \<Rightarrow> code | HErr code status \<Rightarrow> code | _ \<Rightarrow> '''')"

text \<open>The outcome of an attempt: the turn, or the failure after which another attempt follows.\<close>

definition attempt_end ::
  "model_gateway \<Rightarrow> model_handle \<Rightarrow> string \<Rightarrow> bool \<Rightarrow> err + turn \<Rightarrow> (err + turn) store" where
  "attempt_end gw h attempt final got =
     (case got of
        Inr t \<Rightarrow> ret (Inr t)
      | Inl e \<Rightarrow>
          if e = Diverges then raise e
          else
            andthen (gateway_emit gw ''model.attempt.failed''
              (JObj (attempt_identity (mh_context h) attempt @
                [(''code'', JStr (error_code (gateway_error e))), (''retryable'', JBool (retryable e))])))
            (if \<not> retryable e \<or> final then raise (gateway_error e) else ret (Inl (gateway_error e))))"

definition settle_attempt :: "model_gateway \<Rightarrow> model_reservation option \<Rightarrow> usage \<Rightarrow> unit store" where
  "settle_attempt gw reservation u = optionally (mg_settle gw) (\<lambda>f. f reservation (settled_usage u))"

definition request_json :: "model_gateway \<Rightarrow> model_handle \<Rightarrow> chat_message list \<Rightarrow> (string \<times> json) list" where
  "request_json gw h messages =
     [(''messages'', JList (map (mg_dump gw) messages)), (''tools'', JObj (mh_schemas h))]"

definition reserve_attempt ::
  "model_gateway \<Rightarrow> model_handle \<Rightarrow> string \<Rightarrow> int \<Rightarrow> int \<Rightarrow> model_reservation option store" where
  "reserve_attempt gw h attempt input room =
     (case mg_reserve gw of None \<Rightarrow> ret None | Some f \<Rightarrow> f (mh_context h) attempt input room)"

definition run_attempt ::
  "model_gateway \<Rightarrow> model_handle \<Rightarrow> bool \<Rightarrow> string \<Rightarrow> chat_message list \<Rightarrow> json \<Rightarrow> int \<Rightarrow> nat \<Rightarrow> bool \<Rightarrow>
   (err + turn) store" where
  "run_attempt gw h stream message messages options room index final =
     andthen (optionally (mg_boundary gw) (\<lambda>f. f (mh_context h)))
     (andthen (optionally (mg_policy gw) (\<lambda>f. f (mh_context h) (mh_profile h)))
     (bnd (attempt_time (mh_context h)) (\<lambda>time.
      bnd new_id (\<lambda>attempt.
      bnd (lift (estimate_tokens (mg_images gw) (mg_float gw) (request_json gw h messages) (Some (mh_profile h))))
        (\<lambda>estimate.
      bnd (reserve_attempt gw h attempt (tk_total estimate) room) (\<lambda>reservation.
      andthen (gateway_emit gw ''model.attempt.started''
        (JObj (attempt_identity (mh_context h) attempt @
          [(''profile_ref'', JStr (profile_ref (mh_profile h))), (''retry'', JInt (int index)),
           (''reserved_input_tokens'', JInt (tk_total estimate)), (''reserved_output_tokens'', JInt room)])))
      (bnd (attempt_body gw h stream attempt message time messages options) (\<lambda>got.
       finally_act (attempt_end gw h attempt final (snd got)) (settle_attempt gw reservation (fst got))))))))))"

section \<open>A call\<close>

text \<open>The attempts one after the other: how many are left, the index of the next, the last failure.\<close>

fun attempt_loop ::
  "model_gateway \<Rightarrow> model_handle \<Rightarrow> bool \<Rightarrow> string \<Rightarrow> chat_message list \<Rightarrow> json \<Rightarrow> int \<Rightarrow> nat \<Rightarrow> nat \<Rightarrow> err \<Rightarrow> turn store" where
  "attempt_loop gw h stream message messages options room 0 index failure = raise failure"
| "attempt_loop gw h stream message messages options room (Suc left) index failure =
     bnd (run_attempt gw h stream message messages options room index (left = 0)) (\<lambda>got.
     case got of
       Inr t \<Rightarrow> ret t
     | Inl e \<Rightarrow>
         andthen (modify (mg_sleep gw index))
         (attempt_loop gw h stream message messages options room left (index + 1) e))"

text \<open>Without any attempt the code raises \<^verbatim>\<open>None\<close>, which is a type error.\<close>

definition model_call ::
  "model_gateway \<Rightarrow> model_handle \<Rightarrow> chat_message list \<Rightarrow> bool \<Rightarrow> int option \<Rightarrow> json \<Rightarrow> turn store" where
  "model_call gw h messages stream requested options =
     bnd (lift (validate_history messages False)) (\<lambda>_.
     bnd (ret (call_reserve h requested)) (\<lambda>room.
     andthen (raise_if (list_ex shows_image messages \<and> \<not> supports (mh_profile h) ''vision'' \<and> \<not> mh_probe h)
       (GwErr ''vision_unverified'' False))
     (bnd new_id (\<lambda>message.
      attempt_loop gw h stream message messages (call_options h room options) room
        (mg_attempts gw) 0 PyTypeError))))"

definition streams :: "model_handle \<Rightarrow> bool" where
  "streams h \<longleftrightarrow> supports (mh_profile h) ''streaming'' \<or> mp_adapter (mh_profile h) = ad_demo"

definition handle_invoke :: "model_gateway \<Rightarrow> model_handle \<Rightarrow> chat_message list \<Rightarrow> chat_message store" where
  "handle_invoke gw h messages =
     bnd (model_call gw h messages (mg_stream_output gw \<and> streams h) None (JObj [])) (\<lambda>t. ret (tu_message t))"

text \<open>A structured answer, with a bounded number of repairs, each of them another governed call.\<close>

definition parsed_answer :: "model_gateway \<Rightarrow> json \<Rightarrow> chat_message \<Rightarrow> json option" where
  "parsed_answer gw schema m =
     (case cm_content m of
        JStr s \<Rightarrow> (case cl_loads (mg_library gw) s of
            Some v \<Rightarrow> if cl_valid (mg_library gw) schema v then Some v else None
          | None \<Rightarrow> None)
      | _ \<Rightarrow> None)"

fun repair_loop ::
  "model_gateway \<Rightarrow> model_handle \<Rightarrow> json \<Rightarrow> chat_message \<Rightarrow> nat \<Rightarrow> chat_message list \<Rightarrow> json store" where
  "repair_loop gw h schema prompt repairs active =
     bnd (handle_invoke gw h active) (\<lambda>answer.
     case parsed_answer gw schema answer of
       Some v \<Rightarrow> ret v
     | None \<Rightarrow>
         (case repairs of
            0 \<Rightarrow> raise (GwErr ''invalid_structured_response'' False)
          | Suc n \<Rightarrow> repair_loop gw h schema prompt n (active @ [answer, prompt])))"

definition structured_call ::
  "model_gateway \<Rightarrow> model_handle \<Rightarrow> chat_message list \<Rightarrow> json \<Rightarrow> chat_message \<Rightarrow> int \<Rightarrow> json store" where
  "structured_call gw h messages schema prompt repairs =
     andthen (raise_if (\<not> (0 \<le> repairs \<and> repairs \<le> 2)) (GwErr ''invalid_repair_limit'' False))
     (repair_loop gw h schema prompt (nat repairs) messages)"

definition switch_model ::
  "model_gateway \<Rightarrow> gateway_state \<Rightarrow> profile_arg \<Rightarrow> access_context \<Rightarrow> chat_message list \<Rightarrow> model_profile \<Rightarrow>
   (model_profile \<Rightarrow> json store) \<Rightarrow> (model_handle \<times> gateway_state \<times> json) store" where
  "switch_model gw gs arg actx messages previous rebuild =
     bnd (get_profile gw gs arg) (\<lambda>target.
     bnd (lift (check_model_switch messages previous target)) (\<lambda>_.
     bnd (rebuild target) (\<lambda>view.
     bnd (resolve_model gw gs (By_profile target) actx) (\<lambda>r. ret (fst r, snd r, view)))))"

section \<open>Capability probes\<close>

definition plain_message :: "message_class \<Rightarrow> string \<Rightarrow> string \<Rightarrow> chat_message" where
  "plain_message c text call =
     \<lparr>cm_class = c, cm_id = None, cm_content = JStr text, cm_calls = [], cm_invalid = False, cm_call = call,
      cm_raw_args = [], cm_metadata = JObj [], cm_usage = JNull, cm_extra = JObj []\<rparr>"

definition verification_suites :: "(string \<times> string list) list" where
  "verification_suites =
     [(''tools'', [''transport'', ''messages'', ''tool_calling'', ''usage'']),
      (''fixed-v1'', [''transport'', ''messages'', ''tool_calling'', ''usage'']),
      (''protocol-v1'', [''transport'', ''messages'', ''tool_calling'', ''streaming'', ''usage'']),
      (''text'', [''transport'', ''messages'']),
      (''connectivity'', [''transport''])]"

datatype suite_arg = Suite string | Checks "string list"

definition requested_checks :: "suite_arg \<Rightarrow> string list" where
  "requested_checks arg =
     (case arg of
        Suite s \<Rightarrow> (case map_of verification_suites s of None \<Rightarrow> [s] | Some cs \<Rightarrow> cs)
      | Checks cs \<Rightarrow> cs)"

definition known_checks :: "string list" where
  "known_checks = [''transport'', ''messages'', ''capabilities'', ''tool_calling'', ''streaming'', ''usage'']"

definition fixture_tool :: "string \<times> json option" where
  "fixture_tool = (''fixture_lookup'', Some (JObj
     [(''type'', JStr ''object''),
      (''properties'', JObj [(''key'', JObj [(''type'', JStr ''string'')])]),
      (''required'', JList [JStr ''key''])]))"

definition probe_question :: "model_profile \<Rightarrow> chat_message" where
  "probe_question p = plain_message mc_human
     (if mp_adapter p = ad_demo then ''/tool fixture_lookup {\"key\":\"ready\"}''
      else ''Call fixture_lookup with key ready.'') ''''"

text \<open>The tool probe: its calls are only looked at, no executor is in reach.\<close>

definition probe_tools ::
  "model_gateway \<Rightarrow> model_handle \<Rightarrow> (string \<times> json) list store" where
  "probe_tools gw h =
     bnd (lift (bind_tools gw (h\<lparr>mh_probe := True\<rparr>) [fixture_tool] None)) (\<lambda>bound.
     bnd (handle_invoke gw bound [probe_question (mh_profile h)]) (\<lambda>answer.
     if cm_calls answer = [] then ret [(''tool_calling'', JBool False)]
     else
       bnd (handle_invoke gw bound ([probe_question (mh_profile h), answer] @
           map (\<lambda>c. plain_message mc_tool ''READY'' (case tc_id c of None \<Rightarrow> '''' | Some i \<Rightarrow> i)) (cm_calls answer)))
         (\<lambda>follow.
       ret [(''tool_calling'', JBool True),
            (''tool_pairing'', JBool (jtruthy (cm_content follow) \<and> cm_calls follow = []))])))"

definition verify_model ::
  "model_gateway \<Rightarrow> gateway_state \<Rightarrow> profile_arg \<Rightarrow> suite_arg \<Rightarrow> access_context \<Rightarrow> json store" where
  "verify_model gw gs arg suite actx =
     andthen (raise_if (case actx of Diagnostic d \<Rightarrow> False | Execution c \<Rightarrow> True)
       (GwErr ''invalid_diagnostic_context'' False))
     (bnd (ret (requested_checks suite)) (\<lambda>requested.
      andthen (raise_if (requested = [] \<or> \<not> set requested \<subseteq> set known_checks)
        (GwErr ''unknown_verification_suite'' False))
      (bnd (get_profile gw gs arg) (\<lambda>p.
       bnd (resolve_model gw gs (By_profile p) actx) (\<lambda>resolved.
       bnd (ret (fst resolved)) (\<lambda>h.
       bnd new_id (\<lambda>identity.
       bnd utc_now (\<lambda>now.
       bnd (handle_invoke gw h [plain_message mc_human ''Reply with the word READY.'' '''']) (\<lambda>response.
       bnd (if (''tool_calling'' \<in> set requested \<or> ''capabilities'' \<in> set requested) \<and>
               (case map_of (mp_capabilities p) ''tool_calling'' of None \<Rightarrow> True
                | Some c \<Rightarrow> cap_status c \<noteq> cs_unsupported)
            then probe_tools gw h else ret []) (\<lambda>tools.
       bnd (if ''streaming'' \<in> set requested
            then bnd (model_call gw h [plain_message mc_human ''Reply with READY.'' ''''] True None (JObj []))
                   (\<lambda>t. ret [(''streaming'', JBool (jtruthy (cm_content (tu_message t))))])
            else ret []) (\<lambda>streaming.
       bnd (ret (JObj
         [(''verification_ref'', JStr identity), (''profile_ref'', JStr (profile_ref p)),
          (''adapter'', JStr (adapter_text (mp_adapter p))), (''endpoint_ref'', JStr (mp_endpoint p)),
          (''model'', JStr (mp_model p)), (''api_mode'', JStr (mp_api_mode p)),
          (''suite_ref'', case suite of Suite s \<Rightarrow> JStr s | Checks cs \<Rightarrow> JList (map JStr cs)),
          (''requested_checks'', JList (map JStr requested)), (''scope'', JStr ''protocol_probe_only''),
          (''created_at'', JInt (int now)),
          (''checks'', JObj
            ((if ''transport'' \<in> set requested then [(''transport'', JBool True)] else []) @
             (if ''messages'' \<in> set requested \<or> ''capabilities'' \<in> set requested
              then [(''text'', JBool (jtruthy (cm_content response)))] else []) @
             (if ''usage'' \<in> set requested then [(''usage'', JBool (cm_usage response \<noteq> JNull))] else []) @
             tools @ streaming)),
          (''unverified_capabilities'', JList (map JStr
            [''parallel_tools'', ''vision'', ''structured_output'', ''provider_continuation'']))])) (\<lambda>report.
       andthen (whenever (mg_repository gw) (store_put ''model_verifications'' identity report))
       (ret report)))))))))))))"

end
