(* ===== verification/Model_Calls.thy ===== *)
theory Model_Calls
  imports Model_Gateway
begin

text \<open>
  The model gateway as the host wires it (\<^verbatim>\<open>harness/server/composition.py\<close>): the boundary, endpoint,
  credential and policy checks of \<^verbatim>\<open>Services\<close>, the metrics that listen to attempts
  (\<^verbatim>\<open>harness/observability.py\<close>), and the permits and budgets of \<open>Model_Budget\<close>. With these a call of a
  model is a closed program over the database, of which the theorems speak; the provider's client
  stays a parameter.
\<close>

section \<open>Checks of the host\<close>

definition services_boundary :: "access_context \<Rightarrow> unit store" where
  "services_boundary actx =
     (case actx of
        Execution ctx \<Rightarrow> boundary ctx
      | Diagnostic d \<Rightarrow>
          bnd utc_now (\<lambda>now. raise_if (d_deadline d \<le> now) (HErr ''DIAGNOSTIC_EXPIRED'' 429)))"

definition resolve_endpoint :: "string \<Rightarrow> access_context \<Rightarrow> string store" where
  "resolve_endpoint ref actx =
     (if starts_with ''https://'' ref \<or> starts_with ''http://'' ref \<or> starts_with ''demo://'' ref then ret ref
      else
        bnd (store_get ''endpoints'' ref) (\<lambda>endpoint.
        andthen (raise_if (\<not> jtruthy (or_empty endpoint)) (HErr ''ENDPOINT_MISSING'' 422))
        (bnd (lift (jfield ''url'' (or_empty endpoint))) (\<lambda>url. ret (jstr url)))))"

record host_services =
  hs_budget :: budget_adapter
  hs_revision :: "json \<Rightarrow> int"
  hs_network :: network
  hs_secret :: "string \<Rightarrow> string option"
  hs_sleeps :: "string \<Rightarrow> (world \<Rightarrow> world) list"

definition check_model_policy :: "host_services \<Rightarrow> access_context \<Rightarrow> model_profile \<Rightarrow> unit store" where
  "check_model_policy hs actx p =
     andthen (services_boundary actx)
     (whenever (mp_adapter p \<noteq> ad_demo)
        (bnd (resolve_endpoint (mp_endpoint p) actx) (\<lambda>url.
         bnd (policy_endpoint (hs_revision hs) (hs_network hs) url actx ''model'' True (Some (profile_ref p)) None)
           (\<lambda>_. ret ()))))"

text \<open>A credential is read only for the target its reference names; the keyring is a parameter.\<close>

definition vault_get :: "(string \<Rightarrow> string option) \<Rightarrow> string \<Rightarrow> string \<Rightarrow> string store" where
  "vault_get keyring reference target =
     andthen (raise_if (\<not> starts_with (''credential:'' @ target @ '':'') reference) (HErr ''CREDENTIAL_SCOPE'' 403))
     (need (HErr ''CREDENTIAL_MISSING'' 422) (keyring reference))"

definition bound_profile :: "string \<Rightarrow> string \<Rightarrow> access_context \<Rightarrow> json \<Rightarrow> model_profile list store" where
  "bound_profile ref endpoint actx p =
     (if jget ''credential_ref'' p \<noteq> JStr ref then ret []
      else
        bnd (lift (jfield ''endpoint_ref'' p)) (\<lambda>e.
        bnd (resolve_endpoint (jstr e) actx) (\<lambda>url.
        if url \<noteq> endpoint then ret []
        else bnd (lift (profile_validate p)) (\<lambda>m. ret [m]))))"

definition resolve_model_credential :: "host_services \<Rightarrow> string \<Rightarrow> string \<Rightarrow> access_context \<Rightarrow> string store" where
  "resolve_model_credential hs ref endpoint actx =
     bnd (store_list ''model_profiles'') (\<lambda>documents.
     bnd (collect documents (bound_profile ref endpoint actx)) (\<lambda>found.
     case concat found of
       [] \<Rightarrow> raise (HErr ''CREDENTIAL_SCOPE'' 403)
     | p # _ \<Rightarrow> vault_get (hs_secret hs) ref (''model-'' @ mp_id p)))"

section \<open>Metrics\<close>

definition elapsed_ms :: "json \<Rightarrow> timestamp \<Rightarrow> json" where
  "elapsed_ms started now = JFloat (of_int (max 0 (int now - jint started)))"

definition metric_fields :: "string list" where
  "metric_fields =
     [''model_attempt_id'', ''run_id'', ''diagnostic_id'', ''trace_id'', ''profile_ref'', ''retry'', ''code'',
      ''retryable'', ''duration_ms'', ''first_token_ms'', ''span_id'', ''parent_span_id'', ''phase'', ''status'',
      ''request_count'']"

definition usage_fields :: "string list" where
  "usage_fields = [''input_tokens'', ''output_tokens'', ''total_tokens'', ''cost'', ''source'']"

fun plain_value :: "json \<Rightarrow> bool" where
  "plain_value (JList xs) = False"
| "plain_value (JObj kvs) = False"
| "plain_value j = True"

fun jentries :: "json \<Rightarrow> (string \<times> json) list" where
  "jentries (JObj kvs) = kvs"
| "jentries j = []"

fun is_object :: "json \<Rightarrow> bool" where
  "is_object (JObj kvs) = True"
| "is_object j = False"

definition ends_with :: "string \<Rightarrow> string \<Rightarrow> bool" where
  "ends_with suffix s \<longleftrightarrow> length suffix \<le> length s \<and> drop (length s - length suffix) s = suffix"

text \<open>Only an allowlist of plain fields is kept: prompts, addresses, headers and secrets are not.\<close>

definition metric_item :: "string \<Rightarrow> json \<Rightarrow> timestamp \<Rightarrow> json \<Rightarrow> json" where
  "metric_item kind data now item =
     (let kept = filter (\<lambda>e. fst e \<in> set metric_fields \<and> plain_value (snd e)) (jentries data);
          a = jmerge item (JObj kept);
          b = (if is_object (jget ''usage'' data)
               then jset ''usage'' (JObj (filter (\<lambda>e. fst e \<in> set usage_fields) (jentries (jget ''usage'' data)))) a
               else a);
          c = jset ''kind'' (JStr kind) b
      in if ends_with ''completed'' kind \<or> ends_with ''failed'' kind
         then jset ''duration_ms'' (jget_or ''duration_ms''
           (jget_or ''latency_ms'' (elapsed_ms (jget ''started_at'' c) now) data) data) c
         else c)"

definition metrics_record :: "string \<Rightarrow> json \<Rightarrow> unit store" where
  "metrics_record kind data =
     (let key = jor (jget ''model_attempt_id'' data) (jget ''span_id'' data) in
      if \<not> jtruthy key then ret ()
      else transaction
        (bnd (store_get ''metrics'' (jstr key)) (\<lambda>saved.
         bnd utc_now (\<lambda>now.
         bnd (ret (jor (or_empty saved) (JObj [(''started_at'', JInt (int now))]))) (\<lambda>item.
         if kind = ''message.delta''
         then
           (if jlookup ''first_token_ms'' item \<noteq> None then ret ()
            else store_put ''metrics'' (jstr key)
              (jset ''first_token_ms'' (elapsed_ms (jget ''started_at'' item) now) item))
         else store_put ''metrics'' (jstr key) (metric_item kind data now item))))))"

section \<open>The gateway as it is wired\<close>

text \<open>
  A reservation waits for a permit as long as it takes: with the sleeps given it either has one, or
  is still waiting, which is no value.
\<close>

definition wired_reserve ::
  "host_services \<Rightarrow> access_context \<Rightarrow> string \<Rightarrow> int \<Rightarrow> int \<Rightarrow> model_reservation option store" where
  "wired_reserve hs actx attempt input room =
     bnd (model_reserve (hs_budget hs) actx attempt input (Some room) (hs_sleeps hs attempt)) (\<lambda>got.
     case got of None \<Rightarrow> raise Diverges | Some r \<Rightarrow> ret (Some r))"

definition wired :: "host_services \<Rightarrow> model_gateway \<Rightarrow> model_gateway" where
  "wired hs gw = gw
     \<lparr>mg_repository := True,
      mg_endpoint := Some resolve_endpoint,
      mg_credential := Some (resolve_model_credential hs),
      mg_policy := Some (check_model_policy hs),
      mg_reserve := Some (wired_reserve hs),
      mg_settle := Some model_settle,
      mg_boundary := Some services_boundary,
      mg_event := Some metrics_record\<rparr>"

text \<open>A diagnostic identity with a budget of its own.\<close>

definition diagnostic :: "string \<Rightarrow> string \<Rightarrow> string option \<Rightarrow> rat \<Rightarrow> access_context store" where
  "diagnostic owner config_ref workspace calls =
     andthen (case workspace of
         None \<Rightarrow> ret ()
       | Some i \<Rightarrow> if i = '''' then ret () else bnd (store_workspace i (Some owner)) (\<lambda>_. ret ()))
     (bnd new_id (\<lambda>did.
      andthen (add_account did ''diagnostic'' did
        [(''model_calls'', Some calls), (''total_tokens'', Some 24000), (''cost'', None),
         (''tool_calls'', Some 0), (''children'', Some 0)])
      (bnd (after_ms (60 * 1000)) (\<lambda>deadline.
       ret (Diagnostic \<lparr>d_id = did, d_owner = owner, d_workspace = workspace, d_snapshot = config_ref,
         d_account = did, d_deadline = deadline, d_trace = did\<rparr>)))))"

section \<open>What a call holds\<close>

text \<open>
  A call takes permits and reservations one attempt at a time. \<open>frees K\<close> says that no permit is left
  behind, apart from those in \<open>K\<close>, which stand for what other workers do meanwhile; \<open>adds P n\<close> bounds
  the reservations made under keys in \<open>P\<close>.
\<close>

definition permit_keys :: "world \<Rightarrow> string set" where
  "permit_keys w = {k. record_at w ''model_permits'' k \<noteq> None}"

definition frees :: "string set \<Rightarrow> world \<Rightarrow> world \<Rightarrow> bool" where
  "frees K w v \<longleftrightarrow> permit_keys v \<subseteq> permit_keys w \<union> K"

definition adds :: "(string \<Rightarrow> bool) \<Rightarrow> nat \<Rightarrow> world \<Rightarrow> world \<Rightarrow> bool" where
  "adds P n w v \<longleftrightarrow>
     length (filter P (map rv_key (t_reservations v))) \<le> length (filter P (map rv_key (t_reservations w))) + n"

interpretation frees: db_history "frees K" for K
proof unfold_locales
  show "frees K u w" if "frees K u v" "frees K v w" for u v w
    using that unfolding frees_def by blast
qed (simp_all add: frees_def permit_keys_def record_at_def)

interpretation none_added: db_history "adds P 0" for P
  by unfold_locales (auto simp: adds_def)

lemma permit_keys_written:
  "permit_keys (written (new_record ns k n v) w) =
     (if ns = ''model_permits'' then insert k (permit_keys w) else permit_keys w)"
  by (auto simp: permit_keys_def record_at_written)

text \<open>A write to a namespace without versions is never refused.\<close>

lemma put_unversioned:
  assumes "unversioned ns"
  shows "store_put ns k x w = (Inr (), upsert_record (new_record ns k (record_revision w ns k + 1) x) w)"
proof (cases "w_active w")
  case True
  with assms show ?thesis
    by (simp add: store_put_def compare_and_set_def Let_def new_record_def [symmetric] bnd_def andthen_def
        whenever_def raise_if_def)
next
  case False
  with assms show ?thesis by (simp add: store_put_eval version_taken_def written_def)
qed

lemma keys_frames [simp]:
  "permit_keys (upsert_record (new_record ns k n x) w) =
     (if ns = ''model_permits'' then insert k (permit_keys w) else permit_keys w)"
  "permit_keys (w\<lparr>w_active := b\<rparr>) = permit_keys w" "permit_keys (w\<lparr>w_seed := i\<rparr>) = permit_keys w"
  "t_reservations (upsert_record r w) = t_reservations w"
  using record_at_upsert [of "new_record ns k n x" w "''model_permits''"]
  by (auto simp: permit_keys_def record_at_def upsert_record_def)

lemma metrics_quiet:
  "\<exists>v. metrics_record kind data w = (Inr (), v) \<and> permit_keys v = permit_keys w \<and>
     t_reservations v = t_reservations w"
  by (simp add: metrics_record_def Let_def transaction_def bnd_def store_get_def put_unversioned unversioned_def)

lemma wired_fields [simp]:
  "mg_boundary (wired hs gw) = Some services_boundary" "mg_policy (wired hs gw) = Some (check_model_policy hs)"
  "mg_event (wired hs gw) = Some metrics_record" "mg_settle (wired hs gw) = Some model_settle"
  "mg_reserve (wired hs gw) = Some (wired_reserve hs)" "mg_sleep (wired hs gw) = mg_sleep gw"
  "mg_attempts (wired hs gw) = mg_attempts gw" "mg_library (wired hs gw) = mg_library gw"
  by (simp_all add: wired_def)

text \<open>What the checks and listeners of the wired gateway keep, in any history of the database.\<close>

definition provider_keeps :: "(world \<Rightarrow> world \<Rightarrow> bool) \<Rightarrow> provider_model \<Rightarrow> bool" where
  "provider_keeps R pv \<longleftrightarrow> (\<forall>t ms opts. keeps R (pv_invoke pv t ms opts)) \<and>
     (\<forall>t ms opts. \<forall>item\<in>set (pv_stream pv t ms opts). keeps R item)"

context db_history
begin

lemma keeps_captured: "keeps R m \<Longrightarrow> keeps R (captured m)"
  by (auto simp: tri_def captured_def split: prod.splits) (metis snd_conv)

lemma keeps_optionally: "(\<And>g. f = Some g \<Longrightarrow> keeps R (act g)) \<Longrightarrow> keeps R (optionally f act)"
  unfolding optionally_def by (intro keeps_case_option keeps_ret)

lemma keeps_services:
  "keeps R (services_boundary actx)" "keeps R (resolve_endpoint ref actx)"
  "keeps R (check_model_policy hs actx p)" "keeps R (attempt_time actx)"
proof -
  show b: "keeps R (services_boundary actx)" for actx
    unfolding services_boundary_def boundary_def
    by (intro keeps_case_access keeps_db keeps_reads)
  show e: "keeps R (resolve_endpoint ref actx)" for ref actx
    unfolding resolve_endpoint_def by (intro keeps_db keeps_reads)
  show "keeps R (check_model_policy hs actx p)"
    unfolding check_model_policy_def by (intro keeps_db keeps_policy b e)
  show "keeps R (attempt_time actx)"
    unfolding attempt_time_def by (intro keeps_db)
qed

lemma keeps_validate_response: "keeps R (validate_response lib m schemas)"
  unfolding validate_response_def with_id_def by (intro keeps_db)

lemma keeps_assembler_finish: "keeps R (snd (assembler_finish lib sa over schemas))"
proof (cases "over \<and> sa_chunk sa \<noteq> None")
  case True
  then show ?thesis
    by (auto simp: assembler_finish_def intro!: keeps_andthen keeps_raise_if keeps_foreach keeps_lift
        keeps_validate_response)
next
  case False
  then show ?thesis
    by (cases over; cases "sa_chunk sa") (simp_all add: assembler_finish_def keeps_raise)
qed

lemma keeps_emit_wired: "(\<And>k d. keeps R (metrics_record k d)) \<Longrightarrow> keeps R (gateway_emit (wired hs gw) kind data)"
  by (simp add: gateway_emit_def optionally_def wired_def)

lemma keeps_take_stream:
  assumes "\<And>k d. keeps R (metrics_record k d)" and "\<forall>item\<in>set items. keeps R item"
  shows "keeps R (take_stream (wired hs gw) actx attempt message items sa index)"
  using assms(2)
proof (induction items arbitrary: sa index)
  case Nil
  then show ?case unfolding take_stream.simps by (intro keeps_ret)
next
  case (Cons item items)
  then have "keeps R item" "keeps R (take_stream (wired hs gw) actx attempt message items sa index)" for sa index
    by simp_all
  then show ?case
    unfolding take_stream.simps
    by (intro keeps_db keeps_optionally keeps_emit_wired assms(1)) (auto simp: wired_def keeps_services)
qed

lemma keeps_attempt_body:
  assumes "\<And>k d. keeps R (metrics_record k d)" and "provider_keeps R (mh_inner h)"
  shows "keeps R (attempt_body (wired hs gw) h stream attempt message time messages opts)"
proof -
  have invoke: "keeps R (pv_invoke (mh_inner h) t ms opts)" for t ms opts
    using assms(2) by (simp add: provider_keeps_def)
  have "keeps R (streamed_turn (wired hs gw) h attempt message time messages opts)"
    using assms unfolding streamed_turn_def
    by (intro keeps_db keeps_assembler_finish keeps_take_stream) (simp_all add: provider_keeps_def)
  then have "keeps R (obtained_turn (wired hs gw) h stream attempt message time messages opts)"
    unfolding obtained_turn_def by (intro keeps_db keeps_validate_response invoke)
  then show ?thesis
    unfolding attempt_body_def by (intro keeps_db keeps_captured keeps_emit_wired assms(1))
qed

lemma keeps_attempt_end:
  assumes "\<And>k d. keeps R (metrics_record k d)"
  shows "keeps R (attempt_end (wired hs gw) h attempt final got)"
  unfolding attempt_end_def by (intro keeps_db keeps_emit_wired assms)

end

lemma metrics_keeps: "keeps (frees K) (metrics_record kind data)" "keeps (adds P 0) (metrics_record kind data)"
proof -
  have "frees K w (snd (metrics_record kind data w)) \<and> adds P 0 w (snd (metrics_record kind data w))" for w
  proof -
    obtain v where "metrics_record kind data w = (Inr (), v)" "permit_keys v = permit_keys w"
      "t_reservations v = t_reservations w"
      using metrics_quiet by blast
    then show ?thesis by (simp add: frees_def adds_def)
  qed
  then show "keeps (frees K) (metrics_record kind data)" "keeps (adds P 0) (metrics_record kind data)"
    by (simp_all add: tri_def)
qed

lemma emit_wired_quiet:
  "\<exists>v. gateway_emit (wired hs gw) kind data w = (Inr (), v) \<and> permit_keys v = permit_keys w \<and>
     t_reservations v = t_reservations w"
  unfolding gateway_emit_def optionally_def wired_fields option.case by (rule metrics_quiet)

text \<open>The body of an attempt reports a failure as a value.\<close>

lemma attempt_body_returns: "\<exists>x v. attempt_body gw h stream attempt message time messages opts w = (Inr x, v)"
  by (auto simp: attempt_body_def captured_def bnd_def split: prod.splits sum.splits)

text \<open>Taking a permit: under the attempt's key, and none when the reservation is refused.\<close>

lemma records_frees: "keeps (same_view t_records) m \<Longrightarrow> keeps (frees K) m"
  by (auto simp: tri_def same_view_def frees_def permit_keys_def record_at_def)

lemma try_reserve_frees:
  assumes "try_reserve ad actx key expires input out w = (r, v)"
  shows "(\<forall>e. r = Inl e \<longrightarrow> frees K w v) \<and> frees (insert key K) w v \<and>
    (\<forall>m. r = Inr (Some m) \<longrightarrow> mr_key m = key) \<and> (r = Inr None \<longrightarrow> frees K w v)"
proof -
  let ?body = "bnd (store_list ''model_permits'') (\<lambda>permits.
        if ba_concurrency ad \<le> length (filter (live_permit ad) permits) then ret None
        else
          bnd (model_amount actx input out) (\<lambda>amount.
          bnd (reserve (account_of actx) key amount) (\<lambda>_.
          andthen (store_put ''model_permits'' key (permit_json ad key (account_of actx) expires))
          (ret (Some \<lparr>mr_key = key, mr_account = account_of actx, mr_amount = amount\<rparr>)))))"
  have body: "(\<forall>e. r = Inl e \<longrightarrow> frees K w v) \<and> frees (insert key K) w v \<and>
    (\<forall>m. r = Inr (Some m) \<longrightarrow> mr_key m = key) \<and> (r = Inr None \<longrightarrow> frees K w v)"
    if run: "?body w = (r, v)" for r w v
  proof (cases "ba_concurrency ad \<le> length (filter (live_permit ad)
      (map rec_payload (sort_key rec_key (filter (\<lambda>r. rec_namespace r = ''model_permits'') (t_records w)))))")
    case True
    with run have "r = Inr None" "v = w" by (simp_all add: store_list_def)
    then show ?thesis by (auto simp: frees_def)
  next
    case False
    obtain r1 u1 where amount: "model_amount actx input out w = (r1, u1)" by (cases "model_amount actx input out w")
    have same1: "t_records u1 = t_records w"
      using triD(1) [OF records_keeps(1) _ amount] by (simp add: same_view_def)
    show ?thesis
    proof (cases r1)
      case (Inl e)
      with run False amount same1 show ?thesis
        by (auto simp: store_list_def bnd_def frees_def permit_keys_def record_at_def)
    next
      case (Inr a)
      obtain r2 u2 where res: "reserve (account_of actx) key a u1 = (r2, u2)"
        by (cases "reserve (account_of actx) key a u1")
      have same2: "t_records u2 = t_records w"
        using triD(1) [OF records_keeps(2) _ res] same1 by (simp add: same_view_def)
      then have keys: "permit_keys u2 = permit_keys w" by (simp add: permit_keys_def record_at_def)
      let ?row = "\<lambda>u. new_record ''model_permits'' key (record_revision u ''model_permits'' key + 1)
        (permit_json ad key (account_of actx) expires)"
      have out: "?body w = (case r2 of Inl e \<Rightarrow> (Inl e, u2) | Inr x \<Rightarrow>
        (Inr (Some \<lparr>mr_key = key, mr_account = account_of actx, mr_amount = a\<rparr>), upsert_record (?row u2) u2))"
        using False amount res Inr
        by (simp add: store_list_def bnd_def andthen_def put_unversioned unversioned_def split: sum.split)
      from keys show ?thesis
        using trans [OF run [symmetric] out] by (cases r2) (simp_all, auto simp: frees_def)
    qed
  qed
  show ?thesis
  proof (cases "w_active w")
    case True
    with assms body show ?thesis by (simp add: try_reserve_def)
  next
    case False
    obtain r' u where run: "?body (w\<lparr>w_active := True\<rparr>) = (r', u)" by (cases "?body (w\<lparr>w_active := True\<rparr>)")
    with False assms have "r = r'" and "v = (case r' of Inl e \<Rightarrow> w | Inr x \<Rightarrow> u\<lparr>w_active := False\<rparr>)"
      by (auto simp: try_reserve_def transaction_def split: sum.splits)
    with body [OF run] show ?thesis by (auto simp: frees_def split: sum.splits)
  qed
qed

lemma reserve_loop_frees:
  assumes "reserve_loop ad actx key expires input out sleeps w = (r, v)"
    and "\<forall>s\<in>set sleeps. \<forall>w. frees K w (s w)"
  shows "case r of Inl e \<Rightarrow> frees K w v
    | Inr x \<Rightarrow> frees (insert key K) w v \<and> (\<forall>m. x = Some m \<longrightarrow> mr_key m = key) \<and> (x = None \<longrightarrow> frees K w v)"
using assms
proof (induction sleeps arbitrary: w)
  case Nil
  obtain r1 u where step: "model_boundary ad actx w = (r1, u)" by (cases "model_boundary ad actx w")
  have b: "frees K w u" "permit_keys u = permit_keys w"
    using triD(1) [OF records_keeps(4) _ step]
    by (auto simp: same_view_def frees_def permit_keys_def record_at_def)
  show ?case
  proof (cases r1)
    case (Inl e)
    with Nil step b show ?thesis by (auto simp: andthen_def bnd_def)
  next
    case (Inr x)
    with Nil step have "try_reserve ad actx key expires input out u = (r, v)" by (simp add: andthen_def bnd_def)
    from try_reserve_frees [OF this, of K] b show ?thesis by (auto simp: frees_def split: sum.splits)
  qed
next
  case (Cons s sleeps)
  obtain r1 u where step: "model_boundary ad actx w = (r1, u)" by (cases "model_boundary ad actx w")
  have b: "frees K w u" "permit_keys u = permit_keys w"
    using triD(1) [OF records_keeps(4) _ step]
    by (auto simp: same_view_def frees_def permit_keys_def record_at_def)
  show ?case
  proof (cases r1)
    case (Inl e)
    with Cons.prems step b show ?thesis by (auto simp: andthen_def bnd_def)
  next
    case (Inr x)
    obtain r2 u2 where got: "try_reserve ad actx key expires input out u = (r2, u2)"
      by (cases "try_reserve ad actx key expires input out u")
    note t = try_reserve_frees [OF got, of K]
    consider e where "r2 = Inl e" | m where "r2 = Inr (Some m)" | "r2 = Inr None"
      by (cases r2) auto
    then show ?thesis
    proof cases
      case 1
      with Cons.prems step Inr got t b show ?thesis by (auto simp: andthen_def bnd_def frees_def)
    next
      case 2
      with Cons.prems step Inr got t b show ?thesis by (auto simp: andthen_def bnd_def frees_def)
    next
      case 3
      with Cons.prems step Inr got have rest: "reserve_loop ad actx key expires input out sleeps (s u2) = (r, v)"
        by (simp add: andthen_def bnd_def)
      have "frees K w (s u2)"
        using t 3 b Cons.prems(2) frees.trans_history by (metis list.set_intros(1))
      with Cons.IH [OF rest] Cons.prems(2) show ?thesis
        by (auto simp: frees_def split: sum.splits)
    qed
  qed
qed

lemma wired_reserve_frees:
  assumes "wired_reserve hs actx attempt input room w = (r, v)"
    and "\<And>s w. s \<in> set (hs_sleeps hs attempt) \<Longrightarrow> frees K w (s w)"
  shows "case r of Inl e \<Rightarrow> frees K w v
    | Inr x \<Rightarrow> frees (insert (''model:'' @ attempt) K) w v \<and> (\<exists>m. x = Some m \<and> mr_key m = ''model:'' @ attempt)"
proof -
  obtain r' where run: "reserve_loop (hs_budget hs) actx (''model:'' @ attempt)
      (w_now w + ba_timeout (hs_budget hs)) input (Some room) (hs_sleeps hs attempt) w = (r', v)"
    and r: "r = (case r' of Inl e \<Rightarrow> Inl e | Inr None \<Rightarrow> Inl Diverges | Inr (Some m) \<Rightarrow> Inr (Some m))"
    using assms(1)
    by (auto simp: wired_reserve_def model_reserve_def bnd_def split: prod.splits sum.splits option.splits)
  from reserve_loop_frees [OF run] assms(2) r show ?thesis by (auto split: sum.splits option.splits)
qed

text \<open>Once it is reserved an attempt gives its permit back on every path.\<close>

lemma reserved_attempt_frees:
  assumes quiet: "provider_keeps (frees K) (mh_inner h)"
    and run: "andthen (gateway_emit (wired hs gw) kind data)
      (bnd (attempt_body (wired hs gw) h stream attempt message time messages opts) (\<lambda>got.
       finally_act (attempt_end (wired hs gw) h attempt final (snd got))
         (settle_attempt (wired hs gw) (Some m) (fst got)))) w = (r, v)"
  shows "permit_keys v \<subseteq> (permit_keys w \<union> K) - {mr_key m}"
proof -
  obtain w1 where emit: "gateway_emit (wired hs gw) kind data w = (Inr (), w1)"
    and keys1: "permit_keys w1 = permit_keys w"
    using emit_wired_quiet by blast
  obtain got w2 where body: "attempt_body (wired hs gw) h stream attempt message time messages opts w1 = (Inr got, w2)"
    using attempt_body_returns by blast
  have b: "frees K w1 w2"
    using triD(1) [OF frees.keeps_attempt_body [OF metrics_keeps(1) quiet] _ body] by simp
  obtain r3 w3 where fin: "attempt_end (wired hs gw) h attempt final (snd got) w2 = (r3, w3)"
    by (cases "attempt_end (wired hs gw) h attempt final (snd got) w2")
  have e: "frees K w2 w3" using triD(1) [OF frees.keeps_attempt_end [OF metrics_keeps(1)] _ fin] by simp
  obtain r4 w4 where settle: "settle (mr_key m) (model_actual (mr_amount m) (settled_usage (fst got))) w3 = (r4, w4)"
    by (cases "settle (mr_key m) (model_actual (mr_amount m) (settled_usage (fst got))) w3")
  have s: "t_records w4 = t_records w3"
    using triD(1) [OF records_keeps(3) _ settle] by (simp add: same_view_def)
  from run emit body fin settle have "v = w4\<lparr>t_records := filter (\<lambda>a. rec_id a \<noteq> (''model_permits'', mr_key m)) (t_records w4)\<rparr>"
    by (auto simp: andthen_def bnd_def finally_act_def settle_attempt_def optionally_def wired_def model_settle_def
        store_delete_def split: sum.splits)
  moreover have "row_of rec_id (ns, k) (filter (\<lambda>a. rec_id a \<noteq> x) rows) =
    (if (ns, k) = x then None else row_of rec_id (ns, k) rows)" for ns k x rows
    by (induction rows) auto
  ultimately have "permit_keys v = permit_keys w4 - {mr_key m}" by (auto simp: permit_keys_def record_at_def)
  moreover have "permit_keys w4 = permit_keys w3" using s by (simp add: permit_keys_def record_at_def)
  ultimately show ?thesis using keys1 b e by (auto simp: frees_def)
qed

lemma keeps_run_attempt:
  assumes quiet: "provider_keeps (frees K) (mh_inner h)"
    and sleeps: "\<And>a s w. s \<in> set (hs_sleeps hs a) \<Longrightarrow> frees K w (s w)"
  shows "keeps (frees K) (run_attempt (wired hs gw) h stream message messages opts room index final)"
proof -
  have held: "keeps (frees K) (bnd (reserve_attempt (wired hs gw) h attempt input room) (\<lambda>reservation.
      andthen (gateway_emit (wired hs gw) kind data)
      (bnd (attempt_body (wired hs gw) h stream attempt message time messages opts) (\<lambda>got.
       finally_act (attempt_end (wired hs gw) h attempt final (snd got))
         (settle_attempt (wired hs gw) reservation (fst got))))))" for attempt input kind data time
  proof (rule triI)
    fix w r v
    assume run: "bnd (reserve_attempt (wired hs gw) h attempt input room) (\<lambda>reservation.
      andthen (gateway_emit (wired hs gw) kind data)
      (bnd (attempt_body (wired hs gw) h stream attempt message time messages opts) (\<lambda>got.
       finally_act (attempt_end (wired hs gw) h attempt final (snd got))
         (settle_attempt (wired hs gw) reservation (fst got))))) w = (r, v)"
    obtain r1 u where res: "wired_reserve hs (mh_context h) attempt input room w = (r1, u)"
      by (cases "wired_reserve hs (mh_context h) attempt input room w")
    have same: "reserve_attempt (wired hs gw) h attempt input room = wired_reserve hs (mh_context h) attempt input room"
      by (simp add: reserve_attempt_def wired_def)
    have f: "case r1 of Inl e \<Rightarrow> frees K w u
      | Inr x \<Rightarrow> frees (insert (''model:'' @ attempt) K) w u \<and> (\<exists>m. x = Some m \<and> mr_key m = ''model:'' @ attempt)"
      by (rule wired_reserve_frees [OF res]) (rule sleeps)
    show "frees K w v \<and> (\<forall>x. r = Inr x \<longrightarrow> True)"
    proof (cases r1)
      case (Inl e)
      with run res same f show ?thesis by (simp add: bnd_def)
    next
      case (Inr x)
      with f obtain m where x: "x = Some m" "mr_key m = ''model:'' @ attempt"
        and fr: "frees (insert (''model:'' @ attempt) K) w u" by auto
      from run res same Inr x have "andthen (gateway_emit (wired hs gw) kind data)
        (bnd (attempt_body (wired hs gw) h stream attempt message time messages opts) (\<lambda>got.
         finally_act (attempt_end (wired hs gw) h attempt final (snd got))
           (settle_attempt (wired hs gw) (Some m) (fst got)))) u = (r, v)"
        by (simp add: bnd_def)
      from reserved_attempt_frees [OF quiet this] fr x show ?thesis by (auto simp: frees_def)
    qed
  qed
  have checks: "keeps (frees K) (optionally (mg_boundary (wired hs gw)) (\<lambda>f. f (mh_context h)))"
    "keeps (frees K) (optionally (mg_policy (wired hs gw)) (\<lambda>f. f (mh_context h) (mh_profile h)))"
    by (simp_all add: optionally_def frees.keeps_services)
  show ?thesis
    unfolding run_attempt_def
    by (rule frees.keeps_andthen [OF checks(1)], rule frees.keeps_andthen [OF checks(2)],
        rule frees.keeps_bnd [OF frees.keeps_services(4)], rule frees.keeps_bnd [OF frees.keeps_new_id],
        rule frees.keeps_bnd [OF frees.keeps_lift], rule held)
qed

lemma keeps_attempt_loop:
  assumes "provider_keeps (frees K) (mh_inner h)"
    and "\<And>a s w. s \<in> set (hs_sleeps hs a) \<Longrightarrow> frees K w (s w)"
    and "\<And>i w. frees K w (mg_sleep gw i w)"
  shows "keeps (frees K) (attempt_loop (wired hs gw) h stream message messages opts room left index failure)"
proof (induction left arbitrary: index failure)
  case 0
  show ?case unfolding attempt_loop.simps by (rule frees.keeps_raise)
next
  case (Suc left)
  have sleep: "keeps (frees K) (modify (mg_sleep (wired hs gw) i))" for i
    using assms(3) by (intro keeps_modify) (simp add: wired_def)
  show ?case
    unfolding attempt_loop.simps
    by (intro frees.keeps_bnd keeps_run_attempt frees.keeps_case_sum frees.keeps_andthen frees.keeps_ret sleep Suc.IH
        assms(1,2))
qed

section \<open>Reservations are counted\<close>

lemma adds_bnd:
  assumes "keeps (adds P i) m" "\<And>x. keeps (adds P j) (f x)"
  shows "keeps (adds P (i + j)) (bnd m f)"
proof (rule triI)
  fix w r v
  assume run: "bnd m f w = (r, v)"
  obtain r1 u where step: "m w = (r1, u)" by (cases "m w")
  have first: "adds P i w u" using triD(1) [OF assms(1) _ step] by simp
  show "adds P (i + j) w v \<and> (\<forall>x. r = Inr x \<longrightarrow> True)"
  proof (cases r1)
    case (Inl e)
    with run step first show ?thesis by (simp add: adds_def)
  next
    case (Inr x)
    with run step have "f x u = (r, v)" by simp
    with assms(2) have "adds P j u v" by (blast dest: triD(1))
    with first show ?thesis by (simp add: adds_def)
  qed
qed

lemma adds_first: "keeps (adds P 0) m \<Longrightarrow> (\<And>x. keeps (adds P n) (f x)) \<Longrightarrow> keeps (adds P n) (bnd m f)"
  using adds_bnd [of P 0 m n f] by simp

lemma adds_then: "keeps (adds P n) m \<Longrightarrow> (\<And>x. keeps (adds P 0) (f x)) \<Longrightarrow> keeps (adds P n) (bnd m f)"
  using adds_bnd [of P n m 0 f] by simp

lemma adds_more: "keeps (adds P i) m \<Longrightarrow> i \<le> n \<Longrightarrow> keeps (adds P n) m"
  by (erule tri_mono) (simp add: adds_def)

lemma adds_transaction:
  assumes "keeps (adds P n) m"
  shows "keeps (adds P n) (transaction m)"
proof (rule triI)
  fix w r v
  assume run: "transaction m w = (r, v)"
  let ?w = "if w_active w then w else w\<lparr>w_active := True\<rparr>"
  obtain r1 u where step: "m ?w = (r1, u)" by (cases "m ?w")
  have "adds P n ?w u" using triD(1) [OF assms _ step] by simp
  then have "adds P n w u" by (simp add: adds_def split: if_splits)
  with run step show "adds P n w v \<and> (\<forall>x. r = Inr x \<longrightarrow> True)"
    by (auto simp: transaction_def adds_def split: if_splits sum.splits)
qed

lemma reservations_adds: "keeps (same_view t_reservations) m \<Longrightarrow> keeps (adds P 0) m"
  by (erule tri_mono) (simp add: adds_def same_view_def)

lemma reserve_adds: "keeps (adds P 1) (reserve a k m)"
proof -
  have ins: "keeps (adds P 1) (insert_unique t_reservations t_reservations_update rv_key row)" for row
    by (rule tri_insert_unique) (simp_all add: adds_def)
  have upd: "keeps (adds P 0) (update_where t_accounts_update p f)" for p f
    by (rule tri_update_where) (simp add: adds_def)
  have new: "keeps (adds P 1) (bnd (store_account a) (\<lambda>account.
      bnd (lift (reserve_dims (acc_limits account) (acc_consumed account) m (acc_reserved account))) (\<lambda>reserved.
      andthen (update_where t_accounts_update (\<lambda>r. acc_id r = a) (\<lambda>r. r\<lparr>acc_reserved := reserved\<rparr>))
      (bnd utc_now (\<lambda>now.
       bnd (ret \<lparr>rv_key = k, rv_account = a, rv_amount = m, rv_actual = None,
                 rv_state = rv_reserved, rv_created = now\<rparr>) (\<lambda>row.
       andthen (insert_unique t_reservations t_reservations_update rv_key row) (ret row)))))))"
    unfolding andthen_def
    by (intro adds_first upd adds_then ins none_added.keeps_db none_added.keeps_ledger_reads)
  have old: "keeps (adds P 1) (if c then raise e else ret s)" for c e s
    by (rule adds_more [of P 0], intro none_added.keeps_db) simp_all
  show ?thesis
    unfolding reserve_def
    by (rule adds_transaction, rule adds_first [OF none_added.keeps_gets], rename_tac saved, case_tac saved)
      (simp_all only: option.case, rule new, rule old)
qed

lemma settle_adds: "keeps (adds P 0) (settle k x)"
proof -
  have "keeps (adds P 0) (update_where t_accounts_update p f)" for p f
    by (rule tri_update_where) (simp add: adds_def)
  moreover have "keeps (adds P 0) (update_where t_reservations_update q g)" if "\<And>r. rv_key (g r) = rv_key r" for q g
    by (rule tri_update_where) (simp add: adds_def map_update_rows that del: length_filter_map)
  ultimately show ?thesis
    unfolding settle_def by (intro none_added.keeps_db none_added.keeps_ledger_reads) simp_all
qed

lemma put_adds: "keeps (adds P 0) (store_put ''model_permits'' k x)"
  by (simp add: tri_def put_unversioned unversioned_def adds_def)

lemma model_boundary_adds: "keeps (adds P 0) (model_boundary ad actx)"
  unfolding model_boundary_def boundary_def
  by (intro none_added.keeps_case_access none_added.keeps_db none_added.keeps_reads)

lemma model_amount_adds: "keeps (adds P 0) (model_amount actx input out)"
  unfolding model_amount_def
  by (intro none_added.keeps_db none_added.keeps_ledger_reads none_added.keeps_reads | simp split: option.split)+

lemma try_reserve_adds:
  assumes "try_reserve ad actx key expires input out w = (r, v)"
  shows "adds P 1 w v" "r = Inr None \<Longrightarrow> adds P 0 w v"
proof -
  let ?k = "bnd (model_amount actx input out) (\<lambda>amount.
          bnd (reserve (account_of actx) key amount) (\<lambda>_.
          andthen (store_put ''model_permits'' key (permit_json ad key (account_of actx) expires))
          (ret (Some \<lparr>mr_key = key, mr_account = account_of actx, mr_amount = amount\<rparr>))))"
  have k: "keeps (adds P 1) ?k"
    by (intro adds_first model_amount_adds adds_then reserve_adds none_added.keeps_andthen put_adds none_added.keeps_ret)
  have idle: "keeps (adds P 1) (ret x)" for x :: "model_reservation option"
    by (rule adds_more [of P 0], rule none_added.keeps_ret) simp
  have list: "keeps (adds P 0) (store_list ns)" for ns
    unfolding store_list_def by (rule none_added.keeps_gets)
  have "keeps (adds P 1) (try_reserve ad actx key expires input out)"
    unfolding try_reserve_def
    by (rule adds_transaction, rule adds_first [OF list], rename_tac permits,
        case_tac "ba_concurrency ad \<le> length (filter (live_permit ad) permits)")
      (simp_all only: if_True if_False, rule idle, rule k)
  from triD(1) [OF this _ assms] show "adds P 1 w v" by simp
  have silent: "?k u \<noteq> (Inr None, u')" for u u'
    by (auto simp: act_iffs)
  assume "r = Inr None"
  with assms silent show "adds P 0 w v"
    by (auto simp: try_reserve_def transaction_def store_list_def bnd_Inr_iff adds_def split: if_splits sum.splits prod.splits)
qed

lemma wired_reserve_adds:
  assumes "\<And>s w. s \<in> set (hs_sleeps hs attempt) \<Longrightarrow> adds P 0 w (s w)"
  shows "keeps (adds P 1) (wired_reserve hs actx attempt input room)"
proof -
  have loop: "adds P 1 w v"
    if "reserve_loop ad actx key expires input out sleeps w = (r, v)" and "\<forall>s\<in>set sleeps. \<forall>w. adds P 0 w (s w)"
    for ad key expires out sleeps r w v
    using that
  proof (induction sleeps arbitrary: w)
    case Nil
    have "keeps (adds P 1) (try_reserve ad actx key expires input out)"
      by (rule triI) (drule try_reserve_adds(1), simp)
    then have "keeps (adds P 1) (reserve_loop ad actx key expires input out [])"
      unfolding reserve_loop.simps andthen_def by (rule adds_first [OF model_boundary_adds])
    from triD(1) [OF this _ Nil(1)] show ?case by simp
  next
    case (Cons s sleeps)
    obtain r1 u where step: "model_boundary ad actx w = (r1, u)" by (cases "model_boundary ad actx w")
    have b: "adds P 0 w u" using triD(1) [OF model_boundary_adds _ step] by simp
    show ?case
    proof (cases r1)
      case (Inl e)
      with Cons.prems step b show ?thesis by (simp add: andthen_def bnd_def adds_def)
    next
      case (Inr x)
      obtain r2 u2 where got: "try_reserve ad actx key expires input out u = (r2, u2)"
        by (cases "try_reserve ad actx key expires input out u")
      show ?thesis
      proof (cases "r2 = Inr None")
        case True
        with Cons.prems step Inr got have rest: "reserve_loop ad actx key expires input out sleeps (s u2) = (r, v)"
          by (simp add: andthen_def bnd_def)
        have "adds P 1 (s u2) v" using Cons.IH [OF rest] Cons.prems(2) by simp
        moreover have "adds P 0 u2 (s u2)" using Cons.prems(2) by simp
        ultimately show ?thesis using try_reserve_adds(2) [OF got True, of P] b by (simp add: adds_def)
      next
        case False
        with Cons.prems step Inr got have "v = u2"
          by (auto simp: andthen_def bnd_def split: sum.splits option.splits)
        with try_reserve_adds(1) [OF got, of P] b show ?thesis by (simp add: adds_def)
      qed
    qed
  qed
  have "keeps (adds P 1) (reserve_loop ad actx key expires input out (hs_sleeps hs attempt))" for ad key expires out
    by (rule triI) (simp add: loop [unfolded One_nat_def] assms)
  moreover have "keeps (adds P 0) (case got of None \<Rightarrow> raise Diverges | Some r \<Rightarrow> ret (Some r))"
    for got :: "model_reservation option"
    by (intro none_added.keeps_db)
  ultimately show ?thesis
    unfolding wired_reserve_def model_reserve_def
    by (intro adds_then adds_first none_added.keeps_after_ms)
qed

lemma settle_attempt_adds: "keeps (adds P 0) (settle_attempt (wired hs gw) res u)"
proof -
  have "keeps (adds P 0) (store_delete ns k)" for ns k
    unfolding store_delete_def by (intro keeps_modify) (simp add: adds_def)
  then show ?thesis
    unfolding settle_attempt_def optionally_def wired_fields model_settle_def option.case
    by (intro none_added.keeps_db settle_adds)
qed

lemma run_attempt_adds:
  assumes "provider_keeps (adds P 0) (mh_inner h)"
    and "\<And>a s w. s \<in> set (hs_sleeps hs a) \<Longrightarrow> adds P 0 w (s w)"
  shows "keeps (adds P 1) (run_attempt (wired hs gw) h stream message messages opts room index final)"
proof -
  have "keeps (adds P 1) (reserve_attempt (wired hs gw) h attempt input room)" for attempt input
    unfolding reserve_attempt_def wired_fields option.case by (rule wired_reserve_adds) (rule assms(2))
  moreover have "keeps (adds P 0) (optionally (mg_boundary (wired hs gw)) (\<lambda>f. f (mh_context h)))"
    "keeps (adds P 0) (optionally (mg_policy (wired hs gw)) (\<lambda>f. f (mh_context h) (mh_profile h)))"
    by (simp_all add: optionally_def none_added.keeps_services)
  moreover have "keeps (adds P 0) (andthen (gateway_emit (wired hs gw) kind data)
      (bnd (attempt_body (wired hs gw) h stream attempt message time messages opts) (\<lambda>got.
       finally_act (attempt_end (wired hs gw) h attempt final (snd got))
         (settle_attempt (wired hs gw) res (fst got)))))" for kind data attempt time res
    by (intro none_added.keeps_andthen none_added.keeps_emit_wired none_added.keeps_bnd none_added.keeps_attempt_body
        none_added.keeps_finally none_added.keeps_attempt_end settle_attempt_adds metrics_keeps assms(1))
  ultimately show ?thesis
    unfolding run_attempt_def andthen_def [of "optionally f g" for f g]
    by (intro adds_first none_added.keeps_services none_added.keeps_new_id none_added.keeps_lift adds_then)
qed

lemma attempt_loop_adds:
  assumes "provider_keeps (adds P 0) (mh_inner h)"
    and "\<And>a s w. s \<in> set (hs_sleeps hs a) \<Longrightarrow> adds P 0 w (s w)" and "\<And>i w. adds P 0 w (mg_sleep gw i w)"
  shows "keeps (adds P left) (attempt_loop (wired hs gw) h stream message messages opts room left index failure)"
proof (induction left arbitrary: index failure)
  case 0
  show ?case unfolding attempt_loop.simps by (rule none_added.keeps_raise)
next
  case (Suc left)
  have sleep: "keeps (adds P 0) (modify (mg_sleep (wired hs gw) i))" for i
    using assms(3) by (intro keeps_modify) simp
  have "keeps (adds P left) (case got of Inr t \<Rightarrow> ret t
     | Inl e \<Rightarrow> andthen (modify (mg_sleep (wired hs gw) index))
         (attempt_loop (wired hs gw) h stream message messages opts room left (index + 1) e))" for got
    unfolding andthen_def
    by (cases got) (simp_all only: sum.case, rule adds_first [OF sleep Suc.IH],
        rule adds_more [of P 0], rule none_added.keeps_ret, simp)
  then have "keeps (adds P (1 + left)) (attempt_loop (wired hs gw) h stream message messages opts room (Suc left) index failure)"
    unfolding attempt_loop.simps by (intro adds_bnd run_attempt_adds assms(1,2))
  then show ?case by simp
qed

section \<open>The theorems\<close>

text \<open>
  C30: a call of a model through the wired gateway, however it ends, makes at most as many budget
  reservations as attempts are allowed and leaves none of its permits behind. \<open>K\<close> and \<open>P\<close> stand for
  the permits and reservations of other workers: during the sleeps of the call, and while the provider
  works, others may take permits under keys in \<open>K\<close> and make reservations under keys outside \<open>P\<close>.
\<close>

theorem model_call_bounded:
  assumes "provider_keeps (frees K) (mh_inner h)" and "provider_keeps (adds P 0) (mh_inner h)"
    and "\<And>a s w. s \<in> set (hs_sleeps hs a) \<Longrightarrow> frees K w (s w) \<and> adds P 0 w (s w)"
    and "\<And>i w. frees K w (mg_sleep gw i w) \<and> adds P 0 w (mg_sleep gw i w)"
    and "model_call (wired hs gw) h messages stream requested opts w = (r, v)"
  shows "permit_keys v \<subseteq> permit_keys w \<union> K \<and>
    length (filter P (map rv_key (t_reservations v))) \<le>
      length (filter P (map rv_key (t_reservations w))) + mg_attempts gw"
proof
  have "keeps (frees K) (model_call (wired hs gw) h messages stream requested opts)"
    unfolding model_call_def using assms(1,3,4)
    by (intro frees.keeps_db keeps_attempt_loop) blast+
  from triD(1) [OF this _ assms(5)] show "permit_keys v \<subseteq> permit_keys w \<union> K" by (simp add: frees_def)
  have "keeps (adds P (mg_attempts gw)) (model_call (wired hs gw) h messages stream requested opts)"
    unfolding model_call_def andthen_def wired_fields using assms(2,3,4)
    by (intro adds_first none_added.keeps_db attempt_loop_adds) blast+
  from triD(1) [OF this _ assms(5)] show "length (filter P (map rv_key (t_reservations v))) \<le>
      length (filter P (map rv_key (t_reservations w))) + mg_attempts gw" by (simp add: adds_def)
qed

lemma validated_paired: "validate_history ms False = Inr S \<Longrightarrow> paired {} ms"
  using walk_paired by (fastforce simp: validate_history_def sum_bind_Inr_iff split: if_splits)

text \<open>What the attempt that gave the turn obtained from the provider.\<close>

definition obtained_from :: "model_gateway \<Rightarrow> model_handle \<Rightarrow> chat_message \<Rightarrow> bool" where
  "obtained_from gw h m \<longleftrightarrow> acceptable (mg_library gw) (Some (mh_schemas h)) m \<and>
     (cm_calls m = [] \<or> supports (mh_profile h) ''tool_calling'' \<or> mh_probe h)"

lemma obtained_turn_Inr:
  assumes "obtained_turn gw h stream attempt message time messages opts w = (Inr t, v)"
  shows "\<exists>m i. obtained_from gw h m \<and> tu_message t = m\<lparr>cm_id := i\<rparr>"
proof -
  have same: "cm_calls (tu_message t) = cm_calls m" if "tu_message t = m\<lparr>cm_id := i\<rparr>" for m i
    using that by simp
  from assms obtain m u u' where "validate_response (mg_library gw) m (Some (mh_schemas h)) u = (Inr t, u')"
    and "cm_calls (tu_message t) = [] \<or> supports (mh_profile h) ''tool_calling'' \<or> mh_probe h"
    by (auto simp: obtained_turn_def streamed_turn_def assembler_finish_def act_iffs
        split: if_splits bool.splits option.splits)
  with validate_response_Inr [OF this(1)] same show ?thesis
    unfolding obtained_from_def by metis
qed

lemma attempt_body_Inr:
  assumes "attempt_body gw h stream attempt message time messages opts w = (Inr (u, Inr t), v)"
  shows "\<exists>t' w'. obtained_turn gw h stream attempt message time messages opts w = (Inr t', w') \<and>
    t = (stamped h attempt message t')\<lparr>tu_usage := u\<rparr> \<and> priced (mh_profile h) (tu_usage t') = Inr u"
  using assms
  by (auto simp: attempt_body_def captured_def bnd_Inr_iff split: prod.splits sum.splits)

lemma finally_Inr: "finally_act m f w = (Inr x, v) \<Longrightarrow> \<exists>u. m w = (Inr x, u)"
  by (auto simp: finally_act_def split: prod.splits sum.splits)

lemma attempt_loop_Inr:
  assumes "attempt_loop gw h stream message messages opts room left index failure w = (Inr t, v)"
  shows "\<exists>attempt m i u. obtained_from gw h m \<and> t = (stamped h attempt message
     \<lparr>tu_message = m\<lparr>cm_id := i\<rparr>, tu_usage = u, tu_metadata = cm_metadata m\<rparr>)"
  using assms
proof (induction left arbitrary: index failure w)
  case (Suc left)
  from Suc.prems obtain got u where attempt: "run_attempt gw h stream message messages opts room index (left = 0) w = (Inr got, u)"
    and rest: "(case got of Inr t \<Rightarrow> ret t
     | Inl e \<Rightarrow> andthen (modify (mg_sleep gw index))
         (attempt_loop gw h stream message messages opts room left (Suc index) e)) u = (Inr t, v)"
    by (auto simp: bnd_Inr_iff)
  show ?case
  proof (cases got)
    case (Inl e)
    with rest Suc.IH show ?thesis by (auto simp: andthen_Inr_iff)
  next
    case (Inr t')
    with rest have "got = Inr t" by simp
    with attempt obtain a time res x w1 w2 w3 w4 where
      body: "attempt_body gw h stream a message time messages opts w1 = (Inr x, w2)"
      and fin: "attempt_end gw h a (left = 0) (snd x) w3 = (Inr (Inr t), w4)"
      unfolding run_attempt_def by (auto simp: act_iffs dest!: finally_Inr)
    from fin have "snd x = Inr t"
      by (auto simp: attempt_end_def act_iffs split: sum.splits if_splits)
    with body obtain t' w' where t': "obtained_turn gw h stream a message time messages opts w1 = (Inr t', w')"
      and t: "t = (stamped h a message t')\<lparr>tu_usage := fst x\<rparr>"
      using attempt_body_Inr [of gw h stream a message time messages opts w1 "fst x" t w2] by (cases x) auto
    from obtained_turn_Inr [OF t'] obtain m i where m: "obtained_from gw h m" "tu_message t' = m\<lparr>cm_id := i\<rparr>" by blast
    then have "t = stamped h a message \<lparr>tu_message = m\<lparr>cm_id := i\<rparr>, tu_usage = fst x, tu_metadata = cm_metadata m\<rparr>"
      using t by (cases t') (simp add: stamped_def Let_def)
    with m(1) show ?thesis by blast
  qed
qed simp


section \<open>A concrete call\<close>

definition sample_provider :: provider_model where
  "sample_provider = \<lparr>pv_invoke = (\<lambda>t ms opts. ret sample_answer), pv_stream = (\<lambda>t ms opts. [])\<rparr>"

definition sample_model_gateway :: model_gateway where
  "sample_model_gateway = \<lparr>mg_repository = True, mg_endpoint = None, mg_credential = None, mg_policy = None,
     mg_reserve = None, mg_settle = None, mg_boundary = None, mg_event = None, mg_attempts = 2,
     mg_sleep = (\<lambda>i w. w), mg_bind = (\<lambda>p m ts. m), mg_factory = (\<lambda>p e s. sample_provider),
     mg_stream_output = False, mg_library = sample_library,
     mg_images = \<lparr>ih_decode64 = (\<lambda>s. None), ih_decode = (\<lambda>s. None)\<rparr>, mg_dump = cm_content,
     mg_float = (\<lambda>r. ''0.0''), mg_sha = (\<lambda>s. s)\<rparr>"

definition sample_call_host :: host_services where
  "sample_call_host = \<lparr>hs_budget = sample_adapter, hs_revision = (\<lambda>j. 1),
     hs_network = sample_network, hs_secret = (\<lambda>s. None), hs_sleeps = (\<lambda>a. [])\<rparr>"

definition sample_handle :: model_handle where
  "sample_handle = \<lparr>mh_inner = sample_provider, mh_profile = demo_profile,
     mh_context = Diagnostic sample_diagnostic, mh_schemas = sample_catalog, mh_probe = False,
     mh_reserve = Some 7, mh_binding = JObj []\<rparr>"

definition sample_question :: chat_message where
  "sample_question = plain_message mc_human ''hi'' ''''"



lemma sample_estimate: "\<exists>e. estimate_tokens images frepr [(''messages'', JList [JStr s]), (''tools'', JObj [(k, JObj [])])] p = Inr e"
  by (simp add: estimate_tokens_def sum_bind_def image_block_def jget_def)

lemma sample_fields:
  "mh_schemas sample_handle = sample_catalog" "mh_profile sample_handle = demo_profile"
  "mh_inner sample_handle = sample_provider" "mh_context sample_handle = Diagnostic sample_diagnostic"
  "mg_library sample_model_gateway = sample_library" "mg_dump sample_model_gateway = cm_content"
  "mg_attempts sample_model_gateway = Suc (Suc 0)"
  "mg_boundary sample_model_gateway = None" "mg_policy sample_model_gateway = None" "mg_reserve sample_model_gateway = None"
  "mg_event sample_model_gateway = None" "mg_settle sample_model_gateway = None"
  by (simp_all add: sample_handle_def sample_model_gateway_def)

lemma sample_attempt:
  assumes "w_now w < 100"
  shows "\<exists>t v. run_attempt sample_model_gateway sample_handle False message [sample_question] opts room i final w = (Inr (Inr t), v)"
proof -
  obtain e where e: "estimate_tokens (mg_images sample_model_gateway) (mg_float sample_model_gateway)
      (request_json sample_model_gateway sample_handle [sample_question]) (Some demo_profile) = Inr e"
    using sample_estimate [of "mg_images sample_model_gateway" "mg_float sample_model_gateway" "''hi''" "''tool''" "Some demo_profile"]
    by (auto simp: request_json_def sample_fields sample_question_def plain_message_def sample_catalog_def)
  from assms obtain time where time: "attempt_time (Diagnostic sample_diagnostic) w = (Inr time, w)"
    by (auto simp: attempt_time_def context_deadline_def sample_diagnostic_def bnd_def)
  have calls: "supports demo_profile ''tool_calling''" by (simp add: supports_def demo_profile_def)
  have p: "priced demo_profile x = Inr x" for x by (simp add: priced_def demo_profile_def split: bool.split)
  show ?thesis
    using e time calls p
    by (simp add: sample_response run_attempt_def sample_fields optionally_def andthen_def bnd_def reserve_attempt_def gateway_emit_def
        attempt_body_def captured_def obtained_turn_def sample_provider_def attempt_end_def settle_attempt_def
        finally_act_def)
qed

lemma sample_clock: "w_now (model_world\<lparr>w_seed := n\<rparr>) < 100"
  by (simp add: model_world_def fresh_store_def empty_world_def)

lemma sample_call_runs:
  "\<exists>t v. model_call sample_model_gateway sample_handle [sample_question] False None (JObj []) model_world = (Inr t, v)"
proof -
  have "validate_history [sample_question] False = Inr {}"
    by (simp add: validate_history_def sample_question_def plain_message_def)
  moreover have "\<not> list_ex shows_image [sample_question]"
    by (simp add: shows_image_def sample_question_def plain_message_def)
  moreover obtain t v where "run_attempt sample_model_gateway sample_handle False (w_uuid model_world (w_seed model_world))
      [sample_question] (call_options sample_handle (call_reserve sample_handle None) (JObj []))
      (call_reserve sample_handle None) 0 False (model_world\<lparr>w_seed := Suc (w_seed model_world)\<rparr>) = (Inr (Inr t), v)"
    using sample_attempt by (metis sample_clock)
  ultimately show ?thesis
    by (simp add: model_call_def sample_fields bnd_def andthen_def raise_if_def)
qed


lemma model_call_bounded_witness:
  "permit_keys (snd (model_call (wired sample_call_host sample_model_gateway) sample_handle [sample_question] False None (JObj []) model_world))
     \<subseteq> permit_keys model_world"
  using model_call_bounded [of "{}" sample_handle "\<lambda>k. True" sample_call_host sample_model_gateway "[sample_question]" False None
      "JObj []" model_world, OF _ _ _ _ prod.collapse [symmetric]]
  by (simp add: sample_fields sample_provider_def provider_keeps_def frees.keeps_ret none_added.keeps_ret
      sample_call_host_def sample_model_gateway_def frees.refl_history none_added.refl_history)

end
