(* ===== verification/Model_Selection.thy ===== *)
theory Model_Selection
  imports Model_Calls
begin

text \<open>
  Choosing the model of a session and of a running run (\<^verbatim>\<open>harness/runtime/model_selection.py\<close>):
  preferences by compare-and-set, the control record of a run with its revision, the commands that
  change it, and the binding of each logical model call to one control revision under the run's fence.
\<close>

section \<open>Services used\<close>

record selection_services =
  ms_pinned :: "string option"
  ms_hot :: bool
  ms_gateway :: model_gateway
  ms_state :: gateway_state
  ms_host :: host_services
  ms_hash :: "json \<Rightarrow> string"

definition pinned_to :: "selection_services \<Rightarrow> string option" where
  "pinned_to s = (if text_given (ms_pinned s) then ms_pinned s else None)"

section \<open>Preferences\<close>

text \<open>The frozen rights of an agent other than the default one, saved the first time they are asked for.\<close>

definition freeze_legacy :: "selection_services \<Rightarrow> string \<Rightarrow> session_row \<Rightarrow> unit store" where
  "freeze_legacy s owner session =
     bnd (store_get ''session_legacy_bounds'' (se_id session)) (\<lambda>bounds.
     whenever (se_agent session \<noteq> ''default'' \<and> \<not> jtruthy (or_empty bounds))
       (bnd (store_get ''config/agents'' (se_agent session)) (\<lambda>original.
        whenever (jtruthy (or_empty original))
          (bnd (lift (jfield ''policy'' (or_empty original))) (\<lambda>ref.
           bnd (policy_for_agent (hs_revision (ms_host s))
             (Diagnostic \<lparr>d_id = '''', d_owner = owner, d_workspace = Some (se_workspace session),
                d_snapshot = '''', d_account = '''', d_deadline = 0, d_trace = ''''\<rparr>) ref) (\<lambda>p.
           store_put ''session_legacy_bounds'' (se_id session)
             (JObj [(''agent_spec'', or_empty original), (''policy'', p)])))))))"

definition preferences :: "selection_services \<Rightarrow> string \<Rightarrow> string \<Rightarrow> json store" where
  "preferences s owner sid =
     bnd (store_session sid (Some owner)) (\<lambda>session.
     transaction
       (andthen (freeze_legacy s owner session)
       (bnd (store_get ''session_preferences'' sid) (\<lambda>saved.
        if jtruthy (or_empty saved) then ret (or_empty saved)
        else
          bnd (store_get ''config/agents'' (se_agent session)) (\<lambda>agent.
          compare_and_set ''session_preferences'' sid None (JObj
            [(''session_id'', JStr sid), (''revision'', JInt 1), (''mode'', JStr ''react''),
             (''model_profile_ref'', jget ''profile_ref'' (jget_or ''model_policy'' (JObj []) (or_empty agent))),
             (''migration'', JStr ''frozen_original_agent''), (''legacy_agent_id'', JStr (se_agent session))])))))) "

text \<open>A profile that may be chosen. The gateway's own exceptions become one of the program's.\<close>

definition known_profile :: "selection_services \<Rightarrow> json \<Rightarrow> model_profile store" where
  "known_profile s ref =
     (case ref of
        JStr r \<Rightarrow> catch_all (get_profile (ms_gateway s) (ms_state s) (By_ref r))
          (\<lambda>e. case e of
             GwErr c again \<Rightarrow> raise (HErr ''MODEL_UNAVAILABLE'' 422)
           | PyTypeError \<Rightarrow> raise (HErr ''MODEL_UNAVAILABLE'' 422)
           | _ \<Rightarrow> raise e)
      | _ \<Rightarrow> raise (HErr ''MODEL_UNAVAILABLE'' 422))"

definition select_validate :: "selection_services \<Rightarrow> string \<Rightarrow> json \<Rightarrow> bool \<Rightarrow> model_profile store" where
  "select_validate s owner ref images =
     andthen (raise_if (case pinned_to s of None \<Rightarrow> False | Some p \<Rightarrow> ref \<noteq> JStr p)
       (HErr ''MODEL_PROFILE_PINNED'' 409))
     (bnd (known_profile s ref) (\<lambda>p.
      andthen (raise_if (JStr (profile_ref p) \<noteq> ref) (HErr ''MODEL_REFERENCE'' 422))
      (andthen (raise_if (\<not> supports p ''text'' \<or> \<not> supports p ''tool_calling'') (HErr ''MODEL_UNVERIFIED'' 422))
      (andthen (raise_if (images \<and> \<not> supports p ''vision'') (HErr ''VISION_UNVERIFIED'' 422))
      (bnd (diagnostic owner (profile_ref p) None 4) (\<lambda>ctx.
       andthen (check_model_policy (ms_host s) ctx p) (ret p)))))))"

definition has_images :: "json \<Rightarrow> bool" where
  "has_images parts \<longleftrightarrow> list_ex image_block (jitems parts)"

definition update_preferences ::
  "selection_services \<Rightarrow> string \<Rightarrow> string \<Rightarrow> json \<Rightarrow> json store" where
  "update_preferences s owner sid body =
     transaction
       (bnd (preferences s owner sid) (\<lambda>old.
        bnd (lift (jfield ''revision'' old)) (\<lambda>revision.
        bnd (lift (jfield ''expected_revision'' body)) (\<lambda>expected.
        andthen (raise_if (revision \<noteq> expected) (HErr ''REVISION_CONFLICT'' 409))
        (bnd (ret (jor (jget ''model_profile_ref'' body) (jget ''model_profile_ref'' old))) (\<lambda>ref.
         andthen (bnd (select_validate s owner ref False) (\<lambda>_. ret ()))
         (compare_and_set ''session_preferences'' sid (Some (jint revision))
           (jmerge old (JObj [(''revision'', JInt (jint revision + 1)),
             (''mode'', jor (jget ''mode'' body) (jget ''mode'' old)), (''model_profile_ref'', ref)]))))))))) "

section \<open>The catalogue of models\<close>

definition model_verified :: "json \<Rightarrow> string \<Rightarrow> bool" where
  "model_verified caps name \<longleftrightarrow> jget ''status'' (jget_or name (JObj []) caps) = JStr ''verified''"

definition config_ref :: "json \<Rightarrow> err + string" where
  "config_ref p = sum_bind (jfield ''profile_id'' p) (\<lambda>i. sum_bind (jfield ''revision'' p) (\<lambda>n.
     Inr (jstr i @ ''@'' @ int_text (jint n))))"

text \<open>Why a model cannot be chosen, as a code in place of the displayed reason.\<close>

definition disabled_reason :: "selection_services \<Rightarrow> bool \<Rightarrow> string \<Rightarrow> json \<Rightarrow> json" where
  "disabled_reason s images ref caps =
     (if (case pinned_to s of None \<Rightarrow> False | Some p \<Rightarrow> p \<noteq> ref) then JStr ''pinned''
      else if \<not> (model_verified caps ''text'' \<and> model_verified caps ''tool_calling'') then JStr ''unverified''
      else if images \<and> \<not> model_verified caps ''vision'' then JStr ''vision_unverified''
      else JNull)"

definition catalogue_item :: "selection_services \<Rightarrow> bool \<Rightarrow> json \<Rightarrow> err + json list" where
  "catalogue_item s images p =
     (if jget ''adapter_id'' p = JStr ''demo'' \<or> jget ''profile_id'' p = JStr ''demo'' then Inr []
      else
        sum_bind (config_ref p) (\<lambda>ref.
        sum_bind (jfield ''provider_id'' p) (\<lambda>provider.
        sum_bind (jfield ''model_id'' p) (\<lambda>model.
        Inr [JObj [(''profile_ref'', JStr ref), (''provider_id'', provider), (''model_id'', model),
          (''capabilities'', jget_or ''capabilities'' (JObj []) p),
          (''disabled_reason'', disabled_reason s images ref (jget_or ''capabilities'' (JObj []) p))]]))))"

definition offered_default :: "json list \<Rightarrow> json \<Rightarrow> json" where
  "offered_default items wanted =
     (if wanted \<in> jget ''profile_ref'' ` set items then wanted
      else case filter (\<lambda>i. jget ''disabled_reason'' i = JNull) items of
        i # _ \<Rightarrow> jget ''profile_ref'' i
      | [] \<Rightarrow> (case items of i # _ \<Rightarrow> jget ''profile_ref'' i | [] \<Rightarrow> JNull))"

definition available :: "selection_services \<Rightarrow> string \<Rightarrow> string option \<Rightarrow> json store" where
  "available s owner session =
     bnd (case session of
         None \<Rightarrow> ret False
       | Some i \<Rightarrow>
           if i = '''' then ret False
           else
             bnd (store_session i (Some owner)) (\<lambda>row.
             bnd (store_messages (se_branch row) None) (\<lambda>ms.
             ret (list_ex (\<lambda>m. has_images (jget_or ''content_parts'' (JList []) m)) ms)))) (\<lambda>images.
     bnd (store_list ''config/models'') (\<lambda>models.
     bnd (collect models (\<lambda>p. lift (catalogue_item s images p))) (\<lambda>found.
     bnd (store_get ''config/agents'' ''default'') (\<lambda>agent.
     bnd (lift (case agent of None \<Rightarrow> Inl PyTypeError | Some a \<Rightarrow> jfield ''model_policy'' a)) (\<lambda>mp.
     bnd (lift (jfield ''profile_ref'' mp)) (\<lambda>default.
     bnd (ret (concat found)) (\<lambda>items.
     ret (JObj
       [(''items'', JList items),
        (''pinned_profile_ref'', (case pinned_to s of
            Some p \<Rightarrow> if JStr p \<in> jget ''profile_ref'' ` set items then JStr p else JNull
          | None \<Rightarrow> JNull)),
        (''default_profile_ref'',
           offered_default items (case pinned_to s of Some p \<Rightarrow> JStr p | None \<Rightarrow> default))]))))))))"

section \<open>The model of a run\<close>

definition initial_control :: "string \<Rightarrow> json \<Rightarrow> json" where
  "initial_control run ref = JObj
     [(''run_id'', JStr run), (''control_revision'', JInt 0), (''effective_revision'', JInt 0),
      (''desired_profile_ref'', ref), (''effective_profile_ref'', ref), (''status'', JStr ''initial'')]"

definition run_control :: "string \<Rightarrow> json store" where
  "run_control run_id =
     bnd (store_run run_id None) (\<lambda>run.
     bnd (store_get ''run_model_controls'' run_id) (\<lambda>saved.
     if jtruthy (or_empty saved) then ret (or_empty saved)
     else
       bnd (store_get ''snapshots'' (r_snapshot run)) (\<lambda>snap.
       bnd (lift (case snap of None \<Rightarrow> Inl PyTypeError | Some d \<Rightarrow> jfield ''agent_spec'' d)) (\<lambda>agent.
       bnd (lift (jfield ''model_policy'' agent)) (\<lambda>mp.
       bnd (lift (jfield ''profile_ref'' mp)) (\<lambda>ref.
       ret (initial_control run_id ref)))))))"

text \<open>The command behind a control gets a new status; \<^verbatim>\<open>{**None}\<close> is a type error.\<close>

definition mark_command :: "json \<Rightarrow> (string \<times> json) list \<Rightarrow> unit store" where
  "mark_command identity changes =
     bnd (store_get ''run_model_commands'' (jstr identity)) (\<lambda>previous.
     bnd (need PyTypeError previous) (\<lambda>p.
     store_put ''run_model_commands'' (jstr identity) (jmerge p (JObj changes))))"

definition supersede :: "string \<Rightarrow> json \<Rightarrow> unit store" where
  "supersede run_id old =
     whenever (jtruthy (jget ''command_id'' old) \<and> jget ''status'' old = JStr ''requested'')
       (andthen (mark_command (jget ''command_id'' old) [(''status'', JStr ''superseded'')])
       (emit run_id ''model.selection.superseded'' (JObj [(''command_id'', jget ''command_id'' old)])))"

definition select_model :: "selection_services \<Rightarrow> string \<Rightarrow> string \<Rightarrow> json \<Rightarrow> json store" where
  "select_model s owner run_id body =
     andthen (raise_if (\<not> ms_hot s) (HErr ''MODEL_SELECTION_DISABLED'' 409))
     (bnd (store_run run_id (Some owner)) (\<lambda>seen.
      bnd (store_messages (r_branch seen) None) (\<lambda>ms.
      bnd (lift (jfield ''model_profile_ref'' body)) (\<lambda>wanted.
      andthen (bnd (select_validate s owner wanted
          (list_ex (\<lambda>m. has_images (jget_or ''content_parts'' (JList []) m)) ms)) (\<lambda>_. ret ()))
      (transaction
        (bnd (store_run run_id (Some owner)) (\<lambda>run.
         bnd (store_branch (r_branch run)) (\<lambda>branch.
         andthen (raise_if (r_status run \<in> {completed, failed, cancelled, cancelling} \<or> r_cancel run)
           (HErr ''RUN_STOPPED'' 409))
         (andthen (raise_if (b_active branch \<notin> {None, Some run_id} \<and> r_status run \<noteq> queued)
           (HErr ''RUN_BRANCH_CONFLICT'' 409))
         (bnd (run_control run_id) (\<lambda>old.
          bnd (lift (jfield ''control_revision'' old)) (\<lambda>revision.
          bnd (lift (jfield ''expected_control_revision'' body)) (\<lambda>expected.
          andthen (raise_if (revision \<noteq> expected) (HErr ''REVISION_CONFLICT'' 409))
          (andthen (whenever (jtruthy (jget ''persist_for_session'' body))
             (andthen (raise_if (jget ''expected_preferences_revision'' body = JNull)
                (HErr ''PREFERENCES_REVISION_REQUIRED'' 422))
              (bnd (update_preferences s owner (r_session run) (JObj
                 [(''model_profile_ref'', wanted),
                  (''expected_revision'', jget ''expected_preferences_revision'' body)])) (\<lambda>_. ret ()))))
          (andthen (supersede run_id old)
          (bnd new_id (\<lambda>identity.
           bnd utc_now (\<lambda>now.
           andthen (store_put ''run_model_commands'' identity (JObj
             [(''command_id'', JStr identity), (''run_id'', JStr run_id),
              (''control_revision'', JInt (jint revision + 1)), (''profile_ref'', wanted),
              (''owner_id'', JStr owner), (''accepted_at'', JInt (int now)), (''status'', JStr ''requested'')]))
           (bnd (ret (jmerge old (JObj
              [(''command_id'', JStr identity), (''control_revision'', JInt (jint revision + 1)),
               (''desired_profile_ref'', wanted), (''status'', JStr ''requested'')]))) (\<lambda>current.
            andthen (store_put ''run_model_controls'' run_id current)
            (andthen (emit run_id ''model.selection.requested'' current)
            (ret current))))))))))))))))))))))"

section \<open>Binding a logical call\<close>

definition logical_id ::
  "selection_services \<Rightarrow> execution_context \<Rightarrow> json list \<Rightarrow> int \<Rightarrow> string" where
  "logical_id s ctx messages step =
     ms_hash s (JList [JStr (c_run ctx), JInt (c_input_revision ctx), JInt step, JList messages])"

definition candidate :: "execution_context \<Rightarrow> string \<Rightarrow> json store" where
  "candidate ctx lid =
     andthen (assert_fence ctx False)
     (bnd (store_get ''model_call_bindings'' lid) (\<lambda>bound.
      bnd (run_control (c_run ctx)) (\<lambda>control.
      if jtruthy (or_empty bound) then ret (or_empty bound)
      else
        bnd (lift (jfield ''control_revision'' control)) (\<lambda>revision.
        bnd (lift (jfield ''desired_profile_ref'' control)) (\<lambda>ref.
        ret (JObj [(''logical_call_id'', JStr lid), (''run_id'', JStr (c_run ctx)), (''purpose'', JStr ''agent''),
          (''control_revision'', revision), (''profile_ref'', ref)]))))))"

definition bind_call :: "execution_context \<Rightarrow> json \<Rightarrow> string \<Rightarrow> json option store" where
  "bind_call ctx cand view_id =
     transaction
       (andthen (assert_fence ctx False)
       (bnd (lift (jfield ''logical_call_id'' cand)) (\<lambda>lid.
        bnd (store_get ''model_call_bindings'' (jstr lid)) (\<lambda>old.
        if jtruthy (or_empty old) then ret (Some (or_empty old))
        else
          bnd (run_control (c_run ctx)) (\<lambda>control.
          bnd (lift (jfield ''control_revision'' cand)) (\<lambda>mine.
          bnd (lift (jfield ''control_revision'' control)) (\<lambda>current_revision.
          if mine \<noteq> current_revision then ret None
          else
            bnd utc_now (\<lambda>now.
            bnd (lift (jfield ''profile_ref'' cand)) (\<lambda>ref.
            bnd (ret (jmerge cand (JObj [(''input_view_id'', JStr view_id),
               (''fencing_token'', JInt (c_fence ctx)), (''bound_at'', JInt (int now))]))) (\<lambda>binding.
            andthen (bnd (compare_and_set ''model_call_bindings'' (jstr lid) None binding) (\<lambda>_. ret ()))
            (bnd (ret (jmerge control (JObj [(''effective_profile_ref'', ref),
               (''effective_revision'', mine), (''status'', JStr ''applied'')]))) (\<lambda>current.
             andthen (store_put ''run_model_controls'' (c_run ctx) current)
             (andthen (whenever (jtruthy (jget ''command_id'' control))
                (mark_command (jget ''command_id'' control)
                  [(''status'', JStr ''applied''), (''logical_call_id'', lid)]))
             (andthen (emit (c_run ctx) ''model.selection.applied'' current)
             (ret (Some binding))))))))))))))))"

definition reject_call :: "execution_context \<Rightarrow> json \<Rightarrow> string \<Rightarrow> unit store" where
  "reject_call ctx cand code =
     transaction
       (andthen (assert_fence ctx False)
       (bnd (run_control (c_run ctx)) (\<lambda>control.
        bnd (lift (jfield ''control_revision'' cand)) (\<lambda>mine.
        bnd (lift (jfield ''control_revision'' control)) (\<lambda>current_revision.
        if mine \<noteq> current_revision then ret ()
        else
          bnd (ret (jmerge control (JObj [(''status'', JStr ''rejected''), (''reason'', JStr code)]))) (\<lambda>current.
          andthen (store_put ''run_model_controls'' (c_run ctx) current)
          (andthen (whenever (jtruthy (jget ''command_id'' control))
             (mark_command (jget ''command_id'' control)
               [(''status'', JStr ''rejected''), (''reason'', JStr code)]))
          (emit (c_run ctx) ''model.selection.rejected'' current))))))))"

definition finish_selection :: "run_row \<Rightarrow> unit store" where
  "finish_selection run =
     bnd (run_control (r_id run)) (\<lambda>control.
     bnd (lift (jfield ''status'' control)) (\<lambda>status.
     whenever (status = JStr ''requested'')
       (bnd (ret (jset ''status'' (JStr ''not_applied'') control)) (\<lambda>current.
        andthen (store_put ''run_model_controls'' (r_id run) current)
        (bnd (lift (jfield ''command_id'' control)) (\<lambda>identity.
         andthen (mark_command identity [(''status'', JStr ''not_applied'')])
         (emit (r_id run) ''model.selection.not_applied'' current)))))))"

end
