(* ===== verification/Selection_Steps.thy ===== *)
theory Selection_Steps
  imports Model_Selection
begin

text \<open>
  What choosing models keeps, over histories of \<open>Model_Selection\<close>: bindings are permanent and control
  revisions only grow; and what binding achieves: a worker that holds the fence gets its call bound.
\<close>

section \<open>What selection never undoes\<close>

text \<open>
  The control revision of a run as the control record has it, and the order on worlds that every
  operation here respects: a bound call keeps its binding, and control revisions do not go back.
\<close>

definition control_revision :: "world \<Rightarrow> string \<Rightarrow> int" where
  "control_revision w run =
     (let c = or_empty (record_value w ''run_model_controls'' run) in
      if jtruthy c then jint (jget ''control_revision'' c) else 0)"

definition bound_to :: "world \<Rightarrow> string \<Rightarrow> json \<Rightarrow> bool" where
  "bound_to w lid b \<longleftrightarrow> record_value w ''model_call_bindings'' lid = Some b \<and> jtruthy b"

definition selection_order :: "world \<Rightarrow> world \<Rightarrow> bool" where
  "selection_order w v \<longleftrightarrow>
     (\<forall>lid b. bound_to w lid b \<longrightarrow> bound_to v lid b) \<and>
     (\<forall>run. control_revision w run \<le> control_revision v run)"

definition selection_view :: "world \<Rightarrow> (string \<Rightarrow> json option) \<times> (string \<Rightarrow> json option)" where
  "selection_view w = (record_value w ''model_call_bindings'', record_value w ''run_model_controls'')"

lemma selection_view_records: "t_records w = t_records v \<Longrightarrow> selection_view w = selection_view v"
  by (simp add: selection_view_def record_value_def record_at_def fun_eq_iff)

lemma view_order: "selection_view w = selection_view v \<Longrightarrow> selection_order w v"
  by (simp add: selection_view_def selection_order_def bound_to_def control_revision_def)

interpretation selection: db_history selection_order
proof unfold_locales
  show "selection_order u w" if "selection_order u v" "selection_order v w" for u v w
    using that unfolding selection_order_def by (blast intro: order_trans)
qed (rule view_order, rule selection_view_records, simp)+

interpretation same_selection: db_history "same_view selection_view"
  by unfold_locales (simp_all add: same_view_def selection_view_def record_value_def record_at_def fun_eq_iff)

lemma keeps_selected: "keeps (same_view selection_view) m \<Longrightarrow> keeps selection_order m"
  by (erule tri_mono) (simp add: same_view_def view_order)

lemma records_selected: "keeps (same_view t_records) m \<Longrightarrow> keeps (same_view selection_view) m"
  by (erule tri_mono) (unfold same_view_def, rule selection_view_records)

text \<open>Events, accounts and writes to other namespaces do not touch the selection.\<close>

lemma view_update_table: "(\<And>w f. view (upd f w) = view w) \<Longrightarrow> keeps (same_view view) (update_where upd p g)"
  by (simp add: tri_def same_view_def)

lemma view_insert_table: "(\<And>w f. view (upd f w) = view w) \<Longrightarrow> keeps (same_view view) (insert_unique tbl upd key row)"
  by (simp add: tri_def same_view_def insert_unique_apply)

lemma records_events: "keeps (same_view t_records) (store_event run ty d)" "keeps (same_view t_records) (emit run ty d)"
proof -
  have outbox: "keeps (same_view t_records) (store_outbox c k p)" for c k p
    unfolding store_outbox_def by (intro same_records.keeps_db keeps_modify) (simp add: same_view_def)
  show e: "keeps (same_view t_records) (store_event run ty d)" for run ty d
    unfolding store_event_def
    by (intro same_records.keeps_db same_records.keeps_reads outbox view_update_table keeps_modify)
      (simp_all add: same_view_def)
  show "keeps (same_view t_records) (emit run ty d)"
    unfolding emit_def by (intro same_records.keeps_db e)
qed

lemma records_account: "keeps (same_view t_records) (add_account i sc si ls)"
  unfolding add_account_def by (intro same_records.keeps_db view_insert_table) simp

lemma writes_elsewhere:
  assumes "ns \<noteq> ''model_call_bindings''" and "ns \<noteq> ''run_model_controls''"
  shows "keeps (same_view selection_view) (compare_and_set ns k e v)"
    and "keeps (same_view selection_view) (store_put ns k v)"
proof -
  have up: "keeps (same_view selection_view) (modify (upsert_record (new_record ns k n v)))" for n
    using assms by (intro keeps_modify)
      (simp add: same_view_def selection_view_def record_value_def record_at_upsert fun_eq_iff)
  have ver: "keeps (same_view selection_view) (insert_version r)" for r
    unfolding insert_version_def
    by (intro same_selection.keeps_db keeps_modify)
      (simp add: same_view_def selection_view_def fun_eq_iff)
  show cas: "keeps (same_view selection_view) (compare_and_set ns k e v)" for e
    unfolding compare_and_set_def Let_def new_record_def [symmetric]
    by (intro same_selection.keeps_db up ver)
  show "keeps (same_view selection_view) (store_put ns k v)"
    unfolding store_put_def by (intro same_selection.keeps_db cas)
qed

lemma keeps_mark_command: "keeps (same_view selection_view) (mark_command i cs)"
  unfolding mark_command_def
  by (intro same_selection.keeps_db same_selection.keeps_reads writes_elsewhere) simp_all

lemma keeps_diagnostic: "keeps (same_view selection_view) (diagnostic owner ref ws n)"
  unfolding diagnostic_def
  by (intro same_selection.keeps_db same_selection.keeps_misc_reads records_selected [OF records_account])

lemma keeps_known_profile: "keeps (same_view selection_view) (known_profile s ref)"
proof -
  have "keeps (same_view selection_view) (get_profile gw gs (By_ref r))" for gw gs r
    unfolding get_profile_def profile_arg.case
    by (intro same_selection.keeps_db same_selection.keeps_reads)
  moreover have "keeps (same_view selection_view) (case e of GwErr c a \<Rightarrow> raise x | PyTypeError \<Rightarrow> raise y | _ \<Rightarrow> raise e)"
    for e x y by (cases e) (simp_all add: view.keeps_raise)
  ultimately show ?thesis
    unfolding known_profile_def
    by (cases ref) (simp_all only: json.case, (intro view.keeps_raise view.keeps_catch_all; assumption)+)
qed

lemma keeps_select_validate: "keeps (same_view selection_view) (select_validate s owner ref images)"
  unfolding select_validate_def
  by (intro same_selection.keeps_db keeps_known_profile keeps_diagnostic same_selection.keeps_services)

lemma keeps_preferences:
  "keeps (same_view selection_view) (preferences s owner sid)"
  "keeps (same_view selection_view) (update_preferences s owner sid body)"
proof -
  show p: "keeps (same_view selection_view) (preferences s owner sid)" for s owner sid
    unfolding preferences_def freeze_legacy_def
    by (intro same_selection.keeps_db same_selection.keeps_misc_reads same_selection.keeps_reads
        same_selection.keeps_policy writes_elsewhere) simp_all
  show "keeps (same_view selection_view) (update_preferences s owner sid body)"
    unfolding update_preferences_def
    by (intro same_selection.keeps_db p keeps_select_validate writes_elsewhere) simp_all
qed

lemma keeps_run_control: "keeps (same_view selection_view) (run_control run)"
  unfolding run_control_def by (intro same_selection.keeps_db same_selection.keeps_reads)

lemma keeps_supersede: "keeps (same_view selection_view) (supersede run old)"
  unfolding supersede_def
  by (intro same_selection.keeps_db keeps_mark_command records_selected [OF records_events(2)])

text \<open>Facts about the selection last through operations that do not touch it.\<close>

lemma selected_tri:
  assumes "keeps (same_view selection_view) m" and "\<And>w v. selection_view w = selection_view v \<Longrightarrow> K w = K v"
  shows "tri selection_order K m (\<lambda>_. K)"
proof (rule triI)
  fix w r v
  assume K: "K w" and run: "m w = (r, v)"
  have same: "selection_view v = selection_view w" using triD(1) [OF assms(1) _ run] by (simp add: same_view_def)
  then have "selection_order w v" by (intro view_order) simp
  moreover have "K v" using K assms(2) [OF same] by simp
  ultimately show "selection_order w v \<and> (\<forall>x. r = Inr x \<longrightarrow> K v)" by simp
qed

lemma revision_view: "selection_view w = selection_view v \<Longrightarrow> control_revision w run = control_revision v run"
  by (simp add: control_revision_def selection_view_def)

lemma bound_view: "selection_view w = selection_view v \<Longrightarrow> bound_to w lid b = bound_to v lid b"
  by (simp add: bound_to_def selection_view_def)

text \<open>The control that is read has the recorded revision.\<close>

lemma run_control_Inr:
  assumes "run_control run w = (Inr c, v)"
  shows "v = w" and "jint (jget ''control_revision'' c) = control_revision w run"
    and "jtruthy (or_empty (record_value w ''run_model_controls'' run)) \<Longrightarrow> record_value w ''run_model_controls'' run = Some c"
proof -
  from assms show "v = w" "jtruthy (or_empty (record_value w ''run_model_controls'' run)) \<Longrightarrow>
      record_value w ''run_model_controls'' run = Some c"
    by (auto simp: run_control_def act_iffs lift_iffs store_run_Inr store_get_def or_empty_def split: if_splits option.splits)
  from assms show "jint (jget ''control_revision'' c) = control_revision w run"
    by (auto simp: run_control_def act_iffs lift_iffs store_run_Inr store_get_def control_revision_def
        initial_control_def jget_def split: if_splits)
qed

lemma tri_run_control:
  "tri selection_order (\<lambda>_. True) (run_control run) (\<lambda>c w. jint (jget ''control_revision'' c) = control_revision w run)"
proof (rule triI)
  fix w r v
  assume run: "run_control run w = (r, v)"
  have "selection_view v = selection_view w"
    using triD(1) [OF keeps_run_control _ run] by (simp add: same_view_def)
  then have "selection_order w v" "control_revision w run = control_revision v run"
    by (auto intro: view_order revision_view)
  with run run_control_Inr(2) show "selection_order w v \<and>
      (\<forall>c. r = Inr c \<longrightarrow> jint (jget ''control_revision'' c) = control_revision v run)" by auto
qed

text \<open>The values after a write, whether or not it was let through.\<close>

lemma record_value_upsert:
  "record_value (upsert_record (new_record ns k n x) w) ns' k' =
     (if ns' = ns \<and> k' = k then Some x else record_value w ns' k')"
  by (simp add: record_value_def record_at_upsert)

lemma compare_and_set_values:
  assumes "compare_and_set ns k e x w = (r, u)"
  shows "(\<forall>ns' k'. record_value u ns' k' = record_value w ns' k') \<or>
    (\<forall>ns' k'. record_value u ns' k' = (if ns' = ns \<and> k' = k then Some x else record_value w ns' k'))"
proof (cases "w_active w")
  case True
  with assms show ?thesis
    by (auto simp: compare_and_set_def Let_def new_record_def [symmetric] insert_version_def bnd_def andthen_def
        whenever_def raise_if_def record_value_upsert split: if_splits)
next
  case False
  with assms show ?thesis
    by (auto simp: compare_and_set_eval Let_def record_value_written split: if_splits)
qed

lemma store_put_values:
  assumes "store_put ns k x w = (r, u)"
  shows "(\<forall>ns' k'. record_value u ns' k' = record_value w ns' k') \<or>
    (\<forall>ns' k'. record_value u ns' k' = (if ns' = ns \<and> k' = k then Some x else record_value w ns' k'))"
proof (cases "w_active w")
  case True
  with assms obtain r' where "compare_and_set ns k (Some (record_revision w ns k)) x w = (r', u)"
    by (auto simp: store_put_def bnd_def andthen_def split: prod.splits sum.splits)
  then show ?thesis by (rule compare_and_set_values)
next
  case False
  with assms show ?thesis
    by (auto simp: store_put_eval Let_def record_value_written split: if_splits)
qed

lemma tri_put_control:
  assumes "jtruthy c"
  shows "tri selection_order (\<lambda>w. control_revision w run \<le> jint (jget ''control_revision'' c))
    (store_put ''run_model_controls'' run c) (\<lambda>_ _. True)"
proof (rule triI)
  fix w r u
  assume rev: "control_revision w run \<le> jint (jget ''control_revision'' c)"
    and put: "store_put ''run_model_controls'' run c w = (r, u)"
  from store_put_values [OF put] have "selection_order w u"
  proof
    assume same: "\<forall>ns' k'. record_value u ns' k' = record_value w ns' k'"
    show ?thesis by (rule view_order) (simp add: selection_view_def same fun_eq_iff)
  next
    assume new: "\<forall>ns' k'. record_value u ns' k' =
      (if ns' = ''run_model_controls'' \<and> k' = run then Some c else record_value w ns' k')"
    have "control_revision u run = jint (jget ''control_revision'' c)"
      using assms by (simp add: control_revision_def new or_empty_def)
    moreover have "control_revision u run' = control_revision w run'" if "run' \<noteq> run" for run'
      using that by (simp add: control_revision_def new)
    ultimately have "control_revision w run' \<le> control_revision u run'" for run'
      using rev by (cases "run' = run") simp_all
    moreover have "bound_to w lid b \<Longrightarrow> bound_to u lid b" for lid b by (simp add: bound_to_def new)
    ultimately show ?thesis by (simp add: selection_order_def)
  qed
  then show "selection_order w u \<and> (\<forall>x. r = Inr x \<longrightarrow> True)" by simp
qed

lemma tri_new_binding:
  "tri selection_order (\<lambda>w. \<not> jtruthy (or_empty (record_value w ''model_call_bindings'' lid)))
     (compare_and_set ''model_call_bindings'' lid e b) (\<lambda>_ _. True)"
proof (rule triI)
  fix w r u
  assume free: "\<not> jtruthy (or_empty (record_value w ''model_call_bindings'' lid))"
    and cas: "compare_and_set ''model_call_bindings'' lid e b w = (r, u)"
  from compare_and_set_values [OF cas] have "selection_order w u"
  proof
    assume same: "\<forall>ns' k'. record_value u ns' k' = record_value w ns' k'"
    show ?thesis by (rule view_order) (simp add: selection_view_def same fun_eq_iff)
  next
    assume new: "\<forall>ns' k'. record_value u ns' k' =
      (if ns' = ''model_call_bindings'' \<and> k' = lid then Some b else record_value w ns' k')"
    have "\<not> bound_to w lid b'" for b' using free by (auto simp: bound_to_def or_empty_def)
    then have "bound_to w lid' b' \<Longrightarrow> bound_to u lid' b'" for lid' b'
      by (auto simp: bound_to_def new)
    moreover have "control_revision u run = control_revision w run" for run by (simp add: control_revision_def new)
    ultimately show ?thesis by (simp add: selection_order_def)
  qed
  then show "selection_order w u \<and> (\<forall>x. r = Inr x \<longrightarrow> True)" by simp
qed

lemma lookup_truthy: "jlookup k c = Some x \<Longrightarrow> jtruthy c"
  by (cases c) auto

lemma jlookup_merged:
  "jlookup k (jmerge j (JObj kvs)) = (case map_of (rev kvs) k of None \<Rightarrow> jlookup k j | Some v \<Rightarrow> Some v)"
proof -
  have "jlookup k (fold (\<lambda>(k, v) acc. jset k v acc) kvs j) =
      (case map_of (rev kvs) k of None \<Rightarrow> jlookup k j | Some v \<Rightarrow> Some v)"
  proof (induction kvs arbitrary: j)
    case (Cons e kvs)
    then show ?case by (cases e) (auto simp: map_add_def split: option.split)
  qed simp
  then show ?thesis by simp
qed

lemma jget_merged:
  "jget k (jmerge j (JObj kvs)) = (case map_of (rev kvs) k of None \<Rightarrow> jget k j | Some v \<Rightarrow> v)"
  by (simp add: jget_def jlookup_merged del: jmerge.simps split: option.split)

lemma keep_revision:
  "keeps (same_view selection_view) m \<Longrightarrow>
   tri selection_order (\<lambda>w. control_revision w run = n) m (\<lambda>_ w. control_revision w run = n)"
  by (erule selected_tri) (metis revision_view)

lemma control_then:
  assumes "\<And>c revision. tri selection_order (\<lambda>w. jlookup ''control_revision'' c = Some revision \<and>
      control_revision w run = jint revision) (f c revision) (\<lambda>_ _. True)"
  shows "keeps selection_order (bnd (run_control run) (\<lambda>c. bnd (lift (jfield ''control_revision'' c)) (f c)))"
proof (rule selection.tri_bnd [OF tri_run_control], rule selection.tri_bnd)
  fix c
  show "tri selection_order (\<lambda>w. jint (jget ''control_revision'' c) = control_revision w run)
      (lift (jfield ''control_revision'' c))
      (\<lambda>revision w. jlookup ''control_revision'' c = Some revision \<and> control_revision w run = jint revision)"
    by (rule tri_pre [OF selection.tri_lift]) (auto simp: jfield_def jget_def split: option.splits)
qed (rule assms)

lemma put_same_revision:
  assumes "jlookup ''control_revision'' c = Some revision" and "jlookup ''control_revision'' d = jlookup ''control_revision'' c"
  shows "tri selection_order (\<lambda>w. control_revision w run = jint revision) (store_put ''run_model_controls'' run d) (\<lambda>_ _. True)"
proof (rule tri_pre [OF tri_put_control])
  show "jtruthy d" using assms lookup_truthy by metis
  show "control_revision w run \<le> jint (jget ''control_revision'' d)" if "control_revision w run = jint revision" for w
    using that assms by (simp add: jget_def)
qed

lemma put_next_revision:
  assumes "jlookup ''control_revision'' d = Some (JInt (jint revision + 1))"
  shows "tri selection_order (\<lambda>w. control_revision w run = jint revision) (store_put ''run_model_controls'' run d) (\<lambda>_ _. True)"
proof (rule tri_pre [OF tri_put_control])
  show "jtruthy d" using assms lookup_truthy by metis
  show "control_revision w run \<le> jint (jget ''control_revision'' d)" if "control_revision w run = jint revision" for w
    using that assms by (simp add: jget_def)
qed

lemma keeps_ordered_emit: "keeps selection_order (emit run ty d)"
  by (rule keeps_selected [OF records_selected [OF records_events(2)]])

lemma keeps_put_command: "keeps (same_view selection_view) (store_put ''run_model_commands'' i c)"
  by (rule writes_elsewhere) simp_all

lemma keeps_selection_checks:
  "keeps (same_view selection_view) (store_run i own)" "keeps (same_view selection_view) (store_branch b)"
  "keeps (same_view selection_view) (store_messages b r)" "keeps (same_view selection_view) (raise_if c e)"
  "keeps (same_view selection_view) (lift x)" "keeps (same_view selection_view) new_id"
  "keeps (same_view selection_view) utc_now" "keeps (same_view selection_view) (ret y)"
  "keeps (same_view selection_view) (assert_fence ctx al)" "keeps (same_view selection_view) (store_get ns k)"
  by (intro same_selection.keeps_db same_selection.keeps_reads)+

lemmas selection_quiet = keeps_selection_checks keeps_supersede keeps_put_command keeps_mark_command keeps_preferences

lemma then_keep:
  "keeps (same_view selection_view) m \<Longrightarrow>
   (\<And>x. tri selection_order (\<lambda>w. control_revision w run = n) (f x) (\<lambda>_ _. True)) \<Longrightarrow>
   tri selection_order (\<lambda>w. control_revision w run = n) (bnd m f) (\<lambda>_ _. True)"
  by (rule selection.tri_bnd [OF keep_revision])

lemma and_keep:
  "keeps (same_view selection_view) m \<Longrightarrow>
   tri selection_order (\<lambda>w. control_revision w run = n) k (\<lambda>_ _. True) \<Longrightarrow>
   tri selection_order (\<lambda>w. control_revision w run = n) (andthen m k) (\<lambda>_ _. True)"
  unfolding andthen_def by (rule then_keep)

lemma bnd_ret: "bnd (ret x) f = f x"
  by (rule ext) simp

lemma tri_condition: "(P \<Longrightarrow> tri R K m Q) \<Longrightarrow> tri R (\<lambda>w. P \<and> K w) m Q"
  by (auto simp: tri_def)

lemma keeps_select_model: "keeps selection_order (select_model s owner run_id body)"
proof -
  have put: "tri selection_order (\<lambda>w. control_revision w run_id = jint revision)
      (store_put ''run_model_controls'' run_id (jmerge old (JObj
              [(''command_id'', i), (''control_revision'', JInt (jint revision + 1)),
               (''desired_profile_ref'', wanted), (''status'', st)]))) (\<lambda>_ _. True)" for revision i wanted st old
    by (rule put_next_revision) (simp add: jlookup_merged del: jmerge.simps)
  have pref: "keeps (same_view selection_view) (whenever b
             (andthen (raise_if c e) (bnd (update_preferences s owner sid body') (\<lambda>_. ret ()))))" for b c e sid body'
    by (intro same_selection.keeps_db keeps_preferences)
  show ?thesis
    unfolding select_model_def bnd_ret
    by (rule selection.keeps_andthen [OF selection.keeps_raise_if],
        rule selection.keeps_bnd [OF keeps_selected [OF keeps_selection_checks(1)]],
        rule selection.keeps_bnd [OF keeps_selected [OF keeps_selection_checks(3)]],
        rule selection.keeps_bnd [OF selection.keeps_lift],
        rule selection.keeps_andthen [OF selection.keeps_bnd [OF keeps_selected [OF keeps_select_validate] selection.keeps_ret]],
        rule selection.keeps_transaction,
        rule selection.keeps_bnd [OF keeps_selected [OF keeps_selection_checks(1)]],
        rule selection.keeps_bnd [OF keeps_selected [OF keeps_selection_checks(2)]],
        rule selection.keeps_andthen [OF selection.keeps_raise_if],
        rule selection.keeps_andthen [OF selection.keeps_raise_if],
        rule control_then, rule tri_condition,
        rule then_keep [OF keeps_selection_checks(5)], rule and_keep [OF keeps_selection_checks(4)],
        rule and_keep [OF pref], rule and_keep [OF keeps_supersede],
        rule then_keep [OF keeps_selection_checks(6)], rule then_keep [OF keeps_selection_checks(7)],
        rule and_keep [OF keeps_put_command],
        rule selection.tri_andthen [OF put], rule selection.keeps_andthen [OF keeps_ordered_emit selection.keeps_ret])
qed

lemma control_next:
  assumes "\<And>c. tri selection_order (\<lambda>w. control_revision w run = jint (jget ''control_revision'' c)) (f c) (\<lambda>_ _. True)"
  shows "keeps selection_order (bnd (run_control run) f)"
  by (rule selection.tri_bnd [OF tri_post [OF tri_run_control]], erule sym, rule assms)

lemma put_kept:
  assumes "jget ''control_revision'' d = jget ''control_revision'' c" and "jlookup ''status'' d \<noteq> None"
  shows "tri selection_order (\<lambda>w. control_revision w run = jint (jget ''control_revision'' c))
    (store_put ''run_model_controls'' run d) (\<lambda>_ _. True)"
proof (rule tri_pre [OF tri_put_control])
  show "jtruthy d" using assms(2) lookup_truthy by fastforce
qed (simp add: assms(1))

lemma tri_else: "(b \<Longrightarrow> keeps selection_order m) \<Longrightarrow> tri selection_order K k (\<lambda>_ _. True) \<Longrightarrow>
   tri selection_order K (if b then m else k) (\<lambda>_ _. True)"
  by (auto intro: tri_pre)

lemma keeps_reject_call: "keeps selection_order (reject_call ctx cand code)"
proof -
  have put: "tri selection_order (\<lambda>w. control_revision w run = jint (jget ''control_revision'' c))
      (store_put ''run_model_controls'' run (jmerge c (JObj [(''status'', x), (''reason'', y)]))) (\<lambda>_ _. True)"
    for c run x y
    by (rule put_kept) (simp_all add: jget_merged jlookup_merged del: jmerge.simps)
  have mark: "keeps selection_order (andthen (whenever b (mark_command i cs)) (emit run ty d))" for b i cs run ty d
    by (intro selection.keeps_db keeps_selected [OF keeps_mark_command] keeps_ordered_emit)
  show ?thesis
    unfolding reject_call_def bnd_ret
    by (rule selection.keeps_transaction, rule selection.keeps_andthen [OF keeps_selected [OF keeps_selection_checks(9)]],
        rule control_next, rule then_keep [OF keeps_selection_checks(5)], rule then_keep [OF keeps_selection_checks(5)],
        rule tri_else [OF selection.keeps_ret], rule selection.tri_andthen [OF put mark])
qed

lemma keeps_finish_selection: "keeps selection_order (finish_selection run)"
proof -
  have put: "tri selection_order (\<lambda>w. control_revision w i = jint (jget ''control_revision'' c))
      (store_put ''run_model_controls'' i (jset ''status'' x c)) (\<lambda>_ _. True)" for c i x
    by (rule put_kept) simp_all
  have mark: "keeps selection_order (bnd (lift x) (\<lambda>identity. andthen (mark_command identity cs) (emit run ty d)))"
    for x cs run ty d
    by (intro selection.keeps_db keeps_selected [OF keeps_mark_command] keeps_ordered_emit)
  have skip: "tri selection_order K m (\<lambda>_ _. True) \<Longrightarrow> tri selection_order K (whenever b m) (\<lambda>_ _. True)" for K b m
    by (cases b) (simp_all add: tri_def selection.refl_history)
  show ?thesis
    unfolding finish_selection_def bnd_ret
    by (rule control_next, rule then_keep [OF keeps_selection_checks(5)], rule skip, rule selection.tri_andthen [OF put mark])
qed

text \<open>Binding: the call is still unbound, and the control read is the current one.\<close>

abbreviation unbound :: "string \<Rightarrow> world \<Rightarrow> bool" where
  "unbound lid w \<equiv> \<not> jtruthy (or_empty (record_value w ''model_call_bindings'' lid))"

abbreviation unbound_at :: "string \<Rightarrow> string \<Rightarrow> json \<Rightarrow> world \<Rightarrow> bool" where
  "unbound_at lid run c w \<equiv> unbound lid w \<and> control_revision w run = jint (jget ''control_revision'' c)"

lemma unbound_views:
  "selection_view w = selection_view v \<Longrightarrow> unbound lid w = unbound lid v \<and> unbound_at lid run c w = unbound_at lid run c v"
  by (simp add: selection_view_def control_revision_def)

lemma keep_unbound:
  "keeps (same_view selection_view) m \<Longrightarrow> tri selection_order (unbound_at lid run c) m (\<lambda>_. unbound_at lid run c)"
  by (erule selected_tri) (use unbound_views in blast)

lemma tri_unbound_control:
  "tri selection_order (unbound lid) (run_control run) (\<lambda>c. unbound_at lid run c)"
proof (rule tri_conseq [OF tri_mono [OF tri_conj]])
  show "tri selection_order (\<lambda>_. True) (run_control run) (\<lambda>c w. jint (jget ''control_revision'' c) = control_revision w run)"
    by (rule tri_run_control)
  show "tri selection_order (unbound lid) (run_control run) (\<lambda>_. unbound lid)"
    by (rule selected_tri [OF keeps_run_control]) (use unbound_views in blast)
qed simp_all

lemma tri_write_binding:
  "tri selection_order (unbound_at lid run c) (bnd (compare_and_set ''model_call_bindings'' lid e b) (\<lambda>_. ret ()))
     (\<lambda>_ w. control_revision w run = jint (jget ''control_revision'' c))"
proof (rule selection.tri_bnd [OF _ selection.tri_ret])
  have "tri (\<lambda>_ _. True) (\<lambda>w. control_revision w run = n) (compare_and_set ''model_call_bindings'' lid e b)
      (\<lambda>_ w. control_revision w run = n)" for n
  proof (rule triI)
    fix w r u
    assume "control_revision w run = n" and step: "compare_and_set ''model_call_bindings'' lid e b w = (r, u)"
    with compare_and_set_values [OF step]
    show "True \<and> (\<forall>x. r = Inr x \<longrightarrow> control_revision u run = n)" by (auto simp: control_revision_def)
  qed
  then show "tri selection_order (unbound_at lid run c) (compare_and_set ''model_call_bindings'' lid e b)
      (\<lambda>_ w. control_revision w run = jint (jget ''control_revision'' c))"
    by (rule tri_conseq [OF tri_mono [OF tri_conj [OF tri_new_binding]]]) simp_all
qed

lemma tri_unless_bound:
  "tri selection_order (unbound lid) m (\<lambda>_ _. True) \<Longrightarrow>
   keeps selection_order (bnd (store_get ''model_call_bindings'' lid)
     (\<lambda>old. if jtruthy (or_empty old) then ret (x old) else m))"
  by (auto simp: store_get_def tri_def bnd_def selection.refl_history)

lemma keeps_bind_call: "keeps selection_order (bind_call ctx cand view_id)"
proof -
  have put: "tri selection_order (\<lambda>w. control_revision w run = jint (jget ''control_revision'' c))
      (store_put ''run_model_controls'' run (jmerge c (JObj
         [(''effective_profile_ref'', x), (''effective_revision'', y), (''status'', z)]))) (\<lambda>_ _. True)" for c run x y z
    by (rule put_kept) (simp_all add: jget_merged jlookup_merged del: jmerge.simps)
  have mark: "keeps selection_order (andthen (whenever b (mark_command i cs)) (andthen (emit run ty d) (ret r)))"
    for b i cs run ty d and r :: "json option"
    by (intro selection.keeps_db keeps_selected [OF keeps_mark_command] keeps_ordered_emit)
  show ?thesis
    unfolding bind_call_def bnd_ret
    by (rule selection.keeps_transaction, rule selection.keeps_andthen [OF keeps_selected [OF keeps_selection_checks(9)]],
        rule selection.keeps_bnd [OF selection.keeps_lift], rule tri_unless_bound,
        rule selection.tri_bnd [OF tri_unbound_control],
        rule selection.tri_bnd [OF keep_unbound [OF keeps_selection_checks(5)]],
        rule selection.tri_bnd [OF keep_unbound [OF keeps_selection_checks(5)]],
        rule tri_else [OF selection.keeps_ret],
        rule selection.tri_bnd [OF keep_unbound [OF keeps_selection_checks(7)]],
        rule selection.tri_bnd [OF keep_unbound [OF keeps_selection_checks(5)]],
        rule selection.tri_andthen [OF tri_write_binding], rule selection.tri_andthen [OF put mark])
qed

section \<open>Binding comes to an end\<close>

text \<open>In a well-formed store writes go through, also inside a transaction.\<close>

lemma cas_through:
  assumes "wf_records w" and "record_revision w ns k = (case e of None \<Rightarrow> 0 | Some n \<Rightarrow> n)"
  shows "compare_and_set ns k e x w = (Inr x, written (new_record ns k (record_revision w ns k + 1) x) w)"
proof -
  have free: "\<not> version_taken w (new_record ns k (record_revision w ns k + 1) x)" by (rule version_not_taken [OF assms(1)])
  show ?thesis
  proof (cases "w_active w")
    case True
    with assms(2) free show ?thesis
      by (simp add: compare_and_set_def Let_def new_record_def [symmetric] insert_version_def bnd_def andthen_def
          whenever_def raise_if_def version_taken_def written_def) auto
  next
    case False
    with assms(2) free show ?thesis by (simp add: compare_and_set_eval Let_def)
  qed
qed

lemma put_through:
  assumes "wf_records w"
  shows "store_put ns k x w = (Inr (), written (new_record ns k (record_revision w ns k + 1) x) w)"
proof (cases "w_active w")
  case True
  then show ?thesis by (simp add: store_put_def bnd_def andthen_def cas_through [OF assms])
next
  case False
  with version_not_taken [OF assms] show ?thesis by (simp add: store_put_eval Let_def)
qed

lemma written_frame [simp]:
  "run_at (written r w) i = run_at w i" "t_events (written r w) = t_events w" "w_seed (written r w) = w_seed w"
  "w_uuid (written r w) = w_uuid w" "w_now (written r w) = w_now w" "w_active (written r w) = w_active w"
  "core (written r w) = core w" "log_inv (written r w) = log_inv w"
  proof -
  show tables: "run_at (written r w) i = run_at w i" "t_events (written r w) = t_events w" "w_seed (written r w) = w_seed w"
    "w_uuid (written r w) = w_uuid w" "w_now (written r w) = w_now w" "w_active (written r w) = w_active w"
    "core (written r w) = core w" for i
    by (simp_all add: written_def upsert_record_def run_at_def core_def)
  have "run_log (written r w) i = run_log w i" for i by (simp add: run_log_def tables)
  then show "log_inv (written r w) = log_inv w" by (simp add: log_inv_def tables cong: option.case_cong)
qed

lemma wf_active [simp]: "wf_records (w\<lparr>w_active := b\<rparr>) = wf_records w"
  by (simp add: wf_records_def)

text \<open>A run's next event is recorded whenever its log is sound and the identity drawn for it is fresh.\<close>

lemma emit_through:
  assumes "run_at w i = Some r" and "log_inv w" and "w_uuid w (w_seed w) \<notin> e_id ` set (t_events w)" and "w_active w"
  shows "\<exists>v. emit i ty d w = (Inr (), v) \<and> t_records v = t_records w"
proof -
  have "(i, r_next_seq r) \<notin> (\<lambda>e. (e_run e, e_seq e)) ` set (t_events w)"
  proof
    assume "(i, r_next_seq r) \<in> (\<lambda>e. (e_run e, e_seq e)) ` set (t_events w)"
    then have "r_next_seq r \<in> set (map e_seq (run_log w i))" by (auto simp: run_log_def)
    moreover have "map e_seq (run_log w i) = [1..r_next_seq r - 1]"
      using assms(1) assms(2)[unfolded log_inv_def, rule_format, of i] by simp
    ultimately show False by simp
  qed
  with assms(3) have free: "\<not> ((i, r_next_seq r) \<in> (\<lambda>e. (e_run e, e_seq e)) ` set (t_events w) \<or>
      w_uuid w (w_seed w) \<in> e_id ` set (t_events w))" by simp
  let ?e = "event_for i ty d w r"
  let ?u = "t_events_update (\<lambda>rs. rs @ [?e]) (t_runs_update (update_rows (\<lambda>r. r_id r = i)
    (\<lambda>r. r\<lparr>r_next_seq := r_next_seq r + 1\<rparr>)) (w\<lparr>w_seed := Suc (w_seed w)\<rparr>))"
  obtain v where "store_outbox ''events'' (e_id ?e) (envelope_json ?e) ?u = (Inr (), v)"
    using store_outbox_returns by blast
  then have "event_body i ty d w = (Inr ?e, v)"
    using free assms(1)
    by (simp add: event_body_def store_run_Inr bnd_apply(2) [OF iffD2 [OF store_run_Inr]] event_for_def)
  then have "emit i ty d w = (Inr (), v)"
    using assms(4) by (simp add: emit_def store_event_alt)
  moreover from triD(1) [OF records_events(2) _ this] have "t_records v = t_records w" by (simp add: same_view_def)
  ultimately show ?thesis by blast
qed

lemma run_control_active [simp]:
  "run_control run (w\<lparr>w_active := b\<rparr>) = (fst (run_control run w), w\<lparr>w_active := b\<rparr>)"
  by (auto simp: run_control_def store_get_def store_run_def bnd_def lift_def split: option.splits sum.splits if_splits)

lemma candidate_unbound:
  assumes "candidate ctx lid w = (Inr cand, v)" and "record_value w ''model_call_bindings'' lid = None"
  shows "fence_open w ctx False" and "v = w"
    and "\<exists>c revision ref. run_control (c_run ctx) w = (Inr c, w) \<and> jlookup ''control_revision'' c = Some revision \<and>
      jlookup ''desired_profile_ref'' c = Some ref \<and>
      cand = JObj [(''logical_call_id'', JStr lid), (''run_id'', JStr (c_run ctx)), (''purpose'', JStr ''agent''),
          (''control_revision'', revision), (''profile_ref'', ref)]"
  using assms
  by (auto simp: candidate_def act_iffs lift_iffs assert_fence_Inr store_get_def or_empty_def jfield_def
      split: option.splits dest!: run_control_Inr(1))

text \<open>The control record and its command once a candidate is bound.\<close>

definition applied :: "json \<Rightarrow> json \<Rightarrow> json \<Rightarrow> json" where
  "applied c ref revision = jmerge c (JObj [(''effective_profile_ref'', ref), (''effective_revision'', revision),
     (''status'', JStr ''applied'')])"

text \<open>Marking the command of a control as applied.\<close>

lemma mark_through:
  assumes "wf_records w" and "jtruthy i \<Longrightarrow> record_value w ''run_model_commands'' (jstr i) \<noteq> None"
  shows "\<exists>v. whenever (jtruthy i) (mark_command i [(''status'', JStr ''applied''), (''logical_call_id'', lid)]) w = (Inr (), v) \<and>
    log_inv v = log_inv w \<and> w_uuid v = w_uuid w \<and> w_seed v = w_seed w \<and> t_events v = t_events w \<and> w_active v = w_active w \<and>
    (\<forall>run. run_at v run = run_at w run) \<and>
    (\<forall>ns k. ns \<noteq> ''run_model_commands'' \<longrightarrow> record_value v ns k = record_value w ns k) \<and>
    (jtruthy i \<longrightarrow> (\<exists>d. record_value v ''run_model_commands'' (jstr i) = Some d \<and> jget ''status'' d = JStr ''applied''))"
proof (cases "jtruthy i")
  case False
  then show ?thesis by simp
next
  case True
  with assms(2) obtain p where p: "record_value w ''run_model_commands'' (jstr i) = Some p" by auto
  let ?d = "jmerge p (JObj [(''status'', JStr ''applied''), (''logical_call_id'', lid)])"
  let ?u = "written (new_record ''run_model_commands'' (jstr i) (record_revision w ''run_model_commands'' (jstr i) + 1) ?d) w"
  have "mark_command i [(''status'', JStr ''applied''), (''logical_call_id'', lid)] w = (Inr (), ?u)"
    using p by (simp add: mark_command_def store_get_def bnd_def put_through [OF assms(1)] del: jmerge.simps)
  moreover have "jget ''status'' ?d = JStr ''applied''" by (simp add: jget_merged del: jmerge.simps)
  ultimately show ?thesis
    using True by (intro exI [of _ ?u]) (simp add: record_value_written del: jmerge.simps)
qed

lemma bind_through:
  assumes "\<not> w_active w" and "wf_records w" and "log_inv w" and "fence_open w ctx False"
    and "w_uuid w (w_seed w) \<notin> e_id ` set (t_events w)"
    and unbound: "record_value w ''model_call_bindings'' lid = None"
    and control: "run_control (c_run ctx) w = (Inr c, w)" "jlookup ''control_revision'' c = Some revision"
    and command: "jtruthy (jget ''command_id'' c) \<Longrightarrow>
      record_value w ''run_model_commands'' (jstr (jget ''command_id'' c)) \<noteq> None"
    and cand: "cand = JObj [(''logical_call_id'', JStr lid), (''run_id'', JStr (c_run ctx)), (''purpose'', JStr ''agent''),
          (''control_revision'', revision), (''profile_ref'', ref)]"
  shows "\<exists>b v. bind_call ctx cand view w = (Inr (Some b), v) \<and> jget ''profile_ref'' b = ref \<and> jtruthy b \<and>
    record_value v ''model_call_bindings'' lid = Some b \<and>
    record_value v ''run_model_controls'' (c_run ctx) = Some (applied c ref revision) \<and>
    (jtruthy (jget ''command_id'' c) \<longrightarrow>
       (\<exists>d. record_value v ''run_model_commands'' (jstr (jget ''command_id'' c)) = Some d \<and>
          jget ''status'' d = JStr ''applied''))"
proof -
  let ?w = "w\<lparr>w_active := True\<rparr>"
  define b where "b = jmerge cand (JObj [(''input_view_id'', JStr view),
     (''fencing_token'', JInt (c_fence ctx)), (''bound_at'', JInt (int (w_now w)))])"
  define w1 where "w1 = written (new_record ''model_call_bindings'' lid 1 b) ?w"
  have rev0: "record_revision w ''model_call_bindings'' lid = 0"
    using unbound by (simp add: record_revision_def record_value_def)
  have cas: "compare_and_set ''model_call_bindings'' lid None b ?w = (Inr b, w1)"
    using cas_through [of ?w "''model_call_bindings''" lid None b] assms(2) rev0 by (simp add: w1_def)
  have wf1: "wf_records w1"
    using wf_records_written [of ?w "''model_call_bindings''" lid b] assms(2) rev0 by (simp add: w1_def)
  define n2 where "n2 = record_revision w1 ''run_model_controls'' (c_run ctx) + 1"
  define w2 where "w2 = written (new_record ''run_model_controls'' (c_run ctx) n2 (applied c ref revision)) w1"
  have put: "store_put ''run_model_controls'' (c_run ctx) (applied c ref revision) w1 = (Inr (), w2)"
    by (simp add: put_through [OF wf1] w2_def n2_def)
  have wf2: "wf_records w2" unfolding w2_def n2_def by (rule wf_records_written [OF wf1])
  have frame2: "log_inv w2" "w_uuid w2 = w_uuid w" "w_seed w2 = w_seed w" "t_events w2 = t_events w" "w_active w2"
      "run_at w2 i = run_at w i" for i
    using assms(3) by (simp_all add: w2_def w1_def log_inv_def run_log_def cong: option.case_cong)
  have "jtruthy (jget ''command_id'' c) \<Longrightarrow>
      record_value w2 ''run_model_commands'' (jstr (jget ''command_id'' c)) \<noteq> None"
    using command by (simp add: w2_def w1_def record_value_written)
  from mark_through [OF wf2 this, of "JStr lid"] frame2 obtain w3 where
    mark: "whenever (jtruthy (jget ''command_id'' c)) (mark_command (jget ''command_id'' c)
        [(''status'', JStr ''applied''), (''logical_call_id'', JStr lid)]) w2 = (Inr (), w3)"
    and w3: "log_inv w3" "w_uuid w3 = w_uuid w" "w_seed w3 = w_seed w" "t_events w3 = t_events w" "w_active w3"
      "\<And>i. run_at w3 i = run_at w i"
    and values3: "\<And>ns k. ns \<noteq> ''run_model_commands'' \<Longrightarrow> record_value w3 ns k = record_value w2 ns k"
      "jtruthy (jget ''command_id'' c) \<Longrightarrow> \<exists>d. record_value w3 ''run_model_commands'' (jstr (jget ''command_id'' c)) = Some d \<and>
         jget ''status'' d = JStr ''applied''"
    by auto
  obtain r where "run_at w (c_run ctx) = Some r" using assms(4) by (auto simp: fence_open_def)
  with w3 assms(5) obtain v where emit: "emit (c_run ctx) ''model.selection.applied'' (applied c ref revision) w3 = (Inr (), v)"
    and v: "t_records v = t_records w3"
    using emit_through [of w3 "c_run ctx" r] by force
  have fields: "jfield ''logical_call_id'' cand = Inr (JStr lid)" "jfield ''control_revision'' cand = Inr revision"
      "jfield ''profile_ref'' cand = Inr ref" "jfield ''control_revision'' c = Inr revision"
    using control(2) by (simp_all add: cand jfield_def)
  have fence: "assert_fence ctx False ?w = (Inr (), ?w)" using assms(4) by (simp add: assert_fence_Inr)
  have "bind_call ctx cand view w = (Inr (Some b), v\<lparr>w_active := False\<rparr>)"
    using assms(1) unbound control fence fields cas put mark emit
    by (simp add: bind_call_def transaction_def andthen_def bnd_def store_get_def or_empty_def applied_def
        b_def [symmetric] del: jmerge.simps)
  moreover have "record_value (v\<lparr>w_active := False\<rparr>) ns k = record_value w3 ns k" for ns k
    using v by (simp add: record_value_def record_at_def)
  moreover have "jget ''profile_ref'' b = ref" "jtruthy b"
    using lookup_truthy [of "''profile_ref''" b ref]
    by (simp_all add: b_def jget_merged jlookup_merged jget_def cand del: jmerge.simps)
  ultimately show ?thesis
    using values3 by (intro exI [of _ b] exI [of _ "v\<lparr>w_active := False\<rparr>"])
      (simp add: w2_def w1_def record_value_written)
qed

section \<open>Histories of choices\<close>

text \<open>
  The calls that touch the choice of models, by any owners and workers in any order; \<open>Meanwhile\<close> is
  whatever else happens to the database between them.
\<close>

datatype selection_call =
    Choose string string json
  | Prefer string string json
  | Bind_view execution_context json string
  | Refuse execution_context json string
  | Ended run_row
  | Meanwhile "world \<Rightarrow> world"

fun selection_step :: "selection_services \<Rightarrow> selection_call \<Rightarrow> world \<Rightarrow> world" where
  "selection_step s (Choose owner run body) w = snd (select_model s owner run body w)"
| "selection_step s (Prefer owner sid body) w = snd (update_preferences s owner sid body w)"
| "selection_step s (Bind_view ctx cand view) w = snd (bind_call ctx cand view w)"
| "selection_step s (Refuse ctx cand code) w = snd (reject_call ctx cand code w)"
| "selection_step s (Ended run) w = snd (finish_selection run w)"
| "selection_step s (Meanwhile f) w = f w"

definition selection_calls :: "selection_services \<Rightarrow> selection_call list \<Rightarrow> world \<Rightarrow> world" where
  "selection_calls s cs w = fold (selection_step s) cs w"

lemma selection_calls_order:
  assumes "\<And>f w. Meanwhile f \<in> set cs \<Longrightarrow> selection_view (f w) = selection_view w"
  shows "selection_order w (selection_calls s cs w)"
proof -
  have step: "selection_order w (selection_step s c w)" if "c \<in> set cs" for c w
    using assms that
    by (cases c) (simp_all add: triD(1) [OF keeps_select_model _ prod.collapse [symmetric]]
        triD(1) [OF keeps_selected [OF keeps_preferences(2)] _ prod.collapse [symmetric]]
        triD(1) [OF keeps_bind_call _ prod.collapse [symmetric]]
        triD(1) [OF keeps_reject_call _ prod.collapse [symmetric]]
        triD(1) [OF keeps_finish_selection _ prod.collapse [symmetric]] view_order)
  have "selection_order w (fold (selection_step s) cs' w)" if "set cs' \<subseteq> set cs" for cs' w
    using that
  proof (induction cs' arbitrary: w)
    case (Cons c cs')
    then have "selection_order w (selection_step s c w)" by (intro step) simp
    moreover from Cons have "selection_order (selection_step s c w) (fold (selection_step s) cs' (selection_step s c w))"
      by simp
    ultimately show ?case by (simp add: selection.trans_history)
  qed (simp add: selection.refl_history)
  then show ?thesis by (simp add: selection_calls_def)
qed

text \<open>
  C33: choosing models while runs go on. Over any history of choices, preferences, bindings, rejections
  and run ends, a logical call that was bound to a model stays bound to it, and the control revision of
  a run, by which a writer says what it has seen, never goes back.
\<close>

theorem selection_history:
  assumes "\<And>f w. Meanwhile f \<in> set cs \<Longrightarrow> selection_view (f w) = selection_view w"
  shows "(\<forall>lid b. bound_to w lid b \<longrightarrow> bound_to (selection_calls s cs w) lid b) \<and>
    (\<forall>run. control_revision w run \<le> control_revision (selection_calls s cs w) run)"
proof -
  have "selection_order w (selection_calls s cs w)" by (rule selection_calls_order) (rule assms)
  then show ?thesis by (simp add: selection_order_def)
qed


section \<open>A concrete choice\<close>

definition sample_control :: json where
  "sample_control = JObj [(''run_id'', JStr ''run''), (''control_revision'', JInt 1), (''effective_revision'', JInt 0),
     (''desired_profile_ref'', JStr ''big@2''), (''effective_profile_ref'', JStr ''small@1''),
     (''status'', JStr ''requested''), (''command_id'', JStr ''cmd'')]"

definition selection_world :: world where
  "selection_world =
     written (new_record ''run_model_commands'' ''cmd'' 1 (JObj [(''status'', JStr ''requested'')]))
       (written (new_record ''run_model_controls'' ''run'' 1 sample_control) running_world)"

lemma selection_world_values:
  "record_value selection_world ns k =
     (if ns = ''run_model_commands'' \<and> k = ''cmd'' then Some (JObj [(''status'', JStr ''requested'')])
      else if ns = ''run_model_controls'' \<and> k = ''run'' then Some sample_control else None)"
  by (simp add: selection_world_def record_value_written)
    (simp add: record_value_def record_at_def running_world_def fresh_store_def empty_world_def)

lemma selection_world_wf: "wf_records selection_world"
proof -
  have empty: "wf_records running_world"
    by (simp add: wf_records_def running_world_def fresh_store_def empty_world_def record_revision_def record_at_def)
  have revs: "record_revision running_world ns k = 0" for ns k
    by (simp add: record_revision_def record_at_def running_world_def fresh_store_def empty_world_def)
  have one: "wf_records (written (new_record ''run_model_controls'' ''run'' 1 sample_control) running_world)"
    using wf_records_written [OF empty, of "''run_model_controls''" "''run''" sample_control] by (simp add: revs)
  show ?thesis
    using wf_records_written [OF one, of "''run_model_commands''" "''cmd''" "JObj [(''status'', JStr ''requested'')]"]
    by (simp add: selection_world_def record_revision_written revs)
qed

lemma selection_world_run: "run_at selection_world i = (if i = ''run'' then Some sample_run else None)"
  "t_events selection_world = []" "\<not> w_active selection_world" "log_inv selection_world"
proof -
  show run: "run_at selection_world i = (if i = ''run'' then Some sample_run else None)" for i
    unfolding selection_world_def written_frame by (simp add: run_at_def running_world_def sample_run_def)
  show events: "t_events selection_world = []" "\<not> w_active selection_world"
    by (simp_all add: selection_world_def running_world_def fresh_store_def empty_world_def)
  show "log_inv selection_world"
    by (simp add: log_inv_def run run_log_def events sample_run_def)
qed

lemma selection_world_candidate:
  "\<exists>cand. candidate sample_context ''call'' selection_world = (Inr cand, selection_world) \<and>
     jget ''profile_ref'' cand = JStr ''big@2''"
proof -
  have "row_of a_id ''attempt'' (t_attempts selection_world) = Some sample_attempt" "w_now selection_world < 1000"
    by (simp_all add: selection_world_def written_def upsert_record_def running_world_def sample_attempt_def
        fresh_store_def empty_world_def)
  then have "fence_open selection_world sample_context False"
    by (simp add: fence_open_def selection_world_run sample_context_def sample_run_def sample_attempt_def)
  then have "assert_fence sample_context False selection_world = (Inr (), selection_world)"
    by (simp add: assert_fence_Inr)
  moreover have "store_run ''run'' None selection_world = (Inr sample_run, selection_world)"
    by (simp add: store_run_Inr selection_world_run)
  ultimately show ?thesis
    by (simp add: candidate_def run_control_def andthen_def bnd_def store_get_def selection_world_values or_empty_def
        sample_context_def sample_control_def jfield_def jget_def)
qed

lemma selection_history_witness:
  "\<forall>s. 1 \<le> control_revision (selection_calls s [Refuse sample_context sample_control ''x'', Meanwhile (\<lambda>w. w)]
     selection_world) ''run''"
proof
  fix s
  have "control_revision selection_world ''run'' = 1"
    by (simp add: control_revision_def selection_world_values or_empty_def sample_control_def jget_def)
  moreover have "(\<forall>lid b. bound_to selection_world lid b \<longrightarrow> bound_to (selection_calls s
      [Refuse sample_context sample_control ''x'', Meanwhile (\<lambda>w. w)] selection_world) lid b) \<and>
    (\<forall>run. control_revision selection_world run \<le> control_revision (selection_calls s
      [Refuse sample_context sample_control ''x'', Meanwhile (\<lambda>w. w)] selection_world) run)"
    by (rule selection_history) auto
  ultimately show "1 \<le> control_revision (selection_calls s
      [Refuse sample_context sample_control ''x'', Meanwhile (\<lambda>w. w)] selection_world) ''run''"
    by metis
qed


end
