(* ===== verification/Api_Commands.thy ===== *)
theory Api_Commands
  imports Model_Calls
begin

text \<open>
  Commands of the HTTP interface (\<^verbatim>\<open>Services.mutate\<close> of \<^verbatim>\<open>harness/server/composition.py\<close>): a command
  carries an idempotency key; its answer is saved in the transaction that executes it, and a repetition
  is answered from what was saved. A command that has to be awaited is entered first, as one in
  progress, and completed afterwards. Beside the database a handler may change what its process holds
  in memory, the second component of the state, which no transaction rolls back. The lock that keeps
  one process from running a command twice at once is left out: a call here is one holder of it.
\<close>

section \<open>A process with its memory\<close>

type_synonym ('h, 'a) hosted = "(world \<times> 'h, 'a) act"

definition in_store :: "'a store \<Rightarrow> ('h, 'a) hosted" where
  "in_store m s = (case m (fst s) of (r, w) \<Rightarrow> (r, (w, snd s)))"

definition hosted_transaction :: "('h, 'a) hosted \<Rightarrow> ('h, 'a) hosted" where
  "hosted_transaction m s =
     (if w_active (fst s) then m s
      else case m ((fst s)\<lparr>w_active := True\<rparr>, snd s) of
          (Inl e, v) \<Rightarrow> (Inl e, (fst s, snd v))
        | (Inr x, v) \<Rightarrow> (Inr x, ((fst v)\<lparr>w_active := False\<rparr>, snd v)))"

section \<open>Commands\<close>

text \<open>
  What a handler does when it is called: it answers, or leaves work to be awaited. The process
  identity and the liveness of processes are the host's.
\<close>

datatype 'h answer_of = Value json | Awaited "('h, json) hosted"

record command_host =
  ch_pid :: int
  ch_start :: rat
  ch_process :: "json \<Rightarrow> rat option"
  ch_hash :: "json \<Rightarrow> string"

definition command_lifetime :: nat where
  "command_lifetime = 86400 * 1000"

definition pending_response :: "command_host \<Rightarrow> json" where
  "pending_response host = JObj
     [(''pending'', JBool True), (''pid'', JInt (ch_pid host)), (''process_start'', JFloat (ch_start host))]"

definition still_running :: "command_host \<Rightarrow> json \<Rightarrow> bool" where
  "still_running host pending =
     (case (jlookup ''pid'' pending, jlookup ''process_start'' pending) of
        (Some p, Some start) \<Rightarrow>
          (case ch_process host p of None \<Rightarrow> False | Some created \<Rightarrow> \<bar>created - jrat 0 start\<bar> < 1 / 100)
      | _ \<Rightarrow> False)"

text \<open>The answer to a repeated command, or the error it ended with.\<close>

definition error_response :: "err \<Rightarrow> json" where
  "error_response e = (case e of
     HErr code status \<Rightarrow> JObj [(''_error'', JObj [(''code'', JStr code), (''status'', JInt (int status))])]
   | _ \<Rightarrow> JNull)"

definition saved_error :: "json \<Rightarrow> json" where
  "saved_error response = (if is_object response then jget ''_error'' response else JNull)"

definition saved_answer :: "command_host \<Rightarrow> string \<Rightarrow> command_row \<Rightarrow> err + json" where
  "saved_answer host digest c =
     (if cmd_body_hash c \<noteq> digest then Inl (HErr ''IDEMPOTENCY_CONFLICT'' 409)
      else if cmd_status c = 102 then
        (if still_running host (jor (cmd_response c) (JObj [])) then Inl (HErr ''COMMAND_IN_PROGRESS'' 409)
         else Inl (HErr ''COMMAND_INTERRUPTED'' 409))
      else if jtruthy (saved_error (cmd_response c)) then
        sum_bind (jfield ''code'' (saved_error (cmd_response c))) (\<lambda>code.
        sum_bind (jfield ''status'' (saved_error (cmd_response c))) (\<lambda>status.
        Inl (HErr (jstr code) (nat (jint status)))))
      else Inr (cmd_response c))"

definition paused_route :: "string \<Rightarrow> bool" where
  "paused_route route \<longleftrightarrow> starts_with ''/api/config/'' route \<or> route = ''/api/workspaces''"

text \<open>The part inside the transaction: an answer, or work that has been entered as in progress.\<close>

definition command_begin ::
  "command_host \<Rightarrow> string \<Rightarrow> string \<Rightarrow> string \<Rightarrow> string \<Rightarrow> json \<Rightarrow> ('h, 'h answer_of) hosted \<Rightarrow>
   ('h, 'h answer_of) hosted" where
  "command_begin host owner method route key body callback =
     hosted_transaction
       (bnd (in_store (api_command owner method route key)) (\<lambda>saved.
        case saved of
          Some c \<Rightarrow> bnd (lift (saved_answer host (ch_hash host body) c)) (\<lambda>j. ret (Value j))
        | None \<Rightarrow>
            bnd (in_store in_maintenance) (\<lambda>paused.
            andthen (raise_if (paused \<and> paused_route route) (HErr ''MAINTENANCE'' 503))
            (bnd callback (\<lambda>result.
             bnd (in_store (after_ms command_lifetime)) (\<lambda>expiry.
             case result of
               Value j \<Rightarrow>
                 andthen (in_store (save_api_command owner method route key (ch_hash host body) j 200 expiry))
                 (ret (Value j))
             | Awaited m \<Rightarrow>
                 andthen (in_store (save_api_command owner method route key (ch_hash host body)
                   (pending_response host) 102 expiry))
                 (ret (Awaited m))))))))"

definition command_failure :: "err \<Rightarrow> err" where
  "command_failure e = (case e of HErr code status \<Rightarrow> e | _ \<Rightarrow> HErr ''COMMAND_FAILED'' 422)"

definition failure_status :: "err \<Rightarrow> int" where
  "failure_status e = (case e of HErr code status \<Rightarrow> int status | _ \<Rightarrow> 0)"

definition command_finish ::
  "string \<Rightarrow> string \<Rightarrow> string \<Rightarrow> string \<Rightarrow> ('h, json) hosted \<Rightarrow> ('h, json) hosted" where
  "command_finish owner method route key m =
     bnd (captured m) (\<lambda>got.
     case got of
       Inr j \<Rightarrow> andthen (in_store (complete_api_command owner method route key j 200)) (ret j)
     | Inl e \<Rightarrow>
         if e = Diverges then raise e
         else
           andthen (in_store (complete_api_command owner method route key (error_response (command_failure e))
             (failure_status (command_failure e))))
           (raise (command_failure e)))"

definition mutate ::
  "command_host \<Rightarrow> string \<Rightarrow> string \<Rightarrow> string \<Rightarrow> string \<Rightarrow> json \<Rightarrow> ('h, 'h answer_of) hosted \<Rightarrow>
   ('h, json) hosted" where
  "mutate host owner method route key body callback =
     bnd (command_begin host owner method route key body callback) (\<lambda>result.
     case result of
       Value j \<Rightarrow> ret j
     | Awaited m \<Rightarrow> command_finish owner method route key m)"

section \<open>Answering once\<close>

definition command_at :: "world \<Rightarrow> string \<times> string \<times> string \<times> string \<Rightarrow> command_row option" where
  "command_at w k = row_of command_id k (t_commands w)"

lemma in_store_simps [simp]:
  "in_store (gets f) s = (Inr (f (fst s)), s)"
  "in_store (after_ms d) s = (Inr (w_now (fst s) + d), s)"
  by (simp_all add: in_store_def)

text \<open>A saved command is answered from its row; nothing is executed and nothing changes.\<close>

lemma mutate_saved:
  assumes "command_at (fst s) (owner, method, route, key) = Some c" and "\<not> w_active (fst s)"
  shows "mutate host owner method route key body callback s = (saved_answer host (ch_hash host body) c, s)"
proof -
  let ?s = "((fst s)\<lparr>w_active := True\<rparr>, snd s)"
  have found: "in_store (api_command owner method route key) ?s = (Inr (Some c), ?s)"
    using assms(1) by (simp add: api_command_def in_store_def command_at_def)
  have restored: "(fst s)\<lparr>w_active := False\<rparr> = fst s" using assms(2) by simp
  show ?thesis
    using assms(2) found restored
    by (cases "saved_answer host (ch_hash host body) c")
      (simp_all add: mutate_def command_begin_def hosted_transaction_def bnd_def)
qed

lemma save_command_row:
  assumes "in_store (save_api_command owner method route key h j st ex) s = (Inr (), s')"
  shows "command_at (fst s') (owner, method, route, key) = Some
      \<lparr>cmd_owner = owner, cmd_method = method, cmd_route = route, cmd_key = key, cmd_body_hash = h,
       cmd_response = j, cmd_status = st, cmd_expires = ex\<rparr>"
proof (cases "command_at (fst s) (owner, method, route, key)")
  case None
  with assms show ?thesis
    by (auto simp: in_store_def save_api_command_def insert_unique_apply command_at_def command_id_def row_of_append
        split: if_splits)
next
  case (Some c)
  then have "row_of command_id (owner, method, route, key) (t_commands (fst s)) \<noteq> None" by (simp add: command_at_def)
  then have "(owner, method, route, key) \<in> command_id ` set (t_commands (fst s))"
    unfolding row_of_None_iff by simp
  with assms show ?thesis
    by (auto simp: in_store_def save_api_command_def insert_unique_apply command_id_def split: if_splits)
qed

lemma command_begin_Inr:
  assumes "command_begin host owner method route key body callback s = (Inr result, s')"
    and "\<not> w_active (fst s)" and "command_at (fst s) (owner, method, route, key) = None"
  shows "\<exists>c u. command_at (fst s') (owner, method, route, key) = Some c \<and> cmd_body_hash c = ch_hash host body \<and>
    callback ((fst s)\<lparr>w_active := True\<rparr>, snd s) = (Inr result, u) \<and> snd s' = snd u \<and> \<not> w_active (fst s') \<and>
    (case result of Value j \<Rightarrow> cmd_response c = j \<and> cmd_status c = 200
     | Awaited m \<Rightarrow> cmd_response c = pending_response host \<and> cmd_status c = 102)"
proof -
  let ?s = "((fst s)\<lparr>w_active := True\<rparr>, snd s)"
  have none: "in_store (api_command owner method route key) ?s = (Inr None, ?s)"
    using assms(3) by (simp add: api_command_def in_store_def command_at_def)
  have reads: "\<exists>b. in_store in_maintenance ?s = (Inr b, ?s)"
    by (simp add: in_maintenance_def in_store_def store_get_def bnd_def)
  from assms(1,2) obtain v where body: "(bnd (in_store (api_command owner method route key)) (\<lambda>saved.
        case saved of
          Some c \<Rightarrow> bnd (lift (saved_answer host (ch_hash host body) c)) (\<lambda>j. ret (Value j))
        | None \<Rightarrow>
            bnd (in_store in_maintenance) (\<lambda>paused.
            andthen (raise_if (paused \<and> paused_route route) (HErr ''MAINTENANCE'' 503))
            (bnd callback (\<lambda>result.
             bnd (in_store (after_ms command_lifetime)) (\<lambda>expiry.
             case result of
               Value j \<Rightarrow>
                 andthen (in_store (save_api_command owner method route key (ch_hash host body) j 200 expiry))
                 (ret (Value j))
             | Awaited m \<Rightarrow>
                 andthen (in_store (save_api_command owner method route key (ch_hash host body)
                   (pending_response host) 102 expiry))
                 (ret (Awaited m)))))))) ?s = (Inr result, v)"
    and s': "s' = ((fst v)\<lparr>w_active := False\<rparr>, snd v)"
    by (auto simp: command_begin_def hosted_transaction_def split: prod.splits sum.splits)
  from reads obtain b where b: "in_store in_maintenance ?s = (Inr b, ?s)" ..
  from body none b obtain given u where cb: "callback ?s = (Inr given, u)"
    and rest: "(case given of
               Value j \<Rightarrow>
                 andthen (in_store (save_api_command owner method route key (ch_hash host body) j 200
                   (w_now (fst u) + command_lifetime))) (ret (Value j))
             | Awaited m \<Rightarrow>
                 andthen (in_store (save_api_command owner method route key (ch_hash host body)
                   (pending_response host) 102 (w_now (fst u) + command_lifetime))) (ret (Awaited m))) u = (Inr result, v)"
    by (auto simp: bnd_Inr_iff andthen_Inr_iff raise_if_Inr_iff)
  have mem: "snd v = snd u"
    using rest by (auto simp: andthen_Inr_iff in_store_def split: answer_of.splits prod.splits)
  have at: "command_at (w\<lparr>w_active := a\<rparr>) k = command_at w k" for w a k by (simp add: command_at_def)
  from rest cb mem show ?thesis
    unfolding s' by (cases given) (auto simp: andthen_Inr_iff at dest!: save_command_row)
qed

lemma command_begin_Inl:
  assumes "command_begin host owner method route key body callback s = (Inl e, s')"
    and "\<not> w_active (fst s)"
  shows "fst s' = fst s"
  using assms by (auto simp: command_begin_def hosted_transaction_def split: prod.splits sum.splits)

lemma row_of_update_where:
  assumes "row_of key k rows = Some r" and "\<And>x. key (f x) = key x"
  shows "row_of key k (map (\<lambda>x. if key x = k then f x else x) rows) = Some (f r)"
  using assms by (induction rows) auto

lemma complete_command_row:
  assumes "command_at (fst s) k = Some c" and "k = (owner, method, route, key)"
  shows "\<exists>s'. in_store (complete_api_command owner method route key j st) s = (Inr (), s') \<and> snd s' = snd s \<and>
    w_active (fst s') = w_active (fst s) \<and>
    command_at (fst s') k = Some (c\<lparr>cmd_response := j, cmd_status := st\<rparr>)"
proof -
  have "command_id (d\<lparr>cmd_response := j, cmd_status := st\<rparr>) = command_id d" for d
    by (simp add: command_id_def)
  with row_of_update_where [of command_id k "t_commands (fst s)" c] assms show ?thesis
    by (simp add: in_store_def complete_api_command_def update_where_def update_rows_def command_at_def)
qed

text \<open>Awaited work that fails or succeeds leaves its answer in the row that was entered for it.\<close>

lemma command_finish_saves:
  assumes run: "command_finish owner method route key m s = (out, s')"
    and row: "command_at (fst s) (owner, method, route, key) = Some c"
    and kept: "keeps (\<lambda>v w. command_at (fst w) (owner, method, route, key) = command_at (fst v) (owner, method, route, key)) m"
  shows "out = Inl Diverges \<or>
    (\<exists>response status. command_at (fst s') (owner, method, route, key) =
        Some (c\<lparr>cmd_response := response, cmd_status := status\<rparr>) \<and>
      (case out of Inr j \<Rightarrow> response = j \<and> status = 200
       | Inl e \<Rightarrow> (\<exists>code n. e = HErr code n \<and> response = error_response e \<and> status = int n)))"
proof -
  obtain r u where m: "m s = (r, u)" by (cases "m s")
  have "command_at (fst u) (owner, method, route, key) = command_at (fst s) (owner, method, route, key)"
    using triD(1) [OF kept TrueI m] by simp
  with row have u: "command_at (fst u) (owner, method, route, key) = Some c" by simp
  note saved = complete_command_row [OF u refl]
  show ?thesis
  proof (cases r)
    case (Inr j)
    from saved [of j 200] obtain t where t: "in_store (complete_api_command owner method route key j 200) u = (Inr (), t)"
      "command_at (fst t) (owner, method, route, key) = Some (c\<lparr>cmd_response := j, cmd_status := 200\<rparr>)" by blast
    with m run Inr have "out = Inr j" "s' = t" by (simp_all add: command_finish_def captured_def)
    with t(2) show ?thesis by (intro disjI2 exI conjI) simp_all
  next
    case (Inl e)
    show ?thesis
    proof (cases "e = Diverges")
      case True
      with Inl m run show ?thesis by (auto simp: command_finish_def captured_def bnd_def)
    next
      case False
      obtain code n where f: "command_failure e = HErr code n" by (cases e) (auto simp: command_failure_def)
      from saved [of "error_response (HErr code n)" "int n"] obtain t where
        t: "in_store (complete_api_command owner method route key (error_response (HErr code n)) (int n)) u = (Inr (), t)"
          "command_at (fst t) (owner, method, route, key) =
            Some (c\<lparr>cmd_response := error_response (HErr code n), cmd_status := int n\<rparr>)" by blast
      with False Inl m run f have "out = Inl (HErr code n)" "s' = t"
        by (simp_all add: command_finish_def captured_def failure_status_def)
      with t(2) show ?thesis by (intro disjI2 exI conjI) simp_all
    qed
  qed
qed

lemma saved_error_response:
  "saved_error (error_response (HErr code n)) = JObj [(''code'', JStr code), (''status'', JInt (int n))]"
  "jtruthy (JObj [(''code'', JStr code), (''status'', JInt (int n))])"
  "jfield ''code'' (JObj [(''code'', JStr code), (''status'', JInt (int n))]) = Inr (JStr code)"
  "jfield ''status'' (JObj [(''code'', JStr code), (''status'', JInt (int n))]) = Inr (JInt (int n))"
  by (simp_all add: saved_error_def error_response_def jfield_def jget_def)

text \<open>
  C34: A command is executed once. Take any first call with a key: when it answers, with a value or, as
  awaited work, with an error, every later call with that key and body gives the same answer, runs
  nothing and changes nothing, whatever was done in between; another body is refused. A call that raises
  otherwise has left the database as it was.
\<close>

theorem mutate_once:
  assumes run: "mutate host owner method route key body callback s = (out, s')"
    and idle: "\<not> w_active (fst s)"
    and fresh: "command_at (fst s) (owner, method, route, key) = None"
    and work: "\<And>u m v. callback u = (Inr (Awaited m), v) \<Longrightarrow>
      keeps (\<lambda>a b. command_at (fst b) (owner, method, route, key) = command_at (fst a) (owner, method, route, key)) m"
    and same_hash: "ch_hash later = ch_hash host"
    and since: "command_at (fst t) (owner, method, route, key) = command_at (fst s') (owner, method, route, key)"
    and idle': "\<not> w_active (fst t)"
  shows "case out of
      Inr j \<Rightarrow> (\<not> jtruthy (saved_error j) \<longrightarrow>
          mutate later owner method route key body again t = (Inr j, t)) \<and>
        (ch_hash host other \<noteq> ch_hash host body \<longrightarrow>
          mutate later owner method route key other again t = (Inl (HErr ''IDEMPOTENCY_CONFLICT'' 409), t))
    | Inl e \<Rightarrow> e = Diverges \<or> fst s' = fst s \<or> (\<exists>code. e = HErr code 102) \<or>
        mutate later owner method route key body again t = (Inl e, t)"
proof -
  let ?k = "(owner, method, route, key)"
  obtain r u where begun: "command_begin host owner method route key body callback s = (r, u)"
    by (cases "command_begin host owner method route key body callback s")
  show ?thesis
  proof (cases r)
    case (Inl e)
    with run begun have "out = Inl e" "s' = u" by (simp_all add: mutate_def)
    moreover from command_begin_Inl [OF begun [unfolded Inl] idle] have "fst u = fst s" .
    ultimately show ?thesis by simp
  next
    case (Inr result)
    from command_begin_Inr [OF begun [unfolded Inr] idle fresh] obtain c v where
      row: "command_at (fst u) ?k = Some c" and digest: "cmd_body_hash c = ch_hash host body"
      and called: "callback ((fst s)\<lparr>w_active := True\<rparr>, snd s) = (Inr result, v)"
      and kind: "case result of Value j \<Rightarrow> cmd_response c = j \<and> cmd_status c = 200
         | Awaited m \<Rightarrow> cmd_response c = pending_response host \<and> cmd_status c = 102"
      by blast
    show ?thesis
    proof (cases result)
      case (Value j)
      with run begun Inr have "out = Inr j" "s' = u" by (simp_all add: mutate_def)
      with since row kind digest Value same_hash show ?thesis
        by (simp add: mutate_saved [OF _ idle'] saved_answer_def)
    next
      case (Awaited m)
      with run begun Inr have fin: "command_finish owner method route key m u = (out, s')"
        by (simp add: mutate_def)
      from command_finish_saves [OF fin row work [OF called [unfolded Awaited]]] consider
          "out = Inl Diverges"
        | j where "out = Inr j" "command_at (fst t) ?k = Some (c\<lparr>cmd_response := j, cmd_status := 200\<rparr>)"
        | code n where "out = Inl (HErr code n)"
            "command_at (fst t) ?k = Some (c\<lparr>cmd_response := error_response (HErr code n), cmd_status := int n\<rparr>)"
        unfolding since by (cases out) auto
      then show ?thesis
      proof cases
        case 2
        with digest same_hash show ?thesis
          by (simp add: mutate_saved [OF _ idle'] saved_answer_def)
      next
        case 3
        with digest same_hash show ?thesis
          by (cases "n = 102") (simp_all add: mutate_saved [OF _ idle'] saved_answer_def saved_error_response)
      qed simp
    qed
  qed
qed

lemma still_running_pending:
  "still_running later (jor (pending_response host) (JObj [])) =
    (case ch_process later (JInt (ch_pid host)) of None \<Rightarrow> False
      | Some created \<Rightarrow> \<bar>created - ch_start host\<bar> < 1 / 100)"
  by (simp add: still_running_def pending_response_def jor_def split: option.splits)

text \<open>
  C35: Awaited work is never started twice: once it has been entered, a later call with its key starts
  nothing and changes nothing. It is told that the command is in progress, or, when the process that
  entered it is gone, that it was interrupted, or that the key belongs to another body.
\<close>

theorem command_not_restarted:
  assumes begun: "command_begin host owner method route key body callback s = (Inr (Awaited m), s')"
    and "\<not> w_active (fst s)" and "command_at (fst s) (owner, method, route, key) = None"
    and since: "command_at (fst t) (owner, method, route, key) = command_at (fst s') (owner, method, route, key)"
    and idle: "\<not> w_active (fst t)"
  shows "mutate later owner method route key other again t =
    (Inl (HErr (if ch_hash later other \<noteq> ch_hash host body then ''IDEMPOTENCY_CONFLICT''
      else if (case ch_process later (JInt (ch_pid host)) of None \<Rightarrow> False
        | Some created \<Rightarrow> \<bar>created - ch_start host\<bar> < 1 / 100) then ''COMMAND_IN_PROGRESS''
      else ''COMMAND_INTERRUPTED'') 409), t)"
proof -
  from command_begin_Inr [OF assms(1-3)] obtain c where
    "command_at (fst t) (owner, method, route, key) = Some c" "cmd_body_hash c = ch_hash host body"
    "cmd_response c = pending_response host" "cmd_status c = 102"
    unfolding since by auto
  then show ?thesis
    by (simp add: mutate_saved [OF _ idle] saved_answer_def still_running_pending)
qed

text \<open>A command that renames a workspace at once, and one that waits and fails.\<close>

definition sample_command_host :: command_host where
  "sample_command_host = \<lparr>ch_pid = 7, ch_start = 100, ch_process = (\<lambda>p. if p = JInt 7 then Some 100 else None),
     ch_hash = (\<lambda>j. case j of JStr s \<Rightarrow> s | _ \<Rightarrow> ''other'')\<rparr>"

definition answer_command :: "(nat, nat answer_of) hosted" where
  "answer_command s = (Inr (Value (JInt 5)), (fst s, Suc (snd s)))"

definition failing_command :: "(nat, nat answer_of) hosted" where
  "failing_command s = (Inr (Awaited (raise (HErr ''NO'' 422))), (fst s, Suc (snd s)))"

lemma not_in_maintenance:
  assumes "t_records (fst s) = []"
  shows "in_store in_maintenance s = (Inr False, s)"
  using assms by (simp add: in_store_def in_maintenance_def store_get_def record_value_def record_at_def or_empty_def jget_def)

lemma failing_begun:
  assumes "command_begin sample_command_host ''o'' ''POST'' ''/r'' ''k'' (JStr ''b'') failing_command (fresh_store, 0) = (r, s')"
  shows "r = Inr (Awaited (raise (HErr ''NO'' 422))) \<and> \<not> w_active (fst s') \<and> t_commands (fst s') \<noteq> []"
proof -
  let ?s = "(fresh_store\<lparr>w_active := True\<rparr>, 0 :: nat)"
  have "in_store (api_command ''o'' ''POST'' ''/r'' ''k'') ?s = (Inr None, ?s)"
    by (simp add: in_store_def api_command_def fresh_store_def empty_world_def)
  moreover have "in_store in_maintenance ?s = (Inr False, ?s)"
    by (rule not_in_maintenance) (simp add: fresh_store_def empty_world_def)
  moreover have "in_store (save_api_command ''o'' ''POST'' ''/r'' ''k'' h j st ex) (fst ?s, n) =
      (Inr (), (fst ?s)\<lparr>t_commands := [\<lparr>cmd_owner = ''o'', cmd_method = ''POST'', cmd_route = ''/r'', cmd_key = ''k'',
         cmd_body_hash = h, cmd_response = j, cmd_status = st, cmd_expires = ex\<rparr>]\<rparr>, n)" for h j st ex and n :: nat
    by (simp add: in_store_def save_api_command_def insert_unique_apply fresh_store_def empty_world_def)
  moreover have "failing_command ?s = (Inr (Awaited (raise (HErr ''NO'' 422))), fst ?s, 1)"
    by (simp add: failing_command_def)
  moreover have "w_active fresh_store = False" by (simp add: fresh_store_def empty_world_def)
  ultimately show ?thesis
    using assms by (simp add: command_begin_def hosted_transaction_def) auto
qed

lemma failing_run:
  assumes run: "mutate sample_command_host ''o'' ''POST'' ''/r'' ''k'' (JStr ''b'') failing_command (fresh_store, 0) = (out, s')"
  shows "out = Inl (HErr ''NO'' 422) \<and> \<not> w_active (fst s') \<and> t_commands (fst s') \<noteq> []"
proof -
  obtain r t where first: "command_begin sample_command_host ''o'' ''POST'' ''/r'' ''k''
      (JStr ''b'') failing_command (fresh_store, 0) = (r, t)"
    by (cases "command_begin sample_command_host ''o'' ''POST'' ''/r'' ''k'' (JStr ''b'') failing_command (fresh_store, 0)")
  with failing_begun [OF first] run show ?thesis
    by (auto simp: mutate_def command_finish_def captured_def in_store_def complete_api_command_def update_where_def
        update_rows_def command_failure_def)
qed

theorem mutate_once_witness:
  "mutate sample_command_host ''o'' ''POST'' ''/r'' ''k'' (JStr ''b'') failing_command
      (snd (mutate sample_command_host ''o'' ''POST'' ''/r'' ''k'' (JStr ''b'') failing_command (fresh_store, 0))) =
    (Inl (HErr ''NO'' 422),
      snd (mutate sample_command_host ''o'' ''POST'' ''/r'' ''k'' (JStr ''b'') failing_command (fresh_store, 0)))"
proof -
  obtain out s' where run:
      "mutate sample_command_host ''o'' ''POST'' ''/r'' ''k'' (JStr ''b'') failing_command (fresh_store, 0) = (out, s')"
    by (cases "mutate sample_command_host ''o'' ''POST'' ''/r'' ''k'' (JStr ''b'') failing_command (fresh_store, 0)")
  note ran = failing_run [OF run]
  have kept: "keeps (\<lambda>a b. command_at (fst b) (''o'', ''POST'', ''/r'', ''k'') = command_at (fst a) (''o'', ''POST'', ''/r'', ''k'')) m"
    if "failing_command u = (Inr (Awaited m), v)" for u v m
    using that by (auto simp: failing_command_def tri_def)
  have "case out of
      Inr j \<Rightarrow> (\<not> jtruthy (saved_error j) \<longrightarrow>
          mutate sample_command_host ''o'' ''POST'' ''/r'' ''k'' (JStr ''b'') failing_command s' = (Inr j, s')) \<and>
        (ch_hash sample_command_host JNull \<noteq> ch_hash sample_command_host (JStr ''b'') \<longrightarrow>
          mutate sample_command_host ''o'' ''POST'' ''/r'' ''k'' JNull failing_command s' =
            (Inl (HErr ''IDEMPOTENCY_CONFLICT'' 409), s'))
    | Inl e \<Rightarrow> e = Diverges \<or> fst s' = fst (fresh_store, 0 :: nat) \<or> (\<exists>code. e = HErr code 102) \<or>
        mutate sample_command_host ''o'' ''POST'' ''/r'' ''k'' (JStr ''b'') failing_command s' = (Inl e, s')"
    by (rule mutate_once [OF run _ _ kept refl refl])
      (use ran in \<open>simp_all add: fresh_store_def empty_world_def command_at_def\<close>)
  moreover have "t_commands (fst (fresh_store, 0 :: nat)) = []" by (simp add: fresh_store_def empty_world_def)
  ultimately show ?thesis using ran run by auto
qed

theorem command_not_restarted_witness:
  "\<exists>s'. snd (command_begin sample_command_host ''o'' ''POST'' ''/r'' ''k'' (JStr ''b'') failing_command (fresh_store, 0)) = s' \<and>
     mutate sample_command_host ''o'' ''POST'' ''/r'' ''k'' (JStr ''b'') answer_command s' =
       (Inl (HErr ''COMMAND_IN_PROGRESS'' 409), s')"
proof -
  obtain r s' where first: "command_begin sample_command_host ''o'' ''POST'' ''/r'' ''k''
      (JStr ''b'') failing_command (fresh_store, 0) = (r, s')"
    by (cases "command_begin sample_command_host ''o'' ''POST'' ''/r'' ''k'' (JStr ''b'') failing_command (fresh_store, 0)")
  from failing_begun [OF first] first have begun: "command_begin sample_command_host ''o'' ''POST'' ''/r'' ''k''
      (JStr ''b'') failing_command (fresh_store, 0) = (Inr (Awaited (raise (HErr ''NO'' 422))), s')" and idle: "\<not> w_active (fst s')"
    by simp_all
  have "mutate sample_command_host ''o'' ''POST'' ''/r'' ''k'' (JStr ''b'') answer_command s' =
    (Inl (HErr (if ch_hash sample_command_host (JStr ''b'') \<noteq> ch_hash sample_command_host (JStr ''b'')
        then ''IDEMPOTENCY_CONFLICT''
      else if (case ch_process sample_command_host (JInt (ch_pid sample_command_host)) of None \<Rightarrow> False
        | Some created \<Rightarrow> \<bar>created - ch_start sample_command_host\<bar> < 1 / 100) then ''COMMAND_IN_PROGRESS''
      else ''COMMAND_INTERRUPTED'') 409), s')"
    by (rule command_not_restarted [OF begun _ _ refl idle])
      (simp_all add: fresh_store_def empty_world_def command_at_def)
  with begun show ?thesis by (simp add: sample_command_host_def)
qed

end
