(* ===== verification/Host_Models.thy ===== *)
theory Host_Models
  imports Api_Commands
begin

text \<open>
  Two validated classes of the host: the agent template (\<^verbatim>\<open>AgentSpec\<close> of
  \<^verbatim>\<open>harness/runtime/models.py\<close>) and the connection of an MCP server (\<^verbatim>\<open>ConnectionProfile\<close> of
  \<^verbatim>\<open>harness/mcp/models.py\<close>), each with its validation field by field and its dump. Lengths of time are
  exact numbers of seconds.
\<close>

definition valid_strings :: "json \<Rightarrow> err + string list" where
  "valid_strings j = (case j of JList xs \<Rightarrow> sum_all (map valid_string xs) | _ \<Rightarrow> Inl PyValueError)"

definition strings_json :: "string list \<Rightarrow> json" where
  "strings_json xs = JList (map JStr xs)"

section \<open>Agent templates\<close>

record agent_spec =
  ag_id :: string
  ag_revision :: int
  ag_prompt :: string
  ag_model_policy :: json
  ag_tools :: "string list"
  ag_skills :: "string list"
  ag_mcp :: "string list"
  ag_policy :: string
  ag_context :: string
  ag_budget :: json

definition agent_fields :: "string list" where
  "agent_fields =
     [''id'', ''revision'', ''runtime'', ''system_prompt_ref'', ''model_policy'', ''tools'', ''skills'',
      ''mcp_servers'', ''policy'', ''context_policy'', ''budget'']"

definition agent_json :: "agent_spec \<Rightarrow> json" where
  "agent_json a = JObj
     [(''id'', JStr (ag_id a)), (''revision'', JInt (ag_revision a)), (''runtime'', JStr ''langchain''),
      (''system_prompt_ref'', JStr (ag_prompt a)), (''model_policy'', ag_model_policy a),
      (''tools'', strings_json (ag_tools a)), (''skills'', strings_json (ag_skills a)),
      (''mcp_servers'', strings_json (ag_mcp a)), (''policy'', JStr (ag_policy a)),
      (''context_policy'', JStr (ag_context a)), (''budget'', ag_budget a)]"

definition agent_validate :: "json \<Rightarrow> err + agent_spec" where
  "agent_validate j =
     (if \<not> known_keys agent_fields j then Inl PyValueError else
      sum_bind (valid_string (jget_or ''id'' (JStr ''default'') j)) (\<lambda>i.
      sum_bind (valid_int (jget_or ''revision'' (JInt 1) j)) (\<lambda>revision.
      if revision < 1 then Inl PyValueError else
      if jget_or ''runtime'' (JStr ''langchain'') j \<noteq> JStr ''langchain'' then Inl PyValueError else
      sum_bind (valid_string (jget_or ''system_prompt_ref'' (JStr ''builtin:default'') j)) (\<lambda>prompt.
      sum_bind (valid_object (jget_or ''model_policy'' (JObj [(''profile_ref'', JStr ''demo@1'')]) j)) (\<lambda>model.
      sum_bind (valid_strings (jget_or ''tools'' (JList []) j)) (\<lambda>tools.
      sum_bind (valid_strings (jget_or ''skills'' (JList []) j)) (\<lambda>skills.
      sum_bind (valid_strings (jget_or ''mcp_servers'' (JList []) j)) (\<lambda>mcp.
      sum_bind (valid_string (jget_or ''policy'' (JStr ''default'') j)) (\<lambda>policy.
      sum_bind (valid_string (jget_or ''context_policy'' (JStr ''default'') j)) (\<lambda>context_policy.
      sum_bind (valid_object (jget_or ''budget'' (JObj [(''max_model_calls'', JInt 100)]) j)) (\<lambda>budget.
      Inr \<lparr>ag_id = i, ag_revision = revision, ag_prompt = prompt, ag_model_policy = model, ag_tools = tools,
           ag_skills = skills, ag_mcp = mcp, ag_policy = policy, ag_context = context_policy,
           ag_budget = budget\<rparr>)))))))))))"

definition valid_agent :: "agent_spec \<Rightarrow> bool" where
  "valid_agent a \<longleftrightarrow> 1 \<le> ag_revision a \<and> is_object (ag_model_policy a) \<and> is_object (ag_budget a)"

section \<open>MCP connections\<close>

datatype transport = tr_stdio | tr_http | tr_sse

fun transport_text :: "transport \<Rightarrow> string" where
  "transport_text tr_stdio = ''stdio''"
| "transport_text tr_http = ''streamable_http''"
| "transport_text tr_sse = ''legacy_sse''"

datatype protocol_policy = pp_auto | pp_modern | pp_legacy

fun protocol_text :: "protocol_policy \<Rightarrow> string" where
  "protocol_text pp_auto = ''auto''"
| "protocol_text pp_modern = ''modern_only''"
| "protocol_text pp_legacy = ''legacy_only''"

datatype connection_scope = sc_call | sc_run

fun scope_of_text :: "connection_scope \<Rightarrow> string" where
  "scope_of_text sc_call = ''call''"
| "scope_of_text sc_run = ''run''"

record connection_profile =
  cp_server :: string
  cp_revision :: int
  cp_name :: string
  cp_transport :: transport
  cp_command :: "string option"
  cp_args :: "string list"
  cp_cwd :: "string option"
  cp_endpoint :: "string option"
  cp_environment :: "(string \<times> string) list"
  cp_credential :: "string option"
  cp_oauth :: "string option"
  cp_capabilities :: "string list"
  cp_protocol :: protocol_policy
  cp_scope :: connection_scope
  cp_connect :: rat
  cp_request :: rat
  cp_total :: rat
  cp_ttl :: rat

definition known_capabilities :: "string list" where
  "known_capabilities = [''tools'', ''resources'', ''prompts'', ''elicitation'']"

definition valid_environment_entry :: "string \<times> string \<Rightarrow> bool" where
  "valid_environment_entry e \<longleftrightarrow>
     fst e \<noteq> '''' \<and> CHR ''='' \<notin> set (fst e) \<and> CHR 0x00 \<notin> set (fst e) \<and> starts_with ''credential:'' (snd e)"

text \<open>The validator that runs after the fields: what a transport may and must have.\<close>

definition valid_transport :: "network \<Rightarrow> connection_profile \<Rightarrow> bool" where
  "valid_transport nw p \<longleftrightarrow>
     (case cp_credential p of None \<Rightarrow> True | Some c \<Rightarrow> starts_with ''credential:'' c) \<and>
     (case cp_oauth p of None \<Rightarrow> True | Some c \<Rightarrow> c = ''oauth:'' @ cp_server p) \<and>
     list_all valid_environment_entry (cp_environment p) \<and>
     (if cp_transport p = tr_stdio then text_given (cp_command p) \<and> \<not> text_given (cp_endpoint p)
      else
        (let parts = nw_split nw (case cp_endpoint p of None \<Rightarrow> '''' | Some e \<Rightarrow> e) in
         up_scheme parts \<in> {''https'', ''http''} \<and> text_given (up_host parts) \<and>
         \<not> up_userinfo parts \<and> \<not> up_fragment parts) \<and>
        \<not> text_given (cp_command p) \<and> cp_args p = [] \<and> cp_environment p = [] \<and> \<not> text_given (cp_cwd p) \<and>
        (cp_transport p = tr_sse \<longrightarrow> cp_protocol p = pp_legacy)) \<and>
     set (cp_capabilities p) \<subseteq> set known_capabilities"

definition connection_fields :: "string list" where
  "connection_fields =
     [''server_id'', ''config_revision'', ''display_name'', ''transport'', ''command'', ''args'', ''cwd_ref'',
      ''endpoint'', ''environment_refs'', ''credential_ref'', ''oauth_ref'', ''allowed_capabilities'',
      ''protocol_policy'', ''connection_scope'', ''connect_timeout'', ''request_timeout'',
      ''max_total_duration'', ''catalog_ttl'']"

definition valid_string_map :: "json \<Rightarrow> err + (string \<times> string) list" where
  "valid_string_map j =
     (case j of JObj kvs \<Rightarrow> sum_all (map (\<lambda>e. map_sum id (Pair (fst e)) (valid_string (snd e))) kvs)
      | _ \<Rightarrow> Inl PyValueError)"

definition string_map_json :: "(string \<times> string) list \<Rightarrow> json" where
  "string_map_json kvs = JObj (map (\<lambda>e. (fst e, JStr (snd e))) kvs)"

definition connection_json :: "connection_profile \<Rightarrow> json" where
  "connection_json p = JObj
     [(''server_id'', JStr (cp_server p)), (''config_revision'', JInt (cp_revision p)),
      (''display_name'', JStr (cp_name p)), (''transport'', JStr (transport_text (cp_transport p))),
      (''command'', optional_json JStr (cp_command p)), (''args'', strings_json (cp_args p)),
      (''cwd_ref'', optional_json JStr (cp_cwd p)), (''endpoint'', optional_json JStr (cp_endpoint p)),
      (''environment_refs'', string_map_json (cp_environment p)),
      (''credential_ref'', optional_json JStr (cp_credential p)), (''oauth_ref'', optional_json JStr (cp_oauth p)),
      (''allowed_capabilities'', strings_json (cp_capabilities p)),
      (''protocol_policy'', JStr (protocol_text (cp_protocol p))),
      (''connection_scope'', JStr (scope_of_text (cp_scope p))), (''connect_timeout'', JFloat (cp_connect p)),
      (''request_timeout'', JFloat (cp_request p)), (''max_total_duration'', JFloat (cp_total p)),
      (''catalog_ttl'', JFloat (cp_ttl p))]"

definition within_limit :: "rat \<Rightarrow> rat \<Rightarrow> bool" where
  "within_limit most c \<longleftrightarrow> 0 < c \<and> c \<le> most"

definition connection_validate :: "network \<Rightarrow> json \<Rightarrow> err + connection_profile" where
  "connection_validate nw j =
     (if \<not> known_keys connection_fields j then Inl PyValueError else
      sum_bind (valid_string (jget ''server_id'' j)) (\<lambda>server.
      sum_bind (valid_int (jget_or ''config_revision'' (JInt 1) j)) (\<lambda>revision.
      sum_bind (valid_string (jget ''display_name'' j)) (\<lambda>name.
      sum_bind (valid_literal transport_text [tr_stdio, tr_http, tr_sse] (jget ''transport'' j)) (\<lambda>transport.
      sum_bind (valid_optional valid_string (jget ''command'' j)) (\<lambda>command.
      sum_bind (valid_strings (jget_or ''args'' (JList []) j)) (\<lambda>args.
      sum_bind (valid_optional valid_string (jget ''cwd_ref'' j)) (\<lambda>cwd.
      sum_bind (valid_optional valid_string (jget ''endpoint'' j)) (\<lambda>endpoint.
      sum_bind (valid_string_map (jget_or ''environment_refs'' (JObj []) j)) (\<lambda>environment.
      sum_bind (valid_optional valid_string (jget ''credential_ref'' j)) (\<lambda>credential.
      sum_bind (valid_optional valid_string (jget ''oauth_ref'' j)) (\<lambda>oauth.
      sum_bind (valid_strings (jget_or ''allowed_capabilities'' (JList [JStr ''tools'']) j)) (\<lambda>capabilities.
      sum_bind (valid_literal protocol_text [pp_auto, pp_modern, pp_legacy]
        (jget_or ''protocol_policy'' (JStr ''auto'') j)) (\<lambda>protocol.
      sum_bind (valid_literal scope_of_text [sc_call, sc_run]
        (jget_or ''connection_scope'' (JStr ''call'') j)) (\<lambda>sc.
      sum_bind (valid_float (within_limit 120) (jget_or ''connect_timeout'' (JFloat 10) j)) (\<lambda>c1.
      sum_bind (valid_float (within_limit 3600) (jget_or ''request_timeout'' (JFloat 60) j)) (\<lambda>c2.
      sum_bind (valid_float (within_limit 86400) (jget_or ''max_total_duration'' (JFloat 180) j)) (\<lambda>c3.
      sum_bind (valid_float (\<lambda>c. 0 \<le> c \<and> c \<le> 3600) (jget_or ''catalog_ttl'' (JFloat 30) j)) (\<lambda>c4.
      let p = \<lparr>cp_server = server, cp_revision = revision, cp_name = name, cp_transport = transport,
           cp_command = command, cp_args = args, cp_cwd = cwd, cp_endpoint = endpoint,
           cp_environment = environment, cp_credential = credential, cp_oauth = oauth,
           cp_capabilities = capabilities, cp_protocol = protocol, cp_scope = sc, cp_connect = c1,
           cp_request = c2, cp_total = c3, cp_ttl = c4\<rparr>
      in if valid_transport nw p then Inr p else Inl PyValueError)))))))))))))))))))"

section \<open>Round trips\<close>

lemma valid_strings_json [simp]: "valid_strings (strings_json xs) = Inr xs"
proof -
  have "sum_all (map valid_string (map JStr xs)) = Inr xs"
    by (induction xs) (simp_all add: sum_bind_def valid_string_def)
  then show ?thesis by (simp add: valid_strings_def strings_json_def)
qed

lemma valid_string_map_json [simp]: "valid_string_map (string_map_json kvs) = Inr kvs"
proof -
  have "sum_all (map (\<lambda>e. map_sum id (Pair (fst e)) (valid_string (snd e))) (map (\<lambda>e. (fst e, JStr (snd e))) kvs)) = Inr kvs"
    by (induction kvs) (simp_all add: sum_bind_def valid_string_def)
  then show ?thesis by (simp add: valid_string_map_def string_map_json_def)
qed

lemma valid_object_id [simp]: "is_object j \<Longrightarrow> valid_object j = Inr j"
  by (cases j) (simp_all add: valid_object_def)

lemma agent_validate_json:
  assumes "valid_agent a"
  shows "agent_validate (agent_json a) = Inr a"
proof -
  have "known_keys agent_fields (agent_json a)"
    by (simp add: known_keys_def agent_fields_def agent_json_def)
  moreover have "jget_or ''id'' d (agent_json a) = JStr (ag_id a)"
    "jget_or ''revision'' d (agent_json a) = JInt (ag_revision a)"
    "jget_or ''runtime'' d (agent_json a) = JStr ''langchain''"
    "jget_or ''system_prompt_ref'' d (agent_json a) = JStr (ag_prompt a)"
    "jget_or ''model_policy'' d (agent_json a) = ag_model_policy a"
    "jget_or ''tools'' d (agent_json a) = strings_json (ag_tools a)"
    "jget_or ''skills'' d (agent_json a) = strings_json (ag_skills a)"
    "jget_or ''mcp_servers'' d (agent_json a) = strings_json (ag_mcp a)"
    "jget_or ''policy'' d (agent_json a) = JStr (ag_policy a)"
    "jget_or ''context_policy'' d (agent_json a) = JStr (ag_context a)"
    "jget_or ''budget'' d (agent_json a) = ag_budget a" for d
    by (simp_all add: agent_json_def jget_or_def)
  ultimately show ?thesis
    using assms unfolding agent_validate_def
    by (simp add: sum_bind_def valid_string_def valid_int_def valid_agent_def)
qed

end
