(* ===== verification/Plugins.thy ===== *)
theory Plugins
  imports Host_Models
begin

text \<open>
  Plugins: manifests (\<^verbatim>\<open>harness/plugins/manifest.py\<close>), the registry of plugin versions with their life
  cycle (\<^verbatim>\<open>registry.py\<close>) and the declarative contributions of the host (\<^verbatim>\<open>integration.py\<close>). A plugin
  version is recorded in the store; its running instance, the calls in flight and the extensions it
  registered are in the memory of the process. What the host's factories make and what versions and version
  ranges mean (\<^verbatim>\<open>packaging\<close>) are parameters.
\<close>

section \<open>Manifests\<close>

definition extension_points :: "string list" where
  "extension_points =
     [''providers'', ''tools'', ''skill_sources'', ''skills'', ''mcp_connectors'', ''context_policies'',
      ''agent_templates'', ''runtimes'', ''ui_panels'']"

record manifest =
  pl_id :: string
  pl_version :: string
  pl_api :: string
  pl_entrypoint :: "string option"
  pl_contributes :: "(string \<times> json list) list"
  pl_plugins :: "(string \<times> string) list"
  pl_network :: "string list"
  pl_filesystem :: "string list"
  pl_credentials :: "string list"

definition manifest_json :: "manifest \<Rightarrow> json" where
  "manifest_json m = JObj
     [(''id'', JStr (pl_id m)), (''version'', JStr (pl_version m)), (''harness_api'', JStr (pl_api m)),
      (''entrypoint'', optional_json JStr (pl_entrypoint m)),
      (''contributes'', JObj (map (\<lambda>e. (fst e, JList (snd e))) (pl_contributes m))),
      (''requires'', JObj
        [(''plugins'', string_map_json (pl_plugins m)), (''network'', strings_json (pl_network m)),
         (''filesystem'', strings_json (pl_filesystem m)), (''credentials'', strings_json (pl_credentials m))])]"

text \<open>The pattern \<^verbatim>\<open>^[a-z][a-z0-9_.-]{0,63}$\<close>.\<close>

definition lower_letter :: "char \<Rightarrow> bool" where
  "lower_letter c \<longleftrightarrow> CHR ''a'' \<le> c \<and> c \<le> CHR ''z''"

definition plugin_char :: "char \<Rightarrow> bool" where
  "plugin_char c \<longleftrightarrow> lower_letter c \<or> CHR ''0'' \<le> c \<and> c \<le> CHR ''9'' \<or> c \<in> {CHR ''_'', CHR ''.'', CHR ''-''}"

definition valid_plugin_id :: "string \<Rightarrow> bool" where
  "valid_plugin_id s = (case s of [] \<Rightarrow> False | c # r \<Rightarrow> lower_letter c \<and> list_all plugin_char r \<and> length r \<le> 63)"

record ('i, 'h) plugin_host =
  ph_version :: "string \<Rightarrow> bool"
  ph_range :: "string \<Rightarrow> bool"
  ph_within :: "string \<Rightarrow> string \<Rightarrow> bool"
  ph_older :: "string \<Rightarrow> string \<Rightarrow> bool"
  ph_api :: string
  ph_factories :: "string list"
  ph_make :: "string \<Rightarrow> manifest \<Rightarrow> ('h, 'i) act"
  ph_initialize :: "'i \<Rightarrow> ('h, unit) act"
  ph_register :: "'i \<Rightarrow> ('h, unit) act option"
  ph_dispose :: "'i \<Rightarrow> ('h, unit) act"
  ph_hash :: "json \<Rightarrow> string"
  ph_supported :: "string list"
  ph_network :: network
  ph_folder :: "json \<Rightarrow> err + string"

definition object_list :: "json \<Rightarrow> err + json list" where
  "object_list j = (case j of JList xs \<Rightarrow> sum_all (map valid_object xs) | _ \<Rightarrow> Inl PyValueError)"

definition contributes_validate :: "json \<Rightarrow> err + (string \<times> json list) list" where
  "contributes_validate j =
     (if \<not> known_keys extension_points j then Inl PyValueError
      else sum_all (map (\<lambda>c. map_sum id (Pair c) (object_list (jget_or c (JList []) j))) extension_points))"

definition manifest_validate :: "('i, 'h) plugin_host \<Rightarrow> json \<Rightarrow> err + manifest" where
  "manifest_validate host j =
     (if \<not> known_keys [''id'', ''version'', ''harness_api'', ''entrypoint'', ''contributes'', ''requires''] j
      then Inl PyValueError else
      sum_bind (valid_string (jget ''id'' j)) (\<lambda>i.
      if \<not> valid_plugin_id i then Inl PyValueError else
      sum_bind (valid_string (jget ''version'' j)) (\<lambda>version.
      if \<not> ph_version host version then Inl PyValueError else
      sum_bind (valid_string (jget ''harness_api'' j)) (\<lambda>api.
      if \<not> ph_range host api then Inl PyValueError else
      sum_bind (valid_optional valid_string (jget ''entrypoint'' j)) (\<lambda>entrypoint.
      sum_bind (contributes_validate (jget_or ''contributes'' (JObj []) j)) (\<lambda>contributes.
      sum_bind (valid_object (jget_or ''requires'' (JObj []) j)) (\<lambda>requires.
      if \<not> known_keys [''plugins'', ''network'', ''filesystem'', ''credentials''] requires then Inl PyValueError else
      sum_bind (valid_string_map (jget_or ''plugins'' (JObj []) requires)) (\<lambda>plugins.
      sum_bind (valid_strings (jget_or ''network'' (JList []) requires)) (\<lambda>network.
      sum_bind (valid_strings (jget_or ''filesystem'' (JList []) requires)) (\<lambda>filesystem.
      sum_bind (valid_strings (jget_or ''credentials'' (JList []) requires)) (\<lambda>credentials.
      Inr \<lparr>pl_id = i, pl_version = version, pl_api = api, pl_entrypoint = entrypoint,
           pl_contributes = contributes, pl_plugins = plugins, pl_network = network,
           pl_filesystem = filesystem, pl_credentials = credentials\<rparr>)))))))))))"

section \<open>Dependencies\<close>

definition version_key :: "string \<Rightarrow> string \<Rightarrow> string" where
  "version_key i v = i @ CHR ''@'' # v"

definition manifest_key :: "manifest \<Rightarrow> string" where
  "manifest_key m = version_key (pl_id m) (pl_version m)"

text \<open>\<^verbatim>\<open>max(..., key=Version)\<close>: the first of the newest.\<close>

fun newest :: "('v \<Rightarrow> 'v \<Rightarrow> bool) \<Rightarrow> 'v \<Rightarrow> 'v list \<Rightarrow> 'v" where
  "newest older best [] = best"
| "newest older best (c # cs) = newest older (if older best c then c else best) cs"

type_synonym visited = "string list \<times> manifest list"

text \<open>
  The depth-first visit. \<open>stack\<close> holds the identities being visited; the fuel counts nested visits.
\<close>

function (sequential) visit ::
  "('i, 'h) plugin_host \<Rightarrow> manifest list \<Rightarrow> (string \<times> string) list \<Rightarrow> nat \<Rightarrow> string list \<Rightarrow> manifest \<Rightarrow> visited \<Rightarrow>
   err + visited"
  and visit_needs ::
  "('i, 'h) plugin_host \<Rightarrow> manifest list \<Rightarrow> (string \<times> string) list \<Rightarrow> nat \<Rightarrow> string list \<Rightarrow> (string \<times> string) list \<Rightarrow>
   visited \<Rightarrow> err + visited"
where
  "visit host ms installed 0 stack m st = Inl Diverges"
| "visit host ms installed (Suc n) stack m st =
     (if manifest_key m \<in> set stack then Inl PyValueError
      else if manifest_key m \<in> set (fst st) then Inr st
      else sum_bind (visit_needs host ms installed n (manifest_key m # stack) (pl_plugins m) st) (\<lambda>st'.
        Inr (manifest_key m # fst st', snd st' @ [m])))"
| "visit_needs host ms installed n stack [] st = Inr st"
| "visit_needs host ms installed n stack (d # ds) st =
     (case filter (\<lambda>c. pl_id c = fst d) ms of
        [] \<Rightarrow>
          if \<exists>r \<in> set installed. fst r = fst d \<and> ph_within host (snd r) (snd d)
          then visit_needs host ms installed n stack ds st else Inl PyValueError
      | g # gs \<Rightarrow>
          (case filter (\<lambda>c. ph_within host (pl_version c) (snd d)) (g # gs) of
             [] \<Rightarrow> Inl PyValueError
           | c # cs \<Rightarrow>
               sum_bind (visit host ms installed n stack
                   (newest (\<lambda>a b. ph_older host (pl_version a) (pl_version b)) c cs) st) (\<lambda>st'.
               visit_needs host ms installed n stack ds st')))"
  by pat_completeness auto
termination
  by (relation "measures [\<lambda>x. case x of Inl (_, _, _, n, _, _, _) \<Rightarrow> 2 * n | Inr (_, _, _, n, _, _, _) \<Rightarrow> 2 * n + 1,
      \<lambda>x. case x of Inl _ \<Rightarrow> 0 | Inr (_, _, _, _, _, ds, _) \<Rightarrow> length ds]") auto

fun visit_all ::
  "('i, 'h) plugin_host \<Rightarrow> manifest list \<Rightarrow> (string \<times> string) list \<Rightarrow> manifest list \<Rightarrow> visited \<Rightarrow> err + visited" where
  "visit_all host ms installed [] st = Inr st"
| "visit_all host ms installed (m # rest) st =
     sum_bind (visit host ms installed (Suc (length ms)) [] m st) (\<lambda>st'. visit_all host ms installed rest st')"

definition installed_versions :: "json list \<Rightarrow> (string \<times> string) list" where
  "installed_versions records =
     map (\<lambda>r. (jstr (jget ''id'' (jget ''manifest'' r)), jstr (jget ''version'' (jget ''manifest'' r))))
       (filter (\<lambda>r. jget ''status'' r = JStr ''ready'') records)"

definition resolve_dependencies :: "('i, 'h) plugin_host \<Rightarrow> manifest list \<Rightarrow> manifest list store" where
  "resolve_dependencies host ms =
     bnd (store_list ''plugins'') (\<lambda>records.
     bnd (lift (visit_all host ms (installed_versions records) ms ([], []))) (\<lambda>st. ret (snd st)))"

section \<open>Extensions\<close>

record ('i, 'h) plugin_memory =
  pm_entries :: "((string \<times> string \<times> string \<times> string) \<times> json) list"
  pm_instances :: "(string \<times> 'i option) list"
  pm_inflight :: "string \<Rightarrow> int"
  pm_host :: 'h

type_synonym ('i, 'h, 'a) plugged = "(('i, 'h) plugin_memory, 'a) hosted"

definition on_host :: "('h, 'a) act \<Rightarrow> ('i, 'h, 'a) plugged" where
  "on_host m s = (case m (pm_host (snd s)) of (r, h) \<Rightarrow> (r, (fst s, (snd s)\<lparr>pm_host := h\<rparr>)))"

definition in_memory :: "(('i, 'h) plugin_memory \<Rightarrow> ('i, 'h) plugin_memory) \<Rightarrow> ('i, 'h, unit) plugged" where
  "in_memory f = modify (\<lambda>s. (fst s, f (snd s)))"

definition contributions :: "manifest \<Rightarrow> (string \<times> json) list" where
  "contributions m = concat (map (\<lambda>e. map (Pair (fst e)) (snd e)) (pl_contributes m))"

definition contribution_name :: "json \<Rightarrow> json" where
  "contribution_name e = jor (jget ''id'' e) (jget ''name'' e)"

fun stage ::
  "string list \<Rightarrow> manifest \<Rightarrow> ((string \<times> string \<times> string \<times> string) \<times> json) list \<Rightarrow> (string \<times> json) list \<Rightarrow>
   ((string \<times> string \<times> string \<times> string) \<times> json) list \<Rightarrow>
   err + ((string \<times> string \<times> string \<times> string) \<times> json) list" where
  "stage supported m entries [] staged = Inr staged"
| "stage supported m entries ((category, e) # rest) staged =
     (if category \<notin> set supported then Inl PyValueError
      else case contribution_name e of
        JStr name \<Rightarrow>
          if name = '''' \<or> (pl_id m, pl_version m, category, name) \<in> fst ` set staged \<or>
             (\<exists>x \<in> set entries. snd (snd (fst x)) = (category, name) \<and> fst (fst x) \<noteq> pl_id m)
          then Inl PyValueError
          else stage supported m entries rest (staged @ [((pl_id m, pl_version m, category, name), e)])
      | _ \<Rightarrow> Inl PyValueError)"

definition register_entries :: "('i, 'h) plugin_host \<Rightarrow> manifest \<Rightarrow> ('i, 'h, unit) plugged" where
  "register_entries host m =
     bnd (gets (\<lambda>s. pm_entries (snd s))) (\<lambda>entries.
     bnd (lift (stage (ph_supported host) m entries (contributions m) [])) (\<lambda>staged.
     in_memory (\<lambda>p. p\<lparr>pm_entries := fold (\<lambda>e acc. put_assoc (fst e) (snd e) acc) staged (pm_entries p)\<rparr>)))"

definition drop_entries :: "string \<Rightarrow> string \<Rightarrow> ('i, 'h, unit) plugged" where
  "drop_entries i v =
     in_memory (\<lambda>p. p\<lparr>pm_entries := filter (\<lambda>e. (fst (fst e), fst (snd (fst e))) \<noteq> (i, v)) (pm_entries p)\<rparr>)"

section \<open>Contributions of the host\<close>

record contribution =
  cn_category :: string
  cn_name :: string
  cn_namespace :: string
  cn_config :: json

definition host_extensions :: "string list" where
  "host_extensions = [''skill_sources'', ''skills'', ''mcp_connectors'', ''agent_templates'']"

definition without_keys :: "string list \<Rightarrow> json \<Rightarrow> json" where
  "without_keys ks j = (case j of JObj kvs \<Rightarrow> JObj (filter (\<lambda>e. fst e \<notin> set ks) kvs) | _ \<Rightarrow> j)"

text \<open>
  What an entry of the manifest publishes. A name that is no string is refused here; the code refuses
  it when it registers the entry.
\<close>

definition source_config :: "('i, 'h) plugin_host \<Rightarrow> string \<Rightarrow> json \<Rightarrow> err + json" where
  "source_config host name item =
     (if \<not> known_keys [''id'', ''name'', ''root'', ''scope'', ''enabled''] item then Inl PyValueError else
      sum_bind (sum_bind (jfield ''root'' item) (ph_folder host)) (\<lambda>folder.
      case jget_or ''scope'' (JStr ''user'') item of
        JList xs \<Rightarrow> Inl PyTypeError
      | JObj kvs \<Rightarrow> Inl PyTypeError
      | sc \<Rightarrow> if sc \<noteq> JStr ''user'' \<and> sc \<noteq> JStr ''project'' then Inl PyValueError
          else Inr (JObj [(''id'', JStr name), (''root'', JStr folder), (''scope'', sc),
            (''enabled'', jget_or ''enabled'' (JBool True) item), (''trusted'', JBool False)])))"

definition contribution_of :: "('i, 'h) plugin_host \<Rightarrow> string \<times> json \<Rightarrow> contribution store" where
  "contribution_of host ce =
     (case ce of (category, item) \<Rightarrow>
      andthen (raise_if (category \<notin> set (ph_supported host)) PyValueError)
      (case contribution_name item of
         JStr name \<Rightarrow>
           andthen (raise_if (name = '''') PyValueError)
           (if category = ''skills'' \<or> category = ''skill_sources'' then
              bnd (lift (source_config host name item)) (\<lambda>config.
              ret \<lparr>cn_category = category, cn_name = name, cn_namespace = ''config/skill_sources'', cn_config = config\<rparr>)
            else if category = ''mcp_connectors'' then
              bnd (lift (connection_validate (ph_network host)
                (jset ''server_id'' (JStr name) (without_keys [''id'', ''name''] item)))) (\<lambda>p.
              ret \<lparr>cn_category = category, cn_name = name, cn_namespace = ''config/mcp'',
                cn_config = connection_json p\<rparr>)
            else
              bnd (lift (agent_validate (jset ''id'' (JStr name) (without_keys [''name''] item)))) (\<lambda>agent.
              bnd (store_get ''config/policies'' (ag_policy agent)) (\<lambda>policy.
              andthen (raise_if (ag_context agent \<noteq> ''default'' \<or> policy = None) PyValueError)
              (ret \<lparr>cn_category = category, cn_name = name, cn_namespace = ''config/agents'',
                cn_config = agent_json agent\<rparr>))))
       | _ \<Rightarrow> raise PyValueError))"

definition owner_key :: "('i, 'h) plugin_host \<Rightarrow> string \<Rightarrow> string \<Rightarrow> string" where
  "owner_key host ns name = ph_hash host (JList [JStr ns, JStr name])"

definition contribution_key :: "('i, 'h) plugin_host \<Rightarrow> string \<Rightarrow> string \<Rightarrow> string \<Rightarrow> string \<Rightarrow> string" where
  "contribution_key host i v ns name = ph_hash host (JList [JStr i, JStr v, JStr ns, JStr name])"

definition owner_json :: "manifest \<Rightarrow> contribution \<Rightarrow> json" where
  "owner_json m c = JObj
     [(''plugin_id'', JStr (pl_id m)), (''version'', JStr (pl_version m)), (''namespace'', JStr (cn_namespace c)),
      (''name'', JStr (cn_name c)), (''category'', JStr (cn_category c))]"

definition entry_json :: "manifest \<Rightarrow> contribution \<Rightarrow> json" where
  "entry_json m c = JObj
     [(''plugin_id'', JStr (pl_id m)), (''version'', JStr (pl_version m)), (''namespace'', JStr (cn_namespace c)),
      (''name'', JStr (cn_name c)), (''config'', cn_config c), (''category'', JStr (cn_category c))]"

definition check_owner :: "('i, 'h) plugin_host \<Rightarrow> manifest \<Rightarrow> contribution \<Rightarrow> unit store" where
  "check_owner host m c =
     bnd (store_get ''plugin_contribution_owners'' (owner_key host (cn_namespace c) (cn_name c))) (\<lambda>owner.
     bnd (store_get (cn_namespace c) (cn_name c)) (\<lambda>existing.
     raise_if (existing \<noteq> None \<and>
         (\<not> jtruthy (or_empty owner) \<or> jget ''plugin_id'' (or_empty owner) \<noteq> JStr (pl_id m))) PyValueError))"

definition publish :: "('i, 'h) plugin_host \<Rightarrow> manifest \<Rightarrow> contribution \<Rightarrow> unit store" where
  "publish host m c =
     bnd (store_get ''plugin_contribution_owners'' (owner_key host (cn_namespace c) (cn_name c))) (\<lambda>owner.
     andthen (store_put ''plugin_contributions''
       (contribution_key host (pl_id m) (pl_version m) (cn_namespace c) (cn_name c)) (entry_json m c))
     (whenever (\<not> jtruthy (or_empty owner) \<or>
          ph_older host (jstr (jget ''version'' (or_empty owner))) (pl_version m))
       (bnd (store_get (cn_namespace c) (cn_name c)) (\<lambda>existing.
        andthen (store_put (cn_namespace c) (cn_name c)
          (jset ''revision'' (JInt (jint (jget_or ''revision'' (JInt 0) (or_empty existing)) + 1)) (cn_config c)))
        (store_put ''plugin_contribution_owners'' (owner_key host (cn_namespace c) (cn_name c))
          (owner_json m c))))))"

definition register_atomic :: "('i, 'h) plugin_host \<Rightarrow> manifest \<Rightarrow> ('i, 'h, unit) plugged" where
  "register_atomic host m =
     bnd (in_store (collect (contributions m) (contribution_of host))) (\<lambda>cs.
     hosted_transaction
       (andthen (in_store (foreach cs (check_owner host m)))
       (andthen (register_entries host m)
       (catch_all (in_store (foreach cs (publish host m)))
          (\<lambda>e. andthen (drop_entries (pl_id m) (pl_version m)) (raise e))))))"

text \<open>
  Withdrawing the contributions of a version: what it owned passes to the newest other version that
  contributes it, or is deleted.
\<close>

definition item_version :: "json \<Rightarrow> string" where
  "item_version j = jstr (jget ''version'' j)"

definition withdraw :: "('i, 'h) plugin_host \<Rightarrow> string \<Rightarrow> string \<Rightarrow> json \<Rightarrow> unit store" where
  "withdraw host i v entry =
     whenever (jget ''plugin_id'' entry = JStr i \<and> jget ''version'' entry = JStr v)
       (bnd (ret (jstr (jget ''namespace'' entry), jstr (jget ''name'' entry))) (\<lambda>(ns, name).
        andthen (store_delete ''plugin_contributions'' (contribution_key host i v ns name))
        (bnd (store_get ''plugin_contribution_owners'' (owner_key host ns name)) (\<lambda>owner.
         whenever (jtruthy (or_empty owner) \<and> jget ''plugin_id'' (or_empty owner) = JStr i \<and>
             jget ''version'' (or_empty owner) = JStr v)
           (bnd (store_list ''plugin_contributions'') (\<lambda>items.
            case filter (\<lambda>x. jget ''namespace'' x = JStr ns \<and> jget ''name'' x = JStr name) items of
              [] \<Rightarrow>
                andthen (store_delete ns name)
                (store_delete ''plugin_contribution_owners'' (owner_key host ns name))
            | x # xs \<Rightarrow>
                bnd (ret (newest (\<lambda>a b. ph_older host (item_version a) (item_version b)) x xs)) (\<lambda>chosen.
                bnd (lift (jfield ''config'' chosen)) (\<lambda>config.
                andthen (store_put ns name config)
                (store_put ''plugin_contribution_owners'' (owner_key host ns name)
                  (without_keys [''config''] chosen))))))))))"

definition unregister :: "('i, 'h) plugin_host \<Rightarrow> string \<Rightarrow> string \<Rightarrow> ('i, 'h, unit) plugged" where
  "unregister host i v =
     hosted_transaction
       (andthen (in_store (bnd (store_list ''plugin_contributions'') (\<lambda>entries.
          foreach entries (withdraw host i v))))
       (drop_entries i v))"

section \<open>The registry of versions\<close>

definition optional_value :: "json option \<Rightarrow> json" where
  "optional_value j = (case j of None \<Rightarrow> JNull | Some v \<Rightarrow> v)"

definition plugin_record :: "string \<Rightarrow> string \<Rightarrow> json store" where
  "plugin_record i v =
     bnd (store_get ''plugins'' (version_key i v)) (\<lambda>found.
     andthen (raise_if (\<not> jtruthy (or_empty found)) PyKeyError)
     (ret (or_empty found)))"

definition jappend :: "string \<Rightarrow> json \<Rightarrow> json \<Rightarrow> json" where
  "jappend k x j = jset k (JList (jitems (jget_or k (JList []) j) @ [x])) j"

definition has_status :: "json \<Rightarrow> string list \<Rightarrow> bool" where
  "has_status record statuses \<longleftrightarrow> jget ''status'' record \<in> JStr ` set statuses"

definition fresh_record :: "manifest \<Rightarrow> string \<Rightarrow> json option \<Rightarrow> json" where
  "fresh_record m digest previous = JObj
     [(''manifest'', manifest_json m), (''manifest_hash'', JStr digest),
      (''status'', JStr (if jtruthy (or_empty previous) \<and> has_status (or_empty previous) [''draining'']
         then ''draining'' else ''ready'')),
      (''revision'', JInt (jint (jget_or ''revision'' (JInt 0) (or_empty previous)) + 1)),
      (''implementation_version'', JStr (pl_version m)), (''diagnostics'', JList []),
      (''lifecycle'', strings_json
         [''discover'', ''validate'', ''resolve_dependencies'', ''initialize'', ''register'', ''ready''])]"

definition failed_record :: "manifest \<Rightarrow> string \<Rightarrow> json" where
  "failed_record m digest = JObj
     [(''manifest'', manifest_json m), (''manifest_hash'', JStr digest), (''status'', JStr ''dispose_failed''),
      (''revision'', JInt 1), (''diagnostics'', strings_json [''rollback dispose failed''])]"

definition hold_instance :: "string \<Rightarrow> 'i option \<Rightarrow> ('i, 'h, unit) plugged" where
  "hold_instance key instance =
     in_memory (\<lambda>p. p\<lparr>pm_instances := put_assoc key instance (pm_instances p)\<rparr>)"

definition load_failed ::
  "('i, 'h) plugin_host \<Rightarrow> manifest \<Rightarrow> string \<Rightarrow> 'i option \<Rightarrow> err \<Rightarrow> ('i, 'h, json) plugged" where
  "load_failed host m digest instance e =
     andthen (unregister host (pl_id m) (pl_version m))
     (andthen (case instance of
         None \<Rightarrow> ret ()
       | Some x \<Rightarrow> catch_all (on_host (ph_dispose host x)) (\<lambda>_.
           andthen (hold_instance (manifest_key m) (Some x))
           (in_store (store_put ''plugins'' (manifest_key m) (failed_record m digest)))))
     (raise e))"

definition made_instance :: "('i, 'h) plugin_host \<Rightarrow> manifest \<Rightarrow> ('i, 'h, 'i option) plugged" where
  "made_instance host m =
     (if text_given (pl_entrypoint m) then
        (case pl_entrypoint m of
           None \<Rightarrow> ret None
         | Some e \<Rightarrow> bnd (on_host (ph_make host e m)) (\<lambda>x. ret (Some x)))
      else ret None)"

definition started :: "('i, 'h) plugin_host \<Rightarrow> manifest \<Rightarrow> string \<Rightarrow> json option \<Rightarrow> 'i option \<Rightarrow> ('i, 'h, json) plugged" where
  "started host m digest previous instance =
     andthen (case instance of None \<Rightarrow> ret () | Some x \<Rightarrow> on_host (ph_initialize host x))
     (andthen (register_atomic host m)
     (andthen (case instance of
         None \<Rightarrow> ret ()
       | Some x \<Rightarrow> (case ph_register host x of None \<Rightarrow> ret () | Some f \<Rightarrow> on_host f))
     (andthen (in_store (store_put ''plugins'' (manifest_key m) (fresh_record m digest previous)))
     (andthen (hold_instance (manifest_key m) instance)
     (ret (fresh_record m digest previous))))))"

definition start_plugin ::
  "('i, 'h) plugin_host \<Rightarrow> manifest \<Rightarrow> string \<Rightarrow> json option \<Rightarrow> ('i, 'h, json) plugged" where
  "start_plugin host m digest previous =
     bnd (captured (made_instance host m)) (\<lambda>made.
     case made of
       Inl e \<Rightarrow> load_failed host m digest None e
     | Inr instance \<Rightarrow> catch_all (started host m digest previous instance) (load_failed host m digest instance))"

definition load_plugin ::
  "('i, 'h) plugin_host \<Rightarrow> manifest \<Rightarrow> bool \<Rightarrow> ('i, 'h, json) plugged" where
  "load_plugin host m rehydrate =
     andthen (raise_if (\<not> ph_within host (ph_api host) (pl_api m)) PyValueError)
     (andthen (raise_if (case pl_entrypoint m of None \<Rightarrow> False
         | Some e \<Rightarrow> e \<noteq> '''' \<and> e \<notin> set (ph_factories host)) PyPermissionError)
     (andthen (in_store (resolve_dependencies host [m]))
     (hosted_transaction
       (bnd (in_store (store_get ''plugins'' (manifest_key m))) (\<lambda>previous.
        if rehydrate \<and> (\<not> jtruthy (or_empty previous) \<or> \<not> has_status (or_empty previous) [''ready'', ''draining''])
        then ret (optional_value previous)
        else
          bnd (ret (ph_hash host (manifest_json m))) (\<lambda>digest.
          andthen (raise_if (jtruthy (or_empty previous) \<and>
              jget ''manifest_hash'' (or_empty previous) \<noteq> JStr digest) PyValueError)
          (bnd (gets (\<lambda>s. map_of (pm_instances (snd s)) (manifest_key m))) (\<lambda>held.
           if held \<noteq> None then ret (optional_value previous)
           else start_plugin host m digest previous))))))))"

definition references :: "string \<Rightarrow> string \<Rightarrow> json list store" where
  "references i v =
     bnd (store_list ''plugin_run_refs'') (\<lambda>refs.
     ret (filter (\<lambda>r. jget ''plugin_id'' r = JStr i \<and> jget ''version'' r = JStr v) refs))"

definition run_ref_key :: "string \<Rightarrow> string \<Rightarrow> string \<Rightarrow> string" where
  "run_ref_key i v run = version_key i v @ CHR '':'' # run"

definition bind_version :: "string \<Rightarrow> string \<Rightarrow> string \<Rightarrow> json store" where
  "bind_version i v run =
     bnd (plugin_record i v) (\<lambda>record.
     bnd (store_get ''plugin_run_refs'' (run_ref_key i v run)) (\<lambda>existing.
     if jtruthy (or_empty existing) then ret (or_empty existing)
     else
       andthen (raise_if (\<not> has_status record [''ready'']) PyValueError)
       (bnd (lift (jfield ''manifest_hash'' record)) (\<lambda>digest.
        bnd (ret (JObj [(''plugin_id'', JStr i), (''version'', JStr v), (''run_id'', JStr run),
           (''manifest_hash'', digest)])) (\<lambda>value.
        andthen (store_put ''plugin_run_refs'' (run_ref_key i v run) value)
        (ret value))))))"

definition dispose_if_unused :: "('i, 'h) plugin_host \<Rightarrow> string \<Rightarrow> string \<Rightarrow> ('i, 'h, json) plugged" where
  "dispose_if_unused host i v =
     bnd (in_store (plugin_record i v)) (\<lambda>record.
     bnd (in_store (references i v)) (\<lambda>refs.
     bnd (gets (\<lambda>s. pm_inflight (snd s) (version_key i v))) (\<lambda>inflight.
     if \<not> has_status record [''draining''] \<or> refs \<noteq> [] \<or> inflight \<noteq> 0 then ret record
     else
       bnd (catch_all
         (bnd (gets (\<lambda>s. map_of (pm_instances (snd s)) (version_key i v))) (\<lambda>held.
          andthen (case held of Some (Some x) \<Rightarrow> on_host (ph_dispose host x) | _ \<Rightarrow> ret ())
          (andthen (unregister host i v)
          (andthen (in_memory (\<lambda>p. p\<lparr>pm_instances := filter (\<lambda>e. fst e \<noteq> version_key i v) (pm_instances p)\<rparr>))
          (ret (jappend ''lifecycle'' (JStr ''dispose'') (jset ''status'' (JStr ''disposed'') record)))))))
         (\<lambda>_. ret (jappend ''diagnostics'' (JStr ''dispose failed; supervisor cleanup required'')
            (jset ''status'' (JStr ''dispose_failed'') record)))) (\<lambda>record.
       andthen (in_store (store_put ''plugins'' (version_key i v) record))
       (ret record)))))"

definition enter_call :: "string \<Rightarrow> string \<Rightarrow> string \<Rightarrow> ('i, 'h, 'i option) plugged" where
  "enter_call i v run =
     bnd (in_store (store_get ''plugin_run_refs'' (run_ref_key i v run))) (\<lambda>held.
     andthen (raise_if (\<not> jtruthy (or_empty held)) PyPermissionError)
     (bnd (gets (\<lambda>s. map_of (pm_instances (snd s)) (version_key i v))) (\<lambda>loaded.
      andthen (raise_if (loaded = None) PyRuntimeError)
      (bnd (in_store (plugin_record i v)) (\<lambda>record.
       andthen (raise_if (\<not> has_status record [''ready'', ''draining'']) PyPermissionError)
       (andthen (in_memory (\<lambda>p. p\<lparr>pm_inflight := (pm_inflight p)(version_key i v := pm_inflight p (version_key i v) + 1)\<rparr>))
       (need PyRuntimeError loaded)))))))"

definition leave_call :: "('i, 'h) plugin_host \<Rightarrow> string \<Rightarrow> string \<Rightarrow> ('i, 'h, unit) plugged" where
  "leave_call host i v =
     andthen (in_memory (\<lambda>p. p\<lparr>pm_inflight := (pm_inflight p)(version_key i v := pm_inflight p (version_key i v) - 1)\<rparr>))
     (bnd (dispose_if_unused host i v) (\<lambda>_. ret ()))"

definition drain_plugin :: "('i, 'h) plugin_host \<Rightarrow> string \<Rightarrow> string \<Rightarrow> ('i, 'h, json) plugged" where
  "drain_plugin host i v =
     hosted_transaction
       (bnd (in_store (plugin_record i v)) (\<lambda>record.
        if has_status record [''disposed''] then ret record
        else
          andthen (in_store (store_put ''plugins'' (version_key i v)
            (jappend ''lifecycle'' (JStr ''drain'')
              (jset ''revision'' (JInt (jint (jget ''revision'' record) + 1))
                (jset ''status'' (JStr ''draining'') record)))))
          (dispose_if_unused host i v)))"

definition release_reference :: "('i, 'h) plugin_host \<Rightarrow> string \<Rightarrow> json \<Rightarrow> ('i, 'h, unit) plugged" where
  "release_reference host run r =
     whenever (jget ''run_id'' r = JStr run)
       (bnd (ret (jstr (jget ''plugin_id'' r), jstr (jget ''version'' r))) (\<lambda>(i, v).
        andthen (in_store (store_delete ''plugin_run_refs'' (run_ref_key i v run)))
        (bnd (dispose_if_unused host i v) (\<lambda>_. ret ()))))"

definition release_run :: "('i, 'h) plugin_host \<Rightarrow> string \<Rightarrow> ('i, 'h, unit) plugged" where
  "release_run host run =
     hosted_transaction
       (bnd (in_store (store_list ''plugin_run_refs'')) (\<lambda>refs. foreach refs (release_reference host run)))"

definition recover_plugins :: "('i, 'h) plugin_host \<Rightarrow> ('i, 'h, json list) plugged" where
  "recover_plugins host =
     bnd (in_store (store_list ''plugins'')) (\<lambda>all.
     bnd (ret (filter (\<lambda>r. has_status r [''ready'', ''draining'']) all)) (\<lambda>records.
     bnd (in_store (collect records (\<lambda>r. lift (manifest_validate host (jget ''manifest'' r))))) (\<lambda>ms.
     bnd (in_store (resolve_dependencies host ms)) (\<lambda>order.
     andthen (foreach order (\<lambda>m. bnd (load_plugin host m True) (\<lambda>_. ret ())))
     (ret records)))))"

section \<open>Plugins of runs\<close>

definition unfinished :: "run_status list" where
  "unfinished = [queued, running, waiting_user, waiting_children, recovering, needs_review, cancelling]"

definition restore_reference :: "run_row \<Rightarrow> json \<Rightarrow> unit store" where
  "restore_reference run r =
     bnd (lift (jfield ''plugin_id'' r)) (\<lambda>i.
     bnd (lift (jfield ''version'' r)) (\<lambda>v.
     bnd (store_get ''plugin_run_refs'' (run_ref_key (jstr i) (jstr v) (r_id run))) (\<lambda>held.
     whenever (\<not> jtruthy (or_empty held))
       (bnd (plugin_record (jstr i) (jstr v)) (\<lambda>record.
        andthen (raise_if (jget ''manifest_hash'' record \<noteq> jget ''manifest_hash'' r \<or>
            \<not> has_status record [''ready'', ''draining'']) PyRuntimeError)
        (store_put ''plugin_run_refs'' (run_ref_key (jstr i) (jstr v) (r_id run))
          (jset ''run_id'' (JStr (r_id run)) r)))))))"

definition snapshot_plugins :: "json option \<Rightarrow> json list" where
  "snapshot_plugins snapshot = jitems (jget_or ''plugins'' (JList []) (or_empty snapshot))"

definition manager_recover :: "('i, 'h) plugin_host \<Rightarrow> ('i, 'h, unit) plugged" where
  "manager_recover host =
     bnd (recover_plugins host) (\<lambda>_.
     bnd (in_store (store_runs None unfinished None)) (\<lambda>active.
     bnd (in_store (store_list ''plugin_run_refs'')) (\<lambda>refs.
     andthen (foreach refs (\<lambda>r. whenever (jget ''run_id'' r \<notin> JStr ` r_id ` set active)
        (release_run host (jstr (jget ''run_id'' r)))))
     (in_store (foreach active (\<lambda>run.
        bnd (store_get ''snapshots'' (r_snapshot run)) (\<lambda>snapshot.
        foreach (snapshot_plugins snapshot) (restore_reference run))))))))"

text \<open>
  The versions a run needs, closed under dependencies. The fuel counts nested dependencies; every one is
  a version that has a record and is not among the references yet.
\<close>

definition usable_dependency :: "('i, 'h) plugin_host \<Rightarrow> string \<times> string \<Rightarrow> json \<Rightarrow> bool" where
  "usable_dependency host d r \<longleftrightarrow>
     jget ''id'' (jget ''manifest'' r) = JStr (fst d) \<and> has_status r [''ready''] \<and>
     ph_within host (jstr (jget ''version'' (jget ''manifest'' r))) (snd d)"

definition manifest_version :: "json \<Rightarrow> string" where
  "manifest_version r = jstr (jget ''version'' (jget ''manifest'' r))"

definition needed_plugins :: "json \<Rightarrow> (string \<times> string) list" where
  "needed_plugins record =
     map (map_prod id jstr) (case jget ''plugins'' (jget ''requires'' (jget ''manifest'' record)) of
        JObj kvs \<Rightarrow> kvs | _ \<Rightarrow> [])"

function (sequential) include_version ::
  "('i, 'h) plugin_host \<Rightarrow> nat \<Rightarrow> string \<times> string \<Rightarrow> (string \<times> json) list \<Rightarrow> (string \<times> json) list store"
  and include_needs ::
  "('i, 'h) plugin_host \<Rightarrow> nat \<Rightarrow> (string \<times> string) list \<Rightarrow> (string \<times> json) list \<Rightarrow> (string \<times> json) list store"
where
  "include_version host 0 iv refs = raise Diverges"
| "include_version host (Suc n) iv refs =
     (if version_key (fst iv) (snd iv) \<in> fst ` set refs then ret refs
      else
        bnd (plugin_record (fst iv) (snd iv)) (\<lambda>record.
        andthen (raise_if (\<not> has_status record [''ready'']) (HErr ''PLUGIN_DRAINING'' 409))
        (include_needs host n (needed_plugins record)
          (refs @ [(version_key (fst iv) (snd iv), JObj [(''plugin_id'', JStr (fst iv)), (''version'', JStr (snd iv)),
             (''manifest_hash'', jget ''manifest_hash'' record)])]))))"
| "include_needs host n [] refs = ret refs"
| "include_needs host n (d # ds) refs =
     bnd (store_list ''plugins'') (\<lambda>all.
     case filter (usable_dependency host d) all of
       [] \<Rightarrow> raise (HErr ''PLUGIN_DEPENDENCY'' 409)
     | r # rs \<Rightarrow>
         bnd (include_version host n (fst d, manifest_version
           (newest (\<lambda>a b. ph_older host (manifest_version a) (manifest_version b)) r rs)) refs) (\<lambda>refs.
         include_needs host n ds refs))"
  by pat_completeness auto
termination
  by (relation "measures [\<lambda>x. case x of Inl (_, n, _, _) \<Rightarrow> 2 * n | Inr (_, n, _, _) \<Rightarrow> 2 * n + 1,
      \<lambda>x. case x of Inl _ \<Rightarrow> 0 | Inr (_, _, ds, _) \<Rightarrow> length ds]") auto

definition requested_items :: "string \<Rightarrow> string list \<Rightarrow> json list \<Rightarrow> (string \<times> string) list" where
  "requested_items agent servers skills =
     (''config/agents'', agent) # map (Pair ''config/mcp'') servers @
     map (\<lambda>s. (''config/skill_sources'', jstr (jget ''source_id'' s))) skills"

fun include_requested ::
  "('i, 'h) plugin_host \<Rightarrow> nat \<Rightarrow> (string \<times> string) list \<Rightarrow> (string \<times> json) list \<Rightarrow> (string \<times> json) list store" where
  "include_requested host n [] refs = ret refs"
| "include_requested host n ((ns, name) # rest) refs =
     bnd (store_get ''plugin_contribution_owners'' (owner_key host ns name)) (\<lambda>owner.
     bnd (if jtruthy (or_empty owner)
          then include_version host n (jstr (jget ''plugin_id'' (or_empty owner)), jstr (jget ''version'' (or_empty owner))) refs
          else ret refs) (\<lambda>refs.
     include_requested host n rest refs))"

definition snapshot_refs ::
  "('i, 'h) plugin_host \<Rightarrow> string \<Rightarrow> string list \<Rightarrow> json list \<Rightarrow> json list store" where
  "snapshot_refs host agent servers skills =
     bnd (store_list ''plugins'') (\<lambda>all.
     bnd (include_requested host (length all + 2) (requested_items agent servers skills) []) (\<lambda>refs.
     ret (map snd refs)))"

definition manager_bind :: "run_row \<Rightarrow> json \<Rightarrow> unit store" where
  "manager_bind run snapshot =
     foreach (snapshot_plugins (Some snapshot)) (\<lambda>r.
       bnd (bind_version (jstr (jget ''plugin_id'' r)) (jstr (jget ''version'' r)) (r_id run)) (\<lambda>bound.
       raise_if (jget ''manifest_hash'' bound \<noteq> jget ''manifest_hash'' r) (HErr ''PLUGIN_LOCK_CHANGED'' 409)))"

definition manager_validate :: "execution_context \<Rightarrow> json \<Rightarrow> unit store" where
  "manager_validate ctx snapshot =
     foreach (snapshot_plugins (Some snapshot)) (\<lambda>r.
       bnd (ret (jstr (jget ''plugin_id'' r), jstr (jget ''version'' r))) (\<lambda>(i, v).
       bnd (store_get ''plugin_run_refs'' (run_ref_key i v (c_run ctx))) (\<lambda>bound.
       andthen (raise_if (\<not> jtruthy (or_empty bound) \<or>
           jget ''manifest_hash'' (or_empty bound) \<noteq> jget ''manifest_hash'' r) (HErr ''PLUGIN_RUN_BINDING'' 409))
       (bnd (plugin_record i v) (\<lambda>record.
        raise_if (\<not> has_status record [''ready'', ''draining'']) (HErr ''PLUGIN_UNAVAILABLE'' 409))))))"

end
