(* ===== verification/Plugin_Steps.thy ===== *)
theory Plugin_Steps
  imports Plugins
begin

text \<open>
  What holds of plugins: the order of dependencies, the versions that runs hold, and two ways in which a
  plugin version is lost.
\<close>

section \<open>The order of dependencies\<close>

definition needs_met ::
  "('i, 'h) plugin_host \<Rightarrow> manifest list \<Rightarrow> (string \<times> string) list \<Rightarrow> manifest list \<Rightarrow> string \<times> string \<Rightarrow> bool" where
  "needs_met host ms installed before d \<longleftrightarrow>
     (\<exists>c \<in> set before. pl_id c = fst d \<and> ph_within host (pl_version c) (snd d)) \<or>
     (\<forall>m \<in> set ms. pl_id m \<noteq> fst d) \<and> (\<exists>r \<in> set installed. fst r = fst d \<and> ph_within host (snd r) (snd d))"

definition ordered ::
  "('i, 'h) plugin_host \<Rightarrow> manifest list \<Rightarrow> (string \<times> string) list \<Rightarrow> visited \<Rightarrow> bool" where
  "ordered host ms installed st \<longleftrightarrow>
     fst st = rev (map manifest_key (snd st)) \<and> distinct (fst st) \<and> set (snd st) \<subseteq> set ms \<and>
     (\<forall>i < length (snd st). \<forall>d \<in> set (pl_plugins (snd st ! i)). needs_met host ms installed (take i (snd st)) d)"

lemma newest_in: "newest older c cs \<in> set (c # cs)"
  by (induction older c cs rule: newest.induct) auto

lemma needs_met_mono:
  "needs_met host ms installed before d \<Longrightarrow> set before \<subseteq> set after \<Longrightarrow> needs_met host ms installed after d"
  by (auto simp: needs_met_def)

lemma ordered_snoc:
  assumes "ordered host ms installed st" and "manifest_key m \<notin> set (fst st)" and "m \<in> set ms"
    and "\<And>d. d \<in> set (pl_plugins m) \<Longrightarrow> needs_met host ms installed (snd st) d"
  shows "ordered host ms installed (manifest_key m # fst st, snd st @ [m])"
  using assms by (auto simp: ordered_def nth_append less_Suc_eq)

lemma version_key_split:
  assumes "CHR ''@'' \<notin> set i"
  shows "takeWhile (\<lambda>c. c \<noteq> CHR ''@'') (version_key i v) = i"
    and "dropWhile (\<lambda>c. c \<noteq> CHR ''@'') (version_key i v) = CHR ''@'' # v"
proof -
  have i: "\<And>x. x \<in> set i \<Longrightarrow> x \<noteq> CHR ''@''" using assms by blast
  show "takeWhile (\<lambda>c. c \<noteq> CHR ''@'') (version_key i v) = i"
    unfolding version_key_def using i by (subst takeWhile_append2) auto
  show "dropWhile (\<lambda>c. c \<noteq> CHR ''@'') (version_key i v) = CHR ''@'' # v"
    unfolding version_key_def using i by (subst dropWhile_append2) auto
qed

lemma version_key_inj:
  assumes "version_key i v = version_key j u" and "CHR ''@'' \<notin> set i" and "CHR ''@'' \<notin> set j"
  shows "i = j \<and> v = u"
  using version_key_split [OF assms(2), of v] version_key_split [OF assms(3), of u] assms(1) by simp

lemma manifest_key_inj:
  assumes "manifest_key a = manifest_key b" and "CHR ''@'' \<notin> set (pl_id a)" and "CHR ''@'' \<notin> set (pl_id b)"
  shows "pl_id a = pl_id b \<and> pl_version a = pl_version b"
  using version_key_inj assms unfolding manifest_key_def by blast

lemma visit_ordered:
  fixes host :: "('i, 'h) plugin_host"
  assumes ids: "\<And>m. m \<in> set ms \<Longrightarrow> CHR ''@'' \<notin> set (pl_id m)"
  shows "visit host ms installed n stack m st = Inr st' \<Longrightarrow> m \<in> set ms \<Longrightarrow> ordered host ms installed st \<Longrightarrow>
      ordered host ms installed st' \<and> set (snd st) \<subseteq> set (snd st') \<and> manifest_key m \<in> set (fst st') \<and>
      (\<forall>k \<in> set stack. k \<notin> set (fst st) \<longrightarrow> k \<notin> set (fst st'))"
    and "visit_needs host ms installed n stack ds st = Inr st' \<Longrightarrow> ordered host ms installed st \<Longrightarrow>
      ordered host ms installed st' \<and> set (snd st) \<subseteq> set (snd st') \<and>
      (\<forall>d \<in> set ds. needs_met host ms installed (snd st') d) \<and>
      (\<forall>k \<in> set stack. k \<notin> set (fst st) \<longrightarrow> k \<notin> set (fst st'))"
  using ids
proof (induction host ms installed n stack m st and host ms installed n stack ds st
    arbitrary: st' and st' rule: visit_visit_needs.induct)
  case (2 host ms installed n stack m st)
  show ?case
  proof (cases "manifest_key m \<in> set (fst st)")
    case True
    with 2 show ?thesis by (auto split: if_splits)
  next
    case False
    with 2(2) obtain st1 where needs: "visit_needs host ms installed n (manifest_key m # stack) (pl_plugins m) st = Inr st1"
      and fresh: "manifest_key m \<notin> set stack" and st': "st' = (manifest_key m # fst st1, snd st1 @ [m])"
      by (auto simp: sum_bind_Inr_iff split: if_splits)
    from 2(1) [OF fresh False needs 2(4,5)] False have one: "ordered host ms installed st1"
      "set (snd st) \<subseteq> set (snd st1)" "\<forall>d \<in> set (pl_plugins m). needs_met host ms installed (snd st1) d"
      "manifest_key m \<notin> set (fst st1)" "\<forall>k \<in> set stack. k \<notin> set (fst st) \<longrightarrow> k \<notin> set (fst st1)"
      by auto
    from ordered_snoc [OF one(1,4) 2(3)] one(3) have "ordered host ms installed st'" by (simp add: st')
    with one fresh show ?thesis by (auto simp: st')
  qed
next
  case (4 host ms installed n stack d ds st)
  let ?group = "filter (\<lambda>c. pl_id c = fst d) ms"
  show ?case
  proof (cases ?group)
    case Nil
    with 4(4) have met: "\<exists>r \<in> set installed. fst r = fst d \<and> ph_within host (snd r) (snd d)"
      and rest: "visit_needs host ms installed n stack ds st = Inr st'"
      by (auto split: if_splits)
    from Nil have "\<forall>m \<in> set ms. pl_id m \<noteq> fst d" by (auto simp: filter_empty_conv)
    with met 4(1) [OF Nil met rest 4(5,6)] show ?thesis by (auto simp: needs_met_def)
  next
    case (Cons g gs)
    let ?older = "\<lambda>a b. ph_older host (pl_version a) (pl_version b)"
    from Cons 4(4) obtain c cs where cands: "filter (\<lambda>c. ph_within host (pl_version c) (snd d)) (g # gs) = c # cs"
      by (auto split: list.splits)
    with Cons 4(4) obtain st1 where chosen: "visit host ms installed n stack (newest ?older c cs) st = Inr st1"
      and rest: "visit_needs host ms installed n stack ds st1 = Inr st'"
      by (auto simp: sum_bind_Inr_iff)
    have "newest ?older c cs \<in> set (filter (\<lambda>c. ph_within host (pl_version c) (snd d)) ?group)"
      unfolding Cons cands by (rule newest_in)
    then have new: "newest ?older c cs \<in> set ms" "pl_id (newest ?older c cs) = fst d"
      "ph_within host (pl_version (newest ?older c cs)) (snd d)" by simp_all
    from 4(2) [OF Cons cands chosen new(1) 4(5,6)] have one: "ordered host ms installed st1"
      "set (snd st) \<subseteq> set (snd st1)" "manifest_key (newest ?older c cs) \<in> set (fst st1)"
      "\<forall>k \<in> set stack. k \<notin> set (fst st) \<longrightarrow> k \<notin> set (fst st1)"
      by blast+
    from one(1,3) obtain c' where c': "c' \<in> set (snd st1)" "manifest_key c' = manifest_key (newest ?older c cs)" "c' \<in> set ms"
      by (auto simp: ordered_def)
    with new 4(6) have "pl_id c' = fst d \<and> pl_version c' = pl_version (newest ?older c cs)"
      by (metis manifest_key_inj)
    with c' new have met: "needs_met host ms installed (snd st1) d" by (auto simp: needs_met_def)
    from 4(3) [OF Cons cands rest one(1) 4(6)] one met show ?thesis
      by (auto intro: needs_met_mono)
  qed
qed simp_all

text \<open>A visit nested deeper than there are manifests would meet one that is being visited.\<close>

lemma visit_total:
  fixes host :: "('i, 'h) plugin_host"
  shows "m \<in> set ms \<Longrightarrow> distinct stack \<Longrightarrow> set stack \<subseteq> manifest_key ` set ms \<Longrightarrow>
      card (manifest_key ` set ms) < n + length stack \<Longrightarrow> visit host ms installed n stack m st \<noteq> Inl Diverges"
    and "distinct stack \<Longrightarrow> set stack \<subseteq> manifest_key ` set ms \<Longrightarrow>
      card (manifest_key ` set ms) < n + length stack \<Longrightarrow> visit_needs host ms installed n stack ds st \<noteq> Inl Diverges"
proof (induction host ms installed n stack m st and host ms installed n stack ds st rule: visit_visit_needs.induct)
  case (1 host ms installed stack m st)
  then have "length stack \<le> card (manifest_key ` set ms)"
    by (metis card_mono distinct_card finite_imageI finite_set)
  with 1 show ?case by simp
next
  case (2 host ms installed n stack m st)
  show ?case
  proof (cases "manifest_key m \<in> set stack \<or> manifest_key m \<in> set (fst st)")
    case True
    then show ?thesis by auto
  next
    case False
    with 2 have "visit_needs host ms installed n (manifest_key m # stack) (pl_plugins m) st \<noteq> Inl Diverges"
      by simp
    with False show ?thesis by (auto simp: sum_bind_def split: sum.splits)
  qed
next
  case (4 host ms installed n stack d ds st)
  let ?group = "filter (\<lambda>c. pl_id c = fst d) ms"
  show ?case
  proof (cases ?group)
    case Nil
    with 4 show ?thesis by auto
  next
    case (Cons g gs)
    let ?older = "\<lambda>a b. ph_older host (pl_version a) (pl_version b)"
    show ?thesis
    proof (cases "filter (\<lambda>c. ph_within host (pl_version c) (snd d)) (g # gs)")
      case Nil
      with Cons show ?thesis by simp
    next
      case cands: (Cons c cs)
      have "newest ?older c cs \<in> set (filter (\<lambda>c. ph_within host (pl_version c) (snd d)) ?group)"
        unfolding Cons cands by (rule newest_in)
      then have "newest ?older c cs \<in> set ms" by simp
      from 4(2) [OF Cons cands this 4(4-6)] 4(3) [OF Cons cands 4(4-6)] Cons cands show ?thesis
        by (auto simp: sum_bind_def split: sum.splits)
    qed
  qed
qed simp_all

lemma visit_all_ordered:
  assumes "\<And>m. m \<in> set ms \<Longrightarrow> CHR ''@'' \<notin> set (pl_id m)"
  shows "visit_all host ms installed rest st = Inr st' \<Longrightarrow> set rest \<subseteq> set ms \<Longrightarrow> ordered host ms installed st \<Longrightarrow>
    ordered host ms installed st' \<and> set (snd st) \<subseteq> set (snd st') \<and> manifest_key ` set rest \<subseteq> set (fst st')"
proof (induction rest arbitrary: st)
  case (Cons m rest)
  then obtain st1 where one: "visit host ms installed (Suc (length ms)) [] m st = Inr st1"
    and more: "visit_all host ms installed rest st1 = Inr st'"
    by (auto simp: sum_bind_Inr_iff)
  from visit_ordered(1) [OF assms one _ Cons.prems(3)] Cons.prems(2)
  have first: "ordered host ms installed st1" "set (snd st) \<subseteq> set (snd st1)" "manifest_key m \<in> set (fst st1)"
    by simp_all
  from Cons.IH [OF more _ first(1)] Cons.prems(2)
  have rest: "ordered host ms installed st'" "set (snd st1) \<subseteq> set (snd st')" "manifest_key ` set rest \<subseteq> set (fst st')"
    by simp_all
  then have "set (fst st1) \<subseteq> set (fst st')" using first(1) by (auto simp: ordered_def)
  with first rest show ?case by auto
qed simp

lemma visit_all_total: "set rest \<subseteq> set ms \<Longrightarrow> visit_all host ms installed rest st \<noteq> Inl Diverges"
proof (induction rest arbitrary: st)
  case (Cons m rest)
  have "card (manifest_key ` set ms) < Suc (length ms) + length ([] :: string list)"
    using card_image_le [of "set ms" manifest_key] card_length [of ms] by simp
  with visit_total(1) [of m ms "[]" "Suc (length ms)" host installed st] Cons show ?case
    by (auto simp: sum_bind_def split: sum.splits)
qed simp

text \<open>
  C36: The order in which versions are loaded is a topological order. Resolving the dependencies of any
  manifests ends; the order it gives has each of them once and no other, and every dependency of a
  manifest is satisfied by one before it or, when none of the manifests is of that plugin, by a version
  that is ready.
\<close>

theorem dependency_order:
  assumes ids: "\<And>m. m \<in> set ms \<Longrightarrow> CHR ''@'' \<notin> set (pl_id m)"
  shows "fst (resolve_dependencies host ms w) \<noteq> Inl Diverges \<and>
    (\<forall>order v. resolve_dependencies host ms w = (Inr order, v) \<longrightarrow>
      v = w \<and> distinct (map manifest_key order) \<and> set order \<subseteq> set ms \<and>
      manifest_key ` set order = manifest_key ` set ms \<and>
      (\<forall>i < length order. \<forall>d \<in> set (pl_plugins (order ! i)).
         (\<exists>j < i. pl_id (order ! j) = fst d \<and> ph_within host (pl_version (order ! j)) (snd d)) \<or>
         (\<forall>m \<in> set ms. pl_id m \<noteq> fst d) \<and>
         (\<exists>r \<in> set (t_records w). rec_namespace r = ''plugins'' \<and> has_status (rec_payload r) [''ready''] \<and>
            jstr (jget ''id'' (jget ''manifest'' (rec_payload r))) = fst d \<and>
            ph_within host (manifest_version (rec_payload r)) (snd d))))"
proof -
  obtain records where listed: "store_list ''plugins'' w = (Inr records, w)"
    and recs: "set records = rec_payload ` {r \<in> set (t_records w). rec_namespace r = ''plugins''}"
    by (auto simp: store_list_def)
  let ?installed = "installed_versions records"
  have total: "fst (resolve_dependencies host ms w) \<noteq> Inl Diverges"
  proof (cases "visit_all host ms ?installed ms ([], [])")
    case (Inl e)
    with visit_all_total [of ms ms host ?installed "([], [])"] show ?thesis
      by (simp add: resolve_dependencies_def listed)
  qed (simp add: resolve_dependencies_def listed)
  have resolved: "v = w \<and> distinct (map manifest_key order) \<and> set order \<subseteq> set ms \<and>
      manifest_key ` set order = manifest_key ` set ms \<and>
      (\<forall>i < length order. \<forall>d \<in> set (pl_plugins (order ! i)). needs_met host ms ?installed (take i order) d)"
    if run: "resolve_dependencies host ms w = (Inr order, v)" for order v
  proof -
    obtain st where st: "visit_all host ms ?installed ms ([], []) = Inr st" and out: "order = snd st" "v = w"
    proof (cases "visit_all host ms ?installed ms ([], [])")
      case (Inl e)
      with run show ?thesis by (simp add: resolve_dependencies_def listed)
    next
      case (Inr st)
      with run show ?thesis by (intro that) (auto simp: resolve_dependencies_def listed)
    qed
    have start: "ordered host ms ?installed ([], [])" by (simp add: ordered_def)
    from visit_all_ordered [OF ids st order_refl start] have sorted: "ordered host ms ?installed st"
      and covered: "manifest_key ` set ms \<subseteq> set (fst st)" by simp_all
    then have "manifest_key ` set (snd st) = manifest_key ` set ms" by (auto simp: ordered_def)
    moreover from sorted have "distinct (rev (map manifest_key (snd st)))" unfolding ordered_def by metis
    then have "distinct (map manifest_key (snd st))" by (simp only: distinct_rev)
    ultimately show ?thesis using sorted by (simp add: out ordered_def)
  qed
  have satisfied: "(\<exists>j < i. pl_id (order ! j) = fst d \<and> ph_within host (pl_version (order ! j)) (snd d)) \<or>
      (\<forall>m \<in> set ms. pl_id m \<noteq> fst d) \<and>
      (\<exists>r \<in> set (t_records w). rec_namespace r = ''plugins'' \<and> has_status (rec_payload r) [''ready''] \<and>
         jstr (jget ''id'' (jget ''manifest'' (rec_payload r))) = fst d \<and>
         ph_within host (manifest_version (rec_payload r)) (snd d))"
    if "needs_met host ms ?installed (take i order) d" and "i < length order" for order d and i :: nat
    using that(1) unfolding needs_met_def
  proof
    assume "\<exists>c \<in> set (take i order). pl_id c = fst d \<and> ph_within host (pl_version c) (snd d)"
    with that(2) show ?thesis by (auto simp: in_set_conv_nth)
  next
    assume "(\<forall>m \<in> set ms. pl_id m \<noteq> fst d) \<and> (\<exists>r \<in> set ?installed. fst r = fst d \<and> ph_within host (snd r) (snd d))"
    with recs show ?thesis by (auto simp: installed_versions_def has_status_def manifest_version_def)
  qed
  show ?thesis
    by (intro conjI allI impI ballI total satisfied) (use resolved in simp_all)
qed

text \<open>A plugin that needs another one, given before it.\<close>

definition sample_plugin :: "string \<Rightarrow> (string \<times> string) list \<Rightarrow> manifest" where
  "sample_plugin i needs = \<lparr>pl_id = i, pl_version = ''1'', pl_api = ''*'', pl_entrypoint = None,
     pl_contributes = [], pl_plugins = needs, pl_network = [], pl_filesystem = [], pl_credentials = []\<rparr>"

definition sample_plugin_host :: "(unit, unit) plugin_host" where
  "sample_plugin_host = \<lparr>ph_version = (\<lambda>_. True), ph_range = (\<lambda>_. True), ph_within = (\<lambda>_ _. True),
     ph_older = (\<lambda>a b. False), ph_api = ''1'', ph_factories = [], ph_make = (\<lambda>_ _. raise PyKeyError),
     ph_initialize = (\<lambda>_. ret ()), ph_register = (\<lambda>_. None), ph_dispose = (\<lambda>_. ret ()), ph_hash = (\<lambda>_. ''h''),
     ph_supported = host_extensions,
     ph_network = \<lparr>nw_split = (\<lambda>_. \<lparr>up_scheme = '''', up_host = None, up_userinfo = False, up_fragment = False, up_port = None\<rparr>),
       nw_resolve = (\<lambda>_ _. [])\<rparr>,
     ph_folder = (\<lambda>_. Inl PyOSError)\<rparr>"

theorem dependency_order_witness:
  "\<exists>order. resolve_dependencies sample_plugin_host [sample_plugin ''a'' [(''b'', ''*'')], sample_plugin ''b'' []] fresh_store =
      (Inr order, fresh_store) \<and> distinct (map manifest_key order) \<and> map pl_id order = [''b'', ''a'']"
proof -
  have ids: "CHR ''@'' \<notin> set (pl_id m)"
    if "m \<in> set [sample_plugin ''a'' [(''b'', ''*'')], sample_plugin ''b'' []]" for m
    using that by (auto simp: sample_plugin_def)
  have run: "resolve_dependencies sample_plugin_host [sample_plugin ''a'' [(''b'', ''*'')], sample_plugin ''b'' []] fresh_store =
      (Inr [sample_plugin ''b'' [], sample_plugin ''a'' [(''b'', ''*'')]], fresh_store)"
    by (simp add: resolve_dependencies_def store_list_def fresh_store_def empty_world_def installed_versions_def
        sample_plugin_def manifest_key_def version_key_def sample_plugin_host_def sum_bind_def)
  have "distinct (map manifest_key [sample_plugin ''b'' [], sample_plugin ''a'' [(''b'', ''*'')]])"
    by (rule dependency_order [OF ids, THEN conjunct2, THEN spec, THEN spec, THEN mp, OF _ run, THEN conjunct2, THEN conjunct1])
      assumption
  moreover have "map pl_id [sample_plugin ''b'' [], sample_plugin ''a'' [(''b'', ''*'')]] = [''b'', ''a'']"
    by (simp add: sample_plugin_def)
  ultimately show ?thesis by (intro exI conjI) (rule run)
qed

end
