(* ===== verification/Plugin_Held.thy ===== *)
theory Plugin_Held
  imports Plugin_Steps Selection_Steps
begin

text \<open>
  A version that a run holds stays: over any calls of the registry, and restarts of the process, every
  reference of a run is to a version that is recorded with the manifest the run was locked to and that is
  ready or draining; nothing disposes of it before the reference is released.
\<close>

section \<open>References and what leaves them alone\<close>

definition config_namespaces :: "string list" where
  "config_namespaces = [''config/skill_sources'', ''config/mcp'', ''config/agents'']"

text \<open>A reference, by the row that holds it.\<close>

definition ref_held :: "(string \<Rightarrow> json option) \<Rightarrow> json \<Rightarrow> bool" where
  "ref_held plugins r \<longleftrightarrow>
     (\<exists>i v record. CHR ''@'' \<notin> set i \<and> jget ''plugin_id'' r = JStr i \<and> jget ''version'' r = JStr v \<and>
        plugins (version_key i v) = Some record \<and> has_status record [''ready'', ''draining''] \<and>
        jget ''manifest_hash'' record = jget ''manifest_hash'' r)"

definition run_refs :: "world \<Rightarrow> json set" where
  "run_refs w = rec_payload ` {row \<in> set (t_records w). rec_namespace row = ''plugin_run_refs''}"

definition placed :: "world \<Rightarrow> bool" where
  "placed w \<longleftrightarrow> (\<forall>row \<in> set (t_records w). rec_namespace row = ''plugin_contributions'' \<longrightarrow>
     jget ''namespace'' (rec_payload row) \<in> JStr ` set config_namespaces)"

definition refs_held :: "world \<Rightarrow> bool" where
  "refs_held w \<longleftrightarrow> placed w \<and> (\<forall>r \<in> run_refs w. ref_held (record_value w ''plugins'') r)"

lemma record_value_active [simp]: "record_value (w\<lparr>w_active := b\<rparr>) ns = record_value w ns"
  by (rule ext) simp

lemma held_active [simp]: "refs_held (w\<lparr>w_active := b\<rparr>) = refs_held w" "placed (w\<lparr>w_active := b\<rparr>) = placed w"
  by (simp_all add: refs_held_def placed_def run_refs_def)

lemma put_rows:
  assumes "store_put ns k x w = (r, u)"
  shows "\<forall>row \<in> set (t_records u). row \<in> set (t_records w) \<or>
      (rec_namespace row = ns \<and> rec_key row = k \<and> rec_payload row = x)"
    and "w_active u = w_active w"
proof -
  have up: "row \<in> set (t_records w) \<or> (rec_namespace row = ns \<and> rec_key row = k \<and> rec_payload row = x)"
    if "row \<in> set (t_records (upsert_record (new_record ns k n x) w))" for n row
    using that set_upsert [of "new_record ns k n x" w] by auto
  have "(\<forall>row \<in> set (t_records u). row \<in> set (t_records w) \<or>
      (rec_namespace row = ns \<and> rec_key row = k \<and> rec_payload row = x)) \<and> w_active u = w_active w"
  proof (cases "w_active w")
    case True
    then show ?thesis using assms
      by (auto dest: up simp: store_put_def compare_and_set_def Let_def new_record_def [symmetric] insert_version_def bnd_def
          andthen_def whenever_def raise_if_def split: if_splits prod.splits sum.splits)
  next
    case False
    then show ?thesis using assms
      by (auto dest: up simp: store_put_eval Let_def written_def split: if_splits)
  qed
  then show "\<forall>row \<in> set (t_records u). row \<in> set (t_records w) \<or>
      (rec_namespace row = ns \<and> rec_key row = k \<and> rec_payload row = x)" and "w_active u = w_active w" by blast+
qed

text \<open>Steps that touch neither versions nor references.\<close>

definition calm :: "world \<Rightarrow> world \<Rightarrow> bool" where
  "calm w u \<longleftrightarrow> (placed w \<longrightarrow> w_active u = w_active w \<and> placed u \<and> run_refs u \<subseteq> run_refs w \<and>
     record_value u ''plugins'' = record_value w ''plugins'')"

interpretation calm: history calm
  by unfold_locales (auto simp: calm_def)

interpretation calm_hosted: history "\<lambda>s t. calm (fst s) (fst t)"
  by unfold_locales (auto simp: calm_def)

lemma calm_held: "calm w u \<Longrightarrow> refs_held w \<Longrightarrow> refs_held u"
  by (auto simp: calm_def refs_held_def)

lemma calm_put:
  assumes "ns \<noteq> ''plugins''" "ns \<noteq> ''plugin_run_refs''"
    and "ns = ''plugin_contributions'' \<Longrightarrow> jget ''namespace'' x \<in> JStr ` set config_namespaces"
  shows "keeps calm (store_put ns k x)"
proof (rule triI)
  fix w r u assume put: "store_put ns k x w = (r, u)"
  from store_put_values [OF put] assms(1) have "record_value u ''plugins'' = record_value w ''plugins''"
    by (auto simp: fun_eq_iff)
  with put_rows [OF put] assms show "calm w u \<and> (\<forall>y. r = Inr y \<longrightarrow> True)"
    by (auto simp: calm_def placed_def run_refs_def)
qed

lemma calm_delete:
  assumes "ns \<noteq> ''plugins''"
  shows "keeps calm (store_delete ns k)"
proof -
  have "row_of rec_id (''plugins'', a) (filter (\<lambda>r. rec_id r \<noteq> (ns, k)) rows) = row_of rec_id (''plugins'', a) rows"
    for a and rows :: "record_row list"
    using assms by (induction rows) auto
  then show ?thesis
    unfolding store_delete_def
    by (intro keeps_modify) (auto simp: calm_def placed_def run_refs_def record_value_def record_at_def fun_eq_iff)
qed

lemma keeps_in_store: "keeps R m \<Longrightarrow> keeps (\<lambda>s t. R (fst s) (fst t)) (in_store m)"
  by (rule triI) (auto simp: in_store_def split: prod.splits dest: triD(1))

lemma keeps_hosted_transaction:
  assumes "keeps (\<lambda>s t. calm (fst s) (fst t)) m"
  shows "keeps (\<lambda>s t. calm (fst s) (fst t)) (hosted_transaction m)"
proof (rule triI)
  fix s r t assume run: "hosted_transaction m s = (r, t)"
  show "calm (fst s) (fst t) \<and> (\<forall>y. r = Inr y \<longrightarrow> True)"
  proof (cases "w_active (fst s)")
    case True
    with run assms show ?thesis by (auto simp: hosted_transaction_def dest: triD(1))
  next
    case False
    obtain r' u where m: "m ((fst s)\<lparr>w_active := True\<rparr>, snd s) = (r', u)" by (cases "m ((fst s)\<lparr>w_active := True\<rparr>, snd s)")
    from triD(1) [OF assms TrueI m] have "calm ((fst s)\<lparr>w_active := True\<rparr>) (fst u)" by simp
    with False run m show ?thesis
      by (cases r') (auto simp: hosted_transaction_def calm_def placed_def run_refs_def)
  qed
qed

lemma keeps_on_host: "keeps (\<lambda>s t. calm (fst s) (fst t)) (on_host m)"
  "keeps (\<lambda>s t. calm (fst s) (fst t)) (in_memory f)"
  by (rule triI, auto simp: on_host_def in_memory_def calm.refl_history split: prod.splits)+

lemma calm_reads: "keeps calm (store_get ns k)" "keeps calm (store_list ns)"
  by (simp_all add: store_get_def store_list_def calm.keeps_gets)

lemma contribution_namespace:
  assumes "contribution_of host ce w = (Inr c, v)"
  shows "cn_namespace c \<in> set config_namespaces"
proof -
  obtain category item where ce: "ce = (category, item)" by (cases ce)
  from assms show ?thesis
    unfolding ce contribution_of_def
    by (auto simp: bnd_Inr_iff andthen_Inr_iff config_namespaces_def split: json.splits if_splits)
qed

lemma collect_all:
  assumes "collect xs f w = (Inr ys, v)" and "\<And>x u y t. f x u = (Inr y, t) \<Longrightarrow> Q y"
  shows "\<forall>y \<in> set ys. Q y"
  using assms(1)
proof (induction xs arbitrary: w ys)
  case (Cons x xs)
  then show ?case by (auto simp: bnd_Inr_iff dest: assms(2))
qed simp

lemma calm_publish:
  assumes "cn_namespace c \<in> set config_namespaces"
  shows "keeps calm (publish host m c)" and "keeps calm (check_owner host m c)"
proof -
  have ns: "cn_namespace c \<noteq> ''plugins''" "cn_namespace c \<noteq> ''plugin_run_refs''"
    "cn_namespace c \<noteq> ''plugin_contributions''"
    using assms by (auto simp: config_namespaces_def)
  have entry: "jget ''namespace'' (entry_json m c) \<in> JStr ` set config_namespaces"
    using assms by (simp add: entry_json_def jget_def)
  show "keeps calm (publish host m c)"
    unfolding publish_def
    by (intro calm.keeps_rules calm_reads calm_put) (simp_all add: ns entry)
  show "keeps calm (check_owner host m c)"
    unfolding check_owner_def by (intro calm.keeps_rules calm_reads)
qed

lemma calm_contributions: "keeps calm (contribution_of host ce)"
proof -
  obtain category item where ce: "ce = (category, item)" by (cases ce)
  show ?thesis
    unfolding ce contribution_of_def prod.case
    by (cases "contribution_name item") (simp_all only: json.case, (intro calm.keeps_rules calm_reads)+)
qed

lemma calm_register: "keeps (\<lambda>s t. calm (fst s) (fst t)) (register_atomic host m)"
proof -
  have "keeps (\<lambda>s t. calm (fst s) (fst t)) (register_entries host m)"
    unfolding register_entries_def
    by (intro calm_hosted.keeps_rules keeps_on_host)
  moreover have "keeps (\<lambda>s t. calm (fst s) (fst t)) (drop_entries i v)" for i v
    unfolding drop_entries_def by (rule keeps_on_host)
  moreover have "tri (\<lambda>s t. calm (fst s) (fst t)) (\<lambda>_. True)
      (in_store (collect (contributions m) (contribution_of host)))
      (\<lambda>cs _. \<forall>c \<in> set cs. cn_namespace c \<in> set config_namespaces)"
  proof (rule triI, intro conjI allI impI)
    fix s r t
    assume run: "in_store (collect (contributions m) (contribution_of host)) s = (r, t)"
    show "calm (fst s) (fst t)"
      by (rule triD(1) [OF keeps_in_store [OF calm.keeps_collect [OF calm_contributions]] TrueI run])
    show "\<forall>c \<in> set cs. cn_namespace c \<in> set config_namespaces" if "r = Inr cs" for cs
    proof -
      from run that obtain v where "collect (contributions m) (contribution_of host) (fst s) = (Inr cs, v)"
        by (auto simp: in_store_def split: prod.splits)
      then show ?thesis by (rule collect_all) (rule contribution_namespace)
    qed
  qed
  moreover have "tri (\<lambda>s t. calm (fst s) (fst t)) (\<lambda>_. \<forall>c \<in> set cs. cn_namespace c \<in> set config_namespaces)
     (hosted_transaction (andthen (in_store (foreach cs (check_owner host m)))
       (andthen (register_entries host m) (catch_all (in_store (foreach cs (publish host m)))
          (\<lambda>e. andthen (drop_entries (pl_id m) (pl_version m)) (raise e)))))) (\<lambda>_ _. True)" for cs
  proof (cases "\<forall>c \<in> set cs. cn_namespace c \<in> set config_namespaces")
    case True
    with calculation(1,2) have "keeps (\<lambda>s t. calm (fst s) (fst t))
     (hosted_transaction (andthen (in_store (foreach cs (check_owner host m)))
       (andthen (register_entries host m) (catch_all (in_store (foreach cs (publish host m)))
          (\<lambda>e. andthen (drop_entries (pl_id m) (pl_version m)) (raise e))))))"
      by (intro keeps_hosted_transaction calm_hosted.keeps_rules keeps_in_store calm.keeps_foreach calm_publish) auto
    then show ?thesis by (rule tri_pre) simp
  qed (auto simp: tri_def)
  ultimately show ?thesis
    unfolding register_atomic_def by (intro calm_hosted.tri_bnd) (assumption | rule)+
qed

lemma calm_withdraw:
  assumes "jget ''namespace'' entry \<in> JStr ` set config_namespaces"
  shows "keeps calm (withdraw host i v entry)"
proof -
  let ?ns = "jstr (jget ''namespace'' entry)"
  have ns: "?ns \<noteq> ''plugins''" "?ns \<noteq> ''plugin_run_refs''" "?ns \<noteq> ''plugin_contributions''"
    using assms by (auto simp: config_namespaces_def)
  show ?thesis
    unfolding withdraw_def bnd_ret prod.case
    by (intro calm.keeps_rules calm_reads calm_put calm_delete) (simp_all add: ns)
qed

lemma calm_unregister: "keeps (\<lambda>s t. calm (fst s) (fst t)) (unregister host i v)"
proof -
  have listed: "tri calm (\<lambda>_. True) (store_list ''plugin_contributions'')
      (\<lambda>es w. placed w \<longrightarrow> (\<forall>e \<in> set es. jget ''namespace'' e \<in> JStr ` set config_namespaces))"
    by (auto simp: tri_def store_list_def calm.refl_history placed_def)
  have each: "tri calm (\<lambda>w. placed w \<longrightarrow> (\<forall>e \<in> set es. jget ''namespace'' e \<in> JStr ` set config_namespaces))
      (foreach es (withdraw host i v)) (\<lambda>_ _. True)" for es
  proof (cases "\<forall>e \<in> set es. jget ''namespace'' e \<in> JStr ` set config_namespaces")
    case True
    then have "keeps calm (foreach es (withdraw host i v))"
      by (intro calm.keeps_foreach calm_withdraw) auto
    then show ?thesis by (rule tri_pre) simp
  next
    case False
    then show ?thesis by (auto simp: tri_def calm_def)
  qed
  have "keeps calm (bnd (store_list ''plugin_contributions'') (\<lambda>es. foreach es (withdraw host i v)))"
    by (rule calm.tri_bnd [OF listed each])
  then show ?thesis
    unfolding unregister_def drop_entries_def
    by (intro keeps_hosted_transaction calm_hosted.keeps_rules keeps_in_store keeps_on_host)
qed

section \<open>The registry keeps what runs hold\<close>

definition kept :: "world \<Rightarrow> world \<Rightarrow> bool" where
  "kept w u \<longleftrightarrow> (refs_held w \<longrightarrow> refs_held u \<and> w_active u = w_active w)"

interpretation kept_hosted: history "\<lambda>s t. kept (fst s) (fst t)"
  by unfold_locales (auto simp: kept_def)

lemma calm_kept: "calm w u \<Longrightarrow> kept w u"
  by (auto simp: kept_def calm_def refs_held_def)

lemma keeps_calm_kept: "keeps (\<lambda>s t. calm (fst s) (fst t)) m \<Longrightarrow> keeps (\<lambda>s t. kept (fst s) (fst t)) m"
  by (erule tri_mono) (rule calm_kept)

text \<open>Only worlds in which the references are held matter.\<close>

lemma tri_when_held:
  assumes "tri (\<lambda>s t. kept (fst s) (fst t)) (\<lambda>s. refs_held (fst s)) m (\<lambda>_ _. True)"
  shows "keeps (\<lambda>s t. kept (fst s) (fst t)) m"
  using assms by (auto simp: tri_def kept_def)

lemma calm_carries:
  assumes m: "keeps (\<lambda>s t. calm (fst s) (fst t)) m"
    and K: "\<And>w u. calm w u \<Longrightarrow> refs_held w \<Longrightarrow> K w \<Longrightarrow> K u"
  shows "tri (\<lambda>s t. kept (fst s) (fst t)) (\<lambda>s. refs_held (fst s) \<and> K (fst s)) m (\<lambda>_ s. refs_held (fst s) \<and> K (fst s))"
proof (rule triI)
  fix s r t assume s: "refs_held (fst s) \<and> K (fst s)" and run: "m s = (r, t)"
  from triD(1) [OF m TrueI run] have "calm (fst s) (fst t)" .
  with s K calm_held calm_kept show "kept (fst s) (fst t) \<and> (\<forall>y. r = Inr y \<longrightarrow> refs_held (fst t) \<and> K (fst t))"
    by blast
qed

lemma keeps_kept_transaction:
  assumes "keeps (\<lambda>s t. kept (fst s) (fst t)) m"
  shows "keeps (\<lambda>s t. kept (fst s) (fst t)) (hosted_transaction m)"
proof (rule triI)
  fix s r t assume run: "hosted_transaction m s = (r, t)"
  show "kept (fst s) (fst t) \<and> (\<forall>y. r = Inr y \<longrightarrow> True)"
  proof (cases "w_active (fst s)")
    case True
    with run assms show ?thesis by (auto simp: hosted_transaction_def dest: triD(1))
  next
    case False
    obtain r' u where m: "m ((fst s)\<lparr>w_active := True\<rparr>, snd s) = (r', u)" by (cases "m ((fst s)\<lparr>w_active := True\<rparr>, snd s)")
    from triD(1) [OF assms TrueI m] have "kept ((fst s)\<lparr>w_active := True\<rparr>) (fst u)" by simp
    with False run m show ?thesis by (cases r') (auto simp: hosted_transaction_def kept_def)
  qed
qed

lemma plugin_record_Inr:
  "plugin_record i v w = (r, u) \<Longrightarrow> u = w"
  "plugin_record i v w = (Inr record, u) \<Longrightarrow> record_value w ''plugins'' (version_key i v) = Some record"
  by (auto simp: plugin_record_def store_get_def raise_if_def or_empty_def split: option.splits if_splits)

lemma plugin_record_found:
  "plugin_record i v w = (Inr rc, u) \<Longrightarrow> record_value u ''plugins'' (version_key i v) = Some rc"
  using plugin_record_Inr by metis

lemma run_refs_put:
  assumes "store_put ns k x w = (r, u)"
  shows "run_refs u \<subseteq> run_refs w \<union> (if ns = ''plugin_run_refs'' then {x} else {})"
  using put_rows(1) [OF assms] by (auto simp: run_refs_def)

lemma placed_put:
  assumes "store_put ns k x w = (r, u)" and "placed w" and "ns \<noteq> ''plugin_contributions''"
  shows "placed u"
  using put_rows(1) [OF assms(1)] assms(2,3) by (auto simp: placed_def)

text \<open>Writing a reference to a version that is recorded as it should be.\<close>

lemma put_reference_kept:
  assumes put: "store_put ''plugin_run_refs'' k x w = (r, u)"
    and good: "ref_held (record_value w ''plugins'') x"
  shows "kept w u"
proof -
  from store_put_values [OF put] have same: "record_value u ''plugins'' = record_value w ''plugins''"
    by (auto simp: fun_eq_iff)
  with run_refs_put [OF put] placed_put [OF put] put_rows(2) [OF put] good show ?thesis
    by (auto simp: kept_def refs_held_def)
qed

text \<open>Writing the record of a version, when every reference to it stays good.\<close>

lemma put_version_kept:
  assumes put: "store_put ''plugins'' (version_key i v) x w = (r, u)" and i: "CHR ''@'' \<notin> set i"
    and good: "\<And>d. d \<in> run_refs w \<Longrightarrow> jget ''plugin_id'' d = JStr i \<Longrightarrow> jget ''version'' d = JStr v \<Longrightarrow>
      ref_held (record_value w ''plugins'') d \<Longrightarrow>
      has_status x [''ready'', ''draining''] \<and> jget ''manifest_hash'' x = jget ''manifest_hash'' d"
  shows "kept w u"
proof -
  have "ref_held (record_value u ''plugins'') d" if d: "d \<in> run_refs w" "ref_held (record_value w ''plugins'') d" for d
  proof -
    from d(2) obtain j n rc where j: "CHR ''@'' \<notin> set j" "jget ''plugin_id'' d = JStr j" "jget ''version'' d = JStr n"
      "record_value w ''plugins'' (version_key j n) = Some rc" "has_status rc [''ready'', ''draining'']"
      "jget ''manifest_hash'' rc = jget ''manifest_hash'' d"
      by (auto simp: ref_held_def)
    show ?thesis
    proof (cases "version_key j n = version_key i v")
      case True
      with version_key_inj [OF this j(1) i] d good j
      have x: "has_status x [''ready'', ''draining''] \<and> jget ''manifest_hash'' x = jget ''manifest_hash'' d" by simp
      from store_put_values [OF put] True j(4) have "record_value u ''plugins'' (version_key j n) \<in> {Some rc, Some x}"
        by auto
      with x j show ?thesis unfolding ref_held_def by blast
    next
      case False
      with store_put_values [OF put] j(4) have "record_value u ''plugins'' (version_key j n) = Some rc" by auto
      with j show ?thesis unfolding ref_held_def by blast
    qed
  qed
  with run_refs_put [OF put] placed_put [OF put] put_rows(2) [OF put] show ?thesis
    by (auto simp: kept_def refs_held_def)
qed

lemma then_ret_world: "andthen m (ret x) w = (r, u) \<Longrightarrow> \<exists>r'. m w = (r', u)"
  by (auto simp: andthen_def bnd_def split: prod.splits sum.splits)

lemma bind_version_kept:
  assumes "CHR ''@'' \<notin> set i"
  shows "keeps kept (bind_version i v run)"
proof (rule triI)
  fix w r u assume run: "bind_version i v run w = (r, u)"
  show "kept w u \<and> (\<forall>y. r = Inr y \<longrightarrow> True)"
  proof (cases "u = w")
    case False
    obtain r0 w0 where found: "plugin_record i v w = (r0, w0)" by (cases "plugin_record i v w")
    with run False plugin_record_Inr(1) [OF found] obtain rc digest r1 where
      "r0 = Inr rc" and "has_status rc [''ready'']" "jfield ''manifest_hash'' rc = Inr digest" and
      put: "store_put ''plugin_run_refs'' (run_ref_key i v run) (JObj [(''plugin_id'', JStr i), (''version'', JStr v),
        (''run_id'', JStr run), (''manifest_hash'', digest)]) w = (r1, u)"
      by (cases r0) (auto simp: bind_version_def store_get_def raise_if_def lift_def
          split: if_splits sum.splits dest!: then_ret_world)
    with plugin_record_Inr(2) [of i v w rc w0] found assms
    have "ref_held (record_value w ''plugins'') (JObj [(''plugin_id'', JStr i), (''version'', JStr v),
        (''run_id'', JStr run), (''manifest_hash'', digest)])"
      by (auto simp: ref_held_def jget_def jfield_def has_status_def split: option.splits)
    from put_reference_kept [OF put this] show ?thesis by simp
  qed (simp add: kept_def)
qed

lemma restore_kept:
  assumes "jget ''plugin_id'' d = JStr i" and "jget ''version'' d = JStr v" and "CHR ''@'' \<notin> set i"
  shows "keeps kept (restore_reference run d)"
proof (rule triI)
  fix w r u assume run: "restore_reference run d w = (r, u)"
  have fields: "jfield ''plugin_id'' d = Inr (JStr i)" "jfield ''version'' d = Inr (JStr v)"
    using assms(1,2) by (auto simp: jfield_def jget_def split: option.splits)
  show "kept w u \<and> (\<forall>y. r = Inr y \<longrightarrow> True)"
  proof (cases "u = w")
    case False
    obtain r0 w0 where found: "plugin_record i v w = (r0, w0)" by (cases "plugin_record i v w")
    with run False plugin_record_Inr(1) [OF found] fields obtain rc where
      "r0 = Inr rc" "jget ''manifest_hash'' rc = jget ''manifest_hash'' d" "has_status rc [''ready'', ''draining'']" and
      put: "store_put ''plugin_run_refs'' (run_ref_key i v (r_id run)) (jset ''run_id'' (JStr (r_id run)) d) w = (r, u)"
      by (cases r0) (auto simp: restore_reference_def store_get_def raise_if_def lift_def whenever_def
          andthen_def bnd_def split: if_splits)
    with plugin_record_Inr(2) [of i v w rc w0] found assms
    have "ref_held (record_value w ''plugins'') (jset ''run_id'' (JStr (r_id run)) d)"
      by (auto simp: ref_held_def)
    from put_reference_kept [OF put this] show ?thesis by simp
  qed (simp add: kept_def)
qed

text \<open>Disposing: only when no reference is left.\<close>

definition unreferenced :: "string \<Rightarrow> string \<Rightarrow> world \<Rightarrow> bool" where
  "unreferenced i v w \<longleftrightarrow>
     (\<forall>d \<in> run_refs w. \<not> (jget ''plugin_id'' d = JStr i \<and> jget ''version'' d = JStr v))"

lemma references_Inr:
  "references i v w = (r, u) \<Longrightarrow> u = w"
  "references i v w = (Inr [], u) \<Longrightarrow> unreferenced i v u"
  by (auto simp: references_def store_list_def unreferenced_def run_refs_def filter_empty_conv)

lemma dispose_kept:
  fixes host :: "('i, 'h) plugin_host"
  assumes i: "CHR ''@'' \<notin> set i"
  shows "keeps (\<lambda>s t. kept (fst s) (fst t)) (dispose_if_unused host i v)"
proof (rule tri_when_held)
  let ?R = "\<lambda>(s :: world \<times> ('i, 'h) plugin_memory) t. kept (fst s) (fst t)"
  have recorded: "tri ?R (\<lambda>s. refs_held (fst s)) (in_store (plugin_record i v)) (\<lambda>_ s. refs_held (fst s))"
    by (rule triI) (auto simp: in_store_def kept_def split: prod.splits dest: plugin_record_Inr(1))
  have refs: "tri ?R (\<lambda>s. refs_held (fst s)) (in_store (references i v))
      (\<lambda>refs s. refs_held (fst s) \<and> (refs = [] \<longrightarrow> unreferenced i v (fst s)))"
    by (rule triI) (auto simp: in_store_def kept_def split: prod.splits dest: references_Inr)
  have calls: "tri ?R (\<lambda>s. refs_held (fst s) \<and> (refs = [] \<longrightarrow> unreferenced i v (fst s)))
      (gets (\<lambda>s. pm_inflight (snd s) (version_key i v)))
      (\<lambda>_ s. refs_held (fst s) \<and> (refs = [] \<longrightarrow> unreferenced i v (fst s)))" for refs :: "json list"
    by (rule triI) (auto simp: kept_def)
  have work: "tri ?R (\<lambda>s. refs_held (fst s) \<and> unreferenced i v (fst s))
      (catch_all
         (bnd (gets (\<lambda>s. map_of (pm_instances (snd s)) (version_key i v))) (\<lambda>held.
          andthen (case held of Some (Some x) \<Rightarrow> on_host (ph_dispose host x) | _ \<Rightarrow> ret ())
          (andthen (unregister host i v)
          (andthen (in_memory (\<lambda>p. p\<lparr>pm_instances := filter (\<lambda>e. fst e \<noteq> version_key i v) (pm_instances p)\<rparr>))
          (ret (f rc)))))) (\<lambda>_. ret (g rc)))
      (\<lambda>_ s. refs_held (fst s) \<and> unreferenced i v (fst s))" for f g :: "json \<Rightarrow> json" and rc
    by (rule calm_carries)
      ((intro calm_hosted.keeps_rules keeps_on_host calm_unregister)+,
        auto simp: calm_def unreferenced_def refs_held_def)
  have put: "tri ?R (\<lambda>s. refs_held (fst s) \<and> unreferenced i v (fst s))
      (in_store (store_put ''plugins'' (version_key i v) x)) (\<lambda>_ _. True)" for x
  proof (rule triI)
    fix s r t assume s: "refs_held (fst s) \<and> unreferenced i v (fst s)"
      and run: "in_store (store_put ''plugins'' (version_key i v) x) s = (r, t)"
    then have "store_put ''plugins'' (version_key i v) x (fst s) = (r, fst t)"
      by (auto simp: in_store_def split: prod.splits)
    from put_version_kept [OF this i] s show "kept (fst s) (fst t) \<and> (\<forall>y. r = Inr y \<longrightarrow> True)"
      by (auto simp: unreferenced_def)
  qed
  show "tri ?R (\<lambda>s. refs_held (fst s)) (dispose_if_unused host i v) (\<lambda>_ _. True)"
    unfolding dispose_if_unused_def
  proof (rule kept_hosted.tri_bnd [OF recorded kept_hosted.tri_bnd [OF refs kept_hosted.tri_bnd [OF calls]]])
    fix rc refs inflight
    let ?dispose = "bnd (catch_all
         (bnd (gets (\<lambda>s. map_of (pm_instances (snd s)) (version_key i v))) (\<lambda>held.
          andthen (case held of Some (Some x) \<Rightarrow> on_host (ph_dispose host x) | _ \<Rightarrow> ret ())
          (andthen (unregister host i v)
          (andthen (in_memory (\<lambda>p. p\<lparr>pm_instances := filter (\<lambda>e. fst e \<noteq> version_key i v) (pm_instances p)\<rparr>))
          (ret (jappend ''lifecycle'' (JStr ''dispose'') (jset ''status'' (JStr ''disposed'') rc)))))))
         (\<lambda>_. ret (jappend ''diagnostics'' (JStr ''dispose failed; supervisor cleanup required'')
            (jset ''status'' (JStr ''dispose_failed'') rc)))) (\<lambda>rc.
       andthen (in_store (store_put ''plugins'' (version_key i v) rc)) (ret rc))"
    have disposed: "tri ?R (\<lambda>s. refs_held (fst s) \<and> unreferenced i v (fst s)) ?dispose (\<lambda>_ _. True)"
      by (rule kept_hosted.tri_bnd [OF work], rule kept_hosted.tri_andthen [OF put], rule kept_hosted.keeps_ret)
    show "tri ?R (\<lambda>s. refs_held (fst s) \<and> (refs = [] \<longrightarrow> unreferenced i v (fst s)))
        (if \<not> has_status rc [''draining''] \<or> refs \<noteq> [] \<or> inflight \<noteq> 0 then ret rc else ?dispose) (\<lambda>_ _. True)"
    proof (cases "\<not> has_status rc [''draining''] \<or> refs \<noteq> [] \<or> inflight \<noteq> 0")
      case True
      then show ?thesis by (simp add: tri_def kept_hosted.refl_history)
    next
      case False
      with disposed show ?thesis by simp
    qed
  qed
qed

lemma drained_kept:
  assumes i: "CHR ''@'' \<notin> set i"
  shows "keeps (\<lambda>s t. kept (fst s) (fst t)) (drain_plugin host i v)"
proof -
  have put: "tri (\<lambda>s t. kept (fst s) (fst t)) (\<lambda>s. record_value (fst s) ''plugins'' (version_key i v) = Some rc)
      (in_store (store_put ''plugins'' (version_key i v) (jappend ''lifecycle'' (JStr ''drain'')
        (jset ''revision'' n (jset ''status'' (JStr ''draining'') rc))))) (\<lambda>_ _. True)" for rc n
  proof (rule triI)
    let ?x = "jappend ''lifecycle'' (JStr ''drain'') (jset ''revision'' n (jset ''status'' (JStr ''draining'') rc))"
    fix s r t assume s: "record_value (fst s) ''plugins'' (version_key i v) = Some rc"
      and run: "in_store (store_put ''plugins'' (version_key i v) ?x) s = (r, t)"
    from run have "store_put ''plugins'' (version_key i v) ?x (fst s) = (r, fst t)"
      by (auto simp: in_store_def split: prod.splits)
    from put_version_kept [OF this i] s show "kept (fst s) (fst t) \<and> (\<forall>y. r = Inr y \<longrightarrow> True)"
      by (auto simp: ref_held_def jappend_def has_status_def)
  qed
  have recorded: "tri (\<lambda>s t. kept (fst s) (fst t)) (\<lambda>_. True) (in_store (plugin_record i v))
      (\<lambda>rc s. record_value (fst s) ''plugins'' (version_key i v) = Some rc)"
    by (rule triI) (auto simp: in_store_def kept_def split: prod.splits dest: plugin_record_Inr(1) plugin_record_found)
  show ?thesis
    unfolding drain_plugin_def
  proof (rule keeps_kept_transaction, rule kept_hosted.tri_bnd [OF recorded])
    fix rc
    show "tri (\<lambda>s t. kept (fst s) (fst t)) (\<lambda>s. record_value (fst s) ''plugins'' (version_key i v) = Some rc)
       (if has_status rc [''disposed''] then ret rc
        else andthen (in_store (store_put ''plugins'' (version_key i v) (jappend ''lifecycle'' (JStr ''drain'')
              (jset ''revision'' (JInt (jint (jget ''revision'' rc) + 1)) (jset ''status'' (JStr ''draining'') rc)))))
          (dispose_if_unused host i v)) (\<lambda>_ _. True)"
      using kept_hosted.tri_andthen [OF put dispose_kept [OF i]]
      by (cases "has_status rc [''disposed'']") (simp_all add: tri_def kept_hosted.refl_history)
  qed
qed

lemma released_kept: "keeps (\<lambda>s t. kept (fst s) (fst t)) (release_run host run)"
proof -
  have each: "keeps (\<lambda>s t. kept (fst s) (fst t)) (release_reference host run d)"
    if "jget ''plugin_id'' d = JStr i" "CHR ''@'' \<notin> set i" for d i
    unfolding release_reference_def bnd_ret prod.case
    by (intro kept_hosted.keeps_rules keeps_calm_kept [OF keeps_in_store] calm_delete dispose_kept) (simp_all add: that)
  let ?plain = "\<lambda>refs. \<forall>d \<in> set refs. \<exists>i. jget ''plugin_id'' d = JStr i \<and> CHR ''@'' \<notin> set i"
  have listed: "tri (\<lambda>s t. kept (fst s) (fst t)) (\<lambda>s. refs_held (fst s)) (in_store (store_list ''plugin_run_refs''))
      (\<lambda>refs _. ?plain refs)"
  proof (rule triI)
    fix s r t assume s: "refs_held (fst s)" and run: "in_store (store_list ''plugin_run_refs'') s = (r, t)"
    then have "fst t = fst s" and "r = Inr refs \<Longrightarrow> set refs = run_refs (fst s)" for refs
      by (auto simp: in_store_def store_list_def run_refs_def)
    with s show "kept (fst s) (fst t) \<and> (\<forall>refs. r = Inr refs \<longrightarrow> ?plain refs)"
      unfolding refs_held_def ref_held_def by (simp add: kept_hosted.refl_history) blast
  qed
  have all: "tri (\<lambda>s t. kept (fst s) (fst t)) (\<lambda>_. ?plain refs) (foreach refs (release_reference host run)) (\<lambda>_ _. True)"
    for refs
  proof (cases "?plain refs")
    case True
    then have "keeps (\<lambda>s t. kept (fst s) (fst t)) (foreach refs (release_reference host run))"
      by (intro kept_hosted.keeps_foreach) (auto intro: each)
    then show ?thesis by (rule tri_pre) simp
  qed (auto simp: tri_def)
  show ?thesis
    unfolding release_run_def
    by (intro keeps_kept_transaction tri_when_held kept_hosted.tri_bnd [OF listed all])
qed

lemma enter_kept: "keeps (\<lambda>s t. kept (fst s) (fst t)) (enter_call i v run)"
  unfolding enter_call_def plugin_record_def
  by (intro kept_hosted.keeps_rules keeps_calm_kept [OF keeps_on_host(2)]
      keeps_calm_kept [OF keeps_in_store] calm.keeps_rules calm_reads)

lemma leave_kept:
  assumes "CHR ''@'' \<notin> set i"
  shows "keeps (\<lambda>s t. kept (fst s) (fst t)) (leave_call host i v)"
  unfolding leave_call_def
  by (intro kept_hosted.keeps_rules keeps_calm_kept [OF keeps_on_host(2)] dispose_kept assms)

section \<open>Loading\<close>

text \<open>
  A load that raises is rolled back as a whole, also a record of a failed disposal it has just written, so
  only a load that returns has to be followed.
\<close>

abbreviation any :: "'s \<Rightarrow> 's \<Rightarrow> bool" where
  "any \<equiv> \<lambda>_ _. True"

interpretation any: history any
  by unfold_locales simp_all

definition recorded_as :: "string \<Rightarrow> json option \<Rightarrow> world \<Rightarrow> bool" where
  "recorded_as k previous w \<longleftrightarrow> refs_held w \<and> record_value w ''plugins'' k = previous"

lemma calm_recorded:
  assumes "keeps (\<lambda>s t. calm (fst s) (fst t)) m"
  shows "tri any (\<lambda>s. recorded_as k previous (fst s)) m (\<lambda>_ s. recorded_as k previous (fst s))"
proof (rule triI)
  fix s r t assume s: "recorded_as k previous (fst s)" and run: "m s = (r, t)"
  from triD(1) [OF assms TrueI run] have "calm (fst s) (fst t)" .
  with s calm_held show "True \<and> (\<forall>y. r = Inr y \<longrightarrow> recorded_as k previous (fst t))"
    by (auto simp: recorded_as_def calm_def refs_held_def)
qed

lemma put_loaded:
  assumes m: "CHR ''@'' \<notin> set (pl_id m)"
    and same: "jtruthy (or_empty previous) \<Longrightarrow> jget ''manifest_hash'' (or_empty previous) = JStr digest"
  shows "tri any (\<lambda>s. recorded_as (manifest_key m) previous (fst s))
    (in_store (store_put ''plugins'' (manifest_key m) (fresh_record m digest previous))) (\<lambda>_ s. refs_held (fst s))"
proof (rule triI)
  let ?x = "fresh_record m digest previous"
  fix s r t assume s: "recorded_as (manifest_key m) previous (fst s)"
    and run: "in_store (store_put ''plugins'' (manifest_key m) ?x) s = (r, t)"
  then have put: "store_put ''plugins'' (version_key (pl_id m) (pl_version m)) ?x (fst s) = (r, fst t)"
    by (auto simp: in_store_def manifest_key_def split: prod.splits)
  have "has_status ?x [''ready'', ''draining''] \<and> jget ''manifest_hash'' ?x = jget ''manifest_hash'' d"
    if "ref_held (record_value (fst s) ''plugins'') d" "jget ''plugin_id'' d = JStr (pl_id m)"
      "jget ''version'' d = JStr (pl_version m)" for d
  proof -
    from that s obtain rc where rc: "previous = Some rc" "has_status rc [''ready'', ''draining'']"
      "jget ''manifest_hash'' rc = jget ''manifest_hash'' d"
      by (auto simp: ref_held_def recorded_as_def manifest_key_def)
    then have "jtruthy rc" by (cases rc) (auto simp: has_status_def jget_def)
    with rc same show ?thesis
      by (auto simp: fresh_record_def has_status_def jget_def or_empty_def)
  qed
  from put_version_kept [OF put m] this s have "kept (fst s) (fst t)" by (auto simp: recorded_as_def)
  with s show "True \<and> (\<forall>y. r = Inr y \<longrightarrow> refs_held (fst t))" by (auto simp: kept_def recorded_as_def)
qed

lemma failed_never_returns: "tri any P (load_failed host m digest instance e) (\<lambda>_ s. refs_held (fst s))"
proof (rule triI)
  fix s r t assume "load_failed host m digest instance e s = (r, t)"
  then show "True \<and> (\<forall>y. r = Inr y \<longrightarrow> refs_held (fst t))"
    by (auto simp: load_failed_def andthen_def bnd_def raise_def split: prod.splits sum.splits)
qed

lemma started_held:
  assumes "CHR ''@'' \<notin> set (pl_id m)"
    and "jtruthy (or_empty previous) \<Longrightarrow> jget ''manifest_hash'' (or_empty previous) = JStr digest"
  shows "tri any (\<lambda>s. recorded_as (manifest_key m) previous (fst s)) (started host m digest previous instance)
    (\<lambda>_ s. refs_held (fst s))"
proof -
  have quiet: "keeps (\<lambda>s t. calm (fst s) (fst t)) (case instance of None \<Rightarrow> ret () | Some x \<Rightarrow> on_host (ph_initialize host x))"
    "keeps (\<lambda>s t. calm (fst s) (fst t)) (case instance of None \<Rightarrow> ret ()
       | Some x \<Rightarrow> (case ph_register host x of None \<Rightarrow> ret () | Some f \<Rightarrow> on_host f))"
    by (intro calm_hosted.keeps_rules keeps_on_host)+
  have hold: "tri any (\<lambda>s. refs_held (fst s)) (hold_instance k instance) (\<lambda>_ s. refs_held (fst s))" for k
    by (rule triI) (auto simp: hold_instance_def in_memory_def)
  show ?thesis
    unfolding started_def
  proof (rule any.tri_andthen)
    let ?P = "\<lambda>s. recorded_as (manifest_key m) previous (fst s)"
    show "tri any ?P (case instance of None \<Rightarrow> ret () | Some x \<Rightarrow> on_host (ph_initialize host x)) (\<lambda>_. ?P)"
      by (rule calm_recorded [OF quiet(1)])
    show "tri any ?P (andthen (register_atomic host m) (andthen (case instance of None \<Rightarrow> ret ()
         | Some x \<Rightarrow> (case ph_register host x of None \<Rightarrow> ret () | Some f \<Rightarrow> on_host f))
       (andthen (in_store (store_put ''plugins'' (manifest_key m) (fresh_record m digest previous)))
       (andthen (hold_instance (manifest_key m) instance) (ret (fresh_record m digest previous))))))
       (\<lambda>_ s. refs_held (fst s))"
      by (rule any.tri_andthen [OF calm_recorded [OF calm_register]], rule any.tri_andthen [OF calm_recorded [OF quiet(2)]],
          rule any.tri_andthen, rule put_loaded, rule assms(1), erule assms(2),
          rule any.tri_andthen [OF hold], rule any.tri_ret)
  qed
qed

lemma start_held:
  assumes "CHR ''@'' \<notin> set (pl_id m)"
    and "jtruthy (or_empty previous) \<Longrightarrow> jget ''manifest_hash'' (or_empty previous) = JStr digest"
  shows "tri any (\<lambda>s. recorded_as (manifest_key m) previous (fst s)) (start_plugin host m digest previous)
    (\<lambda>_ s. refs_held (fst s))"
proof -
  have made: "tri any (\<lambda>s. recorded_as (manifest_key m) previous (fst s)) (captured (made_instance host m))
      (\<lambda>_ s. recorded_as (manifest_key m) previous (fst s))"
  proof (rule calm_recorded)
    have "keeps (\<lambda>s t. calm (fst s) (fst t)) (made_instance host m)"
      unfolding made_instance_def by (intro calm_hosted.keeps_rules keeps_on_host)
    then show "keeps (\<lambda>s t. calm (fst s) (fst t)) (captured (made_instance host m))"
      by (intro triI) (auto simp: captured_def split: prod.splits dest: triD(1))
  qed
  show ?thesis
    unfolding start_plugin_def
  proof (rule any.tri_bnd [OF made])
    fix made
    show "tri any (\<lambda>s. recorded_as (manifest_key m) previous (fst s))
       (case made of Inl e \<Rightarrow> load_failed host m digest None e
        | Inr instance \<Rightarrow> catch_all (started host m digest previous instance) (load_failed host m digest instance))
       (\<lambda>_ s. refs_held (fst s))"
      by (cases made) (auto intro!: failed_never_returns any.tri_catch_all started_held [OF assms])
  qed
qed

lemma resolve_reads: "resolve_dependencies host ms w = (r, u) \<Longrightarrow> u = w"
  by (cases "visit_all host ms (installed_versions (map rec_payload (sort_key rec_key
      (filter (\<lambda>r. rec_namespace r = ''plugins'') (t_records w))))) ms ([], [])")
    (auto simp: resolve_dependencies_def store_list_def)

definition kept_idle :: "world \<Rightarrow> world \<Rightarrow> bool" where
  "kept_idle w u \<longleftrightarrow> (refs_held w \<and> \<not> w_active w \<longrightarrow> refs_held u \<and> \<not> w_active u)"

interpretation idle: history "\<lambda>s t. kept_idle (fst s) (fst t)"
  by unfold_locales (auto simp: kept_idle_def)

lemma keeps_kept_idle: "keeps (\<lambda>s t. kept (fst s) (fst t)) m \<Longrightarrow> keeps (\<lambda>s t. kept_idle (fst s) (fst t)) m"
  by (erule tri_mono) (auto simp: kept_def kept_idle_def)

lemma idle_transaction:
  assumes "tri any (\<lambda>s. refs_held (fst s)) m (\<lambda>_ s. refs_held (fst s))"
  shows "keeps (\<lambda>s t. kept_idle (fst s) (fst t)) (hosted_transaction m)"
proof (rule triI)
  fix s r t assume run: "hosted_transaction m s = (r, t)"
  obtain r' u where m: "m ((fst s)\<lparr>w_active := True\<rparr>, snd s) = (r', u)" by (cases "m ((fst s)\<lparr>w_active := True\<rparr>, snd s)")
  have "refs_held (fst u)" if "refs_held (fst s)" "r' = Inr x" for x
    using triD(2) [OF assms _ m [unfolded that(2)]] that(1) by simp
  with run m show "kept_idle (fst s) (fst t) \<and> (\<forall>y. r = Inr y \<longrightarrow> True)"
    by (cases r') (auto simp: hosted_transaction_def kept_idle_def)
qed

lemma loaded_kept:
  assumes "CHR ''@'' \<notin> set (pl_id m)"
  shows "keeps (\<lambda>s t. kept_idle (fst s) (fst t)) (load_plugin host m b)"
proof -
  have resolved: "keeps (\<lambda>s t. kept_idle (fst s) (fst t)) (in_store (resolve_dependencies host ms))" for ms
    by (rule triI) (auto simp: in_store_def kept_idle_def split: prod.splits dest: resolve_reads)
  have got: "tri any (\<lambda>s. refs_held (fst s)) (in_store (store_get ''plugins'' (manifest_key m)))
      (\<lambda>previous s. recorded_as (manifest_key m) previous (fst s))"
    by (rule triI) (auto simp: in_store_def store_get_def recorded_as_def)
  let ?P = "\<lambda>previous s. recorded_as (manifest_key m) previous (fst s)"
  have start: "tri any (?P previous) (bnd (ret (ph_hash host (manifest_json m))) (\<lambda>digest.
          andthen (raise_if (jtruthy (or_empty previous) \<and>
              jget ''manifest_hash'' (or_empty previous) \<noteq> JStr digest) PyValueError)
          (bnd (gets (\<lambda>s. map_of (pm_instances (snd s)) (manifest_key m))) (\<lambda>held.
           if held \<noteq> None then ret (optional_value previous)
           else start_plugin host m digest previous)))) (\<lambda>_ s. refs_held (fst s))" for previous
  proof (cases "jtruthy (or_empty previous) \<and>
      jget ''manifest_hash'' (or_empty previous) \<noteq> JStr (ph_hash host (manifest_json m))")
    case True
    then show ?thesis by (auto simp: bnd_ret raise_if_def andthen_def bnd_def tri_def)
  next
    case False
    have "tri any (?P previous) (if known \<noteq> None then ret (optional_value previous)
        else start_plugin host m (ph_hash host (manifest_json m)) previous) (\<lambda>_ s. refs_held (fst s))" for known
    proof (cases "known = None")
      case True
      with start_held [OF assms, of previous "ph_hash host (manifest_json m)" host] False show ?thesis by simp
    qed (auto simp: tri_def recorded_as_def)
    then have "tri any (?P previous) (bnd (gets (\<lambda>s. map_of (pm_instances (snd s)) (manifest_key m))) (\<lambda>known.
        if known \<noteq> None then ret (optional_value previous)
        else start_plugin host m (ph_hash host (manifest_json m)) previous)) (\<lambda>_ s. refs_held (fst s))"
      by (rule any.tri_bnd [where Q = "\<lambda>_. ?P previous", rotated]) (auto simp: tri_def)
    then show ?thesis by (simp only: bnd_ret andthen_def raise_if_def False if_False)
  qed
  have body: "tri any (\<lambda>s. refs_held (fst s)) (bnd (in_store (store_get ''plugins'' (manifest_key m))) (\<lambda>previous.
        if b \<and> (\<not> jtruthy (or_empty previous) \<or> \<not> has_status (or_empty previous) [''ready'', ''draining''])
        then ret (optional_value previous)
        else
          bnd (ret (ph_hash host (manifest_json m))) (\<lambda>digest.
          andthen (raise_if (jtruthy (or_empty previous) \<and>
              jget ''manifest_hash'' (or_empty previous) \<noteq> JStr digest) PyValueError)
          (bnd (gets (\<lambda>s. map_of (pm_instances (snd s)) (manifest_key m))) (\<lambda>held.
           if held \<noteq> None then ret (optional_value previous)
           else start_plugin host m digest previous))))) (\<lambda>_ s. refs_held (fst s))"
  proof (rule any.tri_bnd [OF got])
    fix previous
    show "tri any (?P previous) (if b \<and> (\<not> jtruthy (or_empty previous) \<or>
          \<not> has_status (or_empty previous) [''ready'', ''draining''])
        then ret (optional_value previous)
        else bnd (ret (ph_hash host (manifest_json m))) (\<lambda>digest.
          andthen (raise_if (jtruthy (or_empty previous) \<and>
              jget ''manifest_hash'' (or_empty previous) \<noteq> JStr digest) PyValueError)
          (bnd (gets (\<lambda>s. map_of (pm_instances (snd s)) (manifest_key m))) (\<lambda>held.
           if held \<noteq> None then ret (optional_value previous)
           else start_plugin host m digest previous)))) (\<lambda>_ s. refs_held (fst s))"
      using start [of previous] by (simp only: split: if_split) (auto simp: tri_def recorded_as_def)
  qed
  show ?thesis
    unfolding load_plugin_def
    by (intro idle.keeps_rules resolved idle_transaction body)
qed

lemma plugin_id_plain: "valid_plugin_id i \<Longrightarrow> CHR ''@'' \<notin> set i"
proof -
  have "\<not> lower_letter (CHR ''@'')" "\<not> plugin_char (CHR ''@'')"
    by (simp_all add: lower_letter_def plugin_char_def less_eq_char_def)
  then show "valid_plugin_id i \<Longrightarrow> CHR ''@'' \<notin> set i"
    by (auto simp: valid_plugin_id_def list_all_iff split: list.splits)
qed

lemma manifest_validate_plain: "manifest_validate host j = Inr m \<Longrightarrow> CHR ''@'' \<notin> set (pl_id m)"
  by (auto simp: manifest_validate_def sum_bind_Inr_iff plugin_id_plain split: if_splits)

lemma resolved_subset:
  assumes "resolve_dependencies host ms w = (Inr order, u)" and "\<And>m. m \<in> set ms \<Longrightarrow> CHR ''@'' \<notin> set (pl_id m)"
  shows "set order \<subseteq> set ms"
proof -
  from assms(1) obtain installed st where st: "visit_all host ms installed ms ([], []) = Inr st" "order = snd st"
    by (auto simp: resolve_dependencies_def store_list_def bnd_Inr_iff lift_iffs)
  have "ordered host ms installed ([], [])" by (simp add: ordered_def)
  from visit_all_ordered [OF assms(2) st(1) order_refl this] st(2) show ?thesis by (simp add: ordered_def)
qed

lemma collect_lift_same: "collect xs (\<lambda>x. lift (f x)) w = (r, u) \<Longrightarrow> u = w"
proof (induction xs arbitrary: w r u)
  case (Cons x xs)
  then show ?case by (cases "f x") (auto simp: bnd_def split: prod.splits sum.splits)
qed simp

lemma recovered_kept: "keeps (\<lambda>s t. kept_idle (fst s) (fst t)) (recover_plugins host)"
proof -
  have read: "keeps (\<lambda>s t. kept_idle (fst s) (fst t)) (in_store m)" if "\<And>w r u. m w = (r, u) \<Longrightarrow> u = w" for m :: "'c store"
    by (rule triI) (auto simp: in_store_def kept_idle_def split: prod.splits dest: that)
  let ?validate = "\<lambda>r. lift (manifest_validate host (jget ''manifest'' r)) :: manifest store"
  have validated: "tri (\<lambda>s t. kept_idle (fst s) (fst t)) (\<lambda>_. True) (in_store (collect records ?validate))
      (\<lambda>ms _. \<forall>m \<in> set ms. CHR ''@'' \<notin> set (pl_id m))" for records
  proof (rule triI, intro conjI allI impI)
    fix s r t assume run: "in_store (collect records ?validate) s = (r, t)"
    have "u = w" if "collect records ?validate w = (r, u)" for w u r
      using that by (rule collect_lift_same)
    from triD(1) [OF read [OF this] TrueI run] show "kept_idle (fst s) (fst t)" .
    show "\<forall>m \<in> set ms. CHR ''@'' \<notin> set (pl_id m)" if "r = Inr ms" for ms
    proof -
      from run that obtain v where "collect records ?validate (fst s) = (Inr ms, v)"
        by (auto simp: in_store_def split: prod.splits)
      then show ?thesis by (rule collect_all) (auto simp: lift_iffs dest: manifest_validate_plain)
    qed
  qed
  have sorted: "tri (\<lambda>s t. kept_idle (fst s) (fst t)) (\<lambda>_. \<forall>m \<in> set ms. CHR ''@'' \<notin> set (pl_id m))
      (in_store (resolve_dependencies host ms)) (\<lambda>order _. \<forall>m \<in> set order. CHR ''@'' \<notin> set (pl_id m))" for ms
    by (rule triI)
      (auto simp: in_store_def kept_idle_def split: prod.splits dest: resolve_reads dest!: resolved_subset)
  have loads: "tri (\<lambda>s t. kept_idle (fst s) (fst t)) (\<lambda>_. \<forall>m \<in> set order. CHR ''@'' \<notin> set (pl_id m))
      (andthen (foreach order (\<lambda>m. bnd (load_plugin host m True) (\<lambda>_. ret ()))) (ret records)) (\<lambda>_ _. True)"
    for order and records :: "json list"
  proof (cases "\<forall>m \<in> set order. CHR ''@'' \<notin> set (pl_id m)")
    case True
    then have "keeps (\<lambda>s t. kept_idle (fst s) (fst t))
        (andthen (foreach order (\<lambda>m. bnd (load_plugin host m True) (\<lambda>_. ret ()))) (ret records))"
      by (intro idle.keeps_rules loaded_kept) auto
    then show ?thesis by (rule tri_pre) simp
  qed (auto simp: tri_def)
  have listed: "keeps (\<lambda>s t. kept_idle (fst s) (fst t)) (in_store (store_list ''plugins''))"
    by (rule read) (auto simp: store_list_def)
  show ?thesis
    unfolding recover_plugins_def bnd_ret
    by (rule idle.keeps_bnd [OF listed], rule idle.tri_bnd [OF validated], rule idle.tri_bnd [OF sorted], rule loads)
qed

section \<open>Any history of the registry\<close>

datatype ('i, 'h) plugin_call =
    Load manifest bool
  | Bind string string string
  | Restore run_row json
  | Enter string string string
  | Leave string string
  | Drain string string
  | Release string
  | Recover_all
  | Restart "('i, 'h) plugin_memory"

fun plugin_step :: "('i, 'h) plugin_host \<Rightarrow> ('i, 'h) plugin_call \<Rightarrow> ('i, 'h, unit) plugged" where
  "plugin_step host (Load m b) = bnd (load_plugin host m b) (\<lambda>_. ret ())"
| "plugin_step host (Bind i v run) = bnd (in_store (bind_version i v run)) (\<lambda>_. ret ())"
| "plugin_step host (Restore run d) = in_store (restore_reference run d)"
| "plugin_step host (Enter i v run) = bnd (enter_call i v run) (\<lambda>_. ret ())"
| "plugin_step host (Leave i v) = leave_call host i v"
| "plugin_step host (Drain i v) = bnd (drain_plugin host i v) (\<lambda>_. ret ())"
| "plugin_step host (Release run) = release_run host run"
| "plugin_step host Recover_all = bnd (recover_plugins host) (\<lambda>_. ret ())"
| "plugin_step host (Restart memory) = in_memory (\<lambda>_. memory)"

fun plugin_calls ::
  "('i, 'h) plugin_host \<Rightarrow> ('i, 'h) plugin_call list \<Rightarrow> world \<times> ('i, 'h) plugin_memory \<Rightarrow> world \<times> ('i, 'h) plugin_memory" where
  "plugin_calls host [] s = s"
| "plugin_calls host (c # cs) s = plugin_calls host cs (snd (plugin_step host c s))"

text \<open>The identities of manifests and the references of snapshots have the form that manifests allow.\<close>

fun plain_call :: "('i, 'h) plugin_call \<Rightarrow> bool" where
  "plain_call (Load m b) = valid_plugin_id (pl_id m)"
| "plain_call (Bind i v run) = valid_plugin_id i"
| "plain_call (Restore run d) = (case (jget ''plugin_id'' d, jget ''version'' d) of
     (JStr i, JStr v) \<Rightarrow> valid_plugin_id i | _ \<Rightarrow> False)"
| "plain_call (Leave i v) = valid_plugin_id i"
| "plain_call (Drain i v) = valid_plugin_id i"
| "plain_call _ = True"

lemma plugin_step_kept:
  assumes "plain_call c"
  shows "keeps (\<lambda>s t. kept_idle (fst s) (fst t)) (plugin_step host c)"
proof (cases c)
  case (Restore run d)
  with assms obtain i v where "jget ''plugin_id'' d = JStr i" "jget ''version'' d = JStr v" "valid_plugin_id i"
    by (auto split: json.splits)
  with Restore show ?thesis
    by (simp add: keeps_kept_idle keeps_in_store restore_kept plugin_id_plain)
next
  case (Enter i v run)
  then show ?thesis by (simp add: keeps_kept_idle enter_kept idle.keeps_bnd idle.keeps_ret)
next
  case (Restart memory)
  then show ?thesis by (simp add: keeps_kept_idle keeps_calm_kept keeps_on_host(2))
qed (use assms in \<open>simp_all add: idle.keeps_bnd idle.keeps_ret loaded_kept keeps_kept_idle keeps_in_store bind_version_kept
      leave_kept drained_kept released_kept recovered_kept plugin_id_plain\<close>)

lemma dispose_refused:
  assumes "r \<in> run_refs (fst s)" and "jget ''plugin_id'' r = JStr i" and "jget ''version'' r = JStr v"
  shows "snd (dispose_if_unused host i v s) = s"
proof -
  obtain r0 w0 where found: "plugin_record i v (fst s) = (r0, w0)" by (cases "plugin_record i v (fst s)")
  with plugin_record_Inr(1) have w0: "w0 = fst s" by blast
  have "\<exists>d ds. references i v (fst s) = (Inr (d # ds), fst s)"
    using assms by (auto simp: references_def store_list_def run_refs_def filter_empty_conv neq_Nil_conv [symmetric])
  with found w0 show ?thesis
    by (cases r0) (auto simp: dispose_if_unused_def in_store_def bnd_def)
qed

text \<open>
  C37: What a run holds stays. Over any calls of the registry and any restarts, every reference of a run is to
  a version whose record is ready or draining and has the manifest the run was locked to; and disposing of
  a version is refused, with nothing changed, while a reference to it is left.
\<close>

theorem plugin_versions_held:
  assumes "refs_held (fst s)" and "\<not> w_active (fst s)" and "list_all plain_call calls"
    and "r \<in> run_refs (fst (plugin_calls host calls s))"
  shows "\<exists>i v rc. jget ''plugin_id'' r = JStr i \<and> jget ''version'' r = JStr v \<and>
    record_value (fst (plugin_calls host calls s)) ''plugins'' (version_key i v) = Some rc \<and>
    has_status rc [''ready'', ''draining''] \<and> jget ''manifest_hash'' rc = jget ''manifest_hash'' r \<and>
    snd (dispose_if_unused host i v (plugin_calls host calls s)) = plugin_calls host calls s"
proof -
  have "refs_held (fst (plugin_calls host calls s)) \<and> \<not> w_active (fst (plugin_calls host calls s))"
    using assms(1-3)
  proof (induction calls arbitrary: s)
    case (Cons c calls)
    obtain r' t where step: "plugin_step host c s = (r', t)" by (cases "plugin_step host c s")
    from Cons.prems(3) have "plain_call c" by simp
    from triD(1) [OF plugin_step_kept [OF this] TrueI step] Cons.prems have "refs_held (fst t) \<and> \<not> w_active (fst t)"
      by (simp add: kept_idle_def)
    with Cons.IH [of t] Cons.prems(3) step show ?case by simp
  qed simp
  with assms(4) have "ref_held (record_value (fst (plugin_calls host calls s)) ''plugins'') r" by (simp add: refs_held_def)
  then obtain i v rc where rc: "jget ''plugin_id'' r = JStr i" "jget ''version'' r = JStr v"
    "record_value (fst (plugin_calls host calls s)) ''plugins'' (version_key i v) = Some rc"
    "has_status rc [''ready'', ''draining'']" "jget ''manifest_hash'' rc = jget ''manifest_hash'' r"
    by (auto simp: ref_held_def)
  from dispose_refused [OF assms(4) rc(1,2)] rc show ?thesis by blast
qed

definition held_world :: world where
  "held_world = fresh_store\<lparr>t_records :=
     [\<lparr>rec_namespace = ''plugins'', rec_key = version_key ''a'' ''1'', rec_revision = 1, rec_payload = JObj
        [(''manifest_hash'', JStr ''h''), (''status'', JStr ''ready'')]\<rparr>,
      \<lparr>rec_namespace = ''plugin_run_refs'', rec_key = ''run@a@1'', rec_revision = 1, rec_payload = JObj
        [(''run_id'', JStr ''run''), (''plugin_id'', JStr ''a''), (''version'', JStr ''1''), (''manifest_hash'', JStr ''h'')]\<rparr>]\<rparr>"

definition held_memory :: "(unit, unit) plugin_memory" where
  "held_memory = \<lparr>pm_entries = [], pm_instances = [], pm_inflight = (\<lambda>_. 0), pm_host = ()\<rparr>"

lemma plugin_versions_held_witness:
  "let s = plugin_calls sample_plugin_host [Drain ''a'' ''1''] (held_world, held_memory)
   in snd (dispose_if_unused sample_plugin_host ''a'' ''1'' s) = s"
proof -
  let ?r = "JObj [(''run_id'', JStr ''run''), (''plugin_id'', JStr ''a''), (''version'', JStr ''1''), (''manifest_hash'', JStr ''h'')]"
  let ?s = "(held_world, held_memory)"
  have "ref_held (record_value held_world ''plugins'') ?r"
    unfolding ref_held_def by (rule exI [of _ "''a''"], rule exI [of _ "''1''"])
      (simp add: held_world_def record_value_def record_at_def rec_id_def version_key_def has_status_def jget_def)
  then have "refs_held (fst ?s)"
    by (auto simp: refs_held_def placed_def run_refs_def held_world_def)
  moreover have "\<not> w_active (fst ?s)" by (simp add: held_world_def fresh_store_def empty_world_def)
  moreover have "list_all plain_call [Drain ''a'' ''1'']" by code_simp
  moreover have "?r \<in> run_refs (fst (plugin_calls sample_plugin_host [Drain ''a'' ''1''] ?s))"
    by code_simp
  ultimately obtain i v where names: "jget ''plugin_id'' ?r = JStr i" "jget ''version'' ?r = JStr v"
    and unchanged: "snd (dispose_if_unused sample_plugin_host i v (plugin_calls sample_plugin_host [Drain ''a'' ''1''] ?s)) =
      plugin_calls sample_plugin_host [Drain ''a'' ''1''] ?s"
    using plugin_versions_held [of ?s "[Drain ''a'' ''1'']" ?r sample_plugin_host] by blast
  from names have "i = ''a''" "v = ''1''" by (simp_all add: jget_def)
  with unchanged show ?thesis by (simp only: Let_def)
qed

end
