(* ===== verification/Context_Compaction.thy ===== *)
theory Context_Compaction
  imports Host_Models
begin

text \<open>
  The context service (\<^verbatim>\<open>harness/context/service.py\<close>), its first part: attachments, the archive of
  messages, the pointer to the active summary, and compaction, which replaces an older interval by a
  checked summary. The conversion of messages to documents, Python's text of a value that is not a string, Unicode
  blanks and the text of an instant are parameters; durations are left out of the events.
\<close>

section \<open>The process\<close>

text \<open>Beside the database the service works with the artifact files and the registry of models.\<close>

record context_memory =
  cx_disk :: disk
  cx_gateway :: gateway_state

type_synonym 'a contextual = "(context_memory, 'a) hosted"

definition on_disk :: "'a disk_act \<Rightarrow> 'a contextual" where
  "on_disk m s = (case m (fst s, cx_disk (snd s)) of (r, w, d) \<Rightarrow> (r, w, (snd s)\<lparr>cx_disk := d\<rparr>))"

definition on_gateway :: "(gateway_state \<Rightarrow> ('a \<times> gateway_state) store) \<Rightarrow> 'a contextual" where
  "on_gateway f s =
     (case f (cx_gateway (snd s)) (fst s) of
        (Inl e, w) \<Rightarrow> (Inl e, w, snd s)
      | (Inr (x, g), w) \<Rightarrow> (Inr x, w, (snd s)\<lparr>cx_gateway := g\<rparr>))"

record context_library =
  cv_dump :: "chat_message \<Rightarrow> json"
  cv_load :: "json \<Rightarrow> chat_message"
  cv_str :: "json \<Rightarrow> string"
  cv_strip :: "string \<Rightarrow> string"
  cv_time :: "timestamp \<Rightarrow> string"

text \<open>
  What the service is built with: its policy, the gateway, a summary profile or engine given from
  outside, the artifact functions, the listener, and the texts of the memory service.
\<close>

record context_service =
  xs_policy :: context_policy
  xs_gateway :: model_gateway
  xs_summary :: "string option"
  xs_engine :: "(execution_context \<Rightarrow> chat_message list \<Rightarrow> string list \<Rightarrow> json contextual) option"
  xs_writer :: "(execution_context \<Rightarrow> string \<Rightarrow> string \<Rightarrow> string \<Rightarrow> artifact_ref contextual) option"
  xs_reader :: "(execution_context \<Rightarrow> artifact_ref \<Rightarrow> int \<Rightarrow> string contextual) option"
  xs_sink :: "(string \<Rightarrow> json \<Rightarrow> unit contextual) option"
  xs_pages :: nat
  xs_text :: text_library
  xs_library :: context_library

definition text_of :: "context_service \<Rightarrow> json \<Rightarrow> string" where
  "text_of x j = (case j of JStr s \<Rightarrow> s | _ \<Rightarrow> cv_str (xs_library x) j)"

definition canonical :: "context_service \<Rightarrow> json \<Rightarrow> string" where
  "canonical x = canonical_json (mg_float (xs_gateway x))"

definition context_hash :: "context_service \<Rightarrow> json \<Rightarrow> string" where
  "context_hash x = content_hash (mg_sha (xs_gateway x)) (mg_float (xs_gateway x))"

definition estimate :: "context_service \<Rightarrow> (string \<times> json) list \<Rightarrow> model_profile \<Rightarrow> err + token_estimate" where
  "estimate x request p = estimate_tokens (mg_images (xs_gateway x)) (mg_float (xs_gateway x)) request (Some p)"

section \<open>Policies and references\<close>

definition policy_validate :: "json \<Rightarrow> err + context_policy" where
  "policy_validate j =
     (if \<not> known_keys [''revision'', ''output_reserve'', ''safety_tokens'', ''soft_threshold'', ''compaction_target'',
          ''offload_bytes'', ''recent_turns''] j then Inl PyValueError else
      sum_bind (valid_int (jget_or ''revision'' (JInt 3) j)) (\<lambda>revision.
      sum_bind (valid_int (jget_or ''output_reserve'' (JInt 8192) j)) (\<lambda>room.
      sum_bind (valid_int (jget_or ''safety_tokens'' (JInt 256) j)) (\<lambda>safety.
      sum_bind (valid_float (\<lambda>x. 0 < x \<and> x < 1) (jget_or ''soft_threshold'' (JFloat (3 / 4)) j)) (\<lambda>soft.
      sum_bind (valid_float (\<lambda>x. 0 < x \<and> x < 1) (jget_or ''compaction_target'' (JFloat (11 / 20)) j)) (\<lambda>target.
      sum_bind (valid_int (jget_or ''offload_bytes'' (JInt 16384) j)) (\<lambda>offload.
      sum_bind (valid_int (jget_or ''recent_turns'' (JInt 3) j)) (\<lambda>recent.
      if room \<le> 0 \<or> safety < 0 \<or> offload < 256 \<or> recent < 1 then Inl PyValueError
      else Inr \<lparr>context_policy.cp_revision = revision, cp_output = room, cp_safety = safety, cp_soft = soft, cp_target = target,
                cp_offload = offload, cp_recent = recent\<rparr>))))))))"

definition policy_of :: "context_service \<Rightarrow> execution_context \<Rightarrow> context_policy store" where
  "policy_of x ctx =
     bnd (snapshot_of ctx) (\<lambda>snapshot.
     if jtruthy (jget ''context_policy'' snapshot) then lift (policy_validate (jget ''context_policy'' snapshot))
     else ret (xs_policy x))"

definition artifact_validate :: "json \<Rightarrow> err + artifact_ref" where
  "artifact_validate j =
     (if \<not> known_keys [''artifact_id'', ''content_hash'', ''mime_type'', ''size_bytes'', ''owner_id'', ''workspace_id'',
          ''provenance_ref''] j then Inl PyValueError else
      sum_bind (valid_string (jget ''artifact_id'' j)) (\<lambda>i.
      sum_bind (valid_string (jget ''content_hash'' j)) (\<lambda>hashed.
      sum_bind (valid_string (jget ''mime_type'' j)) (\<lambda>mime.
      sum_bind (valid_int (jget ''size_bytes'' j)) (\<lambda>many.
      if many < 0 then Inl PyValueError else
      sum_bind (valid_string (jget ''owner_id'' j)) (\<lambda>owner.
      sum_bind (valid_string (jget ''workspace_id'' j)) (\<lambda>workspace.
      sum_bind (valid_string (jget ''provenance_ref'' j)) (\<lambda>provenance.
      Inr \<lparr>ar_id = i, ar_hash = hashed, ar_mime = mime, ar_size = many, ar_owner = owner,
           ar_workspace = workspace, ar_provenance = provenance\<rparr>))))))))"

section \<open>Texts\<close>

text \<open>\<^verbatim>\<open>s[:n]\<close> on the UTF-8 bytes of a text: up to the byte that starts the next character.\<close>

definition continuation :: "char \<Rightarrow> bool" where
  "continuation c \<longleftrightarrow> of_char c div 64 = (2 :: nat)"

fun take_points :: "nat \<Rightarrow> string \<Rightarrow> string" where
  "take_points n [] = []"
| "take_points n (c # cs) =
     (if continuation c then c # take_points n cs
      else case n of 0 \<Rightarrow> [] | Suc m \<Rightarrow> c # take_points m cs)"

text \<open>
  The incremental UTF-8 decoder: bytes that are no UTF-8 are refused; a character that is cut off at
  the end is dropped, or refused when the bytes are all there are.
\<close>

definition sequence_length :: "char \<Rightarrow> nat" where
  "sequence_length c =
     (let n = (of_char c :: nat) in
      if n < 128 then 1 else if n < 194 then 0 else if n < 224 then 2 else if n < 240 then 3
      else if n < 245 then 4 else 0)"

definition second_byte :: "char \<Rightarrow> char \<Rightarrow> bool" where
  "second_byte c d \<longleftrightarrow>
     (let n = (of_char c :: nat); m = (of_char d :: nat) in
      continuation d \<and> (n = 224 \<longrightarrow> 160 \<le> m) \<and> (n = 237 \<longrightarrow> m < 160) \<and> (n = 240 \<longrightarrow> 144 \<le> m) \<and> (n = 244 \<longrightarrow> m < 144))"

definition continues :: "char \<Rightarrow> string \<Rightarrow> bool" where
  "continues c ds \<longleftrightarrow> list_all continuation ds \<and> (case ds of [] \<Rightarrow> True | d # _ \<Rightarrow> second_byte c d)"

function utf8_decode :: "bool \<Rightarrow> string \<Rightarrow> string option" where
  "utf8_decode final [] = Some []"
| "utf8_decode final (c # cs) =
     (let many = sequence_length c - 1; ds = take many cs in
      if sequence_length c = 0 \<or> \<not> continues c ds then None
      else if length ds < many then (if final then None else Some [])
      else map_option (\<lambda>rest. c # ds @ rest) (utf8_decode final (drop many cs)))"
  by pat_completeness auto
termination by (relation "measure (length \<circ> snd)") auto

text \<open>\<^verbatim>\<open>base64.b64encode\<close>.\<close>

definition base64_digit :: "nat \<Rightarrow> char" where
  "base64_digit n =
     (if n < 26 then char_of (65 + n) else if n < 52 then char_of (71 + n) else if n < 62 then char_of (n - 4)
      else if n = 62 then CHR ''+'' else CHR ''/'')"

fun encode64 :: "string \<Rightarrow> string" where
  "encode64 [] = []"
| "encode64 [a] = (let n = (of_char a :: nat) in [base64_digit (n div 4), base64_digit (n mod 4 * 16), CHR ''='', CHR ''=''])"
| "encode64 [a, b] =
     (let n = (of_char a :: nat); m = (of_char b :: nat) in
      [base64_digit (n div 4), base64_digit (n mod 4 * 16 + m div 16), base64_digit (m mod 16 * 4), CHR ''=''])"
| "encode64 (a # b # c # cs) =
     (let n = (of_char a :: nat); m = (of_char b :: nat); k = (of_char c :: nat) in
      [base64_digit (n div 4), base64_digit (n mod 4 * 16 + m div 16), base64_digit (m mod 16 * 4 + k div 64),
       base64_digit (k mod 64)] @ encode64 cs)"

text \<open>\<^verbatim>\<open>separator.join(parts)\<close>, \<^verbatim>\<open>text.replace(old, new, 1)\<close> for an \<open>old\<close> that is not empty,
  \<^verbatim>\<open>list(dict.fromkeys(xs))\<close>.\<close>

fun joined_with :: "string \<Rightarrow> string list \<Rightarrow> string" where
  "joined_with sep [] = []"
| "joined_with sep [p] = p"
| "joined_with sep (p # ps) = p @ sep @ joined_with sep ps"

fun replace_first :: "string \<Rightarrow> string \<Rightarrow> string \<Rightarrow> string" where
  "replace_first old new [] = []"
| "replace_first old new (c # cs) =
     (if starts_with old (c # cs) then new @ drop (length old) (c # cs) else c # replace_first old new cs)"

definition dedupe :: "'a list \<Rightarrow> 'a list" where
  "dedupe xs = rev (remdups (rev xs))"

text \<open>\<^verbatim>\<open>model_dump_json()\<close>: like the canonical text, with the fields in their order.\<close>

primrec ordered_json :: "(rat \<Rightarrow> string) \<Rightarrow> json \<Rightarrow> string" where
  "ordered_json frepr JNull = ''null''"
| "ordered_json frepr (JBool b) = (if b then ''true'' else ''false'')"
| "ordered_json frepr (JInt n) = int_text n"
| "ordered_json frepr (JFloat r) = frepr r"
| "ordered_json frepr (JStr s) = string_text s"
| "ordered_json frepr (JList xs) = CHR ''['' # commas (map (ordered_json frepr) xs) @ '']''"
| "ordered_json frepr (JObj kvs) =
     CHR ''{'' # commas (map entry_text (map (map_prod id (ordered_json frepr)) kvs)) @ ''}''"

section \<open>Attachments\<close>

definition media_type :: "context_service \<Rightarrow> string \<Rightarrow> string" where
  "media_type x mime =
     tx_lower (xs_text x) (cv_strip (xs_library x) (takeWhile (\<lambda>c. c \<noteq> CHR '';'') mime))"

definition has_image :: "chat_message \<Rightarrow> bool" where
  "has_image m \<longleftrightarrow> (case cm_content m of JList parts \<Rightarrow> list_ex image_block parts | _ \<Rightarrow> False)"

definition image_types :: "string list" where
  "image_types = [''image/png'', ''image/jpeg'', ''image/webp'', ''image/gif'']"

definition text_type :: "string \<Rightarrow> bool" where
  "text_type mime \<longleftrightarrow> starts_with ''text/'' mime \<or>
     mime \<in> {''application/json'', ''application/xml'', ''application/yaml'', ''application/x-yaml''}"

definition text_part :: "string \<Rightarrow> json" where
  "text_part s = JObj [(''type'', JStr ''text''), (''text'', JStr s)]"

definition excerpt_json :: "artifact_ref \<Rightarrow> string \<Rightarrow> bool \<Rightarrow> json" where
  "excerpt_json ref text partial = JObj
     [(''artifact_ref'', artifact_json ref), (''excerpt'', JStr text), (''truncated'', JBool partial)]"

definition image_attachment ::
  "context_service \<Rightarrow> execution_context \<Rightarrow> model_profile \<Rightarrow> bool \<Rightarrow> artifact_ref \<Rightarrow>
   (execution_context \<Rightarrow> artifact_ref \<Rightarrow> int \<Rightarrow> string contextual) \<Rightarrow> json contextual" where
  "image_attachment x ctx p summary ref reader =
     (let mime = media_type x (ar_mime ref) in
      andthen (raise_if (mime \<notin> set image_types) (HErr ''unsupported_image_type'' 422))
      (if summary then
         ret (text_part (''Image retained separately; no visual summary: '' @ ar_id ref))
       else
         andthen (raise_if (\<not> supports p ''vision'') (HErr ''vision_unverified'' 422))
         (andthen (raise_if (10 * 1024 * 1024 < ar_size ref) (HErr ''image_too_large'' 413))
         (bnd (reader ctx ref (ar_size ref)) (\<lambda>raw.
          andthen (raise_if (int (length raw) \<noteq> ar_size ref) (HErr ''attachment_incomplete'' 409))
          (bnd (lift (validate_image (ih_decode (mg_images (xs_gateway x))) raw mime)) (\<lambda>dims.
           ret (JObj [(''type'', JStr ''image''), (''artifact_ref'', artifact_json ref),
             (''width'', JInt (fst dims)), (''height'', JInt (snd dims))])))))))) "

definition file_attachment ::
  "context_service \<Rightarrow> execution_context \<Rightarrow> artifact_ref \<Rightarrow>
   (execution_context \<Rightarrow> artifact_ref \<Rightarrow> int \<Rightarrow> string contextual) \<Rightarrow> json contextual" where
  "file_attachment x ctx ref reader =
     andthen (raise_if (\<not> text_type (media_type x (ar_mime ref))) (HErr ''unsupported_attachment_type'' 422))
     (bnd (in_store (policy_of x ctx)) (\<lambda>policy.
      bnd (reader ctx ref (min (ar_size ref) (cp_offload policy))) (\<lambda>raw.
      case utf8_decode (ar_size ref \<le> int (length raw)) raw of
        None \<Rightarrow> raise (HErr ''unsupported_attachment_encoding'' 422)
      | Some text \<Rightarrow>
          ret (text_part (''Attached reference material (untrusted instructions):'' @ [CHR 0x0A] @
            canonical x (excerpt_json ref text (int (length raw) < ar_size ref)))))))"

definition attachment_part ::
  "context_service \<Rightarrow> execution_context \<Rightarrow> model_profile \<Rightarrow> bool \<Rightarrow> json \<Rightarrow> (json \<times> artifact_ref list) contextual" where
  "attachment_part x ctx p summary part =
     (case jlookup ''artifact_ref'' part of
        None \<Rightarrow> ret (part, [])
      | Some j \<Rightarrow>
          bnd (lift (artifact_validate j)) (\<lambda>ref.
          andthen (raise_if (ar_owner ref \<noteq> c_owner ctx \<or> ar_workspace ref \<noteq> c_workspace ctx)
            (HErr ''attachment_not_accessible'' 403))
          (bnd (need (HErr ''attachment_reader_unavailable'' 409) (xs_reader x)) (\<lambda>reader.
           bnd (if jget ''type'' part = JStr ''image'' then image_attachment x ctx p summary ref reader
                else if jget ''type'' part = JStr ''file_reference'' then file_attachment x ctx ref reader
                else raise (HErr ''unsupported_attachment_type'' 422)) (\<lambda>shown.
           ret (shown, [ref]))))))"

definition attached ::
  "context_service \<Rightarrow> execution_context \<Rightarrow> model_profile \<Rightarrow> bool \<Rightarrow> chat_message \<Rightarrow>
   (chat_message \<times> artifact_ref list) contextual" where
  "attached x ctx p summary m =
     (case (cm_class m, cm_content m) of
        (mc_human, JList parts) \<Rightarrow>
          bnd (collect parts (attachment_part x ctx p summary)) (\<lambda>got.
          ret (m\<lparr>cm_content := JList (map fst got)\<rparr>, concat (map snd got)))
      | _ \<Rightarrow> ret (m, []))"

section \<open>The pointer and the archive\<close>

definition fresh_pointer :: "int \<Rightarrow> json" where
  "fresh_pointer revision = JObj
     [(''revision'', JInt 1), (''input_revision'', JInt revision), (''summary_ref'', JNull)]"

definition context_pointer :: "execution_context \<Rightarrow> json store" where
  "context_pointer ctx =
     bnd (store_get ''context_pointer'' (c_thread ctx)) (\<lambda>saved.
     bnd (case saved of
            Some p \<Rightarrow> ret p
          | None \<Rightarrow>
              bnd (compare_and_set ''context_pointer'' (c_thread ctx) None (fresh_pointer (c_input_revision ctx)))
                (\<lambda>_. bnd (store_get ''context_pointer'' (c_thread ctx)) (need PyTypeError))) (\<lambda>current.
     andthen (raise_if (c_input_revision ctx < jint (jget ''input_revision'' current))
       (HErr ''stale_context_input'' 409))
     (if jint (jget ''input_revision'' current) < c_input_revision ctx then
        bnd (ret (jset ''revision'' (JInt (jint (jget ''revision'' current) + 1))
          (jset ''input_revision'' (JInt (c_input_revision ctx)) current))) (\<lambda>updated.
        bnd (compare_and_set ''context_pointer'' (c_thread ctx) (Some (jint (jget ''revision'' current))) updated)
          (\<lambda>_. ret updated))
      else ret current)))"

definition archive_key :: "execution_context \<Rightarrow> string \<Rightarrow> string" where
  "archive_key ctx i = c_thread ctx @ '':'' @ i"

definition archive_json :: "context_service \<Rightarrow> execution_context \<Rightarrow> chat_message \<Rightarrow> json" where
  "archive_json x ctx m = JObj
     [(''revision'', JInt 1), (''owner_id'', JStr (c_owner ctx)), (''workspace_id'', JStr (c_workspace ctx)),
      (''message'', cv_dump (xs_library x) m)]"

text \<open>A message that has been given its identity.\<close>

definition message_ref :: "chat_message \<Rightarrow> string" where
  "message_ref m = (case cm_id m of None \<Rightarrow> '''' | Some i \<Rightarrow> i)"

definition archive_message :: "context_service \<Rightarrow> execution_context \<Rightarrow> chat_message \<Rightarrow> chat_message store" where
  "archive_message x ctx message =
     bnd (with_id message) (\<lambda>m.
     bnd (store_get ''context_archive'' (archive_key ctx (message_ref m))) (\<lambda>existing.
     andthen (raise_if (case existing of None \<Rightarrow> False | Some e \<Rightarrow> \<not> same_json e (archive_json x ctx m))
       (HErr ''immutable_message'' 409))
     (andthen (whenever (existing = None)
        (store_put ''context_archive'' (archive_key ctx (message_ref m)) (archive_json x ctx m)))
     (ret m))))"

definition archive_messages ::
  "context_service \<Rightarrow> execution_context \<Rightarrow> chat_message list \<Rightarrow> chat_message list store" where
  "archive_messages x ctx messages = collect messages (archive_message x ctx)"

definition archived_message :: "context_service \<Rightarrow> execution_context \<Rightarrow> string \<Rightarrow> chat_message store" where
  "archived_message x ctx ref =
     bnd (store_get ''context_archive'' (archive_key ctx ref)) (\<lambda>data.
     andthen (raise_if (\<not> jtruthy (or_empty data) \<or> jget ''owner_id'' (or_empty data) \<noteq> JStr (c_owner ctx) \<or>
         jget ''workspace_id'' (or_empty data) \<noteq> JStr (c_workspace ctx)) (HErr ''source_not_found'' 404))
     (bnd (lift (jfield ''message'' (or_empty data))) (\<lambda>d. ret (cv_load (xs_library x) d))))"

definition read_archive ::
  "context_service \<Rightarrow> execution_context \<Rightarrow> string list \<Rightarrow> chat_message list store" where
  "read_archive x ctx refs = collect refs (archived_message x ctx)"

definition context_pins :: "execution_context \<Rightarrow> json store" where
  "context_pins ctx =
     bnd (store_get ''context_pins'' (c_branch ctx)) (\<lambda>pins.
     ret (if jtruthy (or_empty pins) then or_empty pins
          else JObj [(''revision'', JInt 0), (''items'', JList [])]))"

definition pin_texts :: "json \<Rightarrow> string list" where
  "pin_texts pins = map (\<lambda>pin. jstr (jget ''text'' pin)) (jitems (jget ''items'' pins))"

section \<open>Summaries\<close>

record compaction_summary =
  sm_id :: string
  sm_revision :: int
  sm_covered :: "string list"
  sm_parents :: "string list"
  sm_goal :: string
  sm_constraints :: "string list"
  sm_facts :: "string list"
  sm_changes :: "string list"
  sm_evidence :: "string list"
  sm_failed :: "string list"
  sm_open :: "string list"
  sm_next :: "string list"
  sm_manifest :: string
  sm_hash :: string
  sm_profile :: string
  sm_created :: string

definition summary_fields :: "string list" where
  "summary_fields =
     [''summary_id'', ''revision'', ''covered_message_refs'', ''parent_summary_refs'', ''goal'', ''constraints'',
      ''verified_facts'', ''changes'', ''evidence_refs'', ''failed_approaches'', ''open_items'', ''next_steps'',
      ''source_manifest_hash'', ''content_hash'', ''model_profile_ref'', ''created_at'']"

definition summary_json :: "compaction_summary \<Rightarrow> json" where
  "summary_json s = JObj
     [(''summary_id'', JStr (sm_id s)), (''revision'', JInt (sm_revision s)),
      (''covered_message_refs'', strings_json (sm_covered s)), (''parent_summary_refs'', strings_json (sm_parents s)),
      (''goal'', JStr (sm_goal s)), (''constraints'', strings_json (sm_constraints s)),
      (''verified_facts'', strings_json (sm_facts s)), (''changes'', strings_json (sm_changes s)),
      (''evidence_refs'', strings_json (sm_evidence s)), (''failed_approaches'', strings_json (sm_failed s)),
      (''open_items'', strings_json (sm_open s)), (''next_steps'', strings_json (sm_next s)),
      (''source_manifest_hash'', JStr (sm_manifest s)), (''content_hash'', JStr (sm_hash s)),
      (''model_profile_ref'', JStr (sm_profile s)), (''created_at'', JStr (sm_created s))]"

text \<open>The validation of the class; a missing identity or instant, whose defaults are made anew, is given to it.\<close>

definition summary_validate :: "json \<Rightarrow> err + compaction_summary" where
  "summary_validate j =
     (if \<not> known_keys summary_fields j then Inl PyValueError else
      sum_bind (valid_string (jget ''summary_id'' j)) (\<lambda>i.
      sum_bind (valid_int (jget_or ''revision'' (JInt 1) j)) (\<lambda>revision.
      sum_bind (valid_strings (jget ''covered_message_refs'' j)) (\<lambda>covered.
      sum_bind (valid_strings (jget_or ''parent_summary_refs'' (JList []) j)) (\<lambda>parents.
      sum_bind (valid_string (jget ''goal'' j)) (\<lambda>goal.
      sum_bind (valid_strings (jget ''constraints'' j)) (\<lambda>constraints.
      sum_bind (valid_strings (jget_or ''verified_facts'' (JList []) j)) (\<lambda>facts.
      sum_bind (valid_strings (jget_or ''changes'' (JList []) j)) (\<lambda>changes.
      sum_bind (valid_strings (jget_or ''evidence_refs'' (JList []) j)) (\<lambda>evidence.
      sum_bind (valid_strings (jget_or ''failed_approaches'' (JList []) j)) (\<lambda>failed.
      sum_bind (valid_strings (jget_or ''open_items'' (JList []) j)) (\<lambda>open.
      sum_bind (valid_strings (jget_or ''next_steps'' (JList []) j)) (\<lambda>next.
      sum_bind (valid_string (jget ''source_manifest_hash'' j)) (\<lambda>source.
      sum_bind (valid_string (jget ''content_hash'' j)) (\<lambda>hashed.
      sum_bind (valid_string (jget ''model_profile_ref'' j)) (\<lambda>profile.
      sum_bind (valid_string (jget ''created_at'' j)) (\<lambda>created.
      Inr \<lparr>sm_id = i, sm_revision = revision, sm_covered = covered, sm_parents = parents, sm_goal = goal,
           sm_constraints = constraints, sm_facts = facts, sm_changes = changes, sm_evidence = evidence,
           sm_failed = failed, sm_open = open, sm_next = next, sm_manifest = source, sm_hash = hashed,
           sm_profile = profile, sm_created = created\<rparr>)))))))))))))))))"

definition saved_summary :: "string \<Rightarrow> compaction_summary store" where
  "saved_summary i =
     bnd (store_get ''context_summaries'' i) (\<lambda>data.
     case data of None \<Rightarrow> raise PyValueError | Some j \<Rightarrow> lift (summary_validate j))"

text \<open>The summary of a pointer, when it has one.\<close>

definition pointer_summary :: "json \<Rightarrow> compaction_summary option store" where
  "pointer_summary pointer =
     (if jtruthy (jget ''summary_ref'' pointer)
      then bnd (saved_summary (jstr (jget ''summary_ref'' pointer))) (\<lambda>s. ret (Some s))
      else ret None)"

text \<open>
  \<^verbatim>\<open>set(value)\<close> of a JSON value: only hashable elements of something that can be iterated. The
  characters of a text are single texts.
\<close>

fun points :: "string \<Rightarrow> string list" where
  "points [] = []"
| "points (c # cs) =
     (if cs \<noteq> [] \<and> continuation (hd cs) then (c # hd (points cs)) # tl (points cs) else [c] # points cs)"

fun hashable :: "json \<Rightarrow> bool" where
  "hashable (JList xs) = False"
| "hashable (JObj kvs) = False"
| "hashable j = True"

definition elements :: "json \<Rightarrow> err + json list" where
  "elements j =
     (case j of
        JList xs \<Rightarrow> if list_all hashable xs then Inr xs else Inl PyTypeError
      | JStr s \<Rightarrow> Inr (map JStr (points s))
      | JObj kvs \<Rightarrow> Inr (map (JStr \<circ> fst) kvs)
      | _ \<Rightarrow> Inl PyTypeError)"

section \<open>Compaction\<close>

definition profile_name :: "json \<Rightarrow> string" where
  "profile_name profile = jstr (jget ''profile_id'' profile) @ ''@'' @ int_text (jint (jget ''revision'' profile))"

text \<open>
  The profile that summarises: the one given from outside, the snapshot's own choice, the profile a
  composition is under way for, or the run's profile.
\<close>

definition summary_profile :: "context_service \<Rightarrow> string option \<Rightarrow> execution_context \<Rightarrow> string option store" where
  "summary_profile x composing ctx =
     (if text_given (xs_summary x) then ret (xs_summary x)
      else
        bnd (snapshot_of ctx) (\<lambda>snapshot.
        bnd (ret (jget_or ''model_policy'' (JObj []) (jget_or ''agent_spec'' (JObj []) snapshot))) (\<lambda>choice.
        bnd (ret (jget ''summary_profile_ref'' choice)) (\<lambda>selected.
        if jtruthy selected \<and> selected \<noteq> jget ''profile_ref'' choice then ret (Some (jstr selected))
        else if text_given composing then ret composing
        else if jtruthy selected then ret (Some (jstr selected))
        else
          bnd (ret (jget_or ''model_profile'' (JObj []) snapshot)) (\<lambda>profile.
          ret (if jtruthy (jget ''profile_id'' profile) then Some (profile_name profile) else None))))))"

text \<open>What a source message shows to the summary model: no images, and an excerpt of what was moved away.\<close>

definition summary_source ::
  "context_service \<Rightarrow> execution_context \<Rightarrow> model_profile \<Rightarrow> chat_message \<Rightarrow> chat_message contextual" where
  "summary_source x ctx p message =
     bnd (attached x ctx p True message) (\<lambda>(m, refs).
     bnd (in_store (store_get ''context_offloads'' (archive_key ctx (message_ref m)))) (\<lambda>offload.
     if jtruthy (or_empty offload) \<and> cm_class m = mc_tool then
       bnd (lift (jfield ''artifact_ref'' (or_empty offload))) (\<lambda>ref.
       ret (m\<lparr>cm_content := JStr (canonical x (JObj
         [(''artifact_ref'', ref), (''excerpt'', JStr (take_points 256 (text_of x (cm_content m)))),
          (''truncated'', JBool True)]))\<rparr>))
     else ret m))"

definition summary_instruction :: string where
  "summary_instruction =
     ''Summarize archived task state as one JSON object with fields goal(string), constraints(list of exact strings), verified_facts, changes, evidence_refs, failed_approaches, open_items, next_steps (all lists of strings). Preserve every supplied hard constraint exactly. Do not invent approvals or facts.''"

definition summary_prompt ::
  "context_service \<Rightarrow> model_profile \<Rightarrow> string list \<Rightarrow> chat_message list \<Rightarrow> string" where
  "summary_prompt x p constraints messages =
     (if mp_adapter p = ad_demo then ''HARNESS_COMPACTION_FIXTURE_V1'' else summary_instruction) @ [CHR 0x0A] @
     canonical x (JObj
       [(''hard_constraints'', strings_json constraints),
        (''messages'', JList (map (cv_dump (xs_library x)) messages))])"

definition summary_answer :: "context_service \<Rightarrow> chat_message \<Rightarrow> err + json" where
  "summary_answer x answer =
     (case cm_content answer of
        JStr s \<Rightarrow> (case cl_loads (mg_library (xs_gateway x)) s of
            None \<Rightarrow> Inl (HErr ''invalid_summary'' 409) | Some found \<Rightarrow> Inr found)
      | _ \<Rightarrow> Inl (HErr ''invalid_summary'' 409))"

text \<open>The fields of a summary and who wrote them: an engine given from outside, or the summary model.\<close>

definition written_summary ::
  "context_service \<Rightarrow> string option \<Rightarrow> execution_context \<Rightarrow> chat_message list \<Rightarrow> string list \<Rightarrow>
   (json \<times> string) contextual" where
  "written_summary x composing ctx messages constraints =
     (case xs_engine x of
        Some engine \<Rightarrow>
          bnd (engine ctx messages constraints) (\<lambda>fields.
          ret (fields, if text_given (xs_summary x) then the (xs_summary x) else ''injected-summary-engine''))
      | None \<Rightarrow>
          bnd (in_store (summary_profile x composing ctx)) (\<lambda>chosen.
          andthen (raise_if (\<not> text_given chosen) (HErr ''summary_unavailable'' 409))
          (bnd (on_gateway (\<lambda>gs. resolve_model (xs_gateway x) gs (By_ref (the chosen)) (Execution ctx))) (\<lambda>h0.
           bnd (ret (h0\<lparr>mh_binding := JObj [(''purpose'', JStr ''context_summary'')]\<rparr>)) (\<lambda>h.
           bnd (collect messages (summary_source x ctx (mh_profile h))) (\<lambda>shown.
           bnd (ret (summary_prompt x (mh_profile h) constraints shown)) (\<lambda>prompt.
           bnd (in_store (policy_of x ctx)) (\<lambda>policy.
           bnd (lift (input_budget (mh_profile h) policy)) (\<lambda>budget.
           bnd (lift (estimate x [(''messages'', JStr prompt)] (mh_profile h))) (\<lambda>size.
           andthen (raise_if (bv_input budget < tk_total size) (HErr ''summary_context_limit'' 409))
           (bnd (in_store (handle_invoke (xs_gateway x) h [plain_message mc_human prompt ''''])) (\<lambda>answer.
            bnd (lift (summary_answer x answer)) (\<lambda>fields.
            ret (fields, profile_ref (mh_profile h)))))))))))))))"

definition given_fields :: "string list" where
  "given_fields =
     [''covered_message_refs'', ''parent_summary_refs'', ''source_manifest_hash'', ''content_hash'',
      ''model_profile_ref'']"

text \<open>
  The checks on what was written: every constraint is kept word for word, and only sources are cited.
  The class is then built from the fields, from what the service knows, and from the defaults of the
  fields that are still missing; of two entries with one key the first counts.
\<close>

definition check_summary ::
  "string list \<Rightarrow> string list \<Rightarrow> chat_message list \<Rightarrow> json \<Rightarrow> err + unit" where
  "check_summary constraints refs messages draft =
     (if \<not> is_object draft then Inl PyAttributeError else
      sum_bind (elements (jget_or ''constraints'' (JList []) draft)) (\<lambda>kept_constraints.
      if \<not> JStr ` set constraints \<subseteq> set kept_constraints then Inl (HErr ''summary_lost_constraint'' 409) else
      sum_bind (sum_all (map (\<lambda>m. elements (jget_or ''evidence_refs'' (JList []) (cm_extra m))) messages)) (\<lambda>known.
      sum_bind (elements (jget_or ''evidence_refs'' (JList []) draft)) (\<lambda>cited.
      if \<not> set cited \<subseteq> JStr ` set refs \<union> set (concat known) then Inl (HErr ''summary_invalid_evidence'' 409)
      else Inr ()))))"

definition build_summary ::
  "context_service \<Rightarrow> json \<Rightarrow> string list \<Rightarrow> string list \<Rightarrow> string \<Rightarrow> string \<Rightarrow> compaction_summary store" where
  "build_summary x draft refs parents source profile =
     andthen (raise_if (set (jkeys draft) \<inter> set given_fields \<noteq> {}) PyTypeError)
     (bnd new_id (\<lambda>identity.
      bnd utc_now (\<lambda>now.
      lift (summary_validate (JObj (jentries draft @
        [(''covered_message_refs'', strings_json refs), (''parent_summary_refs'', strings_json parents),
         (''source_manifest_hash'', JStr source), (''content_hash'', JStr (context_hash x draft)),
         (''model_profile_ref'', JStr profile)] @
        [(''summary_id'', JStr identity), (''created_at'', JStr (cv_time (xs_library x) now))]))))))"

record source_revision =
  sr_input :: int
  sr_context :: int
  sr_pin :: int

text \<open>The new pointer is written only when neither the pins nor the pointer have moved since.\<close>

definition activate_summary :: "execution_context \<Rightarrow> source_revision \<Rightarrow> json \<Rightarrow> unit store" where
  "activate_summary ctx source next_pointer =
     transaction
       (bnd (store_get ''context_pins'' (c_branch ctx)) (\<lambda>latest.
        andthen (raise_if (jint (jget_or ''revision'' (JInt 0) (or_empty latest)) \<noteq> sr_pin source)
          (HErr ''context_revision_conflict'' 409))
        (bnd (compare_and_set ''context_pointer'' (c_thread ctx) (Some (sr_context source)) next_pointer)
          (\<lambda>_. ret ()))))"

definition compact_body ::
  "context_service \<Rightarrow> string option \<Rightarrow> execution_context \<Rightarrow> source_revision \<Rightarrow> string list \<Rightarrow> string list \<Rightarrow>
   string contextual" where
  "compact_body x composing ctx source candidates hard =
     bnd (in_store (context_pointer ctx)) (\<lambda>pointer.
     bnd (in_store (context_pins ctx)) (\<lambda>pins.
     andthen (raise_if (jint (jget ''revision'' pins) \<noteq> sr_pin source) (HErr ''context_revision_conflict'' 409))
     (andthen (raise_if (jint (jget ''revision'' pointer) \<noteq> sr_context source \<or>
         jint (jget ''input_revision'' pointer) \<noteq> sr_input source) (HErr ''context_revision_conflict'' 409))
     (bnd (in_store (pointer_summary pointer)) (\<lambda>previous.
      bnd (ret (case previous of None \<Rightarrow> candidates | Some s \<Rightarrow> dedupe (sm_covered s @ candidates))) (\<lambda>refs.
      bnd (in_store (read_archive x ctx refs)) (\<lambda>messages.
      bnd (lift (validate_history messages False)) (\<lambda>_.
      andthen (raise_if (messages = []) (HErr ''empty_compaction'' 422))
      (bnd (ret (dedupe ((case previous of None \<Rightarrow> [] | Some s \<Rightarrow> sm_constraints s) @ hard @ pin_texts pins)))
        (\<lambda>constraints.
      bnd (ret (context_hash x (JList (map (cv_dump (xs_library x)) messages)))) (\<lambda>source_hash.
      bnd (written_summary x composing ctx messages constraints) (\<lambda>(draft, profile).
      bnd (lift (check_summary constraints refs messages draft)) (\<lambda>_.
      bnd (in_store (build_summary x draft refs
        (if jtruthy (jget ''summary_ref'' pointer) then [jstr (jget ''summary_ref'' pointer)] else [])
        source_hash profile)) (\<lambda>summary.
      andthen (in_store (store_put ''context_summaries'' (sm_id summary) (summary_json summary)))
      (andthen (in_store (activate_summary ctx source (JObj
         [(''revision'', JInt (jint (jget ''revision'' pointer) + 1)), (''input_revision'', JInt (sr_input source)),
          (''summary_ref'', JStr (sm_id summary))])))
      (ret (sm_id summary)))))))))))))))))"

definition listen :: "context_service \<Rightarrow> string \<Rightarrow> json \<Rightarrow> unit contextual" where
  "listen x kind payload = (case xs_sink x of None \<Rightarrow> ret () | Some f \<Rightarrow> f kind payload)"

definition compact ::
  "context_service \<Rightarrow> string option \<Rightarrow> execution_context \<Rightarrow> source_revision \<Rightarrow> string list \<Rightarrow> string list \<Rightarrow>
   string contextual" where
  "compact x composing ctx source candidates hard =
     bnd (ret (JObj [(''run_id'', JStr (c_run ctx)), (''trace_id'', JStr (c_trace ctx)),
       (''source_count'', JInt (int (length candidates)))])) (\<lambda>event.
     andthen (listen x ''context.compaction_started'' event)
     (bnd (catch_all (compact_body x composing ctx source candidates hard) (\<lambda>e.
        andthen (listen x ''context.compaction_failed'' (jset ''code'' (JStr (error_code e)) event))
        (raise e))) (\<lambda>result.
      andthen (listen x ''context.compacted'' (jset ''input_revision'' (JInt (c_input_revision ctx))
        (jset ''summary_id'' (JStr result) event)))
      (ret result))))"

end
