(* ===== verification/Context_Steps.thy ===== *)
theory Context_Steps
  imports Context_Service Selection_Steps "HOL-Library.Sublist"
begin

text \<open>
  What compaction promises: a summary is recorded and made active only on the state it was made from, it
  keeps every constraint and every pinned text, and what the summaries before it covered stays covered.
\<close>

section \<open>Results\<close>

lemma in_store_Inr: "in_store m s = (Inr y, t) \<longleftrightarrow> m (fst s) = (Inr y, fst t) \<and> snd t = snd s"
  by (cases t) (auto simp: in_store_def split: prod.splits)

lemma on_gateway_Inr:
  "on_gateway f s = (Inr y, t) \<longleftrightarrow>
     (\<exists>g. f (cx_gateway (snd s)) (fst s) = (Inr (y, g), fst t) \<and> snd t = (snd s)\<lparr>cx_gateway := g\<rparr>)"
  by (cases t) (auto simp: on_gateway_def split: prod.splits sum.splits)

lemma record_revision_upsert:
  "record_revision (upsert_record (new_record ns k n x) w) ns' k' =
     (if ns' = ns \<and> k' = k then n else record_revision w ns' k')"
  by (simp add: record_revision_def record_at_upsert)

lemma cas_stored:
  assumes "compare_and_set ns k e x w = (Inr y, u)"
  shows "record_revision w ns k = (case e of None \<Rightarrow> 0 | Some n \<Rightarrow> n)"
    and "record_value u ns' k' = (if ns' = ns \<and> k' = k then Some x else record_value w ns' k')"
    and "record_revision u ns' k' =
      (if ns' = ns \<and> k' = k then (case e of None \<Rightarrow> 0 | Some n \<Rightarrow> n) + 1 else record_revision w ns' k')"
proof -
  have "record_revision w ns k = (case e of None \<Rightarrow> 0 | Some n \<Rightarrow> n) \<and>
    record_value u ns' k' = (if ns' = ns \<and> k' = k then Some x else record_value w ns' k') \<and>
    record_revision u ns' k' =
      (if ns' = ns \<and> k' = k then (case e of None \<Rightarrow> 0 | Some n \<Rightarrow> n) + 1 else record_revision w ns' k')"
  proof (cases "w_active w")
    case True
    with assms show ?thesis
      by (auto simp: compare_and_set_def Let_def new_record_def [symmetric] insert_version_def bnd_def andthen_def
          whenever_def raise_if_def record_value_upsert record_revision_upsert split: if_splits)
  next
    case False
    with assms show ?thesis
      by (auto simp: compare_and_set_eval Let_def record_value_written record_revision_written split: if_splits)
  qed
  then show "record_revision w ns k = (case e of None \<Rightarrow> 0 | Some n \<Rightarrow> n)"
    and "record_value u ns' k' = (if ns' = ns \<and> k' = k then Some x else record_value w ns' k')"
    and "record_revision u ns' k' =
      (if ns' = ns \<and> k' = k then (case e of None \<Rightarrow> 0 | Some n \<Rightarrow> n) + 1 else record_revision w ns' k')"
    by blast+
qed

lemma put_stored:
  assumes "store_put ns k x w = (Inr y, u)"
  shows "record_value u ns' k' = (if ns' = ns \<and> k' = k then Some x else record_value w ns' k')"
proof (cases "w_active w")
  case True
  with assms obtain r' where "compare_and_set ns k (Some (record_revision w ns k)) x w = (Inr r', u)"
    by (auto simp: store_put_def bnd_def andthen_def split: prod.splits sum.splits)
  then show ?thesis by (rule cas_stored(2))
next
  case False
  with assms show ?thesis by (auto simp: store_put_eval Let_def record_value_written split: if_splits)
qed

section \<open>Summaries\<close>

text \<open>A summary printed as JSON reads back as itself.\<close>

lemma summary_json_validate: "summary_validate (summary_json s) = Inr s"
proof -
  have keys: "known_keys summary_fields (summary_json s)"
    by (simp add: known_keys_def summary_json_def summary_fields_def)
  have got: "jget ''summary_id'' (summary_json s) = JStr (sm_id s)"
    "jget_or ''revision'' d (summary_json s) = JInt (sm_revision s)"
    "jget ''covered_message_refs'' (summary_json s) = strings_json (sm_covered s)"
    "jget_or ''parent_summary_refs'' d (summary_json s) = strings_json (sm_parents s)"
    "jget ''goal'' (summary_json s) = JStr (sm_goal s)"
    "jget ''constraints'' (summary_json s) = strings_json (sm_constraints s)"
    "jget_or ''verified_facts'' d (summary_json s) = strings_json (sm_facts s)"
    "jget_or ''changes'' d (summary_json s) = strings_json (sm_changes s)"
    "jget_or ''evidence_refs'' d (summary_json s) = strings_json (sm_evidence s)"
    "jget_or ''failed_approaches'' d (summary_json s) = strings_json (sm_failed s)"
    "jget_or ''open_items'' d (summary_json s) = strings_json (sm_open s)"
    "jget_or ''next_steps'' d (summary_json s) = strings_json (sm_next s)"
    "jget ''source_manifest_hash'' (summary_json s) = JStr (sm_manifest s)"
    "jget ''content_hash'' (summary_json s) = JStr (sm_hash s)"
    "jget ''model_profile_ref'' (summary_json s) = JStr (sm_profile s)"
    "jget ''created_at'' (summary_json s) = JStr (sm_created s)" for d
    by (simp_all add: jget_def jget_or_def summary_json_def)
  show ?thesis
    unfolding summary_validate_def got using keys by (simp add: valid_string_def valid_int_def)
qed

lemma valid_strings_Inr: "valid_strings j = Inr xs \<longleftrightarrow> j = strings_json xs"
proof
  have all: "sum_all (map valid_string js) = Inr xs \<Longrightarrow> js = map JStr xs" for js and xs :: "string list"
  proof (induction js arbitrary: xs)
    case (Cons j js)
    then obtain y ys where "valid_string j = Inr y" "sum_all (map valid_string js) = Inr ys" "xs = y # ys"
      by (auto simp: sum_bind_Inr_iff)
    moreover from this(1) have "j = JStr y" by (simp add: valid_string_def split: json.splits)
    ultimately show ?case using Cons.IH by simp
  qed simp
  assume "valid_strings j = Inr xs"
  with all show "j = strings_json xs" by (auto simp: valid_strings_def strings_json_def split: json.splits)
qed simp

lemma elements_strings: "elements (strings_json xs) = Inr (map JStr xs)"
  by (simp add: elements_def strings_json_def list_all_iff)

lemma jget_front:
  "map_of kvs k \<noteq> None \<Longrightarrow> jget k (JObj (kvs @ rest)) = jget k (JObj kvs)"
  "map_of kvs k = None \<Longrightarrow> jget k (JObj (kvs @ rest)) = jget k (JObj rest)"
  "map_of kvs k \<noteq> None \<Longrightarrow> jget_or k d (JObj (kvs @ rest)) = jget_or k d (JObj kvs)"
  "map_of kvs k = None \<Longrightarrow> jget_or k d (JObj (kvs @ rest)) = jget_or k d (JObj rest)"
  by (auto simp: jget_def jget_or_def map_add_def split: option.splits)

text \<open>What is built keeps every constraint, covers the sources and cites nothing else.\<close>

lemma built_summary:
  assumes built: "build_summary x d refs parents src prof w = (Inr s, w')"
    and checked: "check_summary constraints refs messages d = Inr ()"
  shows "set constraints \<subseteq> set (sm_constraints s)" and "sm_covered s = refs" and "sm_parents s = parents"
    and "\<And>known. sum_all (map (\<lambda>m. elements (jget_or ''evidence_refs'' (JList []) (cm_extra m))) messages) = Inr known \<Longrightarrow>
      JStr ` set (sm_evidence s) \<subseteq> JStr ` set refs \<union> set (concat known)"
    and "t_records w' = t_records w"
proof -
  from checked obtain kvs where d: "d = JObj kvs"
    by (cases d) (auto simp: check_summary_def)
  let ?more = "\<lambda>i c. [(''covered_message_refs'', strings_json refs), (''parent_summary_refs'', strings_json parents),
         (''source_manifest_hash'', JStr src), (''content_hash'', JStr (context_hash x d)),
         (''model_profile_ref'', JStr prof), (''summary_id'', JStr i), (''created_at'', JStr c)]"
  from built d obtain i c where given: "set (map fst kvs) \<inter> set given_fields = {}"
    and valid: "summary_validate (JObj (kvs @ ?more i c)) = Inr s" and same: "t_records w' = t_records w"
    by (auto simp: build_summary_def act_iffs lift_iffs new_id_def utc_now_def)
  from same show "t_records w' = t_records w" .
  let ?j = "JObj (kvs @ ?more i c)"
  from valid have got: "jget ''covered_message_refs'' ?j = strings_json (sm_covered s)"
    "jget_or ''parent_summary_refs'' (JList []) ?j = strings_json (sm_parents s)"
    "jget ''constraints'' ?j = strings_json (sm_constraints s)"
    "jget_or ''evidence_refs'' (JList []) ?j = strings_json (sm_evidence s)"
    by (auto simp: summary_validate_def sum_bind_Inr_iff valid_strings_Inr split: if_splits)
  have absent: "map_of kvs ''covered_message_refs'' = None" "map_of kvs ''parent_summary_refs'' = None"
    using given by (auto simp: given_fields_def map_of_eq_None_iff)
  have inj: "strings_json a = strings_json b \<longleftrightarrow> a = b" for a b
    by (auto simp: strings_json_def inj_def map_injective)
  from got(1,2) absent show "sm_covered s = refs" "sm_parents s = parents"
    by (simp_all add: jget_front inj) (simp_all add: jget_def jget_or_def inj)
  have here: "map_of kvs ''constraints'' \<noteq> None"
  proof
    assume "map_of kvs ''constraints'' = None"
    with got(3) show False by (simp add: jget_front) (simp add: jget_def strings_json_def)
  qed
  with got(3) have cs: "jget_or ''constraints'' (JList []) d = strings_json (sm_constraints s)"
    by (simp add: d jget_front) (auto simp: jget_def jget_or_def split: option.splits)
  have es: "jget_or ''evidence_refs'' (JList []) d = strings_json (sm_evidence s)"
  proof (cases "map_of kvs ''evidence_refs'' = None")
    case True
    with got(4) show ?thesis by (simp add: d jget_front) (simp add: jget_or_def)
  next
    case False
    with got(4) show ?thesis by (simp add: d jget_front)
  qed
  from checked cs show "set constraints \<subseteq> set (sm_constraints s)"
    by (auto simp: check_summary_def elements_strings split: if_splits)
  show "JStr ` set (sm_evidence s) \<subseteq> JStr ` set refs \<union> set (concat known)"
    if "sum_all (map (\<lambda>m. elements (jget_or ''evidence_refs'' (JList []) (cm_extra m))) messages) = Inr known" for known
    using checked that es by (auto simp: check_summary_def sum_bind_Inr_iff elements_strings split: if_splits)
qed

section \<open>Compaction\<close>

text \<open>The summary that is active on a thread, and the pins of a branch.\<close>

definition active_summary :: "world \<Rightarrow> string \<Rightarrow> compaction_summary option" where
  "active_summary w thread =
     (case record_value w ''context_pointer'' thread of
        None \<Rightarrow> None
      | Some p \<Rightarrow>
          if \<not> jtruthy (jget ''summary_ref'' p) then None
          else
            (case record_value w ''context_summaries'' (jstr (jget ''summary_ref'' p)) of
               None \<Rightarrow> None
             | Some j \<Rightarrow> (case summary_validate j of Inl e \<Rightarrow> None | Inr s \<Rightarrow> Some s)))"

definition pins_at :: "world \<Rightarrow> string \<Rightarrow> json" where
  "pins_at w branch =
     (if jtruthy (or_empty (record_value w ''context_pins'' branch)) then or_empty (record_value w ''context_pins'' branch)
      else JObj [(''revision'', JInt 0), (''items'', JList [])])"

abbreviation quiet_listener :: "context_service \<Rightarrow> bool" where
  "quiet_listener x \<equiv> \<forall>kind payload. keeps (\<lambda>s t. t_records (fst t) = t_records (fst s)) (listen x kind payload)"

lemma records_values:
  "t_records u = t_records w \<Longrightarrow> record_value u ns k = record_value w ns k"
  "t_records u = t_records w \<Longrightarrow> record_revision u ns k = record_revision w ns k"
  by (simp_all add: record_value_def record_revision_def record_at_def)

lemma context_pins_Inr: "context_pins ctx w = (Inr p, u) \<longleftrightarrow> p = pins_at w (c_branch ctx) \<and> u = w"
  by (auto simp: context_pins_def store_get_def pins_at_def)

text \<open>Reading the pointer may bring it up to the input revision; nothing else changes.\<close>

lemma context_pointer_Inr:
  assumes "context_pointer ctx w = (Inr p, u)"
  shows "record_value u ns k =
      (if ns = ''context_pointer'' \<and> k = c_thread ctx then Some p else record_value w ns k)"
    and "jget ''summary_ref'' p =
      (case record_value w ''context_pointer'' (c_thread ctx) of None \<Rightarrow> JNull | Some q \<Rightarrow> jget ''summary_ref'' q)"
    and "jint (jget ''input_revision'' p) = c_input_revision ctx"
proof -
  let ?bring = "\<lambda>current. andthen (raise_if (c_input_revision ctx < jint (jget ''input_revision'' current))
       (HErr ''stale_context_input'' 409))
     (if jint (jget ''input_revision'' current) < c_input_revision ctx then
        bnd (ret (jset ''revision'' (JInt (jint (jget ''revision'' current) + 1))
          (jset ''input_revision'' (JInt (c_input_revision ctx)) current))) (\<lambda>updated.
        bnd (compare_and_set ''context_pointer'' (c_thread ctx) (Some (jint (jget ''revision'' current))) updated)
          (\<lambda>_. ret updated))
      else ret current)"
  have bring: "(\<forall>ns k. record_value u ns k =
      (if ns = ''context_pointer'' \<and> k = c_thread ctx then Some p else record_value v ns k)) \<and>
    jget ''summary_ref'' p = jget ''summary_ref'' q \<and> jint (jget ''input_revision'' p) = c_input_revision ctx"
    if "?bring q v = (Inr p, u)" and "record_value v ''context_pointer'' (c_thread ctx) = Some q" for q v
    using that by (auto simp: act_iffs cas_stored(2) split: if_splits)
  have "(\<forall>ns k. record_value u ns k =
      (if ns = ''context_pointer'' \<and> k = c_thread ctx then Some p else record_value w ns k)) \<and>
    jget ''summary_ref'' p =
      (case record_value w ''context_pointer'' (c_thread ctx) of None \<Rightarrow> JNull | Some q \<Rightarrow> jget ''summary_ref'' q) \<and>
    jint (jget ''input_revision'' p) = c_input_revision ctx"
  proof (cases "record_value w ''context_pointer'' (c_thread ctx)")
    case None
    with assms obtain q v where cas: "compare_and_set ''context_pointer'' (c_thread ctx) None
        (fresh_pointer (c_input_revision ctx)) w = (Inr q, v)"
      and rest: "?bring (fresh_pointer (c_input_revision ctx)) v = (Inr p, u)"
      by (auto simp: context_pointer_def store_get_def act_iffs cas_stored(2))
    have "jget ''summary_ref'' (fresh_pointer (c_input_revision ctx)) = JNull"
      by (simp add: fresh_pointer_def jget_def)
    with bring [OF rest] None cas_stored(2) [OF cas] show ?thesis by auto
  next
    case (Some q)
    with assms have rest: "?bring q w = (Inr p, u)" by (auto simp: context_pointer_def store_get_def act_iffs)
    from bring [OF this Some] Some show ?thesis by auto
  qed
  then show "record_value u ns k =
      (if ns = ''context_pointer'' \<and> k = c_thread ctx then Some p else record_value w ns k)"
    and "jget ''summary_ref'' p =
      (case record_value w ''context_pointer'' (c_thread ctx) of None \<Rightarrow> JNull | Some q \<Rightarrow> jget ''summary_ref'' q)"
    and "jint (jget ''input_revision'' p) = c_input_revision ctx"
    by blast+
qed

lemma pointer_summary_Inr:
  assumes "pointer_summary p w = (Inr s, u)"
  shows "u = w" and "s = (if jtruthy (jget ''summary_ref'' p)
      then (case record_value w ''context_summaries'' (jstr (jget ''summary_ref'' p)) of
          None \<Rightarrow> None | Some j \<Rightarrow> (case summary_validate j of Inl e \<Rightarrow> None | Inr s \<Rightarrow> Some s))
      else None)"
  using assms by (auto simp: pointer_summary_def saved_summary_def store_get_def act_iffs lift_iffs
      split: if_splits option.splits)

text \<open>The pointer that is read leads to the summary that was active.\<close>

lemma pointer_active:
  assumes "context_pointer ctx w = (Inr p, u)" and "pointer_summary p u = (Inr s, v)"
  shows "s = active_summary w (c_thread ctx)"
  using pointer_summary_Inr(2) [OF assms(2)] context_pointer_Inr(1,2) [OF assms(1)]
  by (auto simp: active_summary_def split: option.splits)

lemma activated:
  assumes "activate_summary ctx source next_pointer w = (Inr y, u)"
  shows "record_value u ns k =
      (if ns = ''context_pointer'' \<and> k = c_thread ctx then Some next_pointer else record_value w ns k)"
    and "record_revision u ''context_pointer'' (c_thread ctx) = sr_context source + 1"
    and "jint (jget ''revision'' (pins_at u (c_branch ctx))) = sr_pin source"
proof -
  let ?body = "bnd (store_get ''context_pins'' (c_branch ctx)) (\<lambda>latest.
        andthen (raise_if (jint (jget_or ''revision'' (JInt 0) (or_empty latest)) \<noteq> sr_pin source)
          (HErr ''context_revision_conflict'' 409))
        (bnd (compare_and_set ''context_pointer'' (c_thread ctx) (Some (sr_context source)) next_pointer)
          (\<lambda>_. ret ())))"
  have read: "jint (jget ''revision'' (pins_at v b)) = jint (jget_or ''revision'' (JInt 0) (or_empty (record_value v ''context_pins'' b)))"
    for v b by (auto simp: pins_at_def jget_def jget_or_def or_empty_def split: option.splits)
  have body: "record_value u ns k =
      (if ns = ''context_pointer'' \<and> k = c_thread ctx then Some next_pointer else record_value w ns k) \<and>
    record_revision u ''context_pointer'' (c_thread ctx) = sr_context source + 1 \<and>
    jint (jget ''revision'' (pins_at u (c_branch ctx))) = sr_pin source"
    if "?body w = (Inr y, u)" for w u
    using that by (auto simp: act_iffs store_get_def cas_stored(2,3) read)
  obtain v where v: "?body (w\<lparr>w_active := True\<rparr>) = (Inr y, v)" "t_records u = t_records v" if "\<not> w_active w"
    using assms by (auto simp: activate_summary_def transaction_def split: prod.splits sum.splits if_splits)
  show "record_value u ns k =
      (if ns = ''context_pointer'' \<and> k = c_thread ctx then Some next_pointer else record_value w ns k)"
    and "record_revision u ''context_pointer'' (c_thread ctx) = sr_context source + 1"
    and "jint (jget ''revision'' (pins_at u (c_branch ctx))) = sr_pin source"
    using assms body [of w u] body [OF v(1)] records_values [OF v(2)]
    by (cases "w_active w"; auto simp: activate_summary_def pins_at_def)+
qed

lemma read_archive_same: "read_archive x ctx refs w = (r, v) \<Longrightarrow> v = w"
proof -
  have "keeps (same_view (\<lambda>w. w)) (archived_message x ctx ref)" for ref
    by (rule triI) (auto simp: archived_message_def store_get_def same_view_def bnd_def andthen_def raise_if_def lift_def
        split: sum.splits if_splits)
  then have "keeps (same_view (\<lambda>w. w)) (read_archive x ctx refs)"
    unfolding read_archive_def by (rule view.keeps_collect)
  then show "read_archive x ctx refs w = (r, v) \<Longrightarrow> v = w"
    by (auto simp: same_view_def dest: triD(1))
qed

lemma set_dedupe [simp]: "set (dedupe xs) = set xs"
  by (simp add: dedupe_def)

text \<open>
  What a finished compaction did: it read the pointer and the pins of the source, wrote the summary and
  activated it.
\<close>

lemma compact_body_Inr:
  assumes "compact_body x composing ctx source candidates hard s = (Inr i, t)"
  shows "\<exists>pointer u messages summary.
    context_pointer ctx (fst s) = (Inr pointer, u) \<and>
    jint (jget ''revision'' pointer) = sr_context source \<and> jint (jget ''input_revision'' pointer) = sr_input source \<and>
    jint (jget ''revision'' (pins_at (fst s) (c_branch ctx))) = sr_pin source \<and>
    sm_covered summary = (case active_summary (fst s) (c_thread ctx) of
        None \<Rightarrow> candidates | Some p \<Rightarrow> dedupe (sm_covered p @ candidates)) \<and>
    read_archive x ctx (sm_covered summary) u = (Inr messages, u) \<and> paired {} messages \<and> messages \<noteq> [] \<and>
    set ((case active_summary (fst s) (c_thread ctx) of None \<Rightarrow> [] | Some p \<Rightarrow> sm_constraints p) @ hard @
      pin_texts (pins_at (fst s) (c_branch ctx))) \<subseteq> set (sm_constraints summary) \<and>
    sm_id summary = i \<and> record_value (fst t) ''context_summaries'' i = Some (summary_json summary) \<and>
    record_value (fst t) ''context_pointer'' (c_thread ctx) = Some (JObj
      [(''revision'', JInt (sr_context source + 1)), (''input_revision'', JInt (sr_input source)), (''summary_ref'', JStr i)]) \<and>
    record_revision (fst t) ''context_pointer'' (c_thread ctx) = sr_context source + 1 \<and>
    jint (jget ''revision'' (pins_at (fst t) (c_branch ctx))) = sr_pin source"
proof -
  from assms obtain pointer u previous v messages v1 pending draft profile v2 h summary v3 v4 v5 where
    pointer: "context_pointer ctx (fst s) = (Inr pointer, u)"
    and pins: "jint (jget ''revision'' (pins_at u (c_branch ctx))) = sr_pin source"
    and source: "jint (jget ''revision'' pointer) = sr_context source" "jint (jget ''input_revision'' pointer) = sr_input source"
    and previous: "pointer_summary pointer u = (Inr previous, v)"
    and archive: "read_archive x ctx (case previous of None \<Rightarrow> candidates | Some p \<Rightarrow> dedupe (sm_covered p @ candidates)) v =
      (Inr messages, v1)"
    and history: "validate_history messages False = Inr pending" "messages \<noteq> []"
    and checked: "check_summary (dedupe ((case previous of None \<Rightarrow> [] | Some p \<Rightarrow> sm_constraints p) @ hard @
        pin_texts (pins_at u (c_branch ctx))))
      (case previous of None \<Rightarrow> candidates | Some p \<Rightarrow> dedupe (sm_covered p @ candidates)) messages draft = Inr ()"
    and built: "build_summary x draft (case previous of None \<Rightarrow> candidates | Some p \<Rightarrow> dedupe (sm_covered p @ candidates))
      (if jtruthy (jget ''summary_ref'' pointer) then [jstr (jget ''summary_ref'' pointer)] else [])
      (context_hash x (JList (map (cv_dump (xs_library x)) messages))) profile v2 = (Inr summary, v3)"
    and put: "store_put ''context_summaries'' (sm_id summary) (summary_json summary) v3 = (Inr (), v4)"
    and active: "activate_summary ctx source (JObj
      [(''revision'', JInt (sr_context source + 1)), (''input_revision'', JInt (sr_input source)),
       (''summary_ref'', JStr (sm_id summary))]) v4 = (Inr (), v5)"
    and i: "i = sm_id summary" and t: "t = (v5, h)"
    by (auto simp: compact_body_def act_iffs in_store_Inr lift_iffs context_pins_Inr)
  from context_pointer_Inr(1) [OF pointer] have pins_same: "pins_at u b = pins_at (fst s) b" for b
    by (simp add: pins_at_def)
  from pointer_active [OF pointer previous] pointer_summary_Inr(1) [OF previous] read_archive_same [OF archive]
  have prev: "previous = active_summary (fst s) (c_thread ctx)" and same: "v = u" "v1 = u" by simp_all
  note b = built_summary [OF built checked]
  have kept_summary: "record_value v5 ''context_summaries'' i = Some (summary_json summary)"
    using activated(1) [OF active] put_stored [OF put] by (simp add: i)
  from validated_paired [OF history(1)] have "paired {} messages" .
  with pointer source pins pins_same b(1,2) prev archive same history(2) kept_summary activated [OF active] show ?thesis
    by (intro exI [of _ pointer] exI [of _ u] exI [of _ messages] exI [of _ summary]) (simp add: t i)
qed

lemma compact_Inr:
  assumes "compact x composing ctx source candidates hard s = (Inr i, t)" and "quiet_listener x"
  shows "\<exists>s1 t1. compact_body x composing ctx source candidates hard s1 = (Inr i, t1) \<and>
    t_records (fst s1) = t_records (fst s) \<and> t_records (fst t) = t_records (fst t1)"
proof -
  from assms(1) obtain e s1 t1 where first: "listen x ''context.compaction_started'' e s = (Inr (), s1)"
    and body: "catch_all (compact_body x composing ctx source candidates hard) (\<lambda>e'.
        andthen (listen x ''context.compaction_failed'' (jset ''code'' (JStr (error_code e')) e)) (raise e')) s1 = (Inr i, t1)"
    and final: "listen x ''context.compacted'' (jset ''input_revision'' (JInt (c_input_revision ctx))
        (jset ''summary_id'' (JStr i) e)) t1 = (Inr (), t)"
    by (auto simp: compact_def act_iffs)
  from body have "compact_body x composing ctx source candidates hard s1 = (Inr i, t1)"
    by (auto simp: catch_all_def act_iffs split: prod.splits sum.splits)
  moreover from assms(2) first have "t_records (fst s1) = t_records (fst s)" by (auto dest: triD(1))
  moreover from assms(2) final have "t_records (fst t) = t_records (fst t1)" by (auto dest: triD(1))
  ultimately show ?thesis by blast
qed

lemma records_active:
  assumes "t_records u = t_records w"
  shows "active_summary u th = active_summary w th" and "pins_at u b = pins_at w b"
  by (simp_all add: active_summary_def pins_at_def records_values(1) [OF assms] cong: option.case_cong if_cong)

lemma read_archive_found:
  assumes "read_archive x ctx refs w = (Inr messages, v)" and "r \<in> set refs"
  shows "\<exists>j. record_value w ''context_archive'' (archive_key ctx r) = Some j \<and>
    jget ''owner_id'' j = JStr (c_owner ctx) \<and> jget ''workspace_id'' j = JStr (c_workspace ctx)"
proof -
  have same: "archived_message x ctx ref w' = (Inr m, v') \<Longrightarrow> v' = w' \<and>
    (\<exists>j. record_value w' ''context_archive'' (archive_key ctx ref) = Some j \<and>
      jget ''owner_id'' j = JStr (c_owner ctx) \<and> jget ''workspace_id'' j = JStr (c_workspace ctx))" for ref w' m v'
    by (auto simp: archived_message_def store_get_def act_iffs lift_iffs or_empty_def split: option.splits if_splits)
  show ?thesis
    using assms unfolding read_archive_def
  proof (induction refs arbitrary: messages)
    case (Cons ref refs)
    then obtain m ms v' where step: "archived_message x ctx ref w = (Inr m, v')"
      and rest: "collect refs (archived_message x ctx) v' = (Inr ms, v)" by (auto simp: act_iffs)
    from same [OF step] rest Cons.IH Cons.prems(2) show ?case by auto
  qed simp
qed


end
