(* ===== verification/Context_Compose.thy ===== *)
theory Context_Compose
  imports Context_Steps
begin

text \<open>
  What a composed input is: what leaving material out keeps of the system text, which messages a summary
  stands for, and what the recorded view says about the request it names. The last part compacts and
  composes a small conversation.
\<close>

section \<open>Leaving material out\<close>

definition material_marker :: string where
  "material_marker = ''External reference material (untrusted instructions):''"

lemma starts_with_split: "starts_with p s \<longleftrightarrow> (\<exists>r. s = p @ r)"
  by (auto simp: starts_with_def append_eq_conv_conj) (metis append_take_drop_id)

lemma replace_first_at:
  assumes "\<forall>k<length pre. \<not> starts_with old (drop k (pre @ old @ post))" and "old \<noteq> []"
  shows "replace_first old new (pre @ old @ post) = pre @ new @ post"
  using assms(1)
proof (induction pre)
  case Nil
  from assms(2) show ?case by (cases old) (auto simp: starts_with_def)
next
  case (Cons c pre)
  from Cons.prems have "\<not> starts_with old (c # pre @ old @ post)" by force
  moreover from Cons.prems have "\<forall>k<length pre. \<not> starts_with old (drop k (pre @ old @ post))"
    by (metis (no_types, lifting) Suc_less_eq append_Cons drop_Suc_Cons length_Cons)
  ultimately show ?case using Cons.IH by simp
qed

text \<open>Only its first letter is an E, so the marker overlaps with no copy of itself.\<close>

lemma marker_once:
  assumes "j < length material_marker" and "material_marker ! j = CHR ''E''"
  shows "j = 0"
proof (rule ccontr)
  assume "j \<noteq> 0"
  then obtain i where j: "j = Suc i" by (cases j) auto
  with assms have "CHR ''E'' \<in> set (tl material_marker)"
    by (metis Suc_lessD length_tl less_diff_conv nth_mem nth_tl One_nat_def add.commute plus_1_eq_Suc)
  then show False by (simp add: material_marker_def)
qed

lemma marker_elsewhere:
  assumes none: "\<not> sublist material_marker pre" and k: "k < length pre"
  shows "\<not> starts_with (material_marker @ body) (drop k (pre @ (material_marker @ body) @ post))"
proof
  assume "starts_with (material_marker @ body) (drop k (pre @ (material_marker @ body) @ post))"
  then obtain r where eq: "drop k (pre @ (material_marker @ body) @ post) = material_marker @ body @ r"
    by (auto simp: starts_with_split)
  show False
  proof (cases "k + length material_marker \<le> length pre")
    case True
    from eq have "take (length material_marker) (drop k (pre @ (material_marker @ body) @ post)) = material_marker"
      by simp
    with True have "take (length material_marker) (drop k pre) = material_marker" by simp
    then have "pre = take k pre @ material_marker @ drop (length material_marker) (drop k pre)"
      by (metis append_take_drop_id)
    then have "sublist material_marker pre" by (auto simp: sublist_def)
    with none show False by contradiction
  next
    case False
    let ?j = "length pre - k"
    have j: "?j < length material_marker" "0 < ?j" using False k by auto
    have "hd material_marker = CHR ''E''" "material_marker \<noteq> []" by (simp_all add: material_marker_def)
    then have first: "material_marker ! 0 = CHR ''E''" by (simp add: hd_conv_nth)
    have "(drop k (pre @ (material_marker @ body) @ post)) ! ?j = material_marker ! 0"
      using k \<open>material_marker \<noteq> []\<close> by (simp add: nth_append)
    with first have "(material_marker @ body @ r) ! ?j = CHR ''E''" unfolding eq by simp
    then have "material_marker ! ?j = CHR ''E''" using j(1) by (simp only: nth_append if_True)
    with marker_once [OF j(1)] j(2) show False by simp
  qed
qed

lemma marker_before_newlines:
  assumes none: "\<not> sublist material_marker required" and newlines: "set sep \<subseteq> {CHR 0x0A}"
  shows "\<not> sublist material_marker (required @ sep)"
proof
  assume "sublist material_marker (required @ sep)"
  then obtain a b where eq: "required @ sep = a @ material_marker @ b" by (auto simp: sublist_def)
  have marker: "CHR 0x0A \<notin> set material_marker" "material_marker \<noteq> []" by (simp_all add: material_marker_def)
  show False
  proof (cases "length (a @ material_marker) \<le> length required")
    case True
    from eq have "required = take (length required) (a @ material_marker @ b)"
      by (metis append_eq_conv_conj)
    with True have "required = a @ material_marker @ take (length required - length (a @ material_marker)) b" by simp
    with none show False by (metis sublist_appendI)
  next
    case False
    let ?n = "length a + (length material_marker - 1)"
    have "(a @ material_marker @ b) ! ?n = last material_marker"
      using marker(2) by (simp add: nth_append last_conv_nth)
    moreover have n: "\<not> ?n < length required" "?n < length (required @ sep)"
      using False marker(2) arg_cong [OF eq, of length] by (auto simp: Suc_le_eq)
    ultimately have "last material_marker = sep ! (?n - length required)"
      using eq by (metis nth_append)
    moreover have "sep ! (?n - length required) \<in> set sep" using n by (intro nth_mem) auto
    ultimately have "last material_marker = CHR 0x0A" using newlines by auto
    with marker show False by (metis last_in_set)
  qed
qed

lemma trimmed_Inr:
  assumes "trimmed x p budget tools working ms (pre @ material_block x (rev ms) @ post) est0 = Inr (fitted, est)"
    and "estimate x (request_of x p budget tools (pre @ material_block x (rev ms) @ post) working) p = Inr est0"
    and "\<not> sublist material_marker pre"
  shows "\<exists>more. fitted = pre @ more @ post" "estimate x (request_of x p budget tools fitted working) p = Inr est"
proof -
  have "(\<exists>more. fitted = pre @ more @ post) \<and> estimate x (request_of x p budget tools fitted working) p = Inr est"
    using assms(1,2)
  proof (induction ms arbitrary: est0)
    case Nil
    then show ?case by (auto simp: material_block_def)
  next
    case (Cons m ms)
    show ?case
    proof (cases "tk_total est0 \<le> bv_input budget")
      case True
      with Cons.prems show ?thesis by auto
    next
      case False
      have block: "material_block x (rev (m # ms)) = material_marker @ [CHR 0x0A] @ canonical x (JList (rev (m # ms)))"
        by (simp add: material_block_def material_head_def material_marker_def)
      have replaced: "replace_first (material_block x (rev (m # ms))) (material_block x (rev ms))
          (pre @ material_block x (rev (m # ms)) @ post) = pre @ material_block x (rev ms) @ post"
      proof (rule replace_first_at)
        show "\<forall>k<length pre. \<not> starts_with (material_block x (rev (m # ms)))
            (drop k (pre @ material_block x (rev (m # ms)) @ post))"
          unfolding block using marker_elsewhere [OF assms(3)] by blast
        show "material_block x (rev (m # ms)) \<noteq> []" unfolding block by (simp add: material_marker_def)
      qed
      with False Cons.prems(1) obtain est1 where
        step: "estimate x (request_of x p budget tools (pre @ material_block x (rev ms) @ post) working) p = Inr est1"
        and rest: "trimmed x p budget tools working ms (pre @ material_block x (rev ms) @ post) est1 = Inr (fitted, est)"
        by (auto simp: Let_def sum_bind_Inr_iff)
      from Cons.IH [OF rest step] show ?thesis .
    qed
  qed
  then show "\<exists>more. fitted = pre @ more @ post" "estimate x (request_of x p budget tools fitted working) p = Inr est"
    by blast+
qed

text \<open>Whatever is replaced, the size is that of the request that is kept.\<close>

lemma trimmed_size:
  assumes "trimmed x p budget tools working ms system est0 = Inr (fitted, est)"
    and "estimate x (request_of x p budget tools system working) p = Inr est0"
  shows "estimate x (request_of x p budget tools fitted working) p = Inr est"
  using assms
proof (induction ms arbitrary: system est0)
  case (Cons m ms)
  then show ?case by (auto simp: Let_def sum_bind_Inr_iff split: if_splits)
qed simp

section \<open>Composed inputs\<close>

lemma attached_ref: "attached x ctx p b m s = (Inr (m', refs), t) \<Longrightarrow> message_ref m' = message_ref m"
  by (auto simp: attached_def message_ref_def act_iffs split: message_class.splits json.splits)

lemma offloaded_ref: "offloaded x ctx policy m s = (Inr (m', refs), t) \<Longrightarrow> message_ref m' = message_ref m"
  by (auto simp: offloaded_def message_ref_def act_iffs split: message_class.splits json.splits if_splits)

lemma prepared_refs:
  "collect messages (prepared_message x ctx p policy) s = (Inr got, t) \<Longrightarrow>
   map message_ref (map fst got) = map message_ref messages"
proof (induction messages arbitrary: s got)
  case (Cons m messages)
  then obtain g gs u where step: "prepared_message x ctx p policy m s = (Inr g, u)"
    and rest: "collect messages (prepared_message x ctx p policy) u = (Inr gs, t)" and got: "got = g # gs"
    by (auto simp: act_iffs)
  from step have "message_ref (fst g) = message_ref m"
    by (auto simp: prepared_message_def act_iffs dest!: attached_ref offloaded_ref)
  with Cons.IH [OF rest] got show ?case by simp
qed simp

lemma joined_append:
  "joined_with sep (ps @ qs) = joined_with sep ps @ (if ps = [] \<or> qs = [] then [] else sep) @ joined_with sep qs"
proof (induction ps rule: induct_list012)
  case (2 p)
  then show ?case by (cases qs) simp_all
qed simp_all

lemma sublist_after: "sublist p q \<Longrightarrow> sublist p (a @ q)"
  unfolding sublist_def by (metis append.assoc)

lemma sublist_joined: "p \<in> set ps \<Longrightarrow> sublist p (joined_with sep ps)"
proof (induction ps rule: induct_list012)
  case (3 q r ps)
  then consider "p = q" | "sublist p (joined_with sep (r # ps))" by auto
  then show ?case
  proof cases
    case 2
    then have "sublist p ((q @ sep) @ joined_with sep (r # ps))" by (rule sublist_after)
    then show ?thesis by simp
  qed simp
qed simp_all

text \<open>The text that is always sent, and the whole system text, which continues it.\<close>

definition required_text :: "context_service \<Rightarrow> compose_input \<Rightarrow> string list \<Rightarrow> memory_record list \<Rightarrow> string" where
  "required_text x ci constraints found =
     system_text (ci_prompt ci) (context_sections x constraints found (ci_skills ci) [])"

definition material_sep :: "string \<Rightarrow> string" where
  "material_sep required = (if required = [] then [] else [CHR 0x0A, CHR 0x0A])"

lemma joined_nonempty: "\<forall>p\<in>set ps. p \<noteq> [] \<Longrightarrow> joined_with sep ps = [] \<longleftrightarrow> ps = []"
  by (induction ps rule: induct_list012) auto

lemma system_text_split:
  "system_text (ci_prompt ci) (context_sections x constraints found (ci_skills ci) (ci_materials ci)) =
     required_text x ci constraints found @
     (if ci_materials ci = [] then []
      else material_sep (required_text x ci constraints found) @ material_block x (ci_materials ci))"
proof (cases "ci_materials ci = []")
  case True
  then show ?thesis by (simp add: required_text_def)
next
  case False
  have block: "material_block x (ci_materials ci) \<noteq> []"
    using False by (simp add: material_block_def material_head_def)
  have sections: "context_sections x constraints found (ci_skills ci) (ci_materials ci) =
      context_sections x constraints found (ci_skills ci) [] @ [material_block x (ci_materials ci)]"
    using False by (simp add: context_sections_def)
  define ps where "ps = filter (\<lambda>p. p \<noteq> '''') (ci_prompt ci # context_sections x constraints found (ci_skills ci) [])"
  have split: "filter (\<lambda>p. p \<noteq> '''') (ci_prompt ci # context_sections x constraints found (ci_skills ci) (ci_materials ci)) =
      ps @ [material_block x (ci_materials ci)]"
    using block by (simp add: sections ps_def)
  have "joined_with [CHR 0x0A, CHR 0x0A] ps = [] \<longleftrightarrow> ps = []" by (rule joined_nonempty) (simp add: ps_def)
  then show ?thesis
    using False unfolding required_text_def system_text_def split ps_def [symmetric]
    by (simp add: joined_append material_sep_def)
qed

lemma required_constraints: "c \<in> set constraints \<Longrightarrow> sublist c (required_text x ci constraints found)"
proof -
  assume c: "c \<in> set constraints"
  let ?part = "constraints_head @ joined_with [CHR 0x0A] constraints"
  from c have "sublist c ?part" by (intro sublist_after sublist_joined)
  moreover have "?part \<in> set (filter (\<lambda>p. p \<noteq> '''') (ci_prompt ci # context_sections x constraints found (ci_skills ci) []))"
    using c by (auto simp: context_sections_def constraints_head_def)
  then have "sublist ?part (required_text x ci constraints found)"
    unfolding required_text_def system_text_def by (rule sublist_joined)
  ultimately show "sublist c (required_text x ci constraints found)" by (rule sublist_order.order.trans)
qed

text \<open>The finished view.\<close>

lemma finish_view_Inr:
  assumes "finish_view x ctx ci p budget pins refs (working, system, summaries) pointer est0 s = (Inr v, t)"
    and "estimate x (request_of x p budget (ci_tools ci) system working) p = Inr est0"
  shows "\<exists>fitted est. (est = est0 \<and> fitted = system \<or>
      trimmed x p budget (ci_tools ci) working (rev (ci_materials ci)) system est0 = Inr (fitted, est)) \<and>
    estimate x (request_of x p budget (ci_tools ci) fitted working) p = Inr est \<and> tk_total est \<le> bv_input budget \<and>
    paired {} working \<and> vw_messages v = map message_ref working \<and> vw_summaries v = summaries \<and> vw_profile v = profile_ref p \<and>
    vw_hash v = context_hash x (JObj (request_of x p budget (ci_tools ci) fitted working)) \<and>
    vw_source v = \<lparr>sr_input = c_input_revision ctx, sr_context = jint (jget ''revision'' pointer),
      sr_pin = jint (jget ''revision'' pins)\<rparr> \<and>
    record_value (fst t) ''context_views'' (vw_id v) = Some (JObj
      [(''run_id'', JStr (c_run ctx)), (''owner_id'', JStr (c_owner ctx)), (''workspace_id'', JStr (c_workspace ctx)),
       (''request'', JObj (request_of x p budget (ci_tools ci) fitted working)), (''view'', view_json v)]) \<and>
    (\<forall>ns k. ns \<noteq> ''context_views'' \<longrightarrow> record_value (fst t) ns k = record_value (fst s) ns k)"
proof -
  from assms(1) obtain fitted est w1 pending where
    chosen: "(if bv_input budget < tk_total est0
          then trimmed x p budget (ci_tools ci) working (rev (ci_materials ci)) system est0
          else Inr (system, est0)) = Inr (fitted, est)"
    and fits: "tk_total est \<le> bv_input budget" and history: "validate_history working False = Inr pending"
    and view: "vw_messages v = map message_ref working" "vw_summaries v = summaries" "vw_profile v = profile_ref p"
      "vw_hash v = context_hash x (JObj (request_of x p budget (ci_tools ci) fitted working))"
      "vw_source v = \<lparr>sr_input = c_input_revision ctx, sr_context = jint (jget ''revision'' pointer),
        sr_pin = jint (jget ''revision'' pins)\<rparr>"
    and put: "store_put ''context_views'' (vw_id v) (JObj
      [(''run_id'', JStr (c_run ctx)), (''owner_id'', JStr (c_owner ctx)), (''workspace_id'', JStr (c_workspace ctx)),
       (''request'', JObj (request_of x p budget (ci_tools ci) fitted working)), (''view'', view_json v)]) w1 = (Inr (), fst t)"
    and same: "t_records w1 = t_records (fst s)"
    by (auto simp: finish_view_def act_iffs lift_iffs in_store_Inr new_id_def split: if_splits)
  have size: "estimate x (request_of x p budget (ci_tools ci) fitted working) p = Inr est"
    using chosen assms(2) trimmed_size by (auto split: if_splits)
  from chosen have "est = est0 \<and> fitted = system \<or>
      trimmed x p budget (ci_tools ci) working (rev (ci_materials ci)) system est0 = Inr (fitted, est)"
    by (auto split: if_splits)
  with size fits validated_paired [OF history] view put_stored [OF put] records_values(1) [OF same] show ?thesis
    by (intro exI [of _ fitted] exI [of _ est]) simp
qed

section \<open>Preparing leaves the context records alone\<close>

context history
begin

lemma keeps_bnd_need: "(\<And>y. x = Some y \<Longrightarrow> keeps R (f y)) \<Longrightarrow> keeps R (bnd (need e x) f)"
  by (cases x) (auto simp: bnd_def tri_def refl_history)

end

definition quiet_files :: "context_service \<Rightarrow> bool" where
  "quiet_files x \<longleftrightarrow>
     (\<forall>f ctx b m p. xs_writer x = Some f \<longrightarrow> keeps (\<lambda>s t. t_records (fst t) = t_records (fst s)) (f ctx b m p)) \<and>
     (\<forall>f ctx ref n. xs_reader x = Some f \<longrightarrow> keeps (\<lambda>s t. t_records (fst t) = t_records (fst s)) (f ctx ref n))"

definition offloads_only :: "world \<times> context_memory \<Rightarrow> world \<times> context_memory \<Rightarrow> bool" where
  "offloads_only s t \<longleftrightarrow>
     (\<forall>ns k. ns \<noteq> ''context_offloads'' \<longrightarrow> record_value (fst t) ns k = record_value (fst s) ns k)"

interpretation offloads: history offloads_only
  by unfold_locales (auto simp: offloads_only_def)

lemma offloads_records: "keeps (\<lambda>s t. t_records (fst t) = t_records (fst s)) m \<Longrightarrow> keeps offloads_only m"
  by (erule tri_mono) (auto simp: offloads_only_def intro: records_values(1))

lemma offloads_reads: "reads_only m \<Longrightarrow> keeps offloads_only (in_store m)"
  by (rule triI) (auto simp: in_store_def offloads_only_def same_view_def split: prod.splits dest: triD(1))

lemma policy_of_reads: "reads_only (policy_of x ctx)"
  unfolding policy_of_def snapshot_of_def store_get_def by (intro view.keeps_rules)

lemma attached_offloads:
  assumes "quiet_files x"
  shows "keeps offloads_only (attached x ctx p b m)"
proof -
  have reader: "keeps offloads_only (f c r n)" if "xs_reader x = Some f" for f c r n
    using assms that by (intro offloads_records) (auto simp: quiet_files_def)
  have image: "keeps offloads_only (image_attachment x ctx p b ref f)" if "xs_reader x = Some f" for ref f
    unfolding image_attachment_def by (intro offloads.keeps_rules reader [OF that])
  have excerpt: "keeps offloads_only (file_attachment x ctx ref f)" if "xs_reader x = Some f" for ref f
    unfolding file_attachment_def by (intro offloads.keeps_case_option offloads.keeps_rules reader [OF that] offloads_reads policy_of_reads)
  have part: "keeps offloads_only (attachment_part x ctx p b part)" for part
    unfolding attachment_part_def
    by (intro offloads.keeps_case_option offloads.keeps_ret offloads.keeps_bnd_need offloads.keeps_andthen
        offloads.keeps_bnd [OF offloads.keeps_lift] offloads.keeps_bnd [OF offloads.keeps_if]
        offloads.keeps_raise_if offloads.keeps_if offloads.keeps_raise image excerpt)
  show ?thesis
    unfolding attached_def
    by (cases "cm_class m"; cases "cm_content m")
      (simp_all, auto intro!: offloads.keeps_rules part)
qed

lemma offloaded_offloads:
  assumes "quiet_files x"
  shows "keeps offloads_only (offloaded x ctx policy m)"
proof -
  have put: "keeps offloads_only (in_store (store_put ''context_offloads'' k v))" for k v
    by (rule triI) (auto simp: in_store_def offloads_only_def split: prod.splits dest!: store_put_values)
  have get: "keeps offloads_only (in_store (store_get ns k))" for ns k
    by (rule offloads_reads) (simp add: store_get_def view.keeps_gets)
  have writer: "keeps offloads_only (f ctx content mime name)" if "xs_writer x = Some f" for f content mime name
    using assms that by (intro offloads_records) (auto simp: quiet_files_def)
  have "keeps offloads_only (if int (length content) \<le> cp_offload policy then ret (m, []) else
       bnd (need (HErr ''offload_unavailable'' 409) (xs_writer x)) (\<lambda>writer.
       bnd (in_store (store_get ''context_offloads'' (archive_key ctx (message_ref m)))) (\<lambda>prior.
       bnd (if jtruthy (or_empty prior)
            then lift (sum_bind (jfield ''artifact_ref'' (or_empty prior)) artifact_validate)
            else writer ctx content ''text/plain; charset=utf-8'' (''tool-output:'' @ message_ref m)) (\<lambda>ref.
       andthen (whenever (\<not> jtruthy (or_empty prior))
         (in_store (store_put ''context_offloads'' (archive_key ctx (message_ref m))
           (JObj [(''artifact_ref'', artifact_json ref)]))))
       (ret (m\<lparr>cm_content := JStr (canonical x (excerpt_json ref (take_points 256 content) True))\<rparr>, [ref]))))))" for content
    by (rule offloads.keeps_if [OF offloads.keeps_ret], rule offloads.keeps_bnd_need)
      (frule writer, intro offloads.keeps_rules put get, assumption)
  then show ?thesis
    unfolding offloaded_def
    by (cases "cm_class m"; cases "cm_content m") (simp_all add: offloads.keeps_ret)
qed

lemma prepared_offloads:
  "quiet_files x \<Longrightarrow> keeps offloads_only (collect messages (prepared_message x ctx p policy))"
  unfolding prepared_message_def
  by (intro offloads.keeps_collect offloads.keeps_bnd offloads.keeps_case_prod offloads.keeps_ret attached_offloads
      offloaded_offloads)

lemma offloads_active:
  "offloads_only s t \<Longrightarrow> active_summary (fst t) th = active_summary (fst s) th"
  by (simp add: offloads_only_def active_summary_def cong: option.case_cong if_cong)

lemma accepted_pages_reads: "reads_only (accepted_pages n who ws cursor)"
proof (induction n arbitrary: cursor)
  case 0
  show ?case unfolding accepted_pages.simps by (rule view.keeps_raise)
next
  case (Suc n)
  have "reads_only (memory_list who ws filters cursor many)" for filters cursor many
    unfolding memory_list_def access_check_def store_workspace_def store_list_def store_get_def by (intro view.keeps_rules)
  with Suc show ?case unfolding accepted_pages.simps by (intro view.keeps_rules)
qed

lemma recalled_reads: "reads_only (recalled x ctx messages)"
  unfolding recalled_def memory_retrieve_def utc_now_def by (intro view.keeps_rules accepted_pages_reads)

lemma reads_in_store: "reads_only m \<Longrightarrow> in_store m s = (Inr y, t) \<Longrightarrow> t = s"
  by (cases s; cases t) (auto simp: in_store_Inr same_view_def dest: triD(1))

text \<open>A compaction within a composition: what is left out is covered by the summary that is shown.\<close>

lemma compacted_Inr:
  assumes "compacted x composing ctx policy pins constraints base pointer (working, system, refs) s =
      (Inr ((working', system', refs'), pointer'), t)"
    and "quiet_listener x"
  shows "(working' = working \<and> system' = system \<and> refs' = refs \<and> t = s) \<or>
    (\<exists>summary k. record_value (fst t) ''context_summaries'' k = Some (summary_json summary) \<and>
       system' = summary_note x base summary \<and> refs' = refs @ [sm_id summary] \<and>
       (\<forall>m\<in>set working. message_ref m \<in> set (map message_ref working') \<or> message_ref m \<in> set (sm_covered summary)) \<and>
       (\<forall>q. active_summary (fst s) (c_thread ctx) = Some q \<longrightarrow> set (sm_covered q) \<subseteq> set (sm_covered summary)))"
proof (cases "take (recent_boundary (cp_recent policy) working) working = []")
  case True
  with assms(1) show ?thesis by (auto simp: compacted_def act_iffs)
next
  case False
  let ?b = "recent_boundary (cp_recent policy) working"
  from False assms(1) obtain i s1 summary w1 w2 source where
    run: "compact x composing ctx source (map message_ref (take ?b working)) constraints s = (Inr i, s1)"
    and saved: "saved_summary i (fst s1) = (Inr summary, w1)"
    and point: "context_pointer ctx w1 = (Inr pointer', fst t)"
    and out: "working' = filter has_image (take ?b working) @ drop ?b working" "system' = summary_note x base summary"
      "refs' = refs @ [i]"
    by (auto simp: compacted_def act_iffs in_store_Inr)
  obtain sb tb where body: "compact_body x composing ctx source (map message_ref (take ?b working)) constraints sb = (Inr i, tb)"
    and same: "t_records (fst sb) = t_records (fst s)" "t_records (fst s1) = t_records (fst tb)"
    using compact_Inr [OF run assms(2)] by blast
  obtain summary' where b: "sm_covered summary' = (case active_summary (fst sb) (c_thread ctx) of
        None \<Rightarrow> map message_ref (take ?b working) | Some p \<Rightarrow> dedupe (sm_covered p @ map message_ref (take ?b working)))"
    "sm_id summary' = i" "record_value (fst tb) ''context_summaries'' i = Some (summary_json summary')"
    using compact_body_Inr [OF body] by blast
  have rec: "record_value (fst s1) ''context_summaries'' i = Some (summary_json summary')"
    using b(3) by (simp add: records_values [OF same(2)])
  with saved have eq: "summary = summary'" "w1 = fst s1"
    by (auto simp: saved_summary_def store_get_def act_iffs lift_iffs summary_json_validate)
  have "record_value (fst t) ''context_summaries'' i = Some (summary_json summary)"
    using context_pointer_Inr(1) [OF point] rec eq by simp
  moreover have "set (map message_ref (take ?b working)) \<subseteq> set (sm_covered summary)"
    "active_summary (fst s) (c_thread ctx) = Some q \<Longrightarrow> set (sm_covered q) \<subseteq> set (sm_covered summary)" for q
    using b(1) eq(1) by (auto simp: records_active [OF same(1)] split: option.splits)
  moreover have "\<forall>m\<in>set working. message_ref m \<in> set (map message_ref working') \<or> m \<in> set (take ?b working)"
    using set_append [of "take ?b working" "drop ?b working"] out(1) by auto
  ultimately show ?thesis using out b(2) eq(1)
    by (intro disjI2 exI [of _ summary] exI [of _ i]) (auto simp: image_subset_iff)
qed

lemma archived_same:
  assumes "archive_messages x ctx messages w = (Inr archived, u)"
  shows "list_all2 (\<lambda>m h. h = m\<lparr>cm_id := cm_id h\<rparr> \<and> (text_given (cm_id m) \<longrightarrow> h = m)) messages archived"
  using assms unfolding archive_messages_def
proof (induction messages arbitrary: w archived)
  case (Cons m messages)
  then obtain h hs v where step: "archive_message x ctx m w = (Inr h, v)"
    and rest: "collect messages (archive_message x ctx) v = (Inr hs, u)" and archived: "archived = h # hs"
    by (auto simp: act_iffs)
  from step have "h = m\<lparr>cm_id := cm_id h\<rparr> \<and> (text_given (cm_id m) \<longrightarrow> h = m)"
    by (auto simp: archive_message_def with_id_def act_iffs split: if_splits)
  with Cons.IH [OF rest] archived show ?case by simp
qed simp

text \<open>Actions that write records of some namespaces only.\<close>

definition touches :: "string set \<Rightarrow> world \<Rightarrow> world \<Rightarrow> bool" where
  "touches N w u \<longleftrightarrow> (\<forall>ns k. ns \<notin> N \<longrightarrow> record_value u ns k = record_value w ns k)"

interpretation touches: db_history "touches N" for N
  by unfold_locales (auto simp: touches_def record_value_def record_at_def)

lemma touches_writes:
  "ns \<in> N \<Longrightarrow> keeps (touches N) (store_put ns k v)" "ns \<in> N \<Longrightarrow> keeps (touches N) (compare_and_set ns k e v)"
  by (rule triI, auto simp: touches_def dest!: store_put_values compare_and_set_values)+

lemma touches_reads: "reads_only m \<Longrightarrow> keeps (touches N) m"
  by (erule tri_mono) (auto simp: touches_def same_view_def)

lemma get_profile_reads: "reads_only (get_profile gw gs arg)"
  unfolding get_profile_def store_get_def
  by (cases arg; simp only: profile_arg.case; intro view.keeps_rules)

lemma summary_profile_reads: "reads_only (summary_profile x composing ctx)"
  unfolding summary_profile_def snapshot_of_def store_get_def by (intro view.keeps_rules)

lemma archive_touches: "keeps (touches {''context_archive''}) (archive_messages x ctx messages)"
proof -
  have get: "keeps (touches {''context_archive''}) (store_get ns k)" for ns k
    unfolding store_get_def by (rule touches.keeps_gets)
  show ?thesis
    unfolding archive_messages_def archive_message_def with_id_def
    by (intro touches.keeps_db touches.keeps_rules get touches_writes) simp_all
qed

lemma summarised_draft:
  assumes "summarised x base archived working previous = (working', system, refs)"
    and "map message_ref working = map message_ref archived"
  shows "working' = working \<and> system = base \<and> refs = [] \<or>
    (\<exists>q. previous = Some q \<and> refs = [sm_id q] \<and> system = summary_note x base q \<and>
      (\<forall>m\<in>set archived. message_ref m \<in> set (map message_ref working') \<or> message_ref m \<in> set (sm_covered q)))"
proof (cases previous)
  case None
  with assms(1) show ?thesis by (simp add: summarised_def)
next
  case (Some q)
  have "\<forall>m\<in>set archived. \<exists>g\<in>set working. message_ref g = message_ref m"
    using assms(2) by (metis image_iff list.set_map)
  then have all: "message_ref m \<in> message_ref ` {g \<in> set working. message_ref g \<notin> set (sm_covered q) \<or> has_image g}"
    if "m \<in> set archived" "message_ref m \<notin> set (sm_covered q)" for m
    using that by (metis (mono_tags, lifting) imageI mem_Collect_eq)
  from assms(1) Some consider "working' = working" "system = base" "refs = []"
    | "working' = filter (\<lambda>m. message_ref m \<notin> set (sm_covered q) \<or> has_image m) working"
      "system = summary_note x base q" "refs = [sm_id q]"
    by (auto simp: summarised_def split: if_splits)
  then show ?thesis
  proof cases
    case 2
    with all Some show ?thesis by (intro disjI2 exI [of _ q]) auto
  qed simp
qed

lemma bndE:
  assumes "bnd m f s = (Inr y, t)"
  obtains z u where "m s = (Inr z, u)" and "f z u = (Inr y, t)"
  using assms by (auto simp: bnd_Inr_iff)

lemma pins_reads: "reads_only (context_pins ctx)"
  unfolding context_pins_def store_get_def by (intro view.keeps_rules)

lemma pointer_summary_reads: "reads_only (pointer_summary p)"
  unfolding pointer_summary_def saved_summary_def store_get_def by (intro view.keeps_rules)

text \<open>The stages of a composition, with what each of them leaves as it was.\<close>

lemma compose_stages:
  assumes run: "compose x ctx ci s = (Inr v, t)" and quiet: "quiet_files x"
  shows "\<exists>p policy budget archived found shown previous draft0 est0 draft est refs pointer pointer' s1 s2.
    input_budget p policy = Inr budget \<and>
    list_all2 (\<lambda>m h. h = m\<lparr>cm_id := cm_id h\<rparr> \<and> (text_given (cm_id m) \<longrightarrow> h = m)) (ci_messages ci) archived \<and>
    map message_ref shown = map message_ref archived \<and>
    previous = active_summary (fst s1) (c_thread ctx) \<and>
    (previous \<noteq> None \<longrightarrow> (\<exists>k j. record_value (fst s1) ''context_summaries'' k = Some j \<and> summary_validate j = Inr (the previous))) \<and>
    draft0 = summarised x (system_text (ci_prompt ci) (context_sections x (dedupe (ci_hard ci @
      pin_texts (pins_at (fst s) (c_branch ctx)))) found (ci_skills ci) (ci_materials ci))) archived shown previous \<and>
    estimate x (request_of x p budget (ci_tools ci) (fst (snd draft0)) (fst draft0)) p = Inr est0 \<and>
    (draft = draft0 \<and> est = est0 \<and> s2 = s1 \<or>
     compacted x (case ci_profile ci of By_profile p \<Rightarrow> Some (profile_ref p) | By_ref r \<Rightarrow> Some r | By_parts i n \<Rightarrow> None) ctx policy
       (pins_at (fst s) (c_branch ctx)) (dedupe (ci_hard ci @ pin_texts (pins_at (fst s) (c_branch ctx))))
       (system_text (ci_prompt ci) (context_sections x (dedupe (ci_hard ci @
         pin_texts (pins_at (fst s) (c_branch ctx)))) found (ci_skills ci) (ci_materials ci)))
       pointer draft0 s1 = (Inr (draft, pointer'), s2) \<and>
     estimate x (request_of x p budget (ci_tools ci) (fst (snd draft)) (fst draft)) p = Inr est) \<and>
    finish_view x ctx ci p budget (pins_at (fst s) (c_branch ctx)) refs draft pointer' est s2 = (Inr v, t)"
proof -
  let ?cs = "\<lambda>pins. dedupe (ci_hard ci @ pin_texts pins)"
  let ?base = "\<lambda>cs found. system_text (ci_prompt ci) (context_sections x cs found (ci_skills ci) (ci_materials ci))"
  let ?size = "\<lambda>p budget d. estimate x (request_of x p budget (ci_tools ci) (fst (snd d)) (fst d)) p"
  from run obtain composing s0 p s1 archived s2 pending s3 pointer s4 policy s5 budget s6 pins s7 cs s8 found s9 base s10
      got s11 previous s12 draft0 s13 est0 s14 chosen s15 result s16 where
    raw: "ret (case ci_profile ci of By_profile p \<Rightarrow> Some (profile_ref p) | By_ref r \<Rightarrow> Some r | By_parts i n \<Rightarrow> None) s =
        (Inr composing, s0)"
      "on_gateway (\<lambda>gs. bnd (get_profile (xs_gateway x) gs (ci_profile ci)) (\<lambda>p. ret (p, gs))) s0 = (Inr p, s1)"
      "in_store (archive_messages x ctx (ci_messages ci)) s1 = (Inr archived, s2)"
      "lift (validate_history archived False) s2 = (Inr pending, s3)"
      "in_store (context_pointer ctx) s3 = (Inr pointer, s4)"
      "in_store (policy_of x ctx) s4 = (Inr policy, s5)"
      "lift (input_budget p policy) s5 = (Inr budget, s6)"
      "in_store (context_pins ctx) s6 = (Inr pins, s7)"
      "ret (?cs pins) s7 = (Inr cs, s8)"
      "in_store (recalled x ctx archived) s8 = (Inr found, s9)"
      "ret (?base cs found) s9 = (Inr base, s10)"
      "collect archived (prepared_message x ctx p policy) s10 = (Inr got, s11)"
      "in_store (pointer_summary pointer) s11 = (Inr previous, s12)"
      "ret (summarised x base archived (map fst got) previous) s12 = (Inr draft0, s13)"
      "lift (?size p budget draft0) s13 = (Inr est0, s14)"
      "in_store (summary_profile x composing ctx) s14 = (Inr chosen, s15)"
      "(if bv_soft budget \<le> tk_total est0 \<and> (xs_engine x \<noteq> None \<or> text_given chosen)
          then
            bnd (compacted x composing ctx policy pins cs base pointer draft0) (\<lambda>(draft', pointer').
            bnd (lift (?size p budget draft')) (\<lambda>est'. ret (draft', pointer', est')))
          else ret (draft0, pointer, est0)) s15 = (Inr result, s16)"
      "(case result of (draft', pointer', est') \<Rightarrow>
          finish_view x ctx ci p budget pins (concat (map snd got)) draft' pointer' est') s16 = (Inr v, t)"
    unfolding compose_def by (elim bndE) (rule that)
  have s1: "fst s1 = fst s" "s0 = s"
    using raw(1,2) get_profile_reads [of "xs_gateway x" "cx_gateway (snd s)" "ci_profile ci"]
    by (auto simp: on_gateway_Inr act_iffs same_view_def dest!: triD(1))
  from raw(3) have archive: "archive_messages x ctx (ci_messages ci) (fst s1) = (Inr archived, fst s2)" by (simp add: in_store_Inr)
  from raw(5) have pointer: "context_pointer ctx (fst s3) = (Inr pointer, fst s4)" by (simp add: in_store_Inr)
  have same: "s3 = s2" "s5 = s4" "s6 = s5" "s7 = s6" "s8 = s7" "s9 = s8" "s10 = s9" "s12 = s11" "s13 = s12" "s14 = s13" "s15 = s14"
    "pins = pins_at (fst s6) (c_branch ctx)"
    using raw(4,7,9,11,14,15) reads_in_store [OF policy_of_reads raw(6)] reads_in_store [OF recalled_reads raw(10)]
      reads_in_store [OF summary_profile_reads raw(16)] reads_in_store [OF pins_reads raw(8)]
      reads_in_store [OF pointer_summary_reads raw(13)] raw(8)
    by (simp_all add: lift_iffs in_store_Inr context_pins_Inr)
  have pins: "pins = pins_at (fst s) (c_branch ctx)"
    using triD(1) [OF archive_touches TrueI archive] context_pointer_Inr(1) [OF pointer] same s1(1)
    by (simp add: pins_at_def touches_def)
  have kept: "offloads_only s10 s11" using triD(1) [OF prepared_offloads [OF quiet] TrueI raw(12)] .
  have previous: "pointer_summary pointer (fst s11) = (Inr previous, fst s11)"
    using raw(13) same by (simp add: in_store_Inr)
  have active: "previous = active_summary (fst s11) (c_thread ctx)"
    using pointer_summary_Inr(2) [OF previous] context_pointer_Inr(1) [OF pointer, of "''context_pointer''" "c_thread ctx"] kept same
    by (simp add: active_summary_def offloads_only_def)
  have recorded: "\<exists>k j. record_value (fst s11) ''context_summaries'' k = Some j \<and> summary_validate j = Inr (the previous)"
    if "previous \<noteq> None"
    using that pointer_summary_Inr(2) [OF previous] by (auto split: if_splits option.splits sum.splits)
  obtain draft pointer' est where result: "result = (draft, pointer', est)" by (cases result) auto
  have cs: "cs = ?cs (pins_at (fst s) (c_branch ctx))" and base: "base = ?base (?cs (pins_at (fst s) (c_branch ctx))) found"
    and draft0: "draft0 = summarised x (?base (?cs (pins_at (fst s) (c_branch ctx))) found) archived (map fst got) previous"
    and composing: "composing = (case ci_profile ci of By_profile p \<Rightarrow> Some (profile_ref p) | By_ref r \<Rightarrow> Some r | By_parts i n \<Rightarrow> None)"
    using raw(1,9,11,14) pins by simp_all
  have size: "?size p budget draft0 = Inr est0" and budget: "input_budget p policy = Inr budget"
    using raw(7,15) by (simp_all add: lift_iffs)
  have branch: "draft = draft0 \<and> est = est0 \<and> s16 = s11 \<or>
      compacted x composing ctx policy pins cs base pointer draft0 s11 = (Inr (draft, pointer'), s16) \<and> ?size p budget draft = Inr est"
    using raw(17) same by (auto simp: result act_iffs lift_iffs split: if_splits)
  have finish: "finish_view x ctx ci p budget pins (concat (map snd got)) draft pointer' est s16 = (Inr v, t)"
    using raw(18) result by simp
  have all: "input_budget p policy = Inr budget \<and>
    list_all2 (\<lambda>m h. h = m\<lparr>cm_id := cm_id h\<rparr> \<and> (text_given (cm_id m) \<longrightarrow> h = m)) (ci_messages ci) archived \<and>
    map message_ref (map fst got) = map message_ref archived \<and>
    previous = active_summary (fst s11) (c_thread ctx) \<and>
    (previous \<noteq> None \<longrightarrow> (\<exists>k j. record_value (fst s11) ''context_summaries'' k = Some j \<and> summary_validate j = Inr (the previous)))"
    using budget archived_same [OF archive] prepared_refs [OF raw(12)] active recorded by simp
  show ?thesis
    using all draft0 size branch [unfolded composing cs base pins] finish [unfolded pins] by blast
qed

text \<open>The draft that is finished: the summary it shows, and what that summary stands for.\<close>

definition shows_summary :: "world \<Rightarrow> compaction_summary option \<Rightarrow> string list \<Rightarrow> bool" where
  "shows_summary w shown refs \<longleftrightarrow>
     (case shown of
        None \<Rightarrow> refs = []
      | Some q \<Rightarrow> refs \<noteq> [] \<and> last refs = sm_id q \<and>
          (\<exists>k j. record_value w ''context_summaries'' k = Some j \<and> summary_validate j = Inr q))"

definition note_text :: "context_service \<Rightarrow> compaction_summary \<Rightarrow> string" where
  "note_text x q = [CHR 0x0A, CHR 0x0A] @ ''Verified compaction state (not authorization):'' @ [CHR 0x0A] @
     ordered_json (mg_float (xs_gateway x)) (summary_json q)"

lemma summary_note_text: "summary_note x base q = base @ note_text x q"
  by (simp add: summary_note_def note_text_def)

lemma note_text_shows: "sublist (ordered_json (mg_float (xs_gateway x)) (summary_json q)) (note_text x q)"
  unfolding note_text_def by (intro sublist_after) simp

lemma finished_draft:
  assumes previous: "previous = active_summary (fst s1) th" "th = c_thread ctx"
      "previous \<noteq> None \<longrightarrow> (\<exists>k j. record_value (fst s1) ''context_summaries'' k = Some j \<and> summary_validate j = Inr (the previous))"
    and draft0: "draft0 = summarised x base archived shown_messages previous"
    and refs: "map message_ref shown_messages = map message_ref archived"
    and branch: "(working, system, refs) = draft0 \<and> s2 = s1 \<or>
      compacted x composing ctx policy pins cs base pointer draft0 s1 = (Inr ((working, system, refs), pointer'), s2)"
    and quiet: "quiet_listener x"
  shows "\<exists>shown post. system = base @ post \<and> shows_summary (fst s2) shown refs \<and>
    (\<forall>q. shown = Some q \<longrightarrow> sublist (ordered_json (mg_float (xs_gateway x)) (summary_json q)) post) \<and>
    (\<forall>m\<in>set archived. message_ref m \<in> set (map message_ref working) \<or> (\<exists>q. shown = Some q \<and> message_ref m \<in> set (sm_covered q)))"
proof -
  obtain working0 system0 refs0 where d: "draft0 = (working0, system0, refs0)" by (cases draft0) auto
  have same: "\<forall>m\<in>set archived. \<exists>g\<in>set shown_messages. message_ref g = message_ref m"
    using refs by (metis image_iff list.set_map)
  have first: "working0 = shown_messages \<and> system0 = base \<and> refs0 = [] \<or>
    (\<exists>q. previous = Some q \<and> refs0 = [sm_id q] \<and> system0 = summary_note x base q \<and>
      (\<forall>m\<in>set archived. message_ref m \<in> set (map message_ref working0) \<or> message_ref m \<in> set (sm_covered q)))"
    using summarised_draft [OF _ refs] draft0 d by metis
  have plain: ?thesis if eq: "(working, system, refs) = draft0" "s2 = s1"
    using first
  proof
    assume "working0 = shown_messages \<and> system0 = base \<and> refs0 = []"
    with eq d have "working = shown_messages" "system = base" "refs = []" by auto
    moreover have "set (map message_ref archived) \<subseteq> set (map message_ref shown_messages)" using refs by simp
    ultimately show ?thesis
      by (intro exI [of _ None] exI [of _ "[]"]) (auto simp: shows_summary_def simp del: image_iff)
  next
    assume "\<exists>q. previous = Some q \<and> refs0 = [sm_id q] \<and> system0 = summary_note x base q \<and>
      (\<forall>m\<in>set archived. message_ref m \<in> set (map message_ref working0) \<or> message_ref m \<in> set (sm_covered q))"
    then obtain q where q: "previous = Some q" "refs0 = [sm_id q]" "system0 = summary_note x base q"
      "\<forall>m\<in>set archived. message_ref m \<in> set (map message_ref working0) \<or> message_ref m \<in> set (sm_covered q)" by blast
    with previous(3) eq d have "shows_summary (fst s2) (Some q) refs" by (auto simp: shows_summary_def)
    with q eq d show ?thesis
      by (intro exI [of _ "Some q"] exI [of _ "note_text x q"]) (auto simp: summary_note_text note_text_shows)
  qed
  from branch show ?thesis
  proof
    assume "compacted x composing ctx policy pins cs base pointer draft0 s1 = (Inr ((working, system, refs), pointer'), s2)"
    from compacted_Inr [OF this [unfolded d] quiet] show ?thesis
    proof
      assume "working = working0 \<and> system = system0 \<and> refs = refs0 \<and> s2 = s1"
      with plain d show ?thesis by simp
    next
      assume "\<exists>summary k. record_value (fst s2) ''context_summaries'' k = Some (summary_json summary) \<and>
        system = summary_note x base summary \<and> refs = refs0 @ [sm_id summary] \<and>
        (\<forall>m\<in>set working0. message_ref m \<in> set (map message_ref working) \<or> message_ref m \<in> set (sm_covered summary)) \<and>
        (\<forall>q. active_summary (fst s1) (c_thread ctx) = Some q \<longrightarrow> set (sm_covered q) \<subseteq> set (sm_covered summary))"
      then obtain summary k where s: "record_value (fst s2) ''context_summaries'' k = Some (summary_json summary)"
        "system = summary_note x base summary" "refs = refs0 @ [sm_id summary]"
        "\<forall>m\<in>set working0. message_ref m \<in> set (map message_ref working) \<or> message_ref m \<in> set (sm_covered summary)"
        "\<forall>q. active_summary (fst s1) (c_thread ctx) = Some q \<longrightarrow> set (sm_covered q) \<subseteq> set (sm_covered summary)" by blast
      have "message_ref m \<in> set (map message_ref working) \<or> message_ref m \<in> set (sm_covered summary)"
        if m: "m \<in> set archived" for m
      proof -
        have "message_ref m \<in> set (map message_ref working0) \<or> message_ref m \<in> set (sm_covered summary)"
          using first
        proof
          assume "working0 = shown_messages \<and> system0 = base \<and> refs0 = []"
          with refs m show ?thesis by (metis image_eqI list.set_map)
        next
          assume "\<exists>q. previous = Some q \<and> refs0 = [sm_id q] \<and> system0 = summary_note x base q \<and>
            (\<forall>m\<in>set archived. message_ref m \<in> set (map message_ref working0) \<or> message_ref m \<in> set (sm_covered q))"
          with m previous(1,2) s(5) show ?thesis by blast
        qed
        with s(4) show ?thesis by (auto simp: image_iff)
      qed
      moreover have "shows_summary (fst s2) (Some summary) refs"
        using s(1,3) summary_json_validate by (auto simp: shows_summary_def)
      ultimately show ?thesis using s(2)
        by (intro exI [of _ "Some summary"] exI [of _ "note_text x summary"]) (auto simp: summary_note_text note_text_shows)
    qed
  qed (use plain in simp)
qed

text \<open>What leaving material out keeps of the system text: how it begins, and what follows the material.\<close>

definition kept_text :: "context_service \<Rightarrow> compose_input \<Rightarrow> string \<Rightarrow> string \<Rightarrow> string \<Rightarrow> bool" where
  "kept_text x ci required post system \<longleftrightarrow>
     (\<exists>more. system = required @ more @ post) \<or> (sublist material_marker required \<and> ci_materials ci \<noteq> [])"

lemma trimmed_keeps:
  assumes base: "base = required @ (if ci_materials ci = [] then []
        else material_sep required @ material_block x (ci_materials ci))"
    and trimmed: "trimmed x p budget tools working (rev (ci_materials ci)) (base @ post) est0 = Inr (fitted, est)"
    and size: "estimate x (request_of x p budget tools (base @ post) working) p = Inr est0"
  shows "kept_text x ci required post fitted"
proof (cases "ci_materials ci = [] \<or> sublist material_marker required")
  case True
  then show ?thesis using base trimmed by (auto simp: kept_text_def)
next
  case False
  let ?pre = "required @ material_sep required"
  have none: "\<not> sublist material_marker ?pre"
    by (rule marker_before_newlines) (use False in \<open>auto simp: material_sep_def\<close>)
  have whole: "base @ post = ?pre @ material_block x (rev (rev (ci_materials ci))) @ post" using False base by simp
  have "\<exists>more. fitted = ?pre @ more @ post"
    by (rule trimmed_Inr(1) [OF trimmed [unfolded whole] size [unfolded whole] none])
  then show ?thesis by (auto simp: kept_text_def)
qed

lemma untrimmed_keeps:
  "base = required @ (if ci_materials ci = [] then [] else material_sep required @ material_block x (ci_materials ci)) \<Longrightarrow>
   kept_text x ci required post (base @ post)"
  by (auto simp: kept_text_def)

lemma kept_text_cases:
  assumes "kept_text x ci required post system"
  shows "(prefix required system \<and> (\<forall>q. sublist q post \<longrightarrow> sublist q system)) \<or>
    (sublist material_marker required \<and> ci_materials ci \<noteq> [])"
  using assms unfolding kept_text_def
  by (metis append.assoc prefixI sublist_after)

text \<open>The messages that a summary shown in the system text stands for.\<close>

definition summary_shown :: "world \<Rightarrow> string list \<Rightarrow> compaction_summary \<Rightarrow> bool" where
  "summary_shown w refs q \<longleftrightarrow> sm_id q \<in> set refs \<and>
     (\<exists>k j. record_value w ''context_summaries'' k = Some j \<and> summary_validate j = Inr q)"

text \<open>The input as it is drafted: the messages in hand, the system text, and what covers the messages left out.\<close>

abbreviation composed_constraints :: "world \<Rightarrow> execution_context \<Rightarrow> compose_input \<Rightarrow> string list" where
  "composed_constraints w ctx ci \<equiv> dedupe (ci_hard ci @ pin_texts (pins_at w (c_branch ctx)))"

lemma composed_draft:
  assumes run: "compose x ctx ci s = (Inr v, t)" and quiet: "quiet_listener x" "quiet_files x"
  shows "\<exists>p policy budget archived found shown post working drafted summaries est refs pointer s2.
    input_budget p policy = Inr budget \<and>
    list_all2 (\<lambda>m h. h = m\<lparr>cm_id := cm_id h\<rparr> \<and> (text_given (cm_id m) \<longrightarrow> h = m)) (ci_messages ci) archived \<and>
    drafted = system_text (ci_prompt ci) (context_sections x (composed_constraints (fst s) ctx ci) found
      (ci_skills ci) (ci_materials ci)) @ post \<and>
    shows_summary (fst s2) shown summaries \<and>
    (\<forall>q. shown = Some q \<longrightarrow> sublist (ordered_json (mg_float (xs_gateway x)) (summary_json q)) post) \<and>
    (\<forall>m\<in>set archived. message_ref m \<in> set (map message_ref working) \<or> (\<exists>q. shown = Some q \<and> message_ref m \<in> set (sm_covered q))) \<and>
    estimate x (request_of x p budget (ci_tools ci) drafted working) p = Inr est \<and>
    finish_view x ctx ci p budget (pins_at (fst s) (c_branch ctx)) refs (working, drafted, summaries) pointer est s2 = (Inr v, t)"
proof -
  let ?cs = "composed_constraints (fst s) ctx ci"
  let ?base = "\<lambda>found. system_text (ci_prompt ci) (context_sections x ?cs found (ci_skills ci) (ci_materials ci))"
  obtain p policy budget archived found shown previous draft0 est0 draft est1 refs pointer pointer' s1 s2 where
    budget: "input_budget p policy = Inr budget"
    and archived: "list_all2 (\<lambda>m h. h = m\<lparr>cm_id := cm_id h\<rparr> \<and> (text_given (cm_id m) \<longrightarrow> h = m)) (ci_messages ci) archived"
    and shown: "map message_ref shown = map message_ref archived"
    and previous: "previous = active_summary (fst s1) (c_thread ctx)"
      "previous \<noteq> None \<longrightarrow> (\<exists>k j. record_value (fst s1) ''context_summaries'' k = Some j \<and> summary_validate j = Inr (the previous))"
    and draft0: "draft0 = summarised x (?base found) archived shown previous"
    and size0: "estimate x (request_of x p budget (ci_tools ci) (fst (snd draft0)) (fst draft0)) p = Inr est0"
    and branch: "draft = draft0 \<and> est1 = est0 \<and> s2 = s1 \<or>
       compacted x (case ci_profile ci of By_profile p \<Rightarrow> Some (profile_ref p) | By_ref r \<Rightarrow> Some r | By_parts i n \<Rightarrow> None) ctx policy
         (pins_at (fst s) (c_branch ctx)) ?cs (?base found) pointer draft0 s1 = (Inr (draft, pointer'), s2) \<and>
       estimate x (request_of x p budget (ci_tools ci) (fst (snd draft)) (fst draft)) p = Inr est1"
    and finish: "finish_view x ctx ci p budget (pins_at (fst s) (c_branch ctx)) refs draft pointer' est1 s2 = (Inr v, t)"
    using compose_stages [OF run quiet(2)] by blast
  obtain working drafted summaries where draft: "draft = (working, drafted, summaries)" by (cases draft) auto
  have "(working, drafted, summaries) = draft0 \<and> s2 = s1 \<or>
      compacted x (case ci_profile ci of By_profile p \<Rightarrow> Some (profile_ref p) | By_ref r \<Rightarrow> Some r | By_parts i n \<Rightarrow> None) ctx policy
        (pins_at (fst s) (c_branch ctx)) ?cs (?base found) pointer draft0 s1 = (Inr ((working, drafted, summaries), pointer'), s2)"
    using branch draft by auto
  from finished_draft [OF previous(1) refl previous(2) draft0 shown this quiet(1)] obtain q post where
    drafted: "drafted = ?base found @ post" "shows_summary (fst s2) q summaries"
    "\<forall>a. q = Some a \<longrightarrow> sublist (ordered_json (mg_float (xs_gateway x)) (summary_json a)) post"
    "\<forall>m\<in>set archived. message_ref m \<in> set (map message_ref working) \<or> (\<exists>a. q = Some a \<and> message_ref m \<in> set (sm_covered a))"
    by (elim exE conjE) (rule that, assumption+)
  have size: "estimate x (request_of x p budget (ci_tools ci) drafted working) p = Inr est1"
    using branch draft size0 by auto
  from budget archived drafted size finish [unfolded draft] show ?thesis
    by (intro exI conjI) assumption+
qed


section \<open>From the composed view to the model\<close>

lemma view_request:
  assumes "record_value w ''context_views'' (vw_id v) = Some (JObj
      [(''run_id'', JStr (c_run ctx)), (''owner_id'', JStr (c_owner ctx)), (''workspace_id'', JStr (c_workspace ctx)),
       (''request'', JObj request), (''view'', shown)])"
    and "c_owner ctx' = c_owner ctx" "c_workspace ctx' = c_workspace ctx"
    and "jint (jget ''revision'' (pins_at w (c_branch ctx'))) = sr_pin (vw_source v)"
    and "context_hash x (JObj request) = vw_hash v"
  shows "materialize x ctx' v None (w, memory) =
    bnd (collect (map (cv_load (xs_library x)) (jitems (jget ''messages'' (JObj request)))) (hydrated x ctx')) (\<lambda>messages.
      ret \<lparr>mz_messages = messages,
           mz_system = (if jtruthy (jget ''system'' (JObj request)) then Some (jstr (jget ''system'' (JObj request))) else None),
           mz_tools = jget ''tools'' (JObj request)\<rparr>) (w, memory)"
proof -
  have pins: "in_store (context_pins ctx') (w, memory) = (Inr (pins_at w (c_branch ctx')), w, memory)"
    using context_pins_Inr [of ctx' w "pins_at w (c_branch ctx')" w] by (simp add: in_store_Inr)
  have read: "in_store (store_get ns k) (w, memory) = (Inr (record_value w ns k), w, memory)" for ns k
    by (simp add: in_store_Inr store_get_def)
  show ?thesis
    unfolding materialize_def
    using assms by (simp add: bnd_def andthen_def pins read or_empty_def jget_def jfield_def lift_def raise_if_def)
qed


section \<open>A conversation that is compacted and composed\<close>

text \<open>A message as a list of its parts, and back.\<close>

definition part_option :: "string option \<Rightarrow> json" where
  "part_option x = (case x of None \<Rightarrow> JList [] | Some s \<Rightarrow> JList [JStr s])"

fun option_part :: "json \<Rightarrow> string option" where
  "option_part (JList [JStr s]) = Some s"
| "option_part j = None"

fun class_part :: "message_class \<Rightarrow> json" where
  "class_part mc_human = JInt 0"
| "class_part mc_system = JInt 1"
| "class_part mc_assistant = JInt 2"
| "class_part mc_chunk = JInt 3"
| "class_part mc_tool = JInt 4"

definition part_class :: "json \<Rightarrow> message_class" where
  "part_class j = (if jint j = 0 then mc_human else if jint j = 1 then mc_system
     else if jint j = 2 then mc_assistant else if jint j = 3 then mc_chunk else mc_tool)"

definition call_part :: "tool_call \<Rightarrow> json" where
  "call_part c = JList [part_option (tc_id c), JStr (tc_name c), tc_args c]"

definition part_call :: "json \<Rightarrow> tool_call" where
  "part_call j = \<lparr>tc_id = option_part (jitems j ! 0), tc_name = jstr (jitems j ! 1), tc_args = jitems j ! 2\<rparr>"

definition message_parts :: "chat_message \<Rightarrow> json" where
  "message_parts m = JList
     [class_part (cm_class m), part_option (cm_id m), cm_content m, JList (map call_part (cm_calls m)),
      JBool (cm_invalid m), JStr (cm_call m), JList (map part_option (cm_raw_args m)), cm_metadata m,
      cm_usage m, cm_extra m]"

definition parts_message :: "json \<Rightarrow> chat_message" where
  "parts_message j = (let ps = jitems j in
     \<lparr>cm_class = part_class (ps ! 0), cm_id = option_part (ps ! 1), cm_content = ps ! 2,
      cm_calls = map part_call (jitems (ps ! 3)), cm_invalid = jtruthy (ps ! 4), cm_call = jstr (ps ! 5),
      cm_raw_args = map option_part (jitems (ps ! 6)), cm_metadata = ps ! 7, cm_usage = ps ! 8, cm_extra = ps ! 9\<rparr>)"

lemma option_part_part: "option_part (part_option x) = x"
  by (simp add: part_option_def split: option.split)

lemma parts_message_parts: "parts_message (message_parts m) = m"
proof -
  have "part_call (call_part c) = c" for c by (simp add: part_call_def call_part_def option_part_part)
  moreover have "part_class (class_part k) = k" for k by (cases k) (simp_all add: part_class_def)
  ultimately show ?thesis
    by (simp add: parts_message_def message_parts_def option_part_part comp_def)
qed

definition sample_context_library :: context_library where
  "sample_context_library =
     \<lparr>cv_dump = message_parts, cv_load = parts_message, cv_str = (\<lambda>j. ''{}''), cv_strip = (\<lambda>s. s), cv_time = (\<lambda>t. ''0'')\<rparr>"

definition sample_service :: context_service where
  "sample_service =
     \<lparr>xs_policy = sample_policy\<lparr>cp_output := 8, cp_soft := 1 / 100000, cp_recent := 1\<rparr>, xs_gateway = sample_model_gateway\<lparr>mg_sha := (\<lambda>s. ''h'')\<rparr>, xs_summary = None,
      xs_engine = Some (\<lambda>ctx ms cs. ret (JObj [(''goal'', JStr ''tidy''), (''constraints'', strings_json cs)])),
      xs_writer = None, xs_reader = None, xs_sink = None, xs_pages = 2,
      xs_text = \<lparr>tx_lower = (\<lambda>s. s), tx_terms = (\<lambda>s. [s])\<rparr>, xs_library = sample_context_library\<rparr>"

definition sample_talk :: "chat_message list" where
  "sample_talk = [(plain_message mc_human ''hi'' '''')\<lparr>cm_id := Some ''m1''\<rparr>,
     (plain_message mc_assistant ''hello'' '''')\<lparr>cm_id := Some ''m2''\<rparr>,
     (plain_message mc_human ''go on'' '''')\<lparr>cm_id := Some ''m3''\<rparr>]"

definition talked_state :: "world \<times> context_memory" where
  "talked_state = (snd (archive_messages sample_service sample_context sample_talk (running_world\<lparr>t_workspaces := [sample_workspace], w_seed := 1\<rparr>)),
     \<lparr>cx_disk = snd artifact_world, cx_gateway = new_gateway_state\<rparr>)"

definition sample_input :: compose_input where
  "sample_input = \<lparr>ci_messages = sample_talk, ci_profile = By_profile demo_profile, ci_tools = [], ci_prompt = ''do'',
     ci_skills = [], ci_materials = [JStr ''page''], ci_hard = [''no rm'']\<rparr>"

lemma sample_service_quiet: "quiet_listener sample_service" "quiet_files sample_service"
  by (auto simp: sample_service_def quiet_files_def listen_def intro: triI)


lemma sample_composed:
  obtains v t where "compose sample_service sample_context sample_input talked_state = (Inr v, t)"
    "vw_messages v = [''m3'']"
    "jint (jget ''revision'' (pins_at (fst t) ''branch'')) = jint (jget ''revision'' (pins_at (fst talked_state) ''branch''))"
proof -
  obtain r t where run: "compose sample_service sample_context sample_input talked_state = (r, t)" by (rule surjective_pairing [THEN that])
  have "(case compose sample_service sample_context sample_input talked_state of (r, t) \<Rightarrow>
      (map_sum id vw_messages r, jint (jget ''revision'' (pins_at (fst t) ''branch'')))) = (Inr [''m3''], 0)"
    by code_simp
  with run have "map_sum id vw_messages r = Inr [''m3'']" "jint (jget ''revision'' (pins_at (fst t) ''branch'')) = 0" by auto
  moreover have "jint (jget ''revision'' (pins_at (fst talked_state) ''branch'')) = 0" by code_simp
  ultimately show ?thesis using run that by (cases r) auto
qed



end
