(* ===== verification/Spec2Isabelle.thy ===== *)
theory Spec2Isabelle
  imports System Gateway_Watch Recovery_Steps Selection_Steps Plugin_Held Host_Models Context_Compose
begin

text \<open>
  A verification development for Mi-Harness, a host that runs language-model agents: clients submit
  runs on branches of a conversation, workers claim the runs and drive them turn by turn, the model
  calls tools through one gateway, and everything that has to survive a crash is in one SQLite
  database. All files are under \<^verbatim>\<open>src/harness/\<close>.

  \<^bold>\<open>How the parts interact.\<close> The server hands a client's request to the scheduler
  (\<^verbatim>\<open>scheduler/service.py\<close>). A worker process (\<^verbatim>\<open>scheduler/worker.py\<close>) recovers the runs of dead
  workers, expires questions, refreshes waits, claims queued runs and executes them with the runtime.
  The runtime calls models through the model gateway, under budgets and permits
  (\<^verbatim>\<open>scheduler/budget.py\<close>), and tools through the tool gateway (\<^verbatim>\<open>tools/gateway.py\<close>), which asks the
  policy engine (\<^verbatim>\<open>policy/engine.py\<close>), waits for the user's approval, consumes a single-use grant,
  runs the executor and records the outcome. All of them meet in the store (\<^verbatim>\<open>storage/store.py\<close>).

  \<^bold>\<open>How code is modelled.\<close> The database is the record \<open>world\<close>, one list of rows per table, with a
  clock, a supply of identities and the flag of the open transaction. An operation that may raise is
  an action \<open>world \<Rightarrow> (err + 'a) \<times> world\<close>; \<open>transaction\<close> gives back the first world when its body
  raises, as the driver's rollback does, and a raise outside a transaction keeps what was written.
  JSON documents are values of \<open>json\<close>, Python integers are unbounded integers, floats and budgets
  exact rationals, strings their UTF-8 bytes.

  \<^bold>\<open>The theories.\<close>
  \<^item> \<open>Prelude\<close>: errors, actions, relational triples (locale \<open>history\<close>), tables. \<open>Json\<close> and
    \<open>Contracts\<close>: \<^verbatim>\<open>core/contracts.py\<close>.
  \<^item> \<open>Store_State\<close> (tables, transactions, locale \<open>db_history\<close>), \<open>Store_Records\<close> (versioned records,
    compare-and-set), \<open>Store_Runs\<close> (runs, branches, attempts, events, fencing), \<open>Store_Ops\<close> (tool
    operations, grants, interactions), \<open>Ledger\<close> (accounts, reservations), \<open>Store_Misc\<close> (the other
    tables): \<^verbatim>\<open>storage/store.py\<close>.
  \<^item> \<open>Run_Steps\<close>: the specification of runs, an inductive step relation on run, branch and event rows;
    \<open>run_path\<close> is its closure. \<open>Run_Store\<close>: the store's operations keep to it.
  \<^item> \<open>Tools\<close>, \<open>Policy\<close>: \<^verbatim>\<open>tools/contracts.py\<close>, \<^verbatim>\<open>tools/registry.py\<close>, \<^verbatim>\<open>runtime/modes.py\<close>,
    \<^verbatim>\<open>policy/engine.py\<close>.
  \<^item> \<open>Scheduler\<close> (transition, claim, settle, wake), \<open>Scheduler_Calls\<close> (submit, respond, cancel,
    delegate, steer, branch), \<open>Recovery\<close> (recover, reconcile): \<^verbatim>\<open>scheduler/service.py\<close>;
    \<open>Scheduler_Steps\<close>: they keep to \<open>run_path\<close>; \<open>Recovery_Steps\<close>: what recovery does to operations.
  \<^item> \<open>Tool_Gateway\<close>: \<^verbatim>\<open>tools/gateway.py\<close>; \<open>Gateway_Steps\<close>, \<open>Gateway_Guards\<close>, \<open>Gateway_Watch\<close>: it keeps
    to \<open>run_path\<close>, what a passed guard implies, and the gateway run with a watching executor that
    records the world each executor was called in.
  \<^item> \<open>Model_Budget\<close>: \<^verbatim>\<open>scheduler/budget.py\<close>. \<open>Worker\<close>: \<^verbatim>\<open>scheduler/worker.py\<close>.
  \<^item> \<open>Model_Profiles\<close>, \<open>Model_Protocol\<close>, \<open>Model_Gateway\<close>, \<open>Model_Calls\<close>: \<^verbatim>\<open>model_gateway/\<close> and
    \<^verbatim>\<open>context/budget.py\<close>: profiles and their stored form, histories and responses, token estimates,
    registration and resolution, and the attempts of one call. \<open>Model_Selection\<close>:
    \<^verbatim>\<open>runtime/model_selection.py\<close>; \<open>Selection_Steps\<close>: histories of choices and bindings.
  \<^item> \<open>Artifact_Store\<close>: \<^verbatim>\<open>artifacts/\<close>, the database and the disk together. \<open>Memory\<close>:
    \<^verbatim>\<open>context/memory.py\<close>. \<open>Context_Compaction\<close> and \<open>Context_Service\<close>: \<^verbatim>\<open>context/service.py\<close>, the archive
    and its summaries, then the composed input; \<open>Context_Steps\<close>, \<open>Context_Compose\<close>: what they promise.
  \<^item> \<open>Api_Commands\<close>: the idempotent commands of \<^verbatim>\<open>server/composition.py\<close>. \<open>Host_Models\<close>:
    \<^verbatim>\<open>runtime/models.py\<close> and \<^verbatim>\<open>mcp/models.py\<close>. \<open>Plugins\<close>: \<^verbatim>\<open>plugins/\<close>; \<open>Plugin_Steps\<close>: the order of
    dependencies; \<open>Plugin_Held\<close>: histories of the registry.
  \<^item> \<open>System\<close>: all calls of clients, workers and tools as one datatype \<open>command\<close>, and histories of them.

  \<^bold>\<open>What is proved.\<close> The whole program refines the specification of runs and keeps the database sound
  under any interleaving of calls (this theory); a superseded worker is refused everywhere; the tool
  gateway calls an executor only in worlds where the call is authorised, and never again for an
  operation whose outcome is unknown; grants are consumed once; policies only narrow; budgets and
  permits are never exceeded; versioned records have linear histories; input is never dropped at the
  end of a run; recovery does not repeat effects; stored profiles, memories and artifacts read back as
  they were written; a model call takes no permit beyond its own and returns a turn only after the
  protocol's checks; a bound call keeps its model; an input command is answered once; a plugin version
  that a run uses stays; a composed model input fits its budget and loses no constraint and no message
  without a summary.

  \<^bold>\<open>Fuel.\<close> \<open>claim_more\<close> takes one unit for each run it claims, so one more than the worker's slots is
  enough; \<open>turns\<close> one for each time input arrives just before the run would end, which the code does
  not bound either; \<open>descendants\<close> one for each delegation row it walks. A loop without enough fuel
  raises \<open>Diverges\<close>, which no handler catches, and theorems about results hold for every fuel.
  \<open>reserve_loop\<close> is given what happens to the world during each of its sleeps. \<open>attempt_loop\<close> counts
  the attempts of a model call; \<open>accepted_pages\<close> takes one unit per page of a hundred memories; the visit
  of plugin dependencies one per manifest and one more, \<open>include_version\<close> two more than there are records.

  \<^bold>\<open>Parameters and hypotheses.\<close> Code of third parties and of the host is an argument: executors,
  resource fingerprints, schema validation, file locks, process liveness, the digest function, message
  classes and stream chunks (\<open>chat_library\<close>, \<open>context_library\<close>), the text of floats, image decoding, the
  model clients (\<open>provider_model\<close>), the disk (\<open>artifact_host\<close>), plugin code (\<open>plugin_host\<close>). The
  hypotheses on them (\<open>quiet_hooks\<close>, \<open>quiet_gateway\<close>, \<open>quiet_services\<close>, \<open>quiet_environment\<close>,
  \<open>host_reads\<close>) say that such code reaches runs, branches and events only through the operations of
  the program, or only reads the database; each has an instance in a witness.

  \<^bold>\<open>Not modelled.\<close> HTTP routing and most of the composition (\<^verbatim>\<open>server/\<close>), process supervision and
  credentials (\<^verbatim>\<open>platform/\<close>), the clients of model providers, the built-in tools and MCP transports, whose
  work is file, process and network I/O, skill files, and the graph of the runtime engine, which a
  third-party library interprets. Waiting on asyncio primitives is left out: an action runs to its end,
  and interleaving is that of transactions and calls.

  \<^bold>\<open>Findings.\<close> \<open>Store_Records.put_after_delete_fails\<close>: a record deleted and put again collides with
  its first version, so that a disposed plugin version cannot be loaded again.
  \<open>Recovery_Steps.recovery_blocked\<close>: recovery looks up the tool of every running operation, and one
  whose tool is not registered in this process stops the recovery of all runs.
  \<open>Model_Protocol.turn_and_history\<close>: a response may reuse a call's identity of an earlier turn, which
  makes every later history invalid. \<open>Context_Compose.composed_input\<close>: leaving out material replaces the
  first occurrence of its text, which may lie in the required text.
\<close>

section \<open>Properties of the whole program\<close>

text \<open>
  C1: whatever clients, workers and tools do, every change they make to a run, a branch or the event
  log is a step of the specification of runs (\<open>run_path\<close>), and a sound database stays sound, the empty
  one to begin with: a run that has been started and has not ended owns its branch, every run's
  events are numbered 1, 2, ... without gaps, and run identities are unique.
\<close>

theorem always_sound:
  assumes "quiet_environment E" and "sound w" and "v = perform_all E cs w"
  shows "run_path w v \<and> sound v \<and> sound (empty_world uuid now)"
  using perform_all_sound [OF assms(1,2)] assms(3) empty_sound by simp

text \<open>
  C4: the life of a run. Over any history of calls a run's row stays; its identity, branch, parent,
  root, owner and depth never change; its status moves only along the table of allowed transitions;
  a completed, failed or cancelled run keeps its status for ever; revision and fencing token never
  go back; and a cancellation, once requested, is never withdrawn.
\<close>

theorem run_lifecycle:
  assumes "quiet_environment E" and "sound w" and "run_at w i = Some r"
  shows "\<exists>r'. run_at (perform_all E cs w) i = Some r' \<and>
    r_branch r' = r_branch r \<and> r_parent r' = r_parent r \<and> r_root r' = r_root r \<and>
    r_owner r' = r_owner r \<and> r_depth r' = r_depth r \<and>
    allowed\<^sup>*\<^sup>* (r_status r) (r_status r') \<and>
    (terminal (r_status r) \<longrightarrow> r_status r' = r_status r) \<and>
    r_revision r \<le> r_revision r' \<and> r_fence r \<le> r_fence r' \<and> (r_cancel r \<longrightarrow> r_cancel r')"
proof -
  from perform_all_sound [OF assms(1,2)] have "run_path w (perform_all E cs w)" by blast
  from path_progress [OF this assms(3)] terminal_stays show ?thesis
    by (fastforce simp: row_progress_def)
qed

text \<open>
  C2: one run at a time per branch. In a sound world two runs of one branch that have both been
  started and have not ended are the same run, and after any history they still are.
\<close>

theorem branch_exclusive:
  assumes "quiet_environment E" and "sound w" and "v = perform_all E cs w"
    and "run_at v i = Some r" and "run_at v j = Some s"
    and "engaged (r_status r)" and "engaged (r_status s)" and "r_branch r = r_branch s"
  shows "i = j"
proof -
  from perform_all_sound [OF assms(1,2)] have "owner_inv v" by (simp add: assms(3) sound_def)
  from owner_exclusive [OF this assms(4-8)] show ?thesis .
qed


text \<open>
  C8: the event log. Over any history a run's log only grows at its end, its events are numbered
  1, 2, ... up to the counter, and a reader's page after a cursor is exactly the next events of the
  log, so that following the cursor misses no event and repeats none.
\<close>

theorem event_log:
  assumes "quiet_environment E" and "sound w" and "v = perform_all E cs w" and "run_at w i = Some r"
  shows "\<exists>r' es. run_at v i = Some r' \<and> run_log v i = run_log w i @ es \<and>
    map e_seq (run_log v i) = [1..r_next_seq r' - 1] \<and>
    (\<forall>a l. 0 \<le> a \<longrightarrow> store_events i a l v = (Inr (take l (drop (nat a) (run_log v i))), v))"
proof -
  from perform_all_sound [OF assms(1,2)] have path: "run_path w v" and v: "log_inv v"
    by (simp_all add: assms(3) sound_def)
  from path_progress [OF path assms(4)] obtain r' where r': "run_at v i = Some r'" by blast
  from path_events [OF path] obtain es where "t_events v = t_events w @ es" by blast
  then have "run_log v i = run_log w i @ filter (\<lambda>e. e_run e = i) es" by (simp add: run_log_def)
  moreover have "map e_seq (run_log v i) = [1..r_next_seq r' - 1]"
    using v r' unfolding log_inv_def by (auto split: option.splits dest: spec [of _ i])
  ultimately show ?thesis using r' store_events_log [OF v r'] by blast
qed

section \<open>Concrete runs\<close>

definition sample_environment :: environment where
  "sample_environment =
     \<lparr>en_scheduler = sample_scheduler, en_gateway = sample_gateway,
      en_host = sample_host,
      en_stop = (\<lambda>_. ret ()), en_services = sample_services, en_fuel = 10\<rparr>"

lemma sample_quiet: "quiet_environment sample_environment"
  using sample_services_quiet
  by (auto simp: quiet_environment_def quiet_hooks_def quiet_gateway_def sample_environment_def sample_host_def
      sample_scheduler_def sample_gateway_def tri_def same_view_def)

lemma running_world_at: "run_at running_world i = (if i = ''run'' then Some sample_run else None)"
  by (simp add: run_at_def running_world_def sample_run_def fresh_store_def empty_world_def)

lemma running_world_sound: "sound running_world"
proof -
  have events: "t_events running_world = []"
    by (simp add: running_world_def fresh_store_def empty_world_def)
  have branch: "branch_at running_world ''branch'' = Some sample_branch"
    by (simp add: branch_at_def running_world_def sample_branch_def)
  have "owner_inv running_world"
    using branch by (simp add: owner_inv_def running_world_at sample_run_def sample_branch_def)
  moreover have "log_inv running_world"
    by (simp add: log_inv_def running_world_at run_log_def events sample_run_def)
  moreover have "distinct_runs running_world"
    by (simp add: distinct_runs_def running_world_def)
  ultimately show ?thesis by (simp add: sound_def)
qed

lemma always_sound_witness:
  "sound (perform_all sample_environment [Cancel ''owner'' ''run'' ''stop'', Recover] running_world)"
  using always_sound [OF sample_quiet running_world_sound refl] by blast

lemma run_lifecycle_witness:
  "\<exists>r. run_at (perform_all sample_environment [Cancel ''owner'' ''run'' ''stop'', Recover] running_world)
      ''run'' = Some r \<and> allowed\<^sup>*\<^sup>* running (r_status r) \<and> 1 \<le> r_fence r"
proof -
  have "run_at running_world ''run'' = Some sample_run" by (simp add: running_world_at)
  from run_lifecycle [OF sample_quiet running_world_sound this, of "[Cancel ''owner'' ''run'' ''stop'', Recover]"]
  show ?thesis by (auto simp: sample_run_def)
qed

lemma branch_exclusive_witness: "\<exists>i r. run_at running_world i = Some r \<and> engaged (r_status r) \<and> i = ''run''"
proof -
  have at: "run_at (perform_all sample_environment [] running_world) ''run'' = Some sample_run"
    by (simp add: perform_all_def running_world_at)
  have "engaged (r_status sample_run)" by (simp add: engaged_def sample_run_def)
  from branch_exclusive [OF sample_quiet running_world_sound refl at at this this refl] this
  show ?thesis using running_world_at by auto
qed


lemma event_log_witness:
  "\<exists>r. run_at (perform_all sample_environment [Cancel ''owner'' ''run'' ''stop''] running_world) ''run'' =
       Some r \<and>
     map e_seq (run_log (perform_all sample_environment [Cancel ''owner'' ''run'' ''stop''] running_world)
       ''run'') = [1..r_next_seq r - 1]"
proof -
  have "run_at running_world ''run'' = Some sample_run" by (simp add: running_world_at)
  from event_log [OF sample_quiet running_world_sound refl this, of "[Cancel ''owner'' ''run'' ''stop'']"]
  show ?thesis by blast
qed

end
